(* ===== verification/Prelude.thy ===== *)
theory Prelude
  imports Complex_Main
begin

text \<open>
  Vocabulary shared by every component of the bridge: Python strings as lists of code
  points, JSON documents, the exceptions the code raises, results of fallible calls, and
  tables of rows with SQL unique constraints, with the lemmas about them that the
  component theories use.
\<close>

section \<open>Collections of facts\<close>

named_theorems unfold_ops \<open>definitions of operations, unfolded to evaluate them\<close>
named_theorems table_simps \<open>rewriting of table operations\<close>

section \<open>Python strings\<close>

text \<open>
  A Python \<open>str\<close> is a sequence of Unicode code points. \<open>lit\<close> turns an ASCII literal of the
  source into one.
\<close>

type_synonym ustr = "nat list"

definition lit :: "string \<Rightarrow> ustr" where
  "lit s = map of_char s"

lemma lit_inject [simp]: "lit a = lit b \<longleftrightarrow> a = b"
  by (simp add: lit_def inj_map_eq_map inj_on_def)

lemma lit_Nil_iff [simp]: "lit a = [] \<longleftrightarrow> a = []" "[] = lit a \<longleftrightarrow> a = []"
  by (auto simp: lit_def)

lemma lit_Nil: "lit [] = []"
  by (simp add: lit_def)

text \<open>
  Truthiness of an optional string: \<open>None\<close> and the empty string are false. \<open>or_none s\<close> is
  the idiom \<open>s or None\<close>, and \<open>or_else a b\<close> is \<open>a or b\<close> for optional strings.
\<close>

fun truthy :: "'a list option \<Rightarrow> bool" where
  "truthy None = False"
| "truthy (Some s) = (s \<noteq> [])"

fun or_none :: "'a list option \<Rightarrow> 'a list option" where
  "or_none None = None"
| "or_none (Some s) = (if s = [] then None else Some s)"

definition or_else :: "'a list option \<Rightarrow> 'a list option \<Rightarrow> 'a list option" where
  "or_else a b = (if truthy a then a else b)"

lemma truthy_iff: "truthy x \<longleftrightarrow> (\<exists>s. x = Some s \<and> s \<noteq> [])"
  by (cases x) auto

lemma truthy_or_none [simp]: "truthy (or_none x) = truthy x"
  by (cases x) auto

lemma or_none_eq_None [simp]: "or_none x = None \<longleftrightarrow> \<not> truthy x"
  by (cases x) auto

lemma or_none_truthy: "truthy x \<Longrightarrow> or_none x = x"
  by (cases x) auto

section \<open>JSON documents\<close>

text \<open>
  What \<open>response.json()\<close> returns. An object keeps its members in order; a duplicate key is
  resolved as Python does, the last one wins, by \<open>jget\<close>. A float is given as the decimal
  numeral Python prints for it: \<open>Finite s c e\<close> is \<open>(-1) ^ s * c * 10 powi e\<close>, and \<open>json\<close> also
  reads infinities and NaN. The same type is the value of a \<open>decimal.Decimal\<close>.
\<close>

datatype decimal = Finite bool nat int | Infinite bool | NaN

datatype json =
    JNull
  | JBool bool
  | JInt int
  | JFloat decimal
  | JStr ustr
  | JArr "json list"
  | JObj "(ustr \<times> json) list"

fun jget :: "string \<Rightarrow> (ustr \<times> json) list \<Rightarrow> json" where
  "jget k ms = (case map_of (rev ms) (lit k) of None \<Rightarrow> JNull | Some v \<Rightarrow> v)"

fun jtruthy :: "json \<Rightarrow> bool" where
  "jtruthy JNull = False"
| "jtruthy (JBool b) = b"
| "jtruthy (JInt n) = (n \<noteq> 0)"
| "jtruthy (JFloat d) = (case d of Finite s c e \<Rightarrow> c \<noteq> 0 | _ \<Rightarrow> True)"
| "jtruthy (JStr s) = (s \<noteq> [])"
| "jtruthy (JArr xs) = (xs \<noteq> [])"
| "jtruthy (JObj ms) = (ms \<noteq> [])"

section \<open>Exceptions\<close>

text \<open>
  The exception classes of the program. \<open>ApiErr\<close> carries which of the three classes of
  \<open>app/http/client.py\<close> it is, the service, the HTTP status and the message; \<open>HttpException\<close> is
  the refusal of an endpoint of the admin API with its status and detail; the rest carry their
  message. \<open>OtherError\<close> is any exception the code does not distinguish.
\<close>

datatype api_kind = PlainApiError | RateLimitedError | AuthError

datatype exn =
    ApiErr api_kind ustr "nat option" ustr bool
  | PricingError ustr
  | StaleFxRate ustr
  | IntegrityError string
  | PyLookupError ustr
  | PyValueError ustr
  | PyRuntimeError ustr
  | InvalidOperation
  | IdempotencyConflict
  | OperationInProgress
  | SupplierUnavailable ustr
  | OutOfStock ustr
  | InsufficientBalance ustr
  | HttpException nat ustr
  | OtherError ustr

fun is_api_error :: "exn \<Rightarrow> bool" where
  "is_api_error (ApiErr k s c m r) = True"
| "is_api_error _ = False"

fun is_rate_limited :: "exn \<Rightarrow> bool" where
  "is_rate_limited (ApiErr k s c m r) = (k = RateLimitedError)"
| "is_rate_limited _ = False"

fun is_pricing_error :: "exn \<Rightarrow> bool" where
  "is_pricing_error (PricingError m) = True"
| "is_pricing_error (StaleFxRate m) = True"
| "is_pricing_error _ = False"

fun status_code :: "exn \<Rightarrow> nat option" where
  "status_code (ApiErr k s c m r) = c"
| "status_code _ = None"

lemma rate_limited_is_api_error: "is_rate_limited e \<Longrightarrow> is_api_error e"
  by (cases e) auto

lemma status_code_is_api_error: "status_code e = Some c \<Longrightarrow> is_api_error e"
  by (cases e) auto

text \<open>The class name and \<open>str(e)\<close> of an exception; texts of library exceptions are not modelled.\<close>

fun exn_class :: "exn \<Rightarrow> string" where
  "exn_class (ApiErr PlainApiError s c m r) = ''ApiError''"
| "exn_class (ApiErr RateLimitedError s c m r) = ''RateLimitedError''"
| "exn_class (ApiErr AuthError s c m r) = ''AuthError''"
| "exn_class (PricingError m) = ''PricingError''"
| "exn_class (StaleFxRate m) = ''StaleFxRate''"
| "exn_class (IntegrityError m) = ''IntegrityError''"
| "exn_class (PyLookupError m) = ''LookupError''"
| "exn_class (PyValueError m) = ''ValueError''"
| "exn_class (PyRuntimeError m) = ''RuntimeError''"
| "exn_class InvalidOperation = ''InvalidOperation''"
| "exn_class IdempotencyConflict = ''IdempotencyConflict''"
| "exn_class OperationInProgress = ''OperationInProgress''"
| "exn_class (SupplierUnavailable m) = ''SupplierUnavailable''"
| "exn_class (OutOfStock m) = ''OutOfStock''"
| "exn_class (InsufficientBalance m) = ''InsufficientBalance''"
| "exn_class (HttpException c m) = ''HTTPException''"
| "exn_class (OtherError m) = ''Exception''"

fun exn_str :: "exn \<Rightarrow> ustr" where
  "exn_str (ApiErr k s c m r) = m"
| "exn_str (PricingError m) = m"
| "exn_str (StaleFxRate m) = m"
| "exn_str (IntegrityError m) = lit m"
| "exn_str (PyLookupError m) = m"
| "exn_str (PyValueError m) = m"
| "exn_str (PyRuntimeError m) = m"
| "exn_str (SupplierUnavailable m) = m"
| "exn_str (OutOfStock m) = m"
| "exn_str (InsufficientBalance m) = m"
| "exn_str (OtherError m) = m"
| "exn_str _ = []"

type_synonym 'a result = "exn + 'a"

section \<open>Lists\<close>

lemma distinct_map_filter_conv:
  "distinct (map f (filter P xs)) \<Longrightarrow> x \<in> set xs \<Longrightarrow> y \<in> set xs \<Longrightarrow> P x \<Longrightarrow> P y
    \<Longrightarrow> f x = f y \<Longrightarrow> x = y"
  by (induction xs) (auto simp: image_iff split: if_splits)

lemma length_filter_mono:
  "(\<And>x. x \<in> set xs \<Longrightarrow> P x \<Longrightarrow> Q x) \<Longrightarrow> length (filter P xs) \<le> length (filter Q xs)"
  by (induction xs) (auto simp: le_SucI)

section \<open>Tables with unique constraints\<close>

text \<open>
  A table is a list of rows in primary-key order. A unique constraint is a key function;
  \<open>None\<close> stands for a key with a NULL column, which SQL never counts as a duplicate.
\<close>

definition keys_of :: "('r \<Rightarrow> 'k option) \<Rightarrow> 'r list \<Rightarrow> 'k list" where
  "keys_of key rows = map (\<lambda>r. the (key r)) (filter (\<lambda>r. key r \<noteq> None) rows)"

definition uniq :: "('r \<Rightarrow> 'k option) \<Rightarrow> 'r list \<Rightarrow> bool" where
  "uniq key rows \<longleftrightarrow> distinct (keys_of key rows)"

lemma keys_of_simps [simp, table_simps]:
  "keys_of key [] = []"
  "keys_of key (r # rs) = (case key r of None \<Rightarrow> keys_of key rs | Some k \<Rightarrow> k # keys_of key rs)"
  by (auto simp: keys_of_def split: option.split)

lemma set_keys_of: "set (keys_of key rows) = {k. \<exists>r \<in> set rows. key r = Some k}"
  by (induction rows) (auto split: option.splits)

lemma keys_of_append [simp]: "keys_of key (xs @ ys) = keys_of key xs @ keys_of key ys"
  by (simp add: keys_of_def)

lemma uniq_Nil [simp]: "uniq key []"
  by (simp add: uniq_def)

lemma uniq_Cons [simp]:
  "uniq key (r # rs) \<longleftrightarrow>
    (\<forall>k. key r = Some k \<longrightarrow> (\<forall>r' \<in> set rs. key r' \<noteq> Some k)) \<and> uniq key rs"
  by (auto simp: uniq_def set_keys_of split: option.split)

lemma uniq_append:
  "uniq key (xs @ ys) \<longleftrightarrow> uniq key xs \<and> uniq key ys
    \<and> (\<forall>x \<in> set xs. \<forall>y \<in> set ys. \<forall>k. key x = Some k \<longrightarrow> key y \<noteq> Some k)"
  by (induction xs) auto

lemma uniqD:
  "uniq key rows \<Longrightarrow> r \<in> set rows \<Longrightarrow> r' \<in> set rows \<Longrightarrow> key r = Some k \<Longrightarrow> key r' = Some k
    \<Longrightarrow> r = r'"
  by (induction rows) auto

text \<open>
  \<open>scalar_one_or_none\<close> of a query on a unique key, and the update of the row with a given
  primary key.
\<close>

definition find_row :: "('r \<Rightarrow> bool) \<Rightarrow> 'r list \<Rightarrow> 'r option" where
  "find_row P rows = find P rows"

definition put_row :: "('r \<Rightarrow> nat) \<Rightarrow> 'r \<Rightarrow> 'r list \<Rightarrow> 'r list" where
  "put_row pk r rows = map (\<lambda>x. if pk x = pk r then r else x) rows"

definition fresh_id :: "('r \<Rightarrow> nat) \<Rightarrow> 'r list \<Rightarrow> nat" where
  "fresh_id pk rows = Suc (fold max (map pk rows) 0)"

lemma find_row_Some:
  "find_row P rows = Some r \<Longrightarrow> r \<in> set rows \<and> P r"
  by (auto simp: find_row_def find_Some_iff)

lemma find_row_None: "find_row P rows = None \<longleftrightarrow> (\<forall>r \<in> set rows. \<not> P r)"
  by (auto simp: find_row_def find_None_iff)

lemma put_row_length [simp]: "length (put_row pk r rows) = length rows"
  by (simp add: put_row_def)

lemma put_row_pks [simp]: "map pk (put_row pk r rows) = map pk rows"
  by (auto simp: put_row_def)

lemma set_put_row:
  "distinct (map pk rows) \<Longrightarrow> r0 \<in> set rows \<Longrightarrow> pk r0 = pk r \<Longrightarrow>
    set (put_row pk r rows) = insert r (set rows - {r0})"
  by (induction rows) (auto simp: put_row_def image_iff)

lemma in_put_row:
  "x \<in> set (put_row pk r rows) \<Longrightarrow> x = r \<or> (x \<in> set rows \<and> pk x \<noteq> pk r)"
  by (auto simp: put_row_def split: if_splits)

lemma put_row_other:
  "x \<in> set rows \<Longrightarrow> pk x \<noteq> pk r \<Longrightarrow> x \<in> set (put_row pk r rows)"
  by (auto simp: put_row_def image_iff)

lemma put_row_hit:
  "\<exists>x \<in> set rows. pk x = pk r \<Longrightarrow> r \<in> set (put_row pk r rows)"
  by (auto simp: put_row_def image_iff)

lemma find_put_row:
  "find_row (\<lambda>x. pk x = j) (put_row pk r rows)
    = (case find_row (\<lambda>x. pk x = j) rows of None \<Rightarrow> None | Some x \<Rightarrow> Some (if pk r = j then r else x))"
  by (induction rows) (auto simp: find_row_def put_row_def)

lemma fold_max_start: "a \<le> fold max xs (a::nat)"
  by (induction xs arbitrary: a) (auto intro: order_trans[OF max.cobounded2])

lemma fold_max_ge: "x \<in> set xs \<Longrightarrow> x \<le> fold max xs (a::nat)"
  by (induction xs arbitrary: a) (auto intro: order_trans[OF max.cobounded1 fold_max_start])

lemma fresh_id_fresh: "r \<in> set rows \<Longrightarrow> pk r \<noteq> fresh_id pk rows"
  using fold_max_ge[of "pk r" "map pk rows" 0] by (auto simp: fresh_id_def)

lemma uniq_put_row:
  assumes "uniq key rows" "distinct (map pk rows)"
    and "\<And>x k. x \<in> set rows \<Longrightarrow> pk x \<noteq> pk r \<Longrightarrow> key r = Some k \<Longrightarrow> key x \<noteq> Some k"
  shows "uniq key (put_row pk r rows)"
  using assms
proof (induction rows)
  case (Cons y ys)
  have IH: "uniq key (put_row pk r ys)" using Cons by simp
  show ?case
  proof (cases "pk y = pk r")
    case True
    with Cons.prems have "put_row pk r ys = ys"
      by (auto simp: put_row_def image_iff intro!: map_idI)
    with True Cons.prems show ?thesis by (auto simp: put_row_def image_iff)
  next
    case False
    then have "put_row pk r (y # ys) = y # put_row pk r ys" by (simp add: put_row_def)
    moreover have "\<forall>x \<in> set (put_row pk r ys). key x \<noteq> Some k" if k: "key y = Some k" for k
    proof
      fix x
      assume "x \<in> set (put_row pk r ys)"
      from in_put_row[OF this] Cons.prems(1) Cons.prems(3)[of y k] False k
      show "key x \<noteq> Some k" by auto
    qed
    ultimately show ?thesis using IH by simp
  qed
qed (simp add: put_row_def)

end
