(* ===== verification/Schema.thy ===== *)
theory Schema
  imports Prelude
begin

text \<open>
  The database of \<open>app/models.py\<close>: the enumerations, one record per table, the unique and
  check constraints, and the database as a record of tables. Timestamps are microseconds
  since the epoch; \<open>Numeric\<close> and \<open>Float\<close> columns are rationals. Columns that are only ever
  written by the server (\<open>created_at\<close>, \<open>updated_at\<close>, \<open>first_seen_at\<close>) are left out, as no code
  reads them. \<open>flush\<close> and \<open>session_scope\<close> are the transaction boundary of \<open>app/db.py\<close>.
\<close>

type_synonym timestamp = int

section \<open>Enumerations\<close>

datatype product_kind = GAME_KEY | GIFT_CARD

datatype mapping_status = PENDING | APPROVED | AUTO | REJECTED | UNMATCHED

datatype offer_state = OfferPending | LIVE | OUT_OF_STOCK | ARCHIVED | FAILED

datatype order_state =
    RECEIVED | RESERVED | PURCHASING | PURCHASED | DELIVERED
  | OrderFailed | CANCELLED | REFUNDED

datatype run_state = RUNNING | SUCCESS | PARTIAL | RunFailed

text \<open>The values the enumerations are stored and compared as.\<close>

fun product_kind_value :: "product_kind \<Rightarrow> string" where
  "product_kind_value GAME_KEY = ''game_key''"
| "product_kind_value GIFT_CARD = ''gift_card''"

fun mapping_status_value :: "mapping_status \<Rightarrow> string" where
  "mapping_status_value PENDING = ''pending''"
| "mapping_status_value APPROVED = ''approved''"
| "mapping_status_value AUTO = ''auto''"
| "mapping_status_value REJECTED = ''rejected''"
| "mapping_status_value UNMATCHED = ''unmatched''"

fun offer_state_value :: "offer_state \<Rightarrow> string" where
  "offer_state_value OfferPending = ''pending''"
| "offer_state_value LIVE = ''live''"
| "offer_state_value OUT_OF_STOCK = ''out_of_stock''"
| "offer_state_value ARCHIVED = ''archived''"
| "offer_state_value FAILED = ''failed''"

lemma mapping_status_value_inject [simp]:
  "mapping_status_value a = mapping_status_value b \<longleftrightarrow> a = b"
  by (cases a; cases b) auto

lemma offer_state_value_inject [simp]: "offer_state_value a = offer_state_value b \<longleftrightarrow> a = b"
  by (cases a; cases b) auto

section \<open>Tables\<close>

record supplier =
  sup_id :: nat
  sup_code :: ustr
  sup_name :: ustr
  sup_enabled :: bool
  sup_settings :: json

record supplier_product =
  sp_id :: nat
  sp_supplier_id :: nat
  sp_kind :: product_kind
  sp_category_ext_id :: ustr
  sp_offer_ext_id :: ustr
  sp_category_name :: "ustr option"
  sp_name :: ustr
  sp_name_normalized :: ustr
  sp_region :: "ustr option"
  sp_platform :: "ustr option"
  sp_region_restricted :: bool
  sp_price_supplier :: rat
  sp_supplier_currency :: ustr
  sp_stock :: int
  sp_min_order_quantity :: int
  sp_max_order_quantity :: int
  sp_content_hash :: ustr
  sp_raw :: json
  sp_is_active :: bool
  sp_missing_runs :: int
  sp_last_seen_at :: timestamp

record store_product =
  st_id :: nat
  st_store_code :: ustr
  st_product_ext_id :: ustr
  st_name :: ustr
  st_name_normalized :: ustr
  st_match_key :: ustr
  st_slug :: "ustr option"
  st_product_type :: "ustr option"
  st_region :: "ustr option"
  st_platform :: "ustr option"
  st_qty :: int
  st_min_price :: "rat option"
  st_retail_min_price :: "rat option"
  st_available_to_buy :: bool
  st_price_limit_min :: "rat option"
  st_price_limit_max :: "rat option"
  st_remote_updated_at :: "timestamp option"
  st_raw :: json
  st_synced_at :: timestamp

text \<open>A runner-up kept with a mapping: \<open>Candidate.as_json\<close> of \<open>app/services/matching.py\<close>.\<close>

record candidate_json =
  cj_store_product_id :: nat
  cj_product_ext_id :: ustr
  cj_name :: ustr
  cj_score :: rat
  cj_reasons :: "ustr list"

record product_mapping =
  pm_id :: nat
  pm_supplier_product_id :: nat
  pm_store_code :: ustr
  pm_store_product_id :: "nat option"
  pm_status :: mapping_status
  pm_score :: "rat option"
  pm_method :: "ustr option"
  pm_candidates :: "candidate_json list"
  pm_markup_percent_override :: "rat option"
  pm_fixed_price_override :: "rat option"
  pm_sync_enabled :: bool
  pm_reviewed_by :: "ustr option"
  pm_reviewed_at :: "timestamp option"
  pm_note :: "ustr option"

record store_offer =
  so_id :: nat
  so_mapping_id :: nat
  so_store_code :: ustr
  so_offer_ext_id :: "ustr option"
  so_product_ext_id :: ustr
  so_state :: offer_state
  so_active :: bool
  so_pushed_price :: "rat option"
  so_pushed_inventory :: "int option"
  so_pushed_active :: "bool option"
  so_last_pushed_at :: "timestamp option"
  so_pending_job_id :: "ustr option"
  so_last_error :: "ustr option"
  so_consecutive_failures :: int

record price_change_log =
  pc_store_code :: ustr
  pc_product_ext_id :: ustr
  pc_offer_ext_id :: "ustr option"
  pc_old_price :: "rat option"
  pc_new_price :: rat
  pc_changed_at :: timestamp

record store_order =
  ord_id :: nat
  ord_store_code :: ustr
  ord_order_ext_id :: ustr
  ord_reservation_ext_id :: "ustr option"
  ord_state :: order_state
  ord_source :: ustr
  ord_raw :: json
  ord_delivered_at :: "timestamp option"
  ord_last_error :: "ustr option"
  ord_attempts :: int

record order_item =
  oi_id :: nat
  oi_order_id :: nat
  oi_line_ref :: ustr
  oi_mapping_id :: "nat option"
  oi_product_ext_id :: "ustr option"
  oi_quantity :: int
  oi_state :: order_state
  oi_purchase_idempotency_key :: "ustr option"
  oi_supplier_order_ext_id :: "ustr option"
  oi_supplier_cost :: "rat option"
  oi_keys_count :: int
  oi_delivered_at :: "timestamp option"
  oi_last_error :: "ustr option"

record delivered_key =
  dk_id :: nat
  dk_order_item_id :: nat
  dk_code_encrypted :: ustr
  dk_fingerprint :: ustr
  dk_kind :: ustr
  dk_delivered_to_store :: bool

datatype idem_state = STATE_IN_PROGRESS | STATE_COMPLETED | STATE_FAILED

record idempotency_record =
  ir_id :: nat
  ir_scope :: ustr
  ir_key :: ustr
  ir_request_hash :: ustr
  ir_state :: idem_state
  ir_response :: "json option"
  ir_completed_at :: "timestamp option"

record sync_run =
  run_id :: nat
  run_kind :: ustr
  run_state :: run_state
  run_stats :: "(string \<times> int) list"
  run_error :: "ustr option"
  run_started_at :: timestamp
  run_finished_at :: "timestamp option"

record api_call =
  ac_service :: ustr
  ac_method :: ustr
  ac_url :: ustr
  ac_attempt :: nat
  ac_status_code :: "nat option"
  ac_duration_ms :: "int option"
  ac_request_body :: "ustr option"
  ac_response_body :: "ustr option"
  ac_error :: "ustr option"
  ac_correlation_id :: "ustr option"

record fx_rate =
  fx_base :: ustr
  fx_quote :: ustr
  fx_value :: rat
  fx_source :: ustr
  fx_fetched_at :: timestamp

record database =
  suppliers :: "supplier list"
  supplier_products :: "supplier_product list"
  store_products :: "store_product list"
  product_mappings :: "product_mapping list"
  store_offers :: "store_offer list"
  price_changes :: "price_change_log list"
  store_orders :: "store_order list"
  order_items :: "order_item list"
  delivered_keys :: "delivered_key list"
  idempotency_keys :: "idempotency_record list"
  sync_runs :: "sync_run list"
  api_calls :: "api_call list"
  fx_rates :: "fx_rate list"

definition empty_database :: database where
  "empty_database =
     \<lparr>suppliers = [], supplier_products = [], store_products = [], product_mappings = [],
      store_offers = [], price_changes = [], store_orders = [], order_items = [],
      delivered_keys = [], idempotency_keys = [], sync_runs = [], api_calls = [], fx_rates = []\<rparr>"

section \<open>Constraints\<close>

text \<open>The unique keys of the tables, named as the constraints of the schema.\<close>

definition uq_supplier_code :: "supplier \<Rightarrow> ustr option" where
  "uq_supplier_code s = Some (sup_code s)"

definition uq_supplier_product_identity ::
  "supplier_product \<Rightarrow> (nat \<times> product_kind \<times> ustr \<times> ustr) option" where
  "uq_supplier_product_identity p =
     Some (sp_supplier_id p, sp_kind p, sp_category_ext_id p, sp_offer_ext_id p)"

definition ck_supplier_product_stock_non_negative :: "supplier_product \<Rightarrow> bool" where
  "ck_supplier_product_stock_non_negative p \<longleftrightarrow> 0 \<le> sp_stock p"

definition uq_store_product_identity :: "store_product \<Rightarrow> (ustr \<times> ustr) option" where
  "uq_store_product_identity p = Some (st_store_code p, st_product_ext_id p)"

definition uq_mapping_supplier_product :: "product_mapping \<Rightarrow> nat option" where
  "uq_mapping_supplier_product m = Some (pm_supplier_product_id m)"

definition uq_mapping_store_product :: "product_mapping \<Rightarrow> (ustr \<times> nat) option" where
  "uq_mapping_store_product m = map_option (\<lambda>i. (pm_store_code m, i)) (pm_store_product_id m)"

definition uq_offer_mapping :: "store_offer \<Rightarrow> nat option" where
  "uq_offer_mapping r = Some (so_mapping_id r)"

definition uq_offer_ext_id :: "store_offer \<Rightarrow> (ustr \<times> ustr) option" where
  "uq_offer_ext_id r = map_option (\<lambda>i. (so_store_code r, i)) (so_offer_ext_id r)"

definition uq_store_order_identity :: "store_order \<Rightarrow> (ustr \<times> ustr) option" where
  "uq_store_order_identity r = Some (ord_store_code r, ord_order_ext_id r)"

definition uq_order_item_line :: "order_item \<Rightarrow> (nat \<times> ustr) option" where
  "uq_order_item_line i = Some (oi_order_id i, oi_line_ref i)"

definition uq_delivered_key_fingerprint :: "delivered_key \<Rightarrow> ustr option" where
  "uq_delivered_key_fingerprint k = Some (dk_fingerprint k)"

definition uq_idempotency_scope_key :: "idempotency_record \<Rightarrow> (ustr \<times> ustr) option" where
  "uq_idempotency_scope_key r = Some (ir_scope r, ir_key r)"

lemmas constraint_defs =
  uq_supplier_code_def uq_supplier_product_identity_def
  ck_supplier_product_stock_non_negative_def uq_store_product_identity_def
  uq_mapping_supplier_product_def uq_mapping_store_product_def uq_offer_mapping_def
  uq_offer_ext_id_def uq_store_order_identity_def uq_order_item_line_def
  uq_delivered_key_fingerprint_def uq_idempotency_scope_key_def

text \<open>The constraints of one table, checked when its rows are flushed.\<close>

definition supplier_products_ok :: "supplier_product list \<Rightarrow> bool" where
  "supplier_products_ok ps \<longleftrightarrow>
     distinct (map sp_id ps) \<and> uniq uq_supplier_product_identity ps
     \<and> list_all ck_supplier_product_stock_non_negative ps"

definition store_products_ok :: "store_product list \<Rightarrow> bool" where
  "store_products_ok ps \<longleftrightarrow> distinct (map st_id ps) \<and> uniq uq_store_product_identity ps"

definition mappings_ok :: "product_mapping list \<Rightarrow> bool" where
  "mappings_ok ms \<longleftrightarrow>
     distinct (map pm_id ms) \<and> uniq uq_mapping_supplier_product ms
     \<and> uniq uq_mapping_store_product ms"

definition offers_ok :: "store_offer list \<Rightarrow> bool" where
  "offers_ok os \<longleftrightarrow>
     distinct (map so_id os) \<and> uniq uq_offer_mapping os \<and> uniq uq_offer_ext_id os"

definition idempotency_ok :: "idempotency_record list \<Rightarrow> bool" where
  "idempotency_ok rs \<longleftrightarrow> distinct (map ir_id rs) \<and> uniq uq_idempotency_scope_key rs"

definition database_ok :: "database \<Rightarrow> bool" where
  "database_ok d \<longleftrightarrow>
     distinct (map sup_id (suppliers d)) \<and> uniq uq_supplier_code (suppliers d)
     \<and> supplier_products_ok (supplier_products d) \<and> store_products_ok (store_products d)
     \<and> mappings_ok (product_mappings d) \<and> offers_ok (store_offers d)
     \<and> distinct (map ord_id (store_orders d)) \<and> uniq uq_store_order_identity (store_orders d)
     \<and> distinct (map oi_id (order_items d)) \<and> uniq uq_order_item_line (order_items d)
     \<and> distinct (map dk_id (delivered_keys d))
     \<and> uniq uq_delivered_key_fingerprint (delivered_keys d)
     \<and> idempotency_ok (idempotency_keys d) \<and> distinct (map run_id (sync_runs d))"

lemma empty_database_ok: "database_ok empty_database"
  by (simp add: database_ok_def empty_database_def supplier_products_ok_def store_products_ok_def
      mappings_ok_def offers_ok_def idempotency_ok_def)

section \<open>Transactions\<close>

text \<open>
  \<open>flush\<close> sends the pending rows to the database, which refuses a violated constraint. A
  unit of work runs against the world (the remote services, which no rollback reaches) and
  the session's view of the database; \<open>session_scope\<close> commits on success and rolls back on
  any exception.
\<close>

definition flush :: "database \<Rightarrow> database result" where
  "flush d = (if database_ok d then Inr d else Inl (IntegrityError ''constraint''))"

type_synonym ('w, 'a) work = "'w \<Rightarrow> database \<Rightarrow> 'a result \<times> 'w \<times> database"

definition session_scope :: "('w, 'a) work \<Rightarrow> ('w, 'a) work" where
  "session_scope body w d =
     (case body w d of
        (Inr x, w', d') \<Rightarrow>
          (case flush d' of
             Inr d'' \<Rightarrow> (Inr x, w', d'')
           | Inl e \<Rightarrow> (Inl e, w', d))
      | (Inl e, w', d') \<Rightarrow> (Inl e, w', d))"

lemma flush_Inr [simp]: "flush d = Inr d' \<longleftrightarrow> d' = d \<and> database_ok d"
  by (auto simp: flush_def)

lemma session_scope_error:
  "session_scope body w d = (Inl e, w', d') \<Longrightarrow> d' = d"
  by (auto simp: session_scope_def split: prod.splits sum.splits)

lemma session_scope_success:
  "session_scope body w d = (Inr x, w', d') \<Longrightarrow>
    body w d = (Inr x, w', d') \<and> database_ok d'"
  by (auto simp: session_scope_def flush_def split: prod.splits sum.splits if_splits)

lemma session_scope_keeps_constraints:
  "database_ok d \<Longrightarrow> session_scope body w d = (r, w', d') \<Longrightarrow> database_ok d'"
  by (cases r) (auto dest: session_scope_error session_scope_success)

end
