(* ===== verification/Work.thy ===== *)
theory Work
  imports Schema
begin

text \<open>
  Units of work: programs that read and change the session's view of the database, call
  remote services (the world) and may raise. The combinators are the statements of the
  code, sequencing, \<open>raise\<close>, \<open>try\<close>/\<open>except\<close>, reads, attribute assignments, \<open>session.flush()\<close>
  and loops. A weakest-precondition reading of them (\<open>wp\<close>) and a rule set for relations that
  every step keeps (\<open>steps\<close>) carry the proofs about the services.
\<close>

section \<open>Clocks and the network\<close>

text \<open>
  \<open>http_get\<close> stands for \<open>httpx\<close>: the decoded body of a successful response or the exception
  of the call. \<open>utcnow\<close> is \<open>datetime.now(timezone.utc)\<close> and \<open>txn_now\<close> the database server's
  \<open>now()\<close>, the default of timestamp columns.
\<close>

record 'w runtime =
  http_get :: "ustr \<Rightarrow> 'w \<Rightarrow> json result \<times> 'w"
  utcnow :: "'w \<Rightarrow> timestamp"
  txn_now :: "'w \<Rightarrow> timestamp"

section \<open>Statements\<close>

definition wret :: "'a \<Rightarrow> ('w, 'a) work" where
  "wret x w d = (Inr x, w, d)"

definition wraise :: "exn \<Rightarrow> ('w, 'a) work" where
  "wraise e w d = (Inl e, w, d)"

definition wbind :: "('w, 'a) work \<Rightarrow> ('a \<Rightarrow> ('w, 'b) work) \<Rightarrow> ('w, 'b) work" where
  "wbind m f w d =
     (case m w d of
        (Inl e, w', d') \<Rightarrow> (Inl e, w', d')
      | (Inr x, w', d') \<Rightarrow> f x w' d')"

definition wthen :: "('w, 'a) work \<Rightarrow> ('w, 'b) work \<Rightarrow> ('w, 'b) work" where
  "wthen m n = wbind m (\<lambda>_. n)"

text \<open>\<open>try: m  except E as e: h e\<close>: \<open>catches e\<close> tells whether the clause matches.\<close>

definition wtry :: "('w, 'a) work \<Rightarrow> (exn \<Rightarrow> bool) \<Rightarrow> (exn \<Rightarrow> ('w, 'a) work) \<Rightarrow> ('w, 'a) work" where
  "wtry m catches h w d =
     (case m w d of
        (Inl e, w', d') \<Rightarrow> if catches e then h e w' d' else (Inl e, w', d')
      | r \<Rightarrow> r)"

definition wread :: "(database \<Rightarrow> 'a) \<Rightarrow> ('w, 'a) work" where
  "wread f w d = (Inr (f d), w, d)"

definition wmodify :: "(database \<Rightarrow> database) \<Rightarrow> ('w, unit) work" where
  "wmodify f w d = (Inr (), w, f d)"

definition wlift :: "'a result \<Rightarrow> ('w, 'a) work" where
  "wlift r w d = (r, w, d)"

text \<open>\<open>session.flush()\<close>, and the flush the ORM does before a query.\<close>

definition wflush :: "('w, unit) work" where
  "wflush w d = (case flush d of Inl e \<Rightarrow> (Inl e, w, d) | Inr d' \<Rightarrow> (Inr (), w, d'))"

text \<open>A call to a service outside the database, and a clock reading.\<close>

definition wcall :: "('w \<Rightarrow> 'a result \<times> 'w) \<Rightarrow> ('w, 'a) work" where
  "wcall f w d = (let (r, w') = f w in (r, w', d))"

definition wtime :: "('w \<Rightarrow> timestamp) \<Rightarrow> ('w, timestamp) work" where
  "wtime clk w d = (Inr (clk w), w, d)"

text \<open>A \<open>for\<close> loop with an accumulator; \<open>wmapM\<close> a comprehension.\<close>

fun wfold :: "('a \<Rightarrow> 's \<Rightarrow> ('w, 's) work) \<Rightarrow> 'a list \<Rightarrow> 's \<Rightarrow> ('w, 's) work" where
  "wfold f [] s = wret s"
| "wfold f (x # xs) s = wbind (f x s) (wfold f xs)"

section \<open>Weakest preconditions\<close>

named_theorems wp_simps \<open>what a statement establishes\<close>

definition wp :: "('w, 'a) work \<Rightarrow> ('a result \<Rightarrow> 'w \<Rightarrow> database \<Rightarrow> bool) \<Rightarrow> 'w \<Rightarrow> database \<Rightarrow> bool" where
  "wp m Q w d = (case m w d of (x, w', d') \<Rightarrow> Q x w' d')"

lemma wpD: "wp m Q w d \<Longrightarrow> m w d = (x, w', d') \<Longrightarrow> Q x w' d'"
  by (simp add: wp_def)

lemma wpI: "(\<And>x w' d'. m w d = (x, w', d') \<Longrightarrow> Q x w' d') \<Longrightarrow> wp m Q w d"
  by (auto simp: wp_def split: prod.split)

lemma wp_mono: "wp m Q w d \<Longrightarrow> (\<And>x w' d'. Q x w' d' \<Longrightarrow> Q' x w' d') \<Longrightarrow> wp m Q' w d"
  by (auto simp: wp_def split: prod.splits)

lemma wp_at: "m w d = m' w d \<Longrightarrow> wp m' Q w d \<Longrightarrow> wp m Q w d"
  by (simp add: wp_def)

lemma wp_ret [wp_simps]: "wp (wret x) Q w d = Q (Inr x) w d"
  by (simp add: wp_def wret_def)

lemma wp_raise [wp_simps]: "wp (wraise e) Q w d = Q (Inl e) w d"
  by (simp add: wp_def wraise_def)

lemma wp_bind [wp_simps]:
  "wp (wbind m f) Q w d =
     wp m (\<lambda>r w d. case r of Inl e \<Rightarrow> Q (Inl e) w d | Inr x \<Rightarrow> wp (f x) Q w d) w d"
  by (auto simp: wp_def wbind_def split: prod.splits sum.splits)

lemma wp_then [wp_simps]:
  "wp (wthen m n) Q w d =
     wp m (\<lambda>r w d. case r of Inl e \<Rightarrow> Q (Inl e) w d | Inr x \<Rightarrow> wp n Q w d) w d"
  by (simp add: wthen_def wp_bind)

lemma wp_try [wp_simps]:
  "wp (wtry m c h) Q w d =
     wp m (\<lambda>r w d. case r of
              Inl e \<Rightarrow> if c e then wp (h e) Q w d else Q (Inl e) w d
            | Inr x \<Rightarrow> Q (Inr x) w d) w d"
  by (auto simp: wp_def wtry_def split: prod.splits sum.splits)

lemma wp_read [wp_simps]: "wp (wread f) Q w d = Q (Inr (f d)) w d"
  by (simp add: wp_def wread_def)

lemma wp_modify [wp_simps]: "wp (wmodify f) Q w d = Q (Inr ()) w (f d)"
  by (simp add: wp_def wmodify_def)

lemma wp_lift [wp_simps]: "wp (wlift r) Q w d = Q r w d"
  by (simp add: wp_def wlift_def)

lemma wp_flush [wp_simps]:
  "wp wflush Q w d =
     (if database_ok d then Q (Inr ()) w d else Q (Inl (IntegrityError ''constraint'')) w d)"
  by (simp add: wp_def wflush_def flush_def)

lemma wp_call [wp_simps]: "wp (wcall f) Q w d = (case f w of (r, w') \<Rightarrow> Q r w' d)"
  by (simp add: wp_def wcall_def split: prod.split)

lemma wp_time [wp_simps]: "wp (wtime c) Q w d = Q (Inr (c w)) w d"
  by (simp add: wp_def wtime_def)

lemma wp_if [wp_simps]: "wp (if b then m else n) Q w d = (if b then wp m Q w d else wp n Q w d)"
  by simp

lemma wp_ifI: "(b \<Longrightarrow> wp m Q w d) \<Longrightarrow> (\<not> b \<Longrightarrow> wp n Q w d) \<Longrightarrow> wp (if b then m else n) Q w d"
  by simp

lemma wp_option [wp_simps]:
  "wp (case v of None \<Rightarrow> m | Some x \<Rightarrow> f x) Q w d =
     (case v of None \<Rightarrow> wp m Q w d | Some x \<Rightarrow> wp (f x) Q w d)"
  by (cases v) auto

lemma wp_fold_invariant:
  assumes "\<And>x s w d. x \<in> set xs \<Longrightarrow> I s w d \<Longrightarrow>
      wp (f x s) (\<lambda>r w d. case r of Inl e \<Rightarrow> E e w d | Inr s' \<Rightarrow> I s' w d) w d"
  shows "I s w d \<Longrightarrow> wp (wfold f xs s) (\<lambda>r w d. case r of Inl e \<Rightarrow> E e w d | Inr s' \<Rightarrow> I s' w d) w d"
  using assms
proof (induction xs arbitrary: s w d)
  case (Cons x xs)
  from Cons.prems(2)[of x s w d] Cons.prems(1)
  have "wp (f x s) (\<lambda>r w d. case r of Inl e \<Rightarrow> E e w d | Inr s' \<Rightarrow> I s' w d) w d" by simp
  moreover have "case r of Inl e \<Rightarrow> E e w d
      | Inr s' \<Rightarrow> wp (wfold f xs s') (\<lambda>r w d. case r of Inl e \<Rightarrow> E e w d | Inr s' \<Rightarrow> I s' w d) w d"
    if "case r of Inl e \<Rightarrow> E e w d | Inr s' \<Rightarrow> I s' w d" for r w d
    using that Cons.IH[OF _ Cons.prems(2)] by (cases r) auto
  ultimately show ?case unfolding wfold.simps wp_bind sum.case by (rule wp_mono)
qed (simp add: wp_ret)

section \<open>Relations kept by every step\<close>

named_theorems step_intros \<open>statements that keep a relation\<close>

definition steps :: "(database \<Rightarrow> database \<Rightarrow> bool) \<Rightarrow> ('w, 'a) work \<Rightarrow> bool" where
  "steps R m \<longleftrightarrow> (\<forall>w d. R d (snd (snd (m w d))))"

definition preorder_on_db :: "(database \<Rightarrow> database \<Rightarrow> bool) \<Rightarrow> bool" where
  "preorder_on_db R \<longleftrightarrow> reflp R \<and> transp R"

lemma stepsD: "steps R m \<Longrightarrow> m w d = (x, w', d') \<Longrightarrow> R d d'"
  unfolding steps_def by (metis snd_conv)

lemma stepsI: "(\<And>w d x w' d'. m w d = (x, w', d') \<Longrightarrow> R d d') \<Longrightarrow> steps R m"
  by (metis steps_def prod.collapse)

lemma steps_pure [step_intros]:
  assumes "preorder_on_db R"
  shows "steps R (wret x)" "steps R (wraise e)" "steps R (wread f)" "steps R (wlift r)"
    "steps R wflush" "steps R (wcall g)" "steps R (wtime c)"
  using assms
  by (auto simp: preorder_on_db_def steps_def wret_def wraise_def wread_def wlift_def wflush_def
      wcall_def wtime_def flush_def reflp_def split: prod.split)

lemma steps_modify [step_intros]: "(\<And>d. R d (f d)) \<Longrightarrow> steps R (wmodify f)"
  by (simp add: steps_def wmodify_def)

lemma steps_bind [step_intros]:
  assumes "preorder_on_db R" "steps R m" "\<And>x. steps R (f x)"
  shows "steps R (wbind m f)"
proof (rule stepsI)
  fix w d x w' d'
  assume a: "wbind m f w d = (x, w', d')"
  obtain y w1 d1 where m: "m w d = (y, w1, d1)" by (metis prod.collapse)
  with assms(2) have 1: "R d d1" by (rule stepsD)
  show "R d d'"
  proof (cases y)
    case (Inl e)
    with a m 1 show ?thesis by (simp add: wbind_def)
  next
    case (Inr v)
    with a m have "f v w1 d1 = (x, w', d')" by (simp add: wbind_def)
    with assms(3) have "R d1 d'" by (rule stepsD)
    with 1 assms(1) show ?thesis unfolding preorder_on_db_def by (metis transpD)
  qed
qed

lemma steps_then [step_intros]:
  "preorder_on_db R \<Longrightarrow> steps R m \<Longrightarrow> steps R n \<Longrightarrow> steps R (wthen m n)"
  unfolding wthen_def by (rule steps_bind)

lemma steps_try [step_intros]:
  assumes "preorder_on_db R" "steps R m" "\<And>e. steps R (h e)"
  shows "steps R (wtry m c h)"
proof (rule stepsI)
  fix w d x w' d'
  assume a: "wtry m c h w d = (x, w', d')"
  obtain y w1 d1 where m: "m w d = (y, w1, d1)" by (metis prod.collapse)
  with assms(2) have 1: "R d d1" by (rule stepsD)
  show "R d d'"
  proof (cases "\<exists>e. y = Inl e \<and> c e")
    case True
    then obtain e where "y = Inl e" "c e" by blast
    with a m have "h e w1 d1 = (x, w', d')" by (simp add: wtry_def)
    with assms(3) have "R d1 d'" by (rule stepsD)
    with 1 assms(1) show ?thesis unfolding preorder_on_db_def by (metis transpD)
  next
    case False
    with a m 1 show ?thesis by (auto simp: wtry_def split: sum.splits)
  qed
qed

lemma steps_if [step_intros]:
  "(b \<Longrightarrow> steps R m) \<Longrightarrow> (\<not> b \<Longrightarrow> steps R n) \<Longrightarrow> steps R (if b then m else n)"
  by simp

lemma steps_option [step_intros]:
  "(v = None \<Longrightarrow> steps R m) \<Longrightarrow> (\<And>x. v = Some x \<Longrightarrow> steps R (f x))
    \<Longrightarrow> steps R (case v of None \<Rightarrow> m | Some x \<Rightarrow> f x)"
  by (cases v) auto

lemma steps_fold [step_intros]:
  assumes "preorder_on_db R" "\<And>x s. x \<in> set xs \<Longrightarrow> steps R (f x s)"
  shows "steps R (wfold f xs s)"
  using assms(2)
proof (induction xs arbitrary: s)
  case (Cons x xs)
  have "steps R (wfold f xs s')" for s' using Cons by simp
  with Cons.prems[of x s] assms(1) show ?case by (simp add: steps_bind)
qed (use assms(1) in \<open>auto intro: steps_pure\<close>)

lemma preorder_keeps [intro]: "preorder_on_db (\<lambda>d d'. P d \<longrightarrow> P d')"
  by (auto simp: preorder_on_db_def reflp_def transp_def)

lemma preorder_field [intro]: "preorder_on_db (\<lambda>d d'. f d' = f d)"
  by (auto simp: preorder_on_db_def reflp_def transp_def)

lemma preorder_subset [intro]: "preorder_on_db (\<lambda>d d'. f d \<subseteq> f d')"
  by (auto simp: preorder_on_db_def reflp_def transp_def)

lemma preorder_conj [intro]:
  "preorder_on_db R \<Longrightarrow> preorder_on_db S \<Longrightarrow> preorder_on_db (\<lambda>d d'. R d d' \<and> S d d')"
  by (auto simp: preorder_on_db_def reflp_def transp_def)

end
