(* ===== verification/Idempotency.thy ===== *)
theory Idempotency
  imports Work
begin

text \<open>
  The exactly-once guard of \<open>app/services/idempotency.py\<close>: \<open>run_once\<close> for one caller, over the
  committed database, and the same protocol as a step relation for any number of callers whose
  transactions interleave and who may crash between them. The lemmas show what a replay
  answers, that the claim is in place before the side effect, that without recorded failures the
  side effect happens at most once, and that two callers retrying one recorded failure can
  both run it.
\<close>

section \<open>Claiming a key\<close>

definition find_claim :: "ustr \<Rightarrow> ustr \<Rightarrow> database \<Rightarrow> idempotency_record option" where
  "find_claim scope key d =
     find_row (\<lambda>r. ir_scope r = scope \<and> ir_key r = key) (idempotency_keys d)"

text \<open>
  \<open>claim\<close> inserts the record and commits; \<open>None\<close> is the unique constraint refusing it.
\<close>

definition new_claim :: "nat \<Rightarrow> ustr \<Rightarrow> ustr \<Rightarrow> ustr \<Rightarrow> idempotency_record" where
  "new_claim i scope key digest =
     \<lparr>ir_id = i, ir_scope = scope, ir_key = key, ir_request_hash = digest,
      ir_state = STATE_IN_PROGRESS, ir_response = None, ir_completed_at = None\<rparr>"

definition claim :: "ustr \<Rightarrow> ustr \<Rightarrow> ustr \<Rightarrow> database \<Rightarrow> database option" where
  "claim scope key digest d =
     (let d' = d\<lparr>idempotency_keys := idempotency_keys d @
                   [new_claim (fresh_id ir_id (idempotency_keys d)) scope key digest]\<rparr>
      in if database_ok d' then Some d' else None)"

definition set_claim ::
  "ustr \<Rightarrow> ustr \<Rightarrow> (idempotency_record \<Rightarrow> idempotency_record) \<Rightarrow> database \<Rightarrow> database" where
  "set_claim scope key f d =
     d\<lparr>idempotency_keys :=
         map (\<lambda>r. if ir_scope r = scope \<and> ir_key r = key then f r else r) (idempotency_keys d)\<rparr>"

definition mark :: "idem_state \<Rightarrow> idempotency_record \<Rightarrow> idempotency_record" where
  "mark st r = r\<lparr>ir_state := st\<rparr>"

definition mark_completed :: "json \<Rightarrow> timestamp \<Rightarrow> idempotency_record \<Rightarrow> idempotency_record" where
  "mark_completed response now r =
     r\<lparr>ir_state := STATE_COMPLETED, ir_response := Some response, ir_completed_at := Some now\<rparr>"

section \<open>One caller\<close>

record outcome =
  oc_value :: "json option"
  oc_replayed :: bool

fun stored_response :: "json \<Rightarrow> json" where
  "stored_response (JObj ms) = JObj ms"
| "stored_response (JArr xs) = JArr xs"
| "stored_response v = JObj [(lit ''value'', v)]"

text \<open>A commit that the constraints refuse raises, and the changes since the last one are lost.\<close>

definition commit_or :: "database \<Rightarrow> 'a result \<Rightarrow> 'w \<Rightarrow> database \<Rightarrow> 'a result \<times> 'w \<times> database" where
  "commit_or old r w d = (case flush d of Inl e \<Rightarrow> (Inl e, w, old) | Inr d' \<Rightarrow> (r, w, d'))"

definition perform ::
  "'w runtime \<Rightarrow> ustr \<Rightarrow> ustr \<Rightarrow> ('w, json) work \<Rightarrow> ('w, outcome) work" where
  "perform R scope key operation w d =
     (case operation w d of
        (Inl e, w', d') \<Rightarrow> commit_or d (Inl e) w' (set_claim scope key (mark STATE_FAILED) d')
      | (Inr v, w', d') \<Rightarrow>
          commit_or d (Inr \<lparr>oc_value = Some v, oc_replayed = False\<rparr>) w'
            (set_claim scope key (mark_completed (stored_response v) (utcnow R w')) d'))"

definition run_once ::
  "'w runtime \<Rightarrow> (json \<Rightarrow> ustr) \<Rightarrow> ustr \<Rightarrow> ustr \<Rightarrow> json \<Rightarrow> ('w, json) work
    \<Rightarrow> (idempotency_record \<Rightarrow> ('w, json option) work) option \<Rightarrow> ('w, outcome) work" where
  "run_once R request_hash scope key payload operation on_replay w d =
     (let digest = request_hash payload
      in case claim scope key digest d of
           Some d1 \<Rightarrow> perform R scope key operation w d1
         | None \<Rightarrow>
             (case find_claim scope key d of
                None \<Rightarrow> (Inl (PyLookupError (lit ''no row was found'')), w, d)
              | Some existing \<Rightarrow>
                  if ir_request_hash existing \<noteq> digest then (Inl IdempotencyConflict, w, d)
                  else case ir_state existing of
                    STATE_COMPLETED \<Rightarrow>
                      (Inr \<lparr>oc_value = ir_response existing, oc_replayed = True\<rparr>, w, d)
                  | STATE_FAILED \<Rightarrow>
                      perform R scope key operation w
                        (set_claim scope key (mark STATE_IN_PROGRESS) d)
                  | STATE_IN_PROGRESS \<Rightarrow>
                      (case on_replay of
                         None \<Rightarrow> (Inl OperationInProgress, w, d)
                       | Some recover \<Rightarrow>
                           (case recover existing w d of
                              (Inl e, w', d') \<Rightarrow> (Inl e, w', d)
                            | (Inr None, w', d') \<Rightarrow> perform R scope key operation w' d'
                            | (Inr (Some v), w', d') \<Rightarrow>
                                commit_or d (Inr \<lparr>oc_value = Some v, oc_replayed = True\<rparr>) w'
                                  (set_claim scope key
                                     (mark_completed v (utcnow R w')) d')))))"

section \<open>The claims table\<close>

text \<open>
  The contract of the table for one key: it can be claimed exactly once, and settling it sets
  its state. The protocol below relies on nothing else.
\<close>

locale claim_table =
  fixes good :: "'d \<Rightarrow> bool"
    and status :: "'d \<Rightarrow> idem_state option"
    and take_claim :: "'d \<Rightarrow> 'd option"
    and settle :: "idem_state \<Rightarrow> 'd \<Rightarrow> 'd"
  assumes claim_fresh: "good d \<Longrightarrow> status d = None \<Longrightarrow>
        \<exists>d'. take_claim d = Some d' \<and> good d' \<and> status d' = Some STATE_IN_PROGRESS"
    and claim_taken: "good d \<Longrightarrow> status d \<noteq> None \<Longrightarrow> take_claim d = None"
    and settle_good: "good d \<Longrightarrow> good (settle s d)"
    and settle_status: "good d \<Longrightarrow> status d \<noteq> None \<Longrightarrow> status (settle s d) = Some s"
begin

lemma claim_wins: "good d \<Longrightarrow> take_claim d = Some d' \<Longrightarrow>
    status d = None \<and> good d' \<and> status d' = Some STATE_IN_PROGRESS"
  using claim_fresh claim_taken by (metis option.distinct(1) option.inject)

lemma claim_loses: "good d \<Longrightarrow> take_claim d = None \<Longrightarrow> status d \<noteq> None"
  using claim_fresh by force

end

definition claim_status :: "ustr \<Rightarrow> ustr \<Rightarrow> database \<Rightarrow> idem_state option" where
  "claim_status scope key d = map_option ir_state (find_claim scope key d)"

definition keeps_claim :: "(idempotency_record \<Rightarrow> idempotency_record) \<Rightarrow> bool" where
  "keeps_claim f \<longleftrightarrow> (\<forall>r. ir_id (f r) = ir_id r \<and> ir_scope (f r) = ir_scope r
     \<and> ir_key (f r) = ir_key r \<and> ir_request_hash (f r) = ir_request_hash r)"

lemma keeps_claim_marks [simp]: "keeps_claim (mark st)" "keeps_claim (mark_completed v t)"
  by (simp_all add: keeps_claim_def mark_def mark_completed_def)

lemma database_ok_keys:
  "idempotency_ok rs = idempotency_ok (idempotency_keys d) \<Longrightarrow>
    database_ok (d\<lparr>idempotency_keys := rs\<rparr>) = database_ok d"
  "database_ok d \<Longrightarrow> database_ok (d\<lparr>idempotency_keys := rs\<rparr>) = idempotency_ok rs"
  "database_ok d \<Longrightarrow> idempotency_ok (idempotency_keys d)"
  by (auto simp: database_ok_def)

lemma claim_keys_map:
  assumes "keeps_claim f"
  shows "idempotency_ok (map (\<lambda>r. if P r then f r else r) rs) = idempotency_ok rs"
proof -
  have "map ir_id (map (\<lambda>r. if P r then f r else r) rs) = map ir_id rs"
    using assms by (auto simp: keeps_claim_def)
  moreover have "keys_of uq_idempotency_scope_key (map (\<lambda>r. if P r then f r else r) rs)
      = keys_of uq_idempotency_scope_key rs"
    using assms by (induction rs) (auto simp: keeps_claim_def uq_idempotency_scope_key_def)
  ultimately show ?thesis by (simp only: idempotency_ok_def uniq_def)
qed

lemma set_claim_ok: "keeps_claim f \<Longrightarrow> database_ok (set_claim scope key f d) = database_ok d"
  unfolding set_claim_def by (intro database_ok_keys(1) claim_keys_map)

lemma find_claim_set:
  assumes "keeps_claim f"
  shows "find_claim scope key (set_claim scope key f d) = map_option f (find_claim scope key d)"
proof -
  have "find (\<lambda>r. ir_scope r = scope \<and> ir_key r = key)
      (map (\<lambda>r. if ir_scope r = scope \<and> ir_key r = key then f r else r) rs)
    = map_option f (find (\<lambda>r. ir_scope r = scope \<and> ir_key r = key) rs)" for rs
    using assms by (induction rs) (auto simp: keeps_claim_def)
  then show ?thesis by (simp add: find_claim_def find_row_def set_claim_def)
qed

lemma claim_None:
  assumes "database_ok d"
  shows "claim scope key digest d = None \<longleftrightarrow> find_claim scope key d \<noteq> None"
proof -
  let ?rs = "idempotency_keys d" and ?n = "new_claim (fresh_id ir_id (idempotency_keys d)) scope key digest"
  have rs: "idempotency_ok ?rs" using assms by (rule database_ok_keys(3))
  have "fresh_id ir_id ?rs \<notin> ir_id ` set ?rs" by (metis fresh_id_fresh imageE)
  then have "idempotency_ok (?rs @ [?n]) \<longleftrightarrow> find_claim scope key d = None"
    using rs unfolding find_claim_def find_row_None
    by (auto simp: idempotency_ok_def uniq_append uq_idempotency_scope_key_def new_claim_def)
  then show ?thesis
    by (auto simp: claim_def Let_def database_ok_keys(2)[OF assms])
qed

lemma claim_Some:
  assumes "database_ok d" "claim scope key digest d = Some d'"
  shows "database_ok d' \<and> find_claim scope key d = None
    \<and> (\<exists>i. find_claim scope key d' = Some (new_claim i scope key digest))"
proof -
  have n: "find_claim scope key d = None"
    using claim_None[OF assms(1), of scope key digest] assms(2) by auto
  have "find P (xs @ [x]) = (case find P xs of None \<Rightarrow> if P x then Some x else None | Some y \<Rightarrow> Some y)"
    for P xs and x :: idempotency_record
    by (induction xs) auto
  with n assms(2) show ?thesis
    by (auto simp: claim_def Let_def find_claim_def find_row_def new_claim_def split: if_splits)
qed

interpretation claims: claim_table database_ok "claim_status scope key" "claim scope key digest"
  "\<lambda>st. set_claim scope key (mark st)" for scope key digest
proof
  fix d
  assume d: "database_ok d"
  show "\<exists>d'. claim scope key digest d = Some d' \<and> database_ok d'
      \<and> claim_status scope key d' = Some STATE_IN_PROGRESS" if "claim_status scope key d = None"
  proof -
    from that have "claim scope key digest d \<noteq> None"
      using claim_None[OF d] by (simp add: claim_status_def)
    then obtain d' where "claim scope key digest d = Some d'" by blast
    with claim_Some[OF d this] show ?thesis by (auto simp: claim_status_def new_claim_def)
  qed
  show "claim scope key digest d = None" if "claim_status scope key d \<noteq> None"
    using that claim_None[OF d] by (simp add: claim_status_def)
  show "database_ok (set_claim scope key (mark s) d)" for s using d by (simp add: set_claim_ok)
  show "claim_status scope key (set_claim scope key (mark s) d) = Some s"
    if "claim_status scope key d \<noteq> None" for s
    using that by (auto simp: claim_status_def find_claim_set mark_def)
qed

section \<open>What a caller gets\<close>

definition keeps_keys :: "('w, 'a) work \<Rightarrow> bool" where
  "keeps_keys m \<longleftrightarrow> steps (\<lambda>d d'. idempotency_keys d' = idempotency_keys d) m"

lemma keeps_keysD: "keeps_keys m \<Longrightarrow> m w d = (x, w', d') \<Longrightarrow> idempotency_keys d' = idempotency_keys d"
  unfolding keeps_keys_def by (rule stepsD)

lemma commit_or_Inr: "commit_or old r w d = (Inr x, w', d') \<Longrightarrow> r = Inr x \<and> w' = w \<and> d' = d \<and> database_ok d"
  by (auto simp: commit_or_def flush_def split: if_splits)

definition completed_with :: "ustr \<Rightarrow> ustr \<Rightarrow> ustr \<Rightarrow> json \<Rightarrow> database \<Rightarrow> bool" where
  "completed_with scope key digest v d \<longleftrightarrow>
     database_ok d \<and> (\<exists>r. find_claim scope key d = Some r \<and> ir_state r = STATE_COMPLETED
       \<and> ir_response r = Some v \<and> ir_request_hash r = digest)"

lemma completed_replays:
  assumes "completed_with scope key (h payload) v d"
  shows "run_once R h scope key payload op onr w d = (Inr \<lparr>oc_value = Some v, oc_replayed = True\<rparr>, w, d)"
  using assms claim_None[of d scope key "h payload"]
  by (auto simp: completed_with_def run_once_def Let_def)

lemma find_claim_cong: "idempotency_keys d' = idempotency_keys d \<Longrightarrow> find_claim scope key d' = find_claim scope key d"
  by (simp add: find_claim_def)

lemma marked_completed:
  assumes "find_claim scope key d = Some r" "ir_request_hash r = digest"
    and "database_ok (set_claim scope key (mark_completed v t) d)"
  shows "completed_with scope key digest v (set_claim scope key (mark_completed v t) d)"
  using assms by (auto simp: completed_with_def find_claim_set mark_completed_def)

lemma perform_completes:
  assumes "keeps_keys operation" "find_claim scope key d = Some r" "ir_request_hash r = digest"
    and "perform R scope key operation w d = (Inr oc, w', d')"
  shows "\<exists>v. oc = \<lparr>oc_value = Some v, oc_replayed = False\<rparr>
    \<and> completed_with scope key digest (stored_response v) d'"
proof -
  obtain x w1 d1 where op: "operation w d = (x, w1, d1)" by (metis prod.collapse)
  have "idempotency_keys d1 = idempotency_keys d"
    using keeps_keysD[OF assms(1) op] .
  then have f: "find_claim scope key d1 = Some r" using assms(2) find_claim_cong by metis
  show ?thesis
  proof (cases x)
    case (Inl e)
    with assms(4) op show ?thesis by (auto simp: perform_def dest: commit_or_Inr)
  next
    case (Inr v)
    with assms(4) op have "commit_or d (Inr \<lparr>oc_value = Some v, oc_replayed = False\<rparr>) w1
        (set_claim scope key (mark_completed (stored_response v) (utcnow R w1)) d1) = (Inr oc, w', d')"
      by (simp add: perform_def)
    from commit_or_Inr[OF this] marked_completed[OF f assms(3)] show ?thesis by auto
  qed
qed

text \<open>The answer to a call and the completed claim it leaves behind.\<close>

definition settled_as :: "ustr \<Rightarrow> ustr \<Rightarrow> ustr \<Rightarrow> outcome \<Rightarrow> database \<Rightarrow> bool" where
  "settled_as scope key digest oc d \<longleftrightarrow>
     (\<exists>v. completed_with scope key digest v d
       \<and> (if oc_replayed oc then oc_value oc = Some v
          else \<exists>u. oc_value oc = Some u \<and> v = stored_response u))"

lemma performed_settles:
  "keeps_keys operation \<Longrightarrow> find_claim scope key d = Some r \<Longrightarrow> ir_request_hash r = digest
    \<Longrightarrow> perform R scope key operation w d = (Inr oc, w', d') \<Longrightarrow> settled_as scope key digest oc d'"
  using perform_completes unfolding settled_as_def by fastforce

lemma recovered_settles:
  assumes "keeps_keys operation" "keeps_keys (recover r)" "find_claim scope key d = Some r"
    and "ir_request_hash r = digest"
    and "(case recover r w d of
        (Inl e, w', d') \<Rightarrow> (Inl e, w', d)
      | (Inr None, w', d') \<Rightarrow> perform R scope key operation w' d'
      | (Inr (Some v), w', d') \<Rightarrow>
          commit_or d (Inr \<lparr>oc_value = Some v, oc_replayed = True\<rparr>) w'
            (set_claim scope key (mark_completed v (utcnow R w')) d')) = (Inr oc, w', d')"
  shows "settled_as scope key digest oc d'"
proof -
  obtain x w1 d1 where rec: "recover r w d = (x, w1, d1)" by (metis prod.collapse)
  have "idempotency_keys d1 = idempotency_keys d" using keeps_keysD[OF assms(2) rec] .
  then have r1: "find_claim scope key d1 = Some r" using assms(3) find_claim_cong by metis
  show ?thesis
  proof (cases x)
    case (Inl e)
    with assms(5) rec show ?thesis by simp
  next
    case (Inr v)
    show ?thesis
    proof (cases v)
      case None
      with assms(5) rec Inr have "perform R scope key operation w1 d1 = (Inr oc, w', d')" by simp
      then show ?thesis by (rule performed_settles[OF assms(1) r1 assms(4)])
    next
      case (Some y)
      with assms(5) rec Inr have "commit_or d (Inr \<lparr>oc_value = Some y, oc_replayed = True\<rparr>) w1
          (set_claim scope key (mark_completed y (utcnow R w1)) d1) = (Inr oc, w', d')" by simp
      from commit_or_Inr[OF this] marked_completed[OF r1 assms(4)] show ?thesis
        by (auto simp: settled_as_def)
    qed
  qed
qed

lemma existing_settles:
  assumes "keeps_keys operation" "\<And>f r. on_replay = Some f \<Longrightarrow> keeps_keys (f r)"
    and "ir_state r = STATE_COMPLETED \<Longrightarrow> ir_response r \<noteq> None"
    and "database_ok d" "claim scope key (h payload) d = None" "find_claim scope key d = Some r"
    and "run_once R h scope key payload operation on_replay w d = (Inr oc, w', d')"
  shows "settled_as scope key (h payload) oc d'"
proof -
  have hash: "ir_request_hash r = h payload"
    using assms(5-7) by (auto simp: run_once_def Let_def split: if_splits)
  note run = assms(7)[unfolded run_once_def Let_def assms(5,6) option.case]
  show ?thesis
  proof (cases "ir_state r")
    case STATE_COMPLETED
    with run hash assms(3,4,6) show ?thesis by (auto simp: settled_as_def completed_with_def)
  next
    case STATE_FAILED
    let ?d = "set_claim scope key (mark STATE_IN_PROGRESS) d"
    have "find_claim scope key ?d = Some (mark STATE_IN_PROGRESS r)" by (simp add: find_claim_set assms(6))
    moreover have "ir_request_hash (mark STATE_IN_PROGRESS r) = h payload" using hash by (simp add: mark_def)
    moreover from STATE_FAILED run hash have "perform R scope key operation w ?d = (Inr oc, w', d')" by simp
    ultimately show ?thesis by (rule performed_settles[OF assms(1)])
  next
    case STATE_IN_PROGRESS
    with run hash obtain f where f: "on_replay = Some f" by (cases on_replay) auto
    from recovered_settles[OF assms(1) assms(2)[OF f] assms(6) hash] STATE_IN_PROGRESS run hash f
    show ?thesis by simp
  qed
qed

text \<open>
  C34: Once \<open>run_once\<close> has answered, the operation of that key is never executed again: every
  later call with the same request, whatever operation it carries, answers with the stored
  response, marked as replayed, and touches neither the outside world nor the database.
\<close>
theorem answered_once_never_again:
  assumes "database_ok d" "keeps_keys operation"
    and "\<And>f r. on_replay = Some f \<Longrightarrow> keeps_keys (f r)"
    and "\<And>r. find_claim scope key d = Some r \<Longrightarrow> ir_state r = STATE_COMPLETED \<Longrightarrow> ir_response r \<noteq> None"
    and "run_once R h scope key payload operation on_replay w d = (Inr oc, w', d')"
  shows "\<exists>v. run_once R' h scope key payload operation' on_replay' w'' d'
    = (Inr \<lparr>oc_value = Some v, oc_replayed = True\<rparr>, w'', d')
    \<and> (if oc_replayed oc then oc_value oc = Some v
       else \<exists>u. oc_value oc = Some u \<and> v = stored_response u)"
proof -
  have "settled_as scope key (h payload) oc d'"
  proof (cases "claim scope key (h payload) d")
    case (Some d1)
    from claim_Some[OF assms(1) Some] obtain i where
      f: "find_claim scope key d1 = Some (new_claim i scope key (h payload))" by blast
    have "ir_request_hash (new_claim i scope key (h payload)) = h payload" by (simp add: new_claim_def)
    moreover from assms(5) Some have "perform R scope key operation w d1 = (Inr oc, w', d')"
      by (simp add: run_once_def)
    ultimately show ?thesis by (rule performed_settles[OF assms(2) f])
  next
    case None
    then obtain r where r: "find_claim scope key d = Some r" using claim_None[OF assms(1)] by blast
    show ?thesis
      by (rule existing_settles[OF assms(2) _ _ assms(1) None r assms(5)]) (use assms(3,4) r in blast)+
  qed
  then show ?thesis unfolding settled_as_def using completed_replays by metis
qed

definition buy_five :: "(nat, json) work" where
  "buy_five w d = (Inr (JInt 5), w + 1, d)"

definition wall_clock :: "nat runtime" where
  "wall_clock = \<lparr>http_get = (\<lambda>u w. (Inl InvalidOperation, w)), utcnow = int, txn_now = int\<rparr>"

lemma buy_five_keeps: "keeps_keys buy_five"
  by (simp add: keeps_keys_def steps_def buy_five_def)

lemma buy_five_runs:
  "fst (run_once wall_clock (\<lambda>p. [7]) [1] [2] JNull buy_five None 0 empty_database)
    = Inr \<lparr>oc_value = Some (JInt 5), oc_replayed = False\<rparr>"
  by code_simp

theorem answered_once_never_again_witness:
  "\<exists>w' d'. run_once wall_clock (\<lambda>p. [7]) [1] [2] JNull buy_five None 0 empty_database
      = (Inr \<lparr>oc_value = Some (JInt 5), oc_replayed = False\<rparr>, w', d')
    \<and> run_once wall_clock (\<lambda>p. [7]) [1] [2] JNull buy_five None 9 d'
      = (Inr \<lparr>oc_value = Some (JObj [(lit ''value'', JInt 5)]), oc_replayed = True\<rparr>, 9, d')"
proof -
  obtain w' d' where r: "run_once wall_clock (\<lambda>p. [7]) [1] [2] JNull buy_five None 0 empty_database
      = (Inr \<lparr>oc_value = Some (JInt 5), oc_replayed = False\<rparr>, w', d')"
    using buy_five_runs by (metis prod.collapse)
  have n: "find_claim [1] [2] empty_database = None"
    by (simp add: find_claim_def find_row_def empty_database_def)
  from answered_once_never_again[OF empty_database_ok buy_five_keeps _ _ r, of wall_clock buy_five None 9]
    n r show ?thesis by auto
qed

text \<open>
  The key is claimed before the side effect: the operation of a new key starts on a
  committed database in which a replay of the same request refuses to run (or asks
  \<open>on_replay\<close>), and a different request under that key is a conflict, so that a crash in the
  middle of the operation cannot lead to a second one.
\<close>
theorem claimed_before_effect:
  assumes "database_ok d" "find_claim scope key d = None"
  shows "\<exists>d1. run_once R h scope key payload operation on_replay w d = perform R scope key operation w d1
    \<and> run_once R h scope key payload operation' None w' d1 = (Inl OperationInProgress, w', d1)
    \<and> (h payload' \<noteq> h payload \<longrightarrow>
        run_once R h scope key payload' operation' on_replay' w' d1 = (Inl IdempotencyConflict, w', d1))"
proof -
  from claim_None[OF assms(1)] assms(2) obtain d1 where d1: "claim scope key (h payload) d = Some d1"
    by fastforce
  from claim_Some[OF assms(1) d1] obtain i where
    ok: "database_ok d1" and f: "find_claim scope key d1 = Some (new_claim i scope key (h payload))" by blast
  have "claim scope key x d1 = None" for x using claim_None[OF ok] f by simp
  with d1 f show ?thesis by (intro exI[of _ d1]) (simp add: run_once_def Let_def new_claim_def)
qed

theorem claimed_before_effect_witness:
  "\<exists>d1. run_once wall_clock (\<lambda>p. [7]) [1] [2] JNull buy_five None 0 empty_database
      = perform wall_clock [1] [2] buy_five 0 d1
    \<and> run_once wall_clock (\<lambda>p. [7]) [1] [2] JNull buy_five None 0 d1 = (Inl OperationInProgress, 0, d1)"
proof -
  have "find_claim [1] [2] empty_database = None"
    by (simp add: find_claim_def find_row_def empty_database_def)
  from claimed_before_effect[OF empty_database_ok this, of wall_clock "\<lambda>p. [7]" JNull buy_five None 0]
  show ?thesis by blast
qed

section \<open>Interleaved callers\<close>

text \<open>
  Callers of one key with one request and no \<open>on_replay\<close>. Each step is one transaction, or the
  operation itself, which succeeds with its side effect or fails without one; a crash may come
  at any point. \<open>may_fail\<close> says whether the operation can fail.
\<close>

datatype caller =
    Starting | LookingUp | Retrying | Executing | Landed | Failing | Answered | Refused | Crashed

record guard_state =
  gs_db :: database
  gs_callers :: "nat \<Rightarrow> caller"
  gs_effects :: nat

inductive guard_step :: "bool \<Rightarrow> ustr \<Rightarrow> ustr \<Rightarrow> ustr \<Rightarrow> guard_state \<Rightarrow> guard_state \<Rightarrow> bool"
  for may_fail :: bool and scope :: ustr and key :: ustr and digest :: ustr where
  claim_won: "cs p = Starting \<Longrightarrow> claim scope key digest d = Some d' \<Longrightarrow>
    guard_step may_fail scope key digest \<lparr>gs_db = d, gs_callers = cs, gs_effects = n\<rparr>
      \<lparr>gs_db = d', gs_callers = cs(p := Executing), gs_effects = n\<rparr>"
| claim_lost: "cs p = Starting \<Longrightarrow> claim scope key digest d = None \<Longrightarrow>
    guard_step may_fail scope key digest \<lparr>gs_db = d, gs_callers = cs, gs_effects = n\<rparr>
      \<lparr>gs_db = d, gs_callers = cs(p := LookingUp), gs_effects = n\<rparr>"
| saw_completed: "cs p = LookingUp \<Longrightarrow> claim_status scope key d = Some STATE_COMPLETED \<Longrightarrow>
    guard_step may_fail scope key digest \<lparr>gs_db = d, gs_callers = cs, gs_effects = n\<rparr>
      \<lparr>gs_db = d, gs_callers = cs(p := Answered), gs_effects = n\<rparr>"
| saw_running: "cs p = LookingUp \<Longrightarrow> claim_status scope key d = Some STATE_IN_PROGRESS \<Longrightarrow>
    guard_step may_fail scope key digest \<lparr>gs_db = d, gs_callers = cs, gs_effects = n\<rparr>
      \<lparr>gs_db = d, gs_callers = cs(p := Refused), gs_effects = n\<rparr>"
| saw_failed: "cs p = LookingUp \<Longrightarrow> claim_status scope key d = Some STATE_FAILED \<Longrightarrow>
    guard_step may_fail scope key digest \<lparr>gs_db = d, gs_callers = cs, gs_effects = n\<rparr>
      \<lparr>gs_db = d, gs_callers = cs(p := Retrying), gs_effects = n\<rparr>"
| retry: "cs p = Retrying \<Longrightarrow>
    guard_step may_fail scope key digest \<lparr>gs_db = d, gs_callers = cs, gs_effects = n\<rparr>
      \<lparr>gs_db = set_claim scope key (mark STATE_IN_PROGRESS) d, gs_callers = cs(p := Executing),
       gs_effects = n\<rparr>"
| succeed: "cs p = Executing \<Longrightarrow>
    guard_step may_fail scope key digest \<lparr>gs_db = d, gs_callers = cs, gs_effects = n\<rparr>
      \<lparr>gs_db = d, gs_callers = cs(p := Landed), gs_effects = n + 1\<rparr>"
| fail: "cs p = Executing \<Longrightarrow> may_fail \<Longrightarrow>
    guard_step may_fail scope key digest \<lparr>gs_db = d, gs_callers = cs, gs_effects = n\<rparr>
      \<lparr>gs_db = d, gs_callers = cs(p := Failing), gs_effects = n\<rparr>"
| record_success: "cs p = Landed \<Longrightarrow>
    guard_step may_fail scope key digest \<lparr>gs_db = d, gs_callers = cs, gs_effects = n\<rparr>
      \<lparr>gs_db = set_claim scope key (mark STATE_COMPLETED) d, gs_callers = cs(p := Answered),
       gs_effects = n\<rparr>"
| record_failure: "cs p = Failing \<Longrightarrow>
    guard_step may_fail scope key digest \<lparr>gs_db = d, gs_callers = cs, gs_effects = n\<rparr>
      \<lparr>gs_db = set_claim scope key (mark STATE_FAILED) d, gs_callers = cs(p := Refused),
       gs_effects = n\<rparr>"
| crash: "guard_step may_fail scope key digest \<lparr>gs_db = d, gs_callers = cs, gs_effects = n\<rparr>
      \<lparr>gs_db = d, gs_callers = cs(p := Crashed), gs_effects = n\<rparr>"

inductive_cases guard_stepE: "guard_step may_fail scope key digest s s'"

definition all_starting :: "database \<Rightarrow> guard_state" where
  "all_starting d = \<lparr>gs_db = d, gs_callers = (\<lambda>p. Starting), gs_effects = 0\<rparr>"

definition guard_reachable ::
  "bool \<Rightarrow> ustr \<Rightarrow> ustr \<Rightarrow> ustr \<Rightarrow> database \<Rightarrow> guard_state \<Rightarrow> bool" where
  "guard_reachable may_fail scope key digest d s \<longleftrightarrow>
     (guard_step may_fail scope key digest)\<^sup>*\<^sup>* (all_starting d) s"

text \<open>
  Without failures: one caller at most is past its claim; while the key is free none is; the
  effect has happened once exactly when that caller has landed it.
\<close>

definition past_claim :: "caller \<Rightarrow> bool" where
  "past_claim c \<longleftrightarrow> c = Executing \<or> c = Landed"

definition caller_inv :: "idem_state option \<Rightarrow> (nat \<Rightarrow> caller) \<Rightarrow> nat \<Rightarrow> bool" where
  "caller_inv st cs n \<longleftrightarrow>
     st \<noteq> Some STATE_FAILED \<and> n \<le> 1
     \<and> (\<forall>p. cs p \<noteq> Retrying \<and> cs p \<noteq> Failing)
     \<and> (\<forall>p q. past_claim (cs p) \<longrightarrow> past_claim (cs q) \<longrightarrow> p = q)
     \<and> (st = None \<longrightarrow> n = 0 \<and> (\<forall>p. \<not> past_claim (cs p)))
     \<and> (\<forall>p. cs p = Executing \<longrightarrow> n = 0) \<and> (\<forall>p. cs p = Landed \<longrightarrow> n = 1)"

definition guard_inv :: "ustr \<Rightarrow> ustr \<Rightarrow> guard_state \<Rightarrow> bool" where
  "guard_inv scope key s \<longleftrightarrow>
     database_ok (gs_db s) \<and> caller_inv (claim_status scope key (gs_db s)) (gs_callers s) (gs_effects s)"

lemma caller_inv_idle:
  "caller_inv st cs n \<Longrightarrow> \<not> past_claim c \<Longrightarrow> c \<noteq> Retrying \<Longrightarrow> c \<noteq> Failing \<Longrightarrow>
    caller_inv st (cs(p := c)) n"
  by (auto simp: caller_inv_def past_claim_def)

lemma caller_inv_claim:
  "caller_inv None cs n \<Longrightarrow> caller_inv (Some STATE_IN_PROGRESS) (cs(p := Executing)) n"
  by (auto simp: caller_inv_def past_claim_def)

lemma caller_inv_land:
  "caller_inv st cs n \<Longrightarrow> cs p = Executing \<Longrightarrow> caller_inv st (cs(p := Landed)) (n + 1)"
  unfolding caller_inv_def past_claim_def by (metis fun_upd_apply caller.distinct(1-72) One_nat_def
      add_0 le_refl option.distinct(1))

lemma caller_inv_complete:
  "caller_inv st cs n \<Longrightarrow> cs p = Landed \<Longrightarrow> caller_inv (Some STATE_COMPLETED) (cs(p := Answered)) n"
  by (auto simp: caller_inv_def past_claim_def)

lemma guard_inv_step:
  assumes "guard_step False scope key digest s s'" "guard_inv scope key s"
  shows "guard_inv scope key s'"
  using assms
proof (cases rule: guard_step.cases)
  case (claim_won cs p d d' n)
  with assms(2) have d: "database_ok d" "caller_inv (claim_status scope key d) cs n"
    by (simp_all add: guard_inv_def)
  from claims.claim_wins[OF d(1) claim_won(4)] d(2) show ?thesis
    using caller_inv_claim[of cs n p] by (simp add: guard_inv_def claim_won)
next
  case (succeed cs p d n)
  with assms(2) caller_inv_land[of "claim_status scope key d" cs n p] show ?thesis
    by (simp add: guard_inv_def)
next
  case (record_success cs p d n)
  with assms(2) have d: "database_ok d" "caller_inv (claim_status scope key d) cs n"
    by (simp_all add: guard_inv_def)
  have "claim_status scope key d \<noteq> None"
    using d(2) record_success by (auto simp: caller_inv_def past_claim_def)
  from claims.settle_status[OF d(1) this, of STATE_COMPLETED] claims.settle_good[OF d(1)]
    caller_inv_complete[OF d(2)] record_success show ?thesis
    by (simp add: guard_inv_def)
next
  case (retry cs p d)
  with assms(2) show ?thesis by (auto simp: guard_inv_def caller_inv_def)
next
  case (saw_failed cs p d n)
  with assms(2) show ?thesis by (auto simp: guard_inv_def caller_inv_def)
next
  case (record_failure cs p d n)
  with assms(2) show ?thesis by (auto simp: guard_inv_def caller_inv_def)
qed (use assms(2) in \<open>auto simp: guard_inv_def past_claim_def intro!: caller_inv_idle\<close>)

lemma guard_inv_reachable:
  assumes "database_ok d" "claim_status scope key d = None" "guard_reachable False scope key digest d s"
  shows "guard_inv scope key s"
  using assms(3) unfolding guard_reachable_def
proof (induction rule: rtranclp_induct)
  case base
  from assms(1,2) show ?case
    by (simp add: guard_inv_def all_starting_def caller_inv_def past_claim_def)
next
  case (step s s')
  then show ?case using guard_inv_step by blast
qed


lemma guard_reachable_start: "guard_reachable f scope key digest d (all_starting d)"
  by (simp add: guard_reachable_def)

lemma guard_reachable_step:
  "guard_reachable f scope key digest d s \<Longrightarrow> guard_step f scope key digest s s' \<Longrightarrow>
    guard_reachable f scope key digest d s'"
  unfolding guard_reachable_def by (rule rtranclp.rtrancl_into_rtrancl)

lemma no_claim_empty: "find_claim scope key empty_database = None"
  by (simp add: find_claim_def find_row_def empty_database_def)


text \<open>
  A recorded failure opens a race: the retry of a failed key is not a claim, so two callers
  that both find the failure both execute the operation, and its side effect happens twice. This
  run needs three callers: one whose attempt failed and two that retry.
\<close>
theorem failed_key_can_run_twice:
  assumes "database_ok d" "find_claim scope key d = None"
  shows "\<exists>s. guard_reachable True scope key digest d s \<and> gs_effects s = 2"
proof -
  let ?R = "guard_reachable True scope key digest d" and ?mark = "\<lambda>x. set_claim scope key (mark x)"
  from claim_None[OF assms(1)] assms(2) obtain d1 where d1: "claim scope key digest d = Some d1" by fastforce
  let ?d2 = "?mark STATE_FAILED d1"
  from claim_Some[OF assms(1) d1] have ok: "database_ok d1" "find_claim scope key d1 \<noteq> None" by auto
  have f: "claim_status scope key ?d2 = Some STATE_FAILED" "database_ok ?d2"
    using ok claims.settle_status[of d1 scope key STATE_FAILED] claims.settle_good[of d1 scope key]
    by (simp_all add: claim_status_def)
  then have lost: "claim scope key digest ?d2 = None"
    by (intro claims.claim_taken) simp_all
  let ?d3 = "?mark STATE_IN_PROGRESS ?d2" and ?d4 = "?mark STATE_IN_PROGRESS (?mark STATE_IN_PROGRESS ?d2)"
  let ?c1 = "(\<lambda>p. Starting)(0 := Executing)"
  let ?c3 = "?c1(0 := Failing, 0 := Refused)"
  let ?c5 = "?c3(1 := LookingUp, 2 := LookingUp)"
  let ?c7 = "?c5(1 := Retrying, 2 := Retrying)"
  let ?c9 = "?c7(1 := Executing, 2 := Executing)"
  let ?s = "\<lambda>d c n. \<lparr>gs_db = d, gs_callers = c, gs_effects = n\<rparr>"
  note go = guard_reachable_step
  have "?R (?s d1 ?c1 0)"
    by (rule go[OF guard_reachable_start[unfolded all_starting_def] claim_won[OF _ d1]]) simp
  then have "?R (?s d1 (?c1(0 := Failing)) 0)" by (rule go[OF _ guard_step.fail]) simp_all
  then have "?R (?s ?d2 ?c3 0)" by (rule go[OF _ record_failure]) simp
  then have "?R (?s ?d2 (?c3(1 := LookingUp)) 0)" by (rule go[OF _ claim_lost[OF _ lost]]) simp
  then have "?R (?s ?d2 ?c5 0)" by (rule go[OF _ claim_lost[OF _ lost]]) simp
  then have "?R (?s ?d2 (?c5(1 := Retrying)) 0)" by (rule go[OF _ saw_failed[OF _ f(1)]]) simp
  then have "?R (?s ?d2 ?c7 0)" by (rule go[OF _ saw_failed[OF _ f(1)]]) simp
  then have "?R (?s ?d3 (?c7(1 := Executing)) 0)" by (rule go[OF _ retry]) simp
  then have "?R (?s ?d4 ?c9 0)" by (rule go[OF _ retry]) simp
  then have "?R (?s ?d4 (?c9(1 := Landed)) (0 + 1))" by (rule go[OF _ succeed]) simp
  then have "?R (?s ?d4 (?c9(1 := Landed, 2 := Landed)) (0 + 1 + 1))" by (rule go[OF _ succeed]) simp
  then show ?thesis by (intro exI conjI) auto
qed

theorem failed_key_can_run_twice_witness:
  "\<exists>s. guard_reachable True [1] [2] [7] empty_database s \<and> gs_effects s = 2"
  by (rule failed_key_can_run_twice[OF empty_database_ok no_claim_empty])

end
