(* ===== verification/Numerics.thy ===== *)
theory Numerics
  imports Prelude
begin

text \<open>
  The two inexact number systems the program computes with, over the rationals: IEEE 754
  doubles (Python \<open>float\<close>, 53 significant bits) and \<open>decimal.Decimal\<close> under the default
  context (28 significant digits). Every arithmetic operation of either returns its exact
  result rounded to the nearest representable number, ties to even; \<open>round_sig b p\<close> is that
  rounding for base \<open>b\<close> and precision \<open>p\<close>. Exponent overflow and underflow of either system
  lie far outside the prices, scores and seconds of this program and are not modelled.
  The lemmas show that the rounding is monotone, odd, exact on representable numbers and has
  a relative error of half a unit in the last place.
\<close>

section \<open>Rounding to an integer\<close>

text \<open>
  \<open>half_even\<close> is the nearest integer, ties to even (\<open>ROUND_HALF_EVEN\<close>); \<open>half_up\<close> is the
  nearest integer, ties away from zero (\<open>ROUND_HALF_UP\<close>).
\<close>

definition half_even :: "rat \<Rightarrow> int" where
  "half_even x =
     (let f = \<lfloor>x\<rfloor>; d = x - of_int f in
      if d < 1 / 2 then f
      else if 1 / 2 < d then f + 1
      else if even f then f else f + 1)"

definition half_up :: "rat \<Rightarrow> int" where
  "half_up x = (if x < 0 then - \<lfloor>- x + 1 / 2\<rfloor> else \<lfloor>x + 1 / 2\<rfloor>)"

section \<open>Rounding to a number of significant digits\<close>

text \<open>
  \<open>ndigits b n\<close> counts the base-\<open>b\<close> digits of \<open>n\<close>; \<open>ulp_exp b p x\<close> is the exponent of the
  last of \<open>p\<close> significant digits of a positive \<open>x\<close>.
\<close>

fun ndigits :: "nat \<Rightarrow> nat \<Rightarrow> nat" where
  "ndigits b n = (if n = 0 \<or> b < 2 then 0 else Suc (ndigits b (n div b)))"

declare ndigits.simps [simp del]

definition ulp_exp :: "nat \<Rightarrow> nat \<Rightarrow> rat \<Rightarrow> int" where
  "ulp_exp b p x =
     (let (n, d) = quotient_of x;
          k = int (ndigits b (nat n)) - int (ndigits b (nat d))
      in (if x < of_nat b powi k then k else k + 1) - int p)"

definition round_sig :: "nat \<Rightarrow> nat \<Rightarrow> rat \<Rightarrow> rat" where
  "round_sig b p x =
     (if x = 0 then 0
      else let e = ulp_exp b p \<bar>x\<bar>
           in sgn x * of_int (half_even (\<bar>x\<bar> / of_nat b powi e)) * of_nat b powi e)"

lemma half_even_of_int: "half_even (of_int n) = n"
  by (simp add: half_even_def)

lemma half_even_near: "\<bar>of_int (half_even x) - x\<bar> \<le> 1 / 2"
  unfolding half_even_def Let_def
  using floor_correct[of x] by (auto simp: abs_le_iff field_simps)

lemma half_even_mono: "x \<le> y \<Longrightarrow> half_even x \<le> half_even y"
proof -
  assume "x \<le> y"
  then have "\<lfloor>x\<rfloor> \<le> \<lfloor>y\<rfloor>" by (rule floor_mono)
  then consider "\<lfloor>x\<rfloor> = \<lfloor>y\<rfloor>" | "\<lfloor>x\<rfloor> + 1 \<le> \<lfloor>y\<rfloor>" by linarith
  then show ?thesis
  proof cases
    case 1
    with \<open>x \<le> y\<close> show ?thesis by (auto simp: half_even_def Let_def)
  next
    case 2
    then show ?thesis by (auto simp: half_even_def Let_def)
  qed
qed

lemma ndigits_bounds:
  assumes "2 \<le> b" "0 < n"
  shows "b ^ (ndigits b n - 1) \<le> n \<and> n < b ^ ndigits b n \<and> 0 < ndigits b n"
  using assms
proof (induction b n rule: ndigits.induct)
  case (1 b n)
  show ?case
  proof (cases "n < b")
    case True
    with "1.prems" have "ndigits b (n div b) = 0" by (simp add: ndigits.simps)
    then have "ndigits b n = 1" using "1.prems" by (subst ndigits.simps) simp
    with True "1.prems" show ?thesis by simp
  next
    case False
    with "1.prems" have pos: "0 < n div b" by (simp add: div_greater_zero_iff)
    with "1.IH" "1.prems" have IH: "b ^ (ndigits b (n div b) - 1) \<le> n div b"
      "n div b < b ^ ndigits b (n div b)" "0 < ndigits b (n div b)" by auto
    have eq: "ndigits b n = Suc (ndigits b (n div b))"
      using "1.prems" by (subst ndigits.simps) simp
    from IH(1) have "b * b ^ (ndigits b (n div b) - 1) \<le> b * (n div b)" by simp
    also have "\<dots> \<le> n" by simp
    finally have "b ^ ndigits b (n div b) \<le> n"
      using IH(3) by (simp add: power_eq_if)
    moreover from IH(2) have "n < b * b ^ ndigits b (n div b)"
      using "1.prems"(1) by (metis mult.commute less_mult_imp_div_less div_less_iff_less_mult
        le_trans zero_less_numeral order_less_le_trans pos2)
    ultimately show ?thesis by (simp add: eq)
  qed
qed


lemma ulp_exp_bounds:
  assumes b: "2 \<le> b" and x: "0 < x"
  shows "of_nat b powi (ulp_exp b p x + int p - 1) \<le> x
    \<and> x < of_nat b powi (ulp_exp b p x + int p)"
proof -
  obtain n d where q: "quotient_of x = (n, d)" by force
  have d: "0 < d" using q by (rule quotient_of_denom_pos)
  have xq: "x = of_int n / of_int d" using q by (rule quotient_of_div)
  with x d have n: "0 < n" by (simp add: zero_less_divide_iff)
  let ?B = "of_nat b :: rat"
  let ?ln = "ndigits b (nat n)" and ?ld = "ndigits b (nat d)"
  have B: "1 < ?B" using b by simp
  from ndigits_bounds[OF b, of "nat n"] n have
    ln: "b ^ (?ln - 1) \<le> nat n" "nat n < b ^ ?ln" "0 < ?ln" by auto
  from ndigits_bounds[OF b, of "nat d"] d have
    ld: "b ^ (?ld - 1) \<le> nat d" "nat d < b ^ ?ld" "0 < ?ld" by auto
  have rn: "(of_nat (nat n) :: rat) = of_int n" and rd: "(of_nat (nat d) :: rat) = of_int d"
    using n d by (simp_all add: of_nat_nat)
  have n1: "?B ^ (?ln - 1) \<le> of_int n" and n2: "of_int n < ?B ^ ?ln"
    using ln(1,2) unfolding rn[symmetric] of_nat_power[symmetric]
    by (simp_all only: of_nat_le_iff of_nat_less_iff)
  have d1: "?B ^ (?ld - 1) \<le> of_int d" and d2: "of_int d < ?B ^ ?ld"
    using ld(1,2) unfolding rd[symmetric] of_nat_power[symmetric]
    by (simp_all only: of_nat_le_iff of_nat_less_iff)
  define k where "k = int ?ln - int ?ld"
  have dpos: "(0::rat) < of_int d" using d by simp
  have low: "?B powi (k - 1) \<le> x"
  proof -
    have "?B powi (k - 1) * of_int d \<le> ?B powi (k - 1) * ?B ^ ?ld"
      using d2 B by (intro mult_left_mono) auto
    also have "\<dots> = ?B powi (int (?ln - 1))"
      using B ln(3) by (simp add: k_def power_int_add[symmetric] of_nat_diff flip: power_int_of_nat)
    also have "\<dots> = ?B ^ (?ln - 1)" by (simp only: power_int_of_nat)
    also note n1
    finally show ?thesis using dpos by (simp add: xq le_divide_eq)
  qed
  have up: "x < ?B powi (k + 1)"
  proof -
    have "of_int n < ?B ^ ?ln" by (rule n2)
    also have "\<dots> = ?B powi (k + 1) * ?B ^ (?ld - 1)"
      using B ld(3) by (simp add: k_def power_int_add[symmetric] of_nat_diff flip: power_int_of_nat)
    also have "\<dots> \<le> ?B powi (k + 1) * of_int d"
      using d1 B by (intro mult_left_mono) auto
    finally show ?thesis using dpos by (simp add: xq divide_less_eq)
  qed
  have "ulp_exp b p x = (if x < ?B powi k then k else k + 1) - int p"
    by (simp add: ulp_exp_def q k_def)
  with low up show ?thesis by (auto simp: add.commute)
qed


definition unit_of :: "nat \<Rightarrow> nat \<Rightarrow> rat \<Rightarrow> rat" where
  "unit_of b p x = of_nat b powi ulp_exp b p x"

lemma round_sig_pos:
  "0 < x \<Longrightarrow> round_sig b p x = of_int (half_even (x / unit_of b p x)) * unit_of b p x"
  by (simp add: round_sig_def unit_of_def Let_def)

lemma round_sig_0 [simp]: "round_sig b p 0 = 0"
  by (simp add: round_sig_def)

lemma round_sig_minus [simp]: "round_sig b p (- x) = - round_sig b p x"
  by (simp add: round_sig_def Let_def)

lemma unit_of_pos: "2 \<le> b \<Longrightarrow> 0 < unit_of b p x"
  by (simp add: unit_of_def zero_less_power_int)

lemma powi_shift:
  assumes "2 \<le> b" "0 < p"
  shows "(of_nat b :: rat) powi (e + int p - 1) = of_int (int (b ^ (p - 1))) * of_nat b powi e"
proof -
  have "e + int p - 1 = int (p - 1) + e" using assms by (simp add: of_nat_diff)
  then have "(of_nat b :: rat) powi (e + int p - 1) = of_nat b powi int (p - 1) * of_nat b powi e"
    using assms by (metis power_int_add of_nat_eq_0_iff not_numeral_le_zero)
  then show ?thesis by (simp only: power_int_of_nat of_int_of_nat_eq of_nat_power of_int_power)
qed

lemma scaled_bounds:
  assumes b: "2 \<le> b" and p: "0 < p" and x: "0 < x"
  shows "of_nat (b ^ (p - 1)) \<le> x / unit_of b p x \<and> x / unit_of b p x < of_nat (b ^ p)"
proof -
  let ?B = "of_nat b :: rat" and ?e = "ulp_exp b p x"
  have B: "0 < ?B" using b by simp
  have u: "0 < unit_of b p x" using b by (rule unit_of_pos)
  have s1: "?B powi (?e + int p - 1) = ?B ^ (p - 1) * unit_of b p x"
    using powi_shift[OF b p, of ?e] by (simp add: unit_of_def)
  have s2: "?B powi (?e + int p) = ?B ^ p * unit_of b p x"
    using B by (simp add: unit_of_def power_int_add[symmetric] add.commute flip: power_int_of_nat)
  show ?thesis
    using ulp_exp_bounds[OF b x, of p] u
    by (simp add: s1 s2 le_divide_eq divide_less_eq)
qed

lemma half_even_scaled:
  assumes b: "2 \<le> b" and p: "0 < p" and x: "0 < x"
  shows "int (b ^ (p - 1)) \<le> half_even (x / unit_of b p x)
    \<and> half_even (x / unit_of b p x) \<le> int (b ^ p)"
proof -
  have 1: "of_int (int (b ^ (p - 1))) \<le> x / unit_of b p x"
    and 2: "x / unit_of b p x \<le> of_int (int (b ^ p))"
    using scaled_bounds[OF assms] by auto
  from half_even_mono[OF 1] half_even_mono[OF 2] show ?thesis
    unfolding half_even_of_int by (rule conjI)
qed

lemma round_sig_nonneg:
  assumes "2 \<le> b" "0 < p" "0 \<le> x"
  shows "0 \<le> round_sig b p x"
proof (cases "x = 0")
  case False
  with assms have x: "0 < x" by simp
  have "0 \<le> half_even (x / unit_of b p x)"
    using half_even_scaled[OF assms(1,2) x] by (meson of_nat_0_le_iff order_trans)
  with x unit_of_pos[OF assms(1), of p x] show ?thesis by (simp add: round_sig_pos)
qed simp

lemma unit_of_mono_bound:
  assumes b: "2 \<le> b" and p: "0 < p" and xy: "0 < x" "x \<le> y"
  shows "ulp_exp b p x \<le> ulp_exp b p y"
proof (rule ccontr)
  let ?B = "of_nat b :: rat"
  assume "\<not> ?thesis"
  then have "ulp_exp b p y + int p \<le> ulp_exp b p x + int p - 1" by simp
  then have "?B powi (ulp_exp b p y + int p) \<le> ?B powi (ulp_exp b p x + int p - 1)"
    using b by (intro power_int_increasing) auto
  moreover have "y < ?B powi (ulp_exp b p y + int p)"
    using ulp_exp_bounds[OF b, of y p] xy by simp
  moreover have "?B powi (ulp_exp b p x + int p - 1) \<le> x"
    using ulp_exp_bounds[OF b, of x p] xy by simp
  ultimately show False using xy by simp
qed

lemma round_sig_range:
  assumes b: "2 \<le> b" and p: "0 < p" and x: "0 < x"
  shows "of_int (int (b ^ (p - 1))) * unit_of b p x \<le> round_sig b p x
    \<and> round_sig b p x \<le> of_int (int (b ^ p)) * unit_of b p x"
proof -
  let ?h = "half_even (x / unit_of b p x)"
  have "(of_int (int (b ^ (p - 1))) :: rat) \<le> of_int ?h" "(of_int ?h :: rat) \<le> of_int (int (b ^ p))"
    using half_even_scaled[OF assms] by (simp_all only: of_int_le_iff)
  then show ?thesis
    unfolding round_sig_pos[OF x] using unit_of_pos[OF b, of p x]
    by (intro conjI mult_right_mono) auto
qed

lemma round_sig_mono_pos:
  assumes b: "2 \<le> b" and p: "0 < p" and xy: "0 < x" "x \<le> y"
  shows "round_sig b p x \<le> round_sig b p y"
proof -
  let ?B = "of_nat b :: rat"
  have y: "0 < y" using xy by simp
  have le: "ulp_exp b p x \<le> ulp_exp b p y" by (rule unit_of_mono_bound[OF assms])
  note ux = unit_of_pos[OF b, of p x] and uy = unit_of_pos[OF b, of p y]
  show ?thesis
  proof (cases "ulp_exp b p x = ulp_exp b p y")
    case True
    then have u: "unit_of b p x = unit_of b p y" by (simp add: unit_of_def)
    have "half_even (x / unit_of b p y) \<le> half_even (y / unit_of b p y)"
      using xy uy by (intro half_even_mono divide_right_mono) auto
    then show ?thesis using uy xy y by (simp add: round_sig_pos u mult_right_mono)
  next
    case False
    with le have lt: "ulp_exp b p x + int p \<le> ulp_exp b p y + int p - 1" by simp
    have "round_sig b p x \<le> of_int (int (b ^ p)) * unit_of b p x"
      using round_sig_range[OF b p] xy by blast
    also have "\<dots> = ?B powi (ulp_exp b p x + int p)"
      using b by (simp add: unit_of_def power_int_add add.commute mult.commute)
    also have "\<dots> \<le> ?B powi (ulp_exp b p y + int p - 1)"
      using b lt by (intro power_int_increasing) auto
    also have "\<dots> = of_int (int (b ^ (p - 1))) * unit_of b p y"
      using powi_shift[OF b p, of "ulp_exp b p y"] by (simp add: unit_of_def)
    also have "\<dots> \<le> round_sig b p y"
      using round_sig_range[OF b p y] by blast
    finally show ?thesis .
  qed
qed

lemma round_sig_mono:
  assumes b: "2 \<le> b" and p: "0 < p" and xy: "x \<le> y"
  shows "round_sig b p x \<le> round_sig b p y"
proof -
  consider "0 < x" | "x \<le> 0" "0 \<le> y" | "y < 0" by linarith
  then show ?thesis
  proof cases
    case 1
    then show ?thesis using round_sig_mono_pos[OF b p _ xy] by simp
  next
    case 2
    then have "0 \<le> round_sig b p (- x)" "0 \<le> round_sig b p y"
      using round_sig_nonneg[OF b p, of "- x"] round_sig_nonneg[OF b p, of y] by simp_all
    then show ?thesis by simp
  next
    case 3
    then have "round_sig b p (- y) \<le> round_sig b p (- x)"
      using xy by (intro round_sig_mono_pos[OF b p]) auto
    then show ?thesis by simp
  qed
qed

definition fits :: "nat \<Rightarrow> nat \<Rightarrow> rat \<Rightarrow> bool" where
  "fits b p x \<longleftrightarrow> (\<exists>m e. x = of_int m * of_nat b powi e \<and> \<bar>m\<bar> < int (b ^ p))"

lemma round_sig_fits_pos:
  assumes b: "2 \<le> b" and x: "0 < x" and m: "x = of_int m * of_nat b powi e" "\<bar>m\<bar> < int (b ^ p)"
  shows "round_sig b p x = x"
proof -
  let ?B = "of_nat b :: rat" and ?e = "ulp_exp b p x"
  have B: "0 < ?B" "1 < ?B" using b by auto
  have u: "0 < unit_of b p x" using b by (rule unit_of_pos)
  have le: "?e \<le> e"
  proof (rule ccontr)
    assume "\<not> ?thesis"
    then have "e + int p \<le> ?e + int p - 1" by simp
    then have "?B powi (e + int p) \<le> ?B powi (?e + int p - 1)"
      using B by (intro power_int_increasing) auto
    also have "\<dots> \<le> x" using ulp_exp_bounds[OF b x] by simp
    also have "x < of_int (int (b ^ p)) * ?B powi e"
      using m B by (simp only: m(1)) (intro mult_strict_right_mono, auto simp only: of_int_less_iff
        zero_less_power_int)
    also have "\<dots> = ?B powi (e + int p)"
      using B by (simp add: power_int_add mult.commute)
    finally show False by simp
  qed
  have "x / unit_of b p x = of_int m * ?B powi (e - ?e)"
    using B by (simp add: m(1) unit_of_def power_int_diff)
  also have "\<dots> = of_int (m * int b ^ nat (e - ?e))"
    using le by (simp add: power_int_def)
  finally have i: "x / unit_of b p x = of_int (m * int b ^ nat (e - ?e))" .
  have "of_int (half_even (x / unit_of b p x)) = x / unit_of b p x"
    by (simp only: i half_even_of_int)
  with u x show ?thesis by (simp add: round_sig_pos)
qed

lemma round_sig_fits:
  assumes b: "2 \<le> b" and f: "fits b p x"
  shows "round_sig b p x = x"
proof -
  from f obtain m e where m: "x = of_int m * of_nat b powi e" "\<bar>m\<bar> < int (b ^ p)"
    by (auto simp: fits_def)
  consider "x = 0" | "0 < x" | "x < 0" by linarith
  then show ?thesis
  proof cases
    case 2
    then show ?thesis using round_sig_fits_pos[OF b _ m] by simp
  next
    case 3
    then have "round_sig b p (- x) = - x"
      using m by (intro round_sig_fits_pos[OF b, where m = "- m" and e = e]) auto
    then show ?thesis by simp
  qed simp
qed



lemma fits_round_sig:
  assumes b: "2 \<le> b" and p: "0 < p"
  shows "fits b p (round_sig b p x)"
proof -
  have pos: "fits b p (round_sig b p y)" if y: "0 < y" for y
  proof -
    let ?h = "half_even (y / unit_of b p y)"
    have eq: "round_sig b p y = of_int ?h * of_nat b powi ulp_exp b p y"
      by (simp add: round_sig_pos[OF y] unit_of_def)
    have h: "0 \<le> ?h" "?h \<le> int (b ^ p)"
      using half_even_scaled[OF b p y] by (meson of_nat_0_le_iff order_trans)+
    show ?thesis
    proof (cases "?h = int (b ^ p)")
      case True
      then have "round_sig b p y = of_int 1 * of_nat b powi (int p + ulp_exp b p y)"
        using b by (simp add: eq power_int_add)
      moreover have "\<bar>1\<bar> < int (b ^ p)"
        using one_less_power[of "int b" p] b p by (simp only: of_nat_power) simp
      ultimately show ?thesis unfolding fits_def by blast
    next
      case False
      with h have "\<bar>?h\<bar> < int (b ^ p)" by simp
      with eq show ?thesis unfolding fits_def by blast
    qed
  qed
  consider "x = 0" | "0 < x" | "0 < - x" by linarith
  then show ?thesis
  proof cases
    case 1
    then show ?thesis unfolding fits_def using b by (intro exI[of _ 0]) simp
  next
    case 2
    then show ?thesis by (rule pos)
  next
    case 3
    from pos[OF this] obtain m e where
      "round_sig b p (- x) = of_int m * of_nat b powi e" "\<bar>m\<bar> < int (b ^ p)"
      unfolding fits_def by blast
    then have "round_sig b p x = of_int (- m) * of_nat b powi e" "\<bar>- m\<bar> < int (b ^ p)"
      by simp_all
    then show ?thesis unfolding fits_def by blast
  qed
qed

lemma round_sig_idem: "2 \<le> b \<Longrightarrow> 0 < p \<Longrightarrow> round_sig b p (round_sig b p x) = round_sig b p x"
  by (intro round_sig_fits fits_round_sig)

lemma powi_less_imp_less:
  assumes "2 \<le> b" "(of_nat b :: rat) powi m < of_nat b powi n"
  shows "m < n"
proof (rule ccontr)
  assume "\<not> m < n"
  then have "(of_nat b :: rat) powi n \<le> of_nat b powi m"
    using assms(1) by (intro power_int_increasing) auto
  with assms(2) show False by simp
qed

lemma ulp_exp_unique:
  assumes b: "2 \<le> b" and x: "0 < x"
    and lo: "of_nat b powi (e + int p - 1) \<le> x" and hi: "x < of_nat b powi (e + int p)"
  shows "ulp_exp b p x = e"
proof -
  let ?B = "of_nat b :: rat" and ?e = "ulp_exp b p x"
  have "?B powi (?e + int p - 1) < ?B powi (e + int p)"
    using ulp_exp_bounds[OF b x, of p] hi by simp
  then have 1: "?e + int p - 1 < e + int p" by (rule powi_less_imp_less[OF b])
  have "?B powi (e + int p - 1) < ?B powi (?e + int p)"
    using ulp_exp_bounds[OF b x, of p] lo by simp
  then have 2: "e + int p - 1 < ?e + int p" by (rule powi_less_imp_less[OF b])
  from 1 2 show ?thesis by simp
qed

lemma round_sig_error:
  assumes b: "2 \<le> b" and p: "0 < p" and x: "0 < x"
  shows "\<bar>round_sig b p x - x\<bar> \<le> x / (2 * of_nat (b ^ (p - 1)))"
proof -
  let ?u = "unit_of b p x" and ?q = "x / unit_of b p x"
  have u: "0 < ?u" using b by (rule unit_of_pos)
  have "round_sig b p x - x = (of_int (half_even ?q) - ?q) * ?u"
    using u by (simp add: round_sig_pos[OF x] left_diff_distrib)
  then have "\<bar>round_sig b p x - x\<bar> = \<bar>of_int (half_even ?q) - ?q\<bar> * ?u"
    using u by (simp add: abs_mult)
  also have "\<dots> \<le> 1 / 2 * ?u"
    using u by (intro mult_right_mono half_even_near) simp
  also have "\<dots> \<le> x / (2 * of_nat (b ^ (p - 1)))"
    using scaled_bounds[OF assms] u b by (simp add: field_simps)
  finally show ?thesis .
qed

lemma round_sig_eqI:
  assumes b: "2 \<le> b" and p: "0 < p" and x: "0 < x" and u: "u = of_nat b powi e"
    and lo: "of_nat (b ^ (p - 1)) * u \<le> x" and hi: "x < of_nat (b ^ p) * u"
  shows "round_sig b p x = of_int (half_even (x / u)) * u"
proof -
  have "ulp_exp b p x = e"
    using lo hi b powi_shift[OF b p, of e] by (intro ulp_exp_unique[OF b x])
      (simp_all add: u power_int_add mult.commute)
  then show ?thesis by (simp add: round_sig_pos[OF x] unit_of_def u)
qed

section \<open>The interface of a rounding\<close>

text \<open>
  What the pricing and scoring proofs need of a number system: its rounding is monotone, odd,
  idempotent and keeps 0 and 1. Both instances below discharge these laws.
\<close>

locale rounding =
  fixes rnd :: "rat \<Rightarrow> rat"
  assumes rnd_mono: "x \<le> y \<Longrightarrow> rnd x \<le> rnd y"
    and rnd_zero [simp]: "rnd 0 = 0"
    and rnd_one [simp]: "rnd 1 = 1"
    and rnd_minus: "rnd (- x) = - rnd x"
    and rnd_idem [simp]: "rnd (rnd x) = rnd x"
begin

lemma rnd_nonneg: "0 \<le> x \<Longrightarrow> 0 \<le> rnd x"
  using rnd_mono[of 0 x] by simp

lemma rnd_unit: "0 \<le> x \<Longrightarrow> x \<le> 1 \<Longrightarrow> 0 \<le> rnd x \<and> rnd x \<le> 1"
  using rnd_mono[of 0 x] rnd_mono[of x 1] by simp

lemma rnd_le_fixed: "x \<le> c \<Longrightarrow> rnd c = c \<Longrightarrow> rnd x \<le> c"
  using rnd_mono[of x c] by simp

lemma rnd_ge_fixed: "c \<le> x \<Longrightarrow> rnd c = c \<Longrightarrow> c \<le> rnd x"
  using rnd_mono[of c x] by simp

lemma rnd_mult_mono:
  "0 \<le> a \<Longrightarrow> a \<le> b \<Longrightarrow> 0 \<le> c \<Longrightarrow> c \<le> d \<Longrightarrow> rnd (a * c) \<le> rnd (b * d)"
  by (intro rnd_mono mult_mono) auto

lemma rnd_add_mono: "a \<le> b \<Longrightarrow> c \<le> d \<Longrightarrow> rnd (a + c) \<le> rnd (b + d)"
  by (intro rnd_mono add_mono)

lemma rnd_mult_nonneg: "0 \<le> a \<Longrightarrow> 0 \<le> c \<Longrightarrow> 0 \<le> rnd (a * c)"
  by (intro rnd_nonneg) simp

lemma rnd_abs: "rnd \<bar>x\<bar> = \<bar>rnd x\<bar>"
  using rnd_nonneg[of x] rnd_nonneg[of "- x"] by (cases "0 \<le> x") (simp_all add: rnd_minus)

end

lemma fits_of_int: "\<bar>m\<bar> < int (b ^ p) \<Longrightarrow> fits b p (of_int m)"
  unfolding fits_def by (intro exI[of _ m] exI[of _ 0]) simp

section \<open>Doubles and decimals\<close>

text \<open>\<open>fl x\<close> is the double nearest to \<open>x\<close>: the value of the float literal or operation \<open>x\<close>.\<close>

definition fl :: "rat \<Rightarrow> rat" where
  "fl x = round_sig 2 53 x"

text \<open>\<open>dctx x\<close> is the exact result \<open>x\<close> of a \<open>Decimal\<close> operation as the default context returns it.\<close>

definition dctx :: "rat \<Rightarrow> rat" where
  "dctx x = round_sig 10 28 x"

interpretation dbl: rounding fl
proof
  show "fl x \<le> fl y" if "x \<le> y" for x y
    using that by (simp add: fl_def round_sig_mono)
  have "fits 2 53 1" using fits_of_int[of 1 2 53] by simp
  then show "fl 1 = 1" by (simp add: fl_def round_sig_fits)
qed (simp_all add: fl_def round_sig_idem)

interpretation dec: rounding dctx
proof
  show "dctx x \<le> dctx y" if "x \<le> y" for x y
    using that by (simp add: dctx_def round_sig_mono)
  have "fits 10 28 1" using fits_of_int[of 1 10 28] by simp
  then show "dctx 1 = 1" by (simp add: dctx_def round_sig_fits)
qed (simp_all add: dctx_def round_sig_idem)

text \<open>
  A decimal with at most 28 digits is its own rounding: \<open>dctx_exact\<close> for a given exponent.
\<close>

lemma dctx_exact: "x = of_int m * 10 powi e \<Longrightarrow> \<bar>m\<bar> < 10 ^ 28 \<Longrightarrow> dctx x = x"
  unfolding dctx_def by (rule round_sig_fits) (auto simp: fits_def)

lemma fl_exact: "x = of_int m * 2 powi e \<Longrightarrow> \<bar>m\<bar> < 2 ^ 53 \<Longrightarrow> fl x = x"
  unfolding fl_def by (rule round_sig_fits) (auto simp: fits_def)

lemma fl_eqI:
  assumes "0 < x" "u = 2 powi e" "2 ^ 52 * u \<le> x" "x < 2 ^ 53 * u"
  shows "fl x = of_int (half_even (x / u)) * u"
  unfolding fl_def using assms by (intro round_sig_eqI) auto

text \<open>
  \<open>Decimal.quantize\<close> to an exponent \<open>10 powi e\<close>, rounding half to even: the call raises
  \<open>InvalidOperation\<close> when the coefficient of the result has more than 28 digits.
\<close>

definition quantize :: "int \<Rightarrow> rat \<Rightarrow> rat result" where
  "quantize e x =
     (let c = half_even (x / 10 powi e)
      in if \<bar>c\<bar> < 10 ^ 28 then Inr (of_int c * 10 powi e) else Inl InvalidOperation)"

definition quantize_half_up :: "int \<Rightarrow> rat \<Rightarrow> rat result" where
  "quantize_half_up e x =
     (let c = half_up (x / 10 powi e)
      in if \<bar>c\<bar> < 10 ^ 28 then Inr (of_int c * 10 powi e) else Inl InvalidOperation)"

lemma half_up_of_int [simp]: "half_up (of_int n) = n"
proof -
  have "\<lfloor>of_int n + 1 / 2 :: rat\<rfloor> = n" "\<lfloor>- of_int n + 1 / 2 :: rat\<rfloor> = - n"
    by (simp_all add: floor_eq_iff)
  then show ?thesis by (simp add: half_up_def)
qed

lemma half_up_nonneg: "0 \<le> x \<Longrightarrow> 0 \<le> half_up x"
  by (simp add: half_up_def)

lemma half_up_mono: "x \<le> y \<Longrightarrow> half_up x \<le> half_up y"
proof -
  assume xy: "x \<le> y"
  consider "0 \<le> x" | "x < 0" "0 \<le> y" | "y < 0" by linarith
  then show ?thesis
  proof cases
    case 1
    with xy show ?thesis by (auto simp: half_up_def intro: floor_mono)
  next
    case 2
    then have "0 \<le> \<lfloor>- x + 1 / 2\<rfloor>" "0 \<le> \<lfloor>y + 1 / 2\<rfloor>" by simp_all
    then have "- \<lfloor>- x + 1 / 2\<rfloor> \<le> \<lfloor>y + 1 / 2\<rfloor>" by linarith
    with 2 show ?thesis by (simp add: half_up_def del: floor_add)
  next
    case 3
    with xy show ?thesis by (auto simp: half_up_def intro: floor_mono)
  qed
qed

lemma half_up_near: "\<bar>of_int (half_up x) - x\<bar> \<le> 1 / 2"
proof -
  have "\<bar>of_int \<lfloor>y + 1 / 2\<rfloor> - y\<bar> \<le> 1 / 2" for y :: rat
    unfolding abs_le_iff by linarith
  from this[of x] this[of "- x"] show ?thesis
    unfolding half_up_def abs_le_iff by (auto split: if_splits)
qed

lemma quantize_mono:
  "x \<le> y \<Longrightarrow> quantize e x = Inr a \<Longrightarrow> quantize e y = Inr b \<Longrightarrow> a \<le> b"
  by (auto simp: quantize_def Let_def split: if_splits
      intro!: mult_right_mono half_even_mono divide_right_mono)

lemma quantize_exact:
  "x = of_int m * 10 powi e \<Longrightarrow> \<bar>m\<bar> < 10 ^ 28 \<Longrightarrow> quantize e x = Inr x"
  by (simp add: quantize_def half_even_of_int)

section \<open>Rounding errors of doubles\<close>

lemma fl_error: "0 \<le> x \<Longrightarrow> \<bar>fl x - x\<bar> \<le> x / 2 ^ 53"
  using round_sig_error[of 2 53 x] by (cases "x = 0") (simp_all add: fl_def)

lemma fl_bounds:
  assumes "0 \<le> x"
  shows "fl x \<le> x + x / 2 ^ 53" "x - x / 2 ^ 53 \<le> fl x"
  using fl_error[OF assms] unfolding abs_le_iff by linarith+

lemma fl_pos: "0 < x \<Longrightarrow> 0 < fl x"
proof -
  assume x: "0 < x"
  then have "x / 2 ^ 53 < x" by simp
  with fl_bounds(2)[of x] x show ?thesis by linarith
qed

lemma fl_int: "\<bar>n\<bar> < 2 ^ 53 \<Longrightarrow> fl (of_int n) = of_int n"
  by (rule fl_exact[of _ n 0]) auto

text \<open>A coarse bound, enough where a comparison has slack.\<close>

lemma fl_slack:
  assumes "0 \<le> x"
  shows "fl x \<le> x * (1000001 / 1000000)" "x * (999999 / 1000000) \<le> fl x"
proof -
  have "x / 2 ^ 53 \<le> x / 1000000" using assms by (intro divide_left_mono) auto
  with fl_bounds[OF assms] show "fl x \<le> x * (1000001 / 1000000)" "x * (999999 / 1000000) \<le> fl x"
    by (simp_all add: field_simps)
qed

text \<open>Doubling a double is exact.\<close>

lemma fl_double: "fl (fl x + fl x) = fl x + fl x"
proof -
  obtain m e where m: "fl x = of_int m * 2 powi e" "\<bar>m\<bar> < 2 ^ 53"
    using fits_round_sig[of 2 53 x] by (auto simp: fl_def fits_def)
  then have "fl x + fl x = of_int m * 2 powi (e + 1)" by (simp add: power_int_add)
  then show ?thesis using m(2) by (rule fl_exact)
qed

end
