(* ===== verification/Title_Text.thy ===== *)
theory Title_Text
  imports Numerics
begin

text \<open>
  \<open>app/services/text.py\<close>: splitting a product title into core name, platform, region,
  denomination and edition. The regular expressions of the source are written as the scans
  they denote; the Unicode database (decomposition, case, character classes) and the order in
  which a Python set is iterated are parameters. The lemmas describe the normal form of a
  title and when each part is found.
\<close>

section \<open>The Unicode database\<close>

text \<open>
  \<open>nfkd\<close> is \<open>unicodedata.normalize("NFKD", s)\<close>, \<open>combining\<close> its \<open>combining(c) != 0\<close>; \<open>lower\<close>
  and \<open>upper\<close> are the methods of \<open>str\<close>; \<open>space\<close>, \<open>word\<close> and \<open>digit\<close> are the classes \<open>\s\<close>, \<open>\w\<close>
  and \<open>\d\<close> of \<open>re\<close>, the last with the value \<open>float\<close> gives it. \<open>set_order\<close> is the order in which
  a set of strings is iterated.
\<close>

record unicode =
  nfkd :: "ustr \<Rightarrow> ustr"
  combining :: "nat \<Rightarrow> bool"
  lower :: "ustr \<Rightarrow> ustr"
  upper :: "ustr \<Rightarrow> ustr"
  space :: "nat \<Rightarrow> bool"
  word :: "nat \<Rightarrow> bool"
  digit :: "nat \<Rightarrow> nat option"
  set_order :: "ustr list \<Rightarrow> ustr list"

section \<open>String operations\<close>

fun starts_with :: "ustr \<Rightarrow> ustr \<Rightarrow> bool" where
  "starts_with [] s = True"
| "starts_with (c # cs) [] = False"
| "starts_with (c # cs) (x # xs) = (c = x \<and> starts_with cs xs)"

text \<open>\<open>sub in s\<close>.\<close>

fun contains :: "ustr \<Rightarrow> ustr \<Rightarrow> bool" where
  "contains u [] = (u = [])"
| "contains u (x # xs) = (starts_with u (x # xs) \<or> contains u xs)"

text \<open>\<open>s.replace(u, v)\<close> for a non-empty \<open>u\<close>: occurrences from the left, not overlapping.\<close>

function replace_str :: "ustr \<Rightarrow> ustr \<Rightarrow> ustr \<Rightarrow> ustr" where
  "replace_str u v s =
     (if u = [] then s
      else case s of
        [] \<Rightarrow> []
      | x # xs \<Rightarrow> if starts_with u s then v @ replace_str u v (drop (length u) s)
                else x # replace_str u v xs)"
  by pat_completeness auto
termination by (relation "measure (\<lambda>(u, v, s). length s)") auto

declare replace_str.simps [simp del]

text \<open>\<open>re.sub("[...]+", v, s)\<close>: each maximal run of characters of a class becomes \<open>v\<close>.\<close>

fun sub_runs_from :: "bool \<Rightarrow> (nat \<Rightarrow> bool) \<Rightarrow> ustr \<Rightarrow> ustr \<Rightarrow> ustr" where
  "sub_runs_from inside P v [] = []"
| "sub_runs_from inside P v (x # xs) =
     (if P x then (if inside then [] else v) @ sub_runs_from True P v xs
      else x # sub_runs_from False P v xs)"

abbreviation "sub_runs \<equiv> sub_runs_from False"

definition strip_by :: "(nat \<Rightarrow> bool) \<Rightarrow> ustr \<Rightarrow> ustr" where
  "strip_by P s = rev (dropWhile P (rev (dropWhile P s)))"

text \<open>\<open>s.split()\<close>.\<close>

fun split_from :: "(nat \<Rightarrow> bool) \<Rightarrow> ustr \<Rightarrow> ustr \<Rightarrow> ustr list" where
  "split_from P acc [] = (if acc = [] then [] else [rev acc])"
| "split_from P acc (x # xs) =
     (if P x then (if acc = [] then split_from P [] xs else rev acc # split_from P [] xs)
      else split_from P (x # acc) xs)"

definition words :: "unicode \<Rightarrow> ustr \<Rightarrow> ustr list" where
  "words U s = split_from (space U) [] s"

fun join :: "ustr \<Rightarrow> ustr list \<Rightarrow> ustr" where
  "join sep [] = []"
| "join sep [w] = w"
| "join sep (w # ws) = w @ sep @ join sep ws"

definition padded :: "ustr \<Rightarrow> ustr" where
  "padded s = lit '' '' @ s @ lit '' ''"

section \<open>The tables\<close>

definition NOISE_PHRASES :: "string list" where
  "NOISE_PHRASES =
     [''digital download'', ''digital code'', ''digital key'', ''activation code'',
      ''activation key'', ''gift card'', ''giftcard'', ''prepaid card'', ''game pass'',
      ''xbox live key'', ''psn key'', ''steam key'', ''steam gift'', ''cd key'', ''cd-key'',
      ''product key'', ''key card'', ''voucher'', ''e-code'', ''ecode'',
      ''official website key'', ''official website'', ''pc download'', ''pc'']"

definition PROTECTED :: "string list" where
  "PROTECTED = [''game pass'', ''gift card'', ''giftcard'']"

definition PLATFORM_PATTERNS :: "(string \<times> string list) list" where
  "PLATFORM_PATTERNS =
     [(''steam'', [''steam'']),
      (''xbox'', [''xbox'', ''xbl'', ''microsoft store'', ''windows store'']),
      (''psn'', [''psn'', ''playstation'', ''ps4'', ''ps5'', ''ps plus'']),
      (''nintendo'', [''nintendo'', ''switch'', ''eshop'']),
      (''epic'', [''epic games'', ''epic'']),
      (''origin'', [''origin'', ''ea app'', ''ea play'']),
      (''uplay'', [''uplay'', ''ubisoft connect'', ''ubisoft'']),
      (''rockstar'', [''rockstar'', ''social club'']),
      (''battlenet'', [''battle.net'', ''battlenet'', ''blizzard'']), (''gog'', [''gog'']),
      (''roblox'', [''roblox'']), (''google'', [''google play'', ''google'']),
      (''apple'', [''app store'', ''itunes'', ''apple'']), (''amazon'', [''amazon'']),
      (''netflix'', [''netflix'']), (''spotify'', [''spotify''])]"

definition REGION_ALIASES :: "(string \<times> string list) list" where
  "REGION_ALIASES =
     [(''GLOBAL'', [''global'', ''worldwide'', ''row'', ''rest of the world'']),
      (''EU'', [''europe'', ''european union'', ''eu'']), (''EEA'', [''eea'']),
      (''NA'', [''north america'', ''na'']), (''LATAM'', [''latam'', ''latin america'']),
      (''MENA'', [''mena'', ''middle east'']), (''US'', [''united states'', ''usa'', ''us'']),
      (''UK'', [''united kingdom'', ''uk'', ''gb'', ''great britain'']),
      (''INDIA'', [''india'', ''in'']), (''BRAZIL'', [''brazil'', ''br'']),
      (''TURKEY'', [''turkey'', ''tr'', ''turkiye'']),
      (''ARGENTINA'', [''argentina'', ''ar'']), (''RUSSIA'', [''russia'', ''ru'', ''cis'']),
      (''HONG KONG'', [''hong kong'', ''hk'']), (''SINGAPORE'', [''singapore'', ''sg'']),
      (''JAPAN'', [''japan'', ''jp'']), (''GERMANY'', [''germany'', ''de'']),
      (''FRANCE'', [''france'', ''fr'']), (''POLAND'', [''poland'', ''pl'']),
      (''CANADA'', [''canada'', ''ca'']), (''AUSTRALIA'', [''australia'', ''au'']),
      (''MEXICO'', [''mexico'', ''mx'']), (''SPAIN'', [''spain'', ''es'']),
      (''ITALY'', [''italy'', ''it'']), (''NETHERLANDS'', [''netherlands'', ''nl'']),
      (''SAUDI ARABIA'', [''saudi arabia'', ''ksa'', ''sa'']),
      (''UAE'', [''uae'', ''united arab emirates'']),
      (''SOUTH AFRICA'', [''south africa'', ''za''])]"

definition CURRENCY_CODES :: "string list" where
  "CURRENCY_CODES =
     [''aed'', ''ars'', ''aud'', ''brl'', ''cad'', ''chf'', ''czk'', ''dkk'', ''eur'', ''gbp'',
      ''hkd'', ''huf'', ''idr'', ''inr'', ''jpy'', ''krw'', ''mxn'', ''myr'', ''nok'', ''nzd'',
      ''php'', ''pln'', ''ron'', ''rub'', ''sar'', ''sek'', ''sgd'', ''thb'', ''try'', ''twd'',
      ''usd'', ''vnd'', ''zar'']"

definition CURRENCY_SYMBOLS :: "(nat \<times> string) list" where
  "CURRENCY_SYMBOLS = [(36, ''USD''), (8364, ''EUR''), (163, ''GBP''), (8377, ''INR''), (165, ''JPY'')]"

definition MONTH_WORDS :: "string list" where
  "MONTH_WORDS = [''month'', ''months'', ''day'', ''days'', ''year'', ''years'']"

definition EDITION_ALIASES :: "(string \<times> string list) list" where
  "EDITION_ALIASES =
     [(''goty'', [''game of the year'', ''goty'']), (''ultimate'', [''ultimate'']),
      (''collectors'', [''collectors'', ''collector s'', ''collection'']),
      (''definitive'', [''definitive'']), (''legendary'', [''legendary'']),
      (''complete'', [''complete'']), (''anniversary'', [''anniversary'']),
      (''enhanced'', [''enhanced'']), (''deluxe'', [''deluxe'']), (''premium'', [''premium'']),
      (''gold'', [''gold'']), (''standard'', [''standard'', ''base'', ''vanilla''])]"

definition ROMAN :: "(string \<times> string) list" where
  "ROMAN =
     [('' i '', '' 1 ''), ('' ii '', '' 2 ''), ('' iii '', '' 3 ''), ('' iv '', '' 4 ''),
      ('' v '', '' 5 ''), ('' vi '', '' 6 ''), ('' vii '', '' 7 ''), ('' viii '', '' 8 ''),
      ('' ix '', '' 9 ''), ('' x '', '' 10 '')]"

section \<open>Normalisation\<close>

definition strip_accents :: "unicode \<Rightarrow> ustr \<Rightarrow> ustr" where
  "strip_accents U s = filter (\<lambda>c. \<not> combining U c) (nfkd U s)"

text \<open>The class \<open>[a-z0-9%.]\<close>.\<close>

definition plain_char :: "nat \<Rightarrow> bool" where
  "plain_char c \<longleftrightarrow> (97 \<le> c \<and> c \<le> 122) \<or> (48 \<le> c \<and> c \<le> 57) \<or> c = 37 \<or> c = 46"

definition collapse :: "unicode \<Rightarrow> ustr \<Rightarrow> ustr" where
  "collapse U s = strip_by (space U) (sub_runs (space U) (lit '' '') s)"

definition basic_normalize :: "unicode \<Rightarrow> ustr \<Rightarrow> ustr" where
  "basic_normalize U s =
     (let lowered = lower U (strip_accents U s);
          lowered = replace_str (lit ''&'') (lit '' and '') lowered;
          lowered = sub_runs (\<lambda>c. \<not> plain_char c \<and> \<not> space U c) (lit '' '') lowered
      in collapse U lowered)"

section \<open>Extraction\<close>

fun first_hit :: "(string \<Rightarrow> bool) \<Rightarrow> (string \<times> string list) list \<Rightarrow> ustr option" where
  "first_hit P [] = None"
| "first_hit P ((name, needles) # rest) =
     (if list_ex P needles then Some (lit name) else first_hit P rest)"

definition mentions :: "ustr \<Rightarrow> string \<Rightarrow> bool" where
  "mentions normalized needle \<longleftrightarrow> contains (padded (lit needle)) (padded normalized)"

definition extract_platform :: "unicode \<Rightarrow> ustr \<Rightarrow> ustr option" where
  "extract_platform U s = first_hit (mentions (basic_normalize U s)) PLATFORM_PATTERNS"

text \<open>\<open>\b...$\<close>: the suffix starts a word.\<close>

definition ends_in_word :: "unicode \<Rightarrow> ustr \<Rightarrow> ustr \<Rightarrow> bool" where
  "ends_in_word U u s \<longleftrightarrow>
     (let rest = drop (length u) (rev s)
      in starts_with (rev u) (rev s) \<and> (rest = [] \<or> \<not> word U (hd rest)))"

definition last_words :: "unicode \<Rightarrow> nat \<Rightarrow> ustr \<Rightarrow> ustr" where
  "last_words U n s = join (lit '' '') (let ws = words U s in drop (length ws - n) ws)"

definition extract_region :: "unicode \<Rightarrow> ustr \<Rightarrow> ustr option" where
  "extract_region U s =
     (let lowered = basic_normalize U s; end_of = last_words U 3 lowered
      in first_hit (\<lambda>alias. if length alias \<le> 2 then ends_in_word U (lit alias) end_of
                          else mentions lowered alias) REGION_ALIASES)"

definition extract_edition :: "unicode \<Rightarrow> ustr \<Rightarrow> ustr option" where
  "extract_edition U s = first_hit (mentions (basic_normalize U s)) EDITION_ALIASES"

section \<open>Denominations\<close>

text \<open>The double \<open>float\<close> makes of a matched numeral, and the numeral at the head of a string.\<close>

definition is_num :: "unicode \<Rightarrow> nat \<Rightarrow> bool" where
  "is_num U c \<longleftrightarrow> digit U c \<noteq> None"

definition num_value :: "unicode \<Rightarrow> ustr \<Rightarrow> nat" where
  "num_value U ds = foldl (\<lambda>n c. 10 * n + (case digit U c of None \<Rightarrow> 0 | Some v \<Rightarrow> v)) 0 ds"

definition numeral_here :: "unicode \<Rightarrow> ustr \<Rightarrow> (rat \<times> ustr) option" where
  "numeral_here U s =
     (let ip = takeWhile (is_num U) s; rest = dropWhile (is_num U) s
      in if ip = [] then None
         else case rest of
           [] \<Rightarrow> Some (fl (of_nat (num_value U ip)), [])
         | c # cs \<Rightarrow>
             (let fp = takeWhile (is_num U) cs
              in if (c = 46 \<or> c = 44) \<and> fp \<noteq> []
                 then Some (fl (of_nat (num_value U (ip @ fp)) / 10 ^ length fp),
                            dropWhile (is_num U) cs)
                 else Some (fl (of_nat (num_value U ip)), rest)))"

text \<open>
  \<open>re.search\<close>: the first position at which a matcher succeeds; the matcher also sees the
  character before it.
\<close>

fun search_from :: "nat option \<Rightarrow> (nat option \<Rightarrow> ustr \<Rightarrow> 'a option) \<Rightarrow> ustr \<Rightarrow> 'a option" where
  "search_from prev m [] = m prev []"
| "search_from prev m (x # xs) =
     (case m prev (x # xs) of Some r \<Rightarrow> Some r | None \<Rightarrow> search_from (Some x) m xs)"

definition search :: "(nat option \<Rightarrow> ustr \<Rightarrow> 'a option) \<Rightarrow> ustr \<Rightarrow> 'a option" where
  "search m s = search_from None m s"

definition skip_space :: "unicode \<Rightarrow> ustr \<Rightarrow> ustr" where
  "skip_space U s = dropWhile (space U) s"

definition word_starts :: "unicode \<Rightarrow> nat option \<Rightarrow> bool" where
  "word_starts U prev = (case prev of None \<Rightarrow> True | Some c \<Rightarrow> \<not> word U c)"

definition word_ends :: "unicode \<Rightarrow> ustr \<Rightarrow> bool" where
  "word_ends U rest = (case rest of [] \<Rightarrow> True | c # cs \<Rightarrow> \<not> word U c)"

definition code_here :: "ustr \<Rightarrow> (string \<times> ustr) option" where
  "code_here s =
     (case find (\<lambda>c. starts_with (lit c) s) CURRENCY_CODES of
        None \<Rightarrow> None | Some c \<Rightarrow> Some (c, drop (length c) s))"

type_synonym denom = "rat \<times> ustr option"

definition symbol_amount :: "unicode \<Rightarrow> nat \<Rightarrow> nat option \<Rightarrow> ustr \<Rightarrow> rat option" where
  "symbol_amount U sgn_char prev s =
     (case s of
        [] \<Rightarrow> None
      | c # cs \<Rightarrow> if c = sgn_char then map_option fst (numeral_here U (skip_space U cs)) else None)"

definition amount_symbol :: "unicode \<Rightarrow> nat \<Rightarrow> nat option \<Rightarrow> ustr \<Rightarrow> rat option" where
  "amount_symbol U sgn_char prev s =
     (case numeral_here U s of
        None \<Rightarrow> None
      | Some (v, rest) \<Rightarrow>
          (case skip_space U rest of [] \<Rightarrow> None | c # cs \<Rightarrow> if c = sgn_char then Some v else None))"

definition amount_code :: "unicode \<Rightarrow> nat option \<Rightarrow> ustr \<Rightarrow> (rat \<times> string) option" where
  "amount_code U prev s =
     (case numeral_here U s of
        None \<Rightarrow> None
      | Some (v, rest) \<Rightarrow>
          (case code_here (skip_space U rest) of
             None \<Rightarrow> None
           | Some (c, rest') \<Rightarrow> if word_ends U rest' then Some (v, c) else None))"

definition code_amount :: "unicode \<Rightarrow> nat option \<Rightarrow> ustr \<Rightarrow> (rat \<times> string) option" where
  "code_amount U prev s =
     (if \<not> word_starts U prev then None
      else case code_here s of
        None \<Rightarrow> None
      | Some (c, rest) \<Rightarrow>
          map_option (\<lambda>(v, r). (v, c)) (numeral_here U (skip_space U rest)))"

text \<open>A whole word of two to six digits: its value, and what follows it.\<close>

definition bare_number :: "unicode \<Rightarrow> nat option \<Rightarrow> ustr \<Rightarrow> (rat \<times> ustr \<times> ustr) option" where
  "bare_number U prev s =
     (let ds = takeWhile (is_num U) s; rest = dropWhile (is_num U) s
      in if word_starts U prev \<and> 2 \<le> length ds \<and> length ds \<le> 6 \<and> word_ends U rest
         then Some (fl (of_nat (num_value U ds)), s, rest) else None)"

definition keyword_here :: "unicode \<Rightarrow> string list \<Rightarrow> nat option \<Rightarrow> ustr \<Rightarrow> unit option" where
  "keyword_here U ks prev s =
     (if word_starts U prev
         \<and> list_ex (\<lambda>k. starts_with (lit k) s \<and> word_ends U (drop (length k) s)) ks
      then Some () else None)"

definition VALUE_WORDS :: "string list" where
  "VALUE_WORDS = [''card'', ''credit'', ''points'', ''coins'', ''robux'', ''wallet'', ''balance'',
     ''top up'', ''topup'', ''gift'']"

fun symbol_denomination :: "unicode \<Rightarrow> ustr \<Rightarrow> (nat \<times> string) list \<Rightarrow> denom option" where
  "symbol_denomination U raw [] = None"
| "symbol_denomination U raw ((sgn_char, currency) # rest) =
     (case search (symbol_amount U sgn_char) raw of
        Some v \<Rightarrow> Some (v, Some (lit currency))
      | None \<Rightarrow>
          (case search (amount_symbol U sgn_char) raw of
             Some v \<Rightarrow> Some (v, Some (lit currency))
           | None \<Rightarrow> symbol_denomination U raw rest))"

definition ascii_upper :: "string \<Rightarrow> ustr" where
  "ascii_upper s = map (\<lambda>c. if 97 \<le> c \<and> c \<le> 122 then c - 32 else c) (lit s)"

definition bare_denomination :: "unicode \<Rightarrow> ustr \<Rightarrow> denom option" where
  "bare_denomination U lowered =
     (case search (bare_number U) lowered of
        None \<Rightarrow> None
      | Some (v, s, rest) \<Rightarrow>
          (let following = take 12 rest;
               start = length lowered - length s;
               preceding = drop (start - 12) (take start lowered)
           in if list_ex (\<lambda>w. contains (lit w) following \<or> contains (lit w) preceding) MONTH_WORDS
              then None
              else if search (keyword_here U VALUE_WORDS) lowered \<noteq> None then Some (v, None)
              else None))"

definition extract_denomination :: "unicode \<Rightarrow> ustr \<Rightarrow> denom option" where
  "extract_denomination U s =
     (let raw = strip_accents U s; lowered = lower U raw
      in case symbol_denomination U raw CURRENCY_SYMBOLS of
           Some d \<Rightarrow> Some d
         | None \<Rightarrow>
             (case search (amount_code U) lowered of
                Some (v, c) \<Rightarrow> Some (v, Some (ascii_upper c))
              | None \<Rightarrow>
                  (case search (code_amount U) lowered of
                     Some (v, c) \<Rightarrow> Some (v, Some (ascii_upper c))
                   | None \<Rightarrow> bare_denomination U lowered)))"

section \<open>The core name\<close>

definition drop_phrases :: "string list \<Rightarrow> ustr \<Rightarrow> ustr" where
  "drop_phrases ps s = fold (\<lambda>p. replace_str (padded (lit p)) (lit '' '')) ps s"

text \<open>\<open>re.sub(r"\b(?:key|keys|code|codes)\b", " ", s)\<close>.\<close>

definition KEY_WORDS :: "string list" where
  "KEY_WORDS = [''key'', ''keys'', ''code'', ''codes'']"

function sub_key_words :: "unicode \<Rightarrow> nat option \<Rightarrow> ustr \<Rightarrow> ustr" where
  "sub_key_words U prev [] = []"
| "sub_key_words U prev (x # xs) =
     (if word_starts U prev
      then case find (\<lambda>k. starts_with (lit k) (x # xs) \<and> word_ends U (drop (length k) (x # xs)))
                  KEY_WORDS of
             Some k \<Rightarrow> lit '' '' @ sub_key_words U (Some (last (lit k))) (drop (length k - 1) xs)
           | None \<Rightarrow> x # sub_key_words U (Some x) xs
      else x # sub_key_words U (Some x) xs)"
  by pat_completeness auto
termination by (relation "measure (\<lambda>(U, prev, s). length s)") auto

definition strip_noise :: "unicode \<Rightarrow> ustr \<Rightarrow> ustr" where
  "strip_noise U s =
     (let r = drop_phrases (filter (\<lambda>p. p \<notin> set PROTECTED) NOISE_PHRASES) (padded s);
          r = drop_phrases (concat (map snd PLATFORM_PATTERNS)) r;
          r = drop_phrases (filter (\<lambda>a. 2 < length a) (concat (map snd REGION_ALIASES))) r;
          r = drop_phrases (concat (map snd EDITION_ALIASES)) r;
          r = drop_phrases [''edition''] r;
          r = collapse U r;
          r = sub_key_words U None r
      in collapse U r)"

record title_parts =
  tp_core :: ustr
  tp_platform :: "ustr option"
  tp_region :: "ustr option"
  tp_denomination :: "denom option"
  tp_tokens :: "ustr list"
  tp_edition :: "ustr option"

text \<open>\<open>re.sub(r"\b[a-z]{2}$", "", s)\<close>.\<close>

definition lower_letter :: "nat \<Rightarrow> bool" where
  "lower_letter c \<longleftrightarrow> 97 \<le> c \<and> c \<le> 122"

definition drop_code_tail :: "unicode \<Rightarrow> ustr \<Rightarrow> ustr" where
  "drop_code_tail U s =
     (case rev s of
        b # a # rest \<Rightarrow>
          if lower_letter a \<and> lower_letter b \<and> (rest = [] \<or> \<not> word U (hd rest))
          then rev rest else s
      | _ \<Rightarrow> s)"

definition all_digits :: "unicode \<Rightarrow> ustr \<Rightarrow> bool" where
  "all_digits U t \<longleftrightarrow> t \<noteq> [] \<and> list_all (is_num U) t"

text \<open>The tokens are a set: a list without duplicates.\<close>

definition parse_title :: "unicode \<Rightarrow> ustr \<Rightarrow> title_parts" where
  "parse_title U s =
     (let region = extract_region U s;
          p = fold (\<lambda>(roman, arabic). replace_str (lit roman) (lit arabic)) ROMAN
                (padded (basic_normalize U s));
          core = strip_noise U (strip_by (space U) p);
          core = (if region \<noteq> None \<and> 3 < length core
                  then strip_by (space U) (drop_code_tail U core) else core)
      in \<lparr>tp_core = core, tp_platform = extract_platform U s, tp_region = region,
          tp_denomination = extract_denomination U s,
          tp_tokens = remdups (filter (\<lambda>t. 1 < length t \<or> all_digits U t) (words U core)),
          tp_edition = extract_edition U s\<rparr>)"

definition parse_title_with :: "unicode \<Rightarrow> ustr \<Rightarrow> ustr option \<Rightarrow> ustr option \<Rightarrow> title_parts" where
  "parse_title_with U s region platform =
     (let parts = parse_title U s;
          given = upper U (strip_by (space U) (case region of None \<Rightarrow> [] | Some r \<Rightarrow> r));
          resolved = (if given \<noteq> [] then Some given else tp_region parts);
          resolved = (case resolved of
                        None \<Rightarrow> None
                      | Some r \<Rightarrow> (case extract_region U r of None \<Rightarrow> Some r | Some c \<Rightarrow> Some c));
          named = extract_platform U (case platform of None \<Rightarrow> [] | Some p \<Rightarrow> p)
      in parts\<lparr>tp_platform := (if named \<noteq> None then named else tp_platform parts),
               tp_region := resolved\<rparr>)"

section \<open>Keys for the shortlist\<close>

text \<open>\<open>f"{x:g}"\<close> of a non-negative double: six significant digits, trailing zeros dropped.\<close>

fun digits_of :: "nat \<Rightarrow> ustr" where
  "digits_of n = (if n < 10 then [48 + n] else digits_of (n div 10) @ [48 + n mod 10])"

declare digits_of.simps [simp del]

definition drop_zeros :: "ustr \<Rightarrow> ustr" where
  "drop_zeros ds = rev (dropWhile (\<lambda>c. c = 48) (rev ds))"

definition dotted :: "ustr \<Rightarrow> ustr \<Rightarrow> ustr" where
  "dotted ip fp = (if fp = [] then ip else ip @ [46] @ fp)"

definition format_g :: "rat \<Rightarrow> ustr" where
  "format_g x =
     (if x = 0 then lit ''0''
      else let r = round_sig 10 6 x;
               e = ulp_exp 10 6 r + 5;
               ds = digits_of (nat (half_even (r / 10 powi (e - 5))))
           in if - 4 \<le> e \<and> e < 6
              then if 0 \<le> e
                   then dotted (take (nat (e + 1)) ds) (drop_zeros (drop (nat (e + 1)) ds))
                   else dotted [48] (drop_zeros (replicate (nat (- e - 1)) 48 @ ds))
              else dotted (take 1 ds) (drop_zeros (drop 1 ds))
                   @ lit (if e < 0 then ''e-'' else ''e+'')
                   @ (let k = digits_of (nat \<bar>e\<bar>) in if length k < 2 then 48 # k else k))"

definition match_key :: "title_parts \<Rightarrow> ustr" where
  "match_key t =
     tp_core t @ lit ''|'' @ (case tp_platform t of None \<Rightarrow> [] | Some p \<Rightarrow> p) @ lit ''|''
     @ (case tp_region t of None \<Rightarrow> [] | Some r \<Rightarrow> r)
     @ (case tp_denomination t of
          None \<Rightarrow> []
        | Some (amount, currency) \<Rightarrow>
            lit ''|'' @ format_g amount @ (case currency of None \<Rightarrow> [] | Some c \<Rightarrow> c))"

definition edition_words :: "unicode \<Rightarrow> ustr list" where
  "edition_words U = concat (map (\<lambda>a. words U (lit a)) (concat (map snd EDITION_ALIASES)))"

text \<open>\<open>sorted(..., key=len, reverse=True)\<close>, which is stable.\<close>

definition longest_first :: "ustr list \<Rightarrow> ustr list" where
  "longest_first ts = sort_key (\<lambda>t. - int (length t)) ts"

definition anchors :: "unicode \<Rightarrow> title_parts \<Rightarrow> ustr list" where
  "anchors U t =
     longest_first (filter (\<lambda>w. (4 \<le> length w \<or> all_digits U w) \<and> w \<notin> set (edition_words U))
                      (set_order U (tp_tokens t)))"


section \<open>What the Unicode database promises on ASCII\<close>

text \<open>
  \<open>ascii_db\<close> is the database restricted to ASCII; any real one agrees with it there, and orders
  the elements of a set in some way.
\<close>

definition ascii_db :: unicode where
  "ascii_db =
     \<lparr>nfkd = (\<lambda>s. s), combining = (\<lambda>c. False),
      lower = map (\<lambda>c. if 65 \<le> c \<and> c \<le> 90 then c + 32 else c),
      upper = map (\<lambda>c. if 97 \<le> c \<and> c \<le> 122 then c - 32 else c),
      space = (\<lambda>c. c = 32 \<or> 9 \<le> c \<and> c \<le> 13 \<or> 28 \<le> c \<and> c \<le> 31),
      word = (\<lambda>c. 48 \<le> c \<and> c \<le> 57 \<or> 65 \<le> c \<and> c \<le> 90 \<or> 97 \<le> c \<and> c \<le> 122 \<or> c = 95),
      digit = (\<lambda>c. if 48 \<le> c \<and> c \<le> 57 then Some (c - 48) else None),
      set_order = (\<lambda>ts. ts)\<rparr>"

definition ascii :: "ustr \<Rightarrow> bool" where
  "ascii s \<longleftrightarrow> (\<forall>c \<in> set s. c < 128)"

definition ascii_laws :: "unicode \<Rightarrow> bool" where
  "ascii_laws U \<longleftrightarrow>
     (\<forall>s. ascii s \<longrightarrow> nfkd U s = s \<and> lower U s = lower ascii_db s \<and> upper U s = upper ascii_db s)
     \<and> (\<forall>c < 128. \<not> combining U c \<and> space U c = space ascii_db c \<and> word U c = word ascii_db c
          \<and> digit U c = digit ascii_db c)
     \<and> (\<forall>ts. set (set_order U ts) = set ts)"

lemma ascii_db_laws: "ascii_laws ascii_db"
  by (simp add: ascii_laws_def) (simp add: ascii_db_def)

lemma ascii_append [simp]: "ascii (s @ t) \<longleftrightarrow> ascii s \<and> ascii t"
  by (auto simp: ascii_def)

lemma ascii_Cons [simp]: "ascii (c # s) \<longleftrightarrow> c < 128 \<and> ascii s"
  by (auto simp: ascii_def)

lemma ascii_Nil [simp]: "ascii []"
  by (simp add: ascii_def)

lemma strip_accents_ascii: "ascii_laws U \<Longrightarrow> ascii s \<Longrightarrow> strip_accents U s = s"
  by (auto simp: strip_accents_def ascii_laws_def ascii_def intro!: filter_True)

section \<open>The normal form\<close>

text \<open>A tidy text: plain characters and single spaces, none at either end.\<close>

abbreviation no_gap :: "ustr \<Rightarrow> bool" where
  "no_gap \<equiv> successively (\<lambda>a b. \<not> (a = 32 \<and> b = 32))"

definition tidy :: "ustr \<Rightarrow> bool" where
  "tidy s \<longleftrightarrow> (\<forall>c \<in> set s. plain_char c \<or> c = 32) \<and> no_gap s
     \<and> (s \<noteq> [] \<longrightarrow> hd s \<noteq> 32 \<and> last s \<noteq> 32)"

lemma plain_char_ascii: "plain_char c \<Longrightarrow> c < 128 \<and> c \<noteq> 32 \<and> c \<noteq> 38 \<and> \<not> (65 \<le> c \<and> c \<le> 90)"
  by (auto simp: plain_char_def)

lemma space_ascii: "ascii_laws U \<Longrightarrow> space U 32"
  by (simp add: ascii_laws_def ascii_db_def)

lemma plain_not_space: "ascii_laws U \<Longrightarrow> plain_char c \<Longrightarrow> \<not> space U c"
  using plain_char_ascii[of c] by (auto simp: ascii_laws_def ascii_db_def plain_char_def)

lemma set_sub_runs: "set (sub_runs_from i P v s) \<subseteq> {c \<in> set s. \<not> P c} \<union> set v"
  by (induction i P v s rule: sub_runs_from.induct) auto

lemma sub_runs_no_gap:
  "P 32 \<Longrightarrow> no_gap (sub_runs_from i P [32] s)
     \<and> (i \<longrightarrow> sub_runs_from i P [32] s = [] \<or> hd (sub_runs_from i P [32] s) \<noteq> 32)"
proof (induction s arbitrary: i)
  case (Cons c s)
  from Cons.IH[of True] Cons.IH[of False] Cons.prems show ?case
    by (cases "sub_runs_from True P [32] s"; cases "sub_runs_from False P [32] s") auto
qed simp

lemma set_strip_by: "set (strip_by P s) \<subseteq> set s"
  using set_dropWhileD[of _ P s] set_dropWhileD[of _ P "rev (dropWhile P s)"]
  by (auto simp: strip_by_def)

lemma successively_dropWhile: "successively P s \<Longrightarrow> successively P (dropWhile Q s)"
  by (induction s rule: induct_list012) (auto simp: successively_Cons)

lemma no_gap_strip_by: "no_gap s \<Longrightarrow> no_gap (strip_by P s)"
proof -
  assume "no_gap s"
  then have "no_gap (dropWhile P s)" by (rule successively_dropWhile)
  then have "successively (\<lambda>b a. \<not> (a = 32 \<and> b = 32)) (rev (dropWhile P s))" by simp
  then have "successively (\<lambda>b a. \<not> (a = 32 \<and> b = 32)) (dropWhile P (rev (dropWhile P s)))"
    by (rule successively_dropWhile)
  then show ?thesis by (simp add: strip_by_def)
qed

lemma strip_by_ends:
  assumes "strip_by P s \<noteq> []"
  shows "\<not> P (hd (strip_by P s)) \<and> \<not> P (last (strip_by P s))"
proof -
  let ?t = "dropWhile P s"
  have t: "dropWhile P (rev ?t) \<noteq> []" using assms by (simp add: strip_by_def)
  then have l: "\<not> P (last (strip_by P s))" by (simp add: strip_by_def last_rev hd_dropWhile)
  have ne: "?t \<noteq> []" using t by (metis dropWhile.simps(1) rev.simps(1))
  then have h: "\<not> P (hd ?t)" by (rule hd_dropWhile)
  have "rev ?t = takeWhile P (rev ?t) @ dropWhile P (rev ?t)" by simp
  then have "?t = strip_by P s @ rev (takeWhile P (rev ?t))"
    by (metis rev_append rev_rev_ident strip_by_def)
  with assms have "hd ?t = hd (strip_by P s)" by (metis hd_append2)
  with h l show ?thesis by simp
qed

lemma strip_by_id: "s = [] \<or> \<not> P (hd s) \<and> \<not> P (last s) \<Longrightarrow> strip_by P s = s"
  by (auto simp: strip_by_def dropWhile_eq_self_iff[THEN iffD2] hd_rev)

lemma sub_runs_plain:
  "set t \<subseteq> {c. plain_char c \<or> space U c} \<Longrightarrow> set (sub_runs (space U) [32] t) \<subseteq> {c. plain_char c \<or> c = 32}"
  using set_sub_runs[of False "space U" "[32]" t] by auto

lemma normalize_tidy: "ascii_laws U \<Longrightarrow> tidy (basic_normalize U s)"
proof -
  assume U: "ascii_laws U"
  let ?m = "replace_str (lit ''&'') (lit '' and '') (lower U (strip_accents U s))"
  let ?t = "sub_runs (\<lambda>c. \<not> plain_char c \<and> \<not> space U c) (lit '' '') ?m"
  have l: "lit '' '' = [32]" by (simp add: lit_def)
  have n: "basic_normalize U s = strip_by (space U) (sub_runs (space U) [32] ?t)"
    by (simp add: basic_normalize_def collapse_def Let_def l)
  have "set ?t \<subseteq> {c. plain_char c \<or> space U c}"
  proof
    fix c
    assume "c \<in> set ?t"
    with set_sub_runs[of False "\<lambda>c. \<not> plain_char c \<and> \<not> space U c" "lit '' ''" ?m]
    have "c \<in> {c \<in> set ?m. \<not> (\<not> plain_char c \<and> \<not> space U c)} \<union> set (lit '' '')" by blast
    then show "c \<in> {c. plain_char c \<or> space U c}" using space_ascii[OF U] l by auto
  qed
  then have "set (sub_runs (space U) [32] ?t) \<subseteq> {c. plain_char c \<or> c = 32}"
    by (rule sub_runs_plain)
  with set_strip_by have 1: "set (basic_normalize U s) \<subseteq> {c. plain_char c \<or> c = 32}"
    unfolding n by (rule subset_trans)
  have 2: "no_gap (basic_normalize U s)"
    unfolding n using sub_runs_no_gap[of "space U" False ?t] space_ascii[OF U]
    by (intro no_gap_strip_by) simp
  have 3: "basic_normalize U s \<noteq> [] \<longrightarrow> hd (basic_normalize U s) \<noteq> 32 \<and> last (basic_normalize U s) \<noteq> 32"
  proof
    assume "basic_normalize U s \<noteq> []"
    then have "\<not> space U (hd (basic_normalize U s)) \<and> \<not> space U (last (basic_normalize U s))"
      unfolding n by (rule strip_by_ends)
    then show "hd (basic_normalize U s) \<noteq> 32 \<and> last (basic_normalize U s) \<noteq> 32"
      using space_ascii[OF U] by metis
  qed
  from 1 have "\<forall>c \<in> set (basic_normalize U s). plain_char c \<or> c = 32" by blast
  with 2 3 show ?thesis by (simp only: tidy_def simp_thms)
qed

lemma replace_str_absent: "c \<notin> set s \<Longrightarrow> replace_str [c] v s = s"
  by (induction s) (simp_all add: replace_str.simps[of "[c]"])

lemma sub_runs_none: "\<forall>c \<in> set s. \<not> P c \<Longrightarrow> sub_runs_from i P v s = s"
  by (induction i P v s rule: sub_runs_from.induct) auto

lemma sub_runs_single:
  "no_gap s \<Longrightarrow> \<forall>c \<in> set s. P c \<longleftrightarrow> c = 32 \<Longrightarrow> (i \<Longrightarrow> s \<noteq> [] \<Longrightarrow> hd s \<noteq> 32)
    \<Longrightarrow> sub_runs_from i P [32] s = s"
proof (induction s arbitrary: i)
  case (Cons c s)
  then show ?case by (cases s) (auto simp: successively_Cons)
qed simp

lemma normalize_of_tidy: "ascii_laws U \<Longrightarrow> tidy s \<Longrightarrow> basic_normalize U s = s"
proof -
  assume U: "ascii_laws U" and t: "tidy s"
  have a: "ascii s" using t plain_char_ascii by (auto simp: tidy_def ascii_def)
  have "map (\<lambda>c. if 65 \<le> c \<and> c \<le> 90 then c + 32 else c) s = s"
    using t by (auto simp: tidy_def plain_char_def intro!: map_idI)
  then have low: "lower U (strip_accents U s) = s"
    using U a by (simp add: strip_accents_ascii ascii_laws_def) (simp add: ascii_db_def)
  have amp: "replace_str (lit ''&'') (lit '' and '') s = s"
  proof -
    have "38 \<notin> set s" using t by (auto simp: tidy_def plain_char_def)
    then show ?thesis using replace_str_absent[of 38 s] by (simp add: lit_def)
  qed
  have junk: "sub_runs (\<lambda>c. \<not> plain_char c \<and> \<not> space U c) v s = s" for v
    using t space_ascii[OF U] by (intro sub_runs_none) (auto simp: tidy_def)
  have one: "sub_runs (space U) [32] s = s"
    using t space_ascii[OF U] plain_not_space[OF U]
    by (intro sub_runs_single) (auto simp: tidy_def)
  have "strip_by (space U) s = s"
  proof (rule strip_by_id)
    show "s = [] \<or> \<not> space U (hd s) \<and> \<not> space U (last s)"
      using t plain_not_space[OF U] by (metis hd_in_set last_in_set tidy_def)
  qed
  with low amp junk one show ?thesis
    by (simp add: basic_normalize_def collapse_def Let_def lit_def)
qed

text \<open>
  The normal form of a title: whatever Unicode text comes in, \<open>basic_normalize\<close> returns
  lower-case letters, digits, \<open>%\<close> and \<open>.\<close> in words separated by single spaces, and a text in
  that form is left as it is, so normalising twice is normalising once.
\<close>
theorem normalize_idempotent:
  assumes "ascii_laws U"
  shows "tidy (basic_normalize U s) \<and> basic_normalize U (basic_normalize U s) = basic_normalize U s
    \<and> (tidy s \<longrightarrow> basic_normalize U s = s)"
  using normalize_tidy[OF assms] normalize_of_tidy[OF assms] by blast

theorem normalize_idempotent_witness:
  "tidy (basic_normalize ascii_db (lit ''Elden  Ring!''))
   \<and> basic_normalize ascii_db (lit ''elden ring'') = lit ''elden ring''"
  using normalize_idempotent[OF ascii_db_laws, of "lit ''Elden  Ring!''"]
    normalize_idempotent[OF ascii_db_laws, of "lit ''elden ring''"]
  by (simp add: tidy_def lit_def plain_char_def)


section \<open>Reading back a printed face value\<close>

lemma starts_with_append [simp]: "starts_with u (u @ s)"
  by (induction u) auto

lemma search_skip:
  assumes "\<And>prev c cs. c \<in> set pre \<Longrightarrow> m prev (c # cs) = None"
  shows "\<exists>prev'. search_from prev m (pre @ s) = search_from prev' m s"
  using assms by (induction pre arbitrary: prev) auto

lemma search_hit: "(\<And>prev. m prev s = Some r) \<Longrightarrow> search_from prev m s = Some r"
  by (cases s) auto

lemma search_none:
  "(\<And>prev t. set t \<subseteq> set s \<Longrightarrow> m prev t = None) \<Longrightarrow> search_from prev m s = None"
proof (induction s arbitrary: prev)
  case (Cons c s)
  have "search_from (Some c) m s = None" using Cons.prems by (intro Cons.IH) auto
  with Cons.prems[of "c # s"] show ?case by simp
qed simp

lemma set_digits_of: "set (digits_of n) \<subseteq> {48..57} \<and> digits_of n \<noteq> []"
  by (induction n rule: digits_of.induct) (subst (1 2) digits_of.simps, force)

lemma is_num_ascii: "ascii_laws U \<Longrightarrow> c < 128 \<Longrightarrow> is_num U c \<longleftrightarrow> 48 \<le> c \<and> c \<le> 57"
  by (simp add: is_num_def ascii_laws_def) (simp add: ascii_db_def)

lemma digits_num: "ascii_laws U \<Longrightarrow> c \<in> set (digits_of n) \<Longrightarrow> is_num U c"
  using set_digits_of[of n] by (subst is_num_ascii) force+

lemma num_value_digits: "ascii_laws U \<Longrightarrow> num_value U (digits_of n) = n"
proof (induction n rule: digits_of.induct)
  case (1 n)
  have d: "digit U (48 + m) = Some m" if "m < 10" for m
    using 1(2) that by (simp add: ascii_laws_def) (simp add: ascii_db_def)
  show ?case
  proof (cases "n < 10")
    case True
    then show ?thesis by (subst digits_of.simps) (simp add: num_value_def d)
  next
    case False
    with 1 have IH: "num_value U (digits_of (n div 10)) = n div 10" by simp
    have "num_value U (digits_of (n div 10) @ [48 + n mod 10]) = n"
      using IH by (simp add: num_value_def d)
    with False show ?thesis by (subst digits_of.simps) simp
  qed
qed

lemma numeral_here_digits:
  assumes "ascii_laws U" "r = [] \<or> \<not> is_num U (hd r) \<and> hd r \<noteq> 46 \<and> hd r \<noteq> 44"
  shows "numeral_here U (digits_of n @ r) = Some (fl (of_nat n), r)"
proof -
  have all: "\<forall>c \<in> set (digits_of n). is_num U c" using digits_num[OF assms(1)] by blast
  have "takeWhile (is_num U) (digits_of n @ r) = digits_of n"
    "dropWhile (is_num U) (digits_of n @ r) = r"
    using all assms(2) by (cases r; auto simp: takeWhile_append dropWhile_append)+
  with set_digits_of[of n] num_value_digits[OF assms(1)] assms(2) show ?thesis
    by (auto simp: numeral_here_def Let_def split: list.splits)
qed

lemma numeral_here_no_digit: "\<not> is_num U c \<Longrightarrow> numeral_here U (c # s) = None"
  by (simp add: numeral_here_def)

lemma numeral_here_rest: "numeral_here U s = Some (v, r) \<Longrightarrow> set r \<subseteq> set s"
  by (auto simp: numeral_here_def Let_def split: list.splits if_splits dest!: set_dropWhileD)
    (metis list.set_intros(2) set_dropWhileD)+

lemma symbol_absent: "\<forall>e \<in> set tbl. fst e \<notin> set raw \<Longrightarrow> symbol_denomination U raw tbl = None"
proof (induction U raw tbl rule: symbol_denomination.induct)
  case (2 U raw sgn_char currency rest)
  have a: "symbol_amount U sgn_char prev t = None" if "set t \<subseteq> set raw" for prev t
    using that 2(2) by (auto simp: symbol_amount_def split: list.split)
  have b: "amount_symbol U sgn_char prev t = None" if "set t \<subseteq> set raw" for prev t
  proof (cases "numeral_here U t")
    case (Some vr)
    obtain v r where vr: "vr = (v, r)" by (cases vr)
    have "set (skip_space U r) \<subseteq> set raw"
      using numeral_here_rest[OF Some[unfolded vr]] that by (auto simp: skip_space_def dest: set_dropWhileD)
    with 2(2) Some vr show ?thesis by (auto simp: amount_symbol_def split: list.split)
  qed (simp add: amount_symbol_def)
  have "search (symbol_amount U sgn_char) raw = None" "search (amount_symbol U sgn_char) raw = None"
    unfolding search_def using a b by (auto intro: search_none)
  with 2 show ?case by simp
qed simp

lemma no_symbol: "ascii s \<Longrightarrow> 36 \<notin> set s \<Longrightarrow> \<forall>e \<in> set CURRENCY_SYMBOLS. fst e \<notin> set s"
proof -
  have "\<forall>e \<in> set CURRENCY_SYMBOLS. fst e = 36 \<or> \<not> fst e < 128" by (simp add: CURRENCY_SYMBOLS_def)
  then show "ascii s \<Longrightarrow> 36 \<notin> set s \<Longrightarrow> \<forall>e \<in> set CURRENCY_SYMBOLS. fst e \<notin> set s"
    by (metis ascii_def)
qed

lemma code_read: "c \<in> set CURRENCY_CODES \<Longrightarrow> code_here (lit c) = Some (c, [])"
proof -
  have "list_all (\<lambda>c. code_here (lit c) = Some (c, [])) CURRENCY_CODES" by code_simp
  then show "c \<in> set CURRENCY_CODES \<Longrightarrow> code_here (lit c) = Some (c, [])" by (simp add: list_all_iff)
qed

lemma code_letters:
  "c \<in> set CURRENCY_CODES \<Longrightarrow>
    ascii (ascii_upper c) \<and> 36 \<notin> set (ascii_upper c) \<and> lower ascii_db (ascii_upper c) = lit c
    \<and> (\<exists>x xs. lit c = x # xs \<and> x \<noteq> 32 \<and> 97 \<le> x \<and> x \<le> 122)"
proof -
  have "list_all (\<lambda>c. list_all (\<lambda>x. x < 128 \<and> x \<noteq> 36) (ascii_upper c)
      \<and> lower ascii_db (ascii_upper c) = lit c
      \<and> (case lit c of [] \<Rightarrow> False | x # xs \<Rightarrow> x \<noteq> 32 \<and> 97 \<le> x \<and> x \<le> 122)) CURRENCY_CODES"
    by code_simp
  moreover assume "c \<in> set CURRENCY_CODES"
  ultimately have "list_all (\<lambda>x. x < 128 \<and> x \<noteq> 36) (ascii_upper c)
      \<and> lower ascii_db (ascii_upper c) = lit c
      \<and> (case lit c of [] \<Rightarrow> False | x # xs \<Rightarrow> x \<noteq> 32 \<and> 97 \<le> x \<and> x \<le> 122)"
    unfolding list_all_iff[of _ CURRENCY_CODES] by (rule bspec)
  then show ?thesis by (cases "lit c") (auto simp: list_all_iff ascii_def)
qed

lemma digits_plain: "ascii (digits_of n)" "36 \<notin> set (digits_of n)"
  using set_digits_of[of n] by (force simp: ascii_def)+

lemma lit_space: "lit '' '' = [32]" "lit ''$'' = [36]"
  by (simp_all add: lit_def)

lemma lowered_no_digit:
  assumes "ascii_laws U" "ascii name" "\<forall>x \<in> set name. \<not> (48 \<le> x \<and> x \<le> 57)"
    and "x \<in> set (map (\<lambda>c. if 65 \<le> c \<and> c \<le> 90 then c + 32 else c) name)"
  shows "\<not> is_num U x"
proof -
  obtain y where y: "y \<in> set name" "x = (if 65 \<le> y \<and> y \<le> 90 then y + 32 else y)" using assms(4) by auto
  then have "y < 128" "\<not> (48 \<le> y \<and> y \<le> 57)" using assms(2,3) by (auto simp: ascii_def)
  then show ?thesis using y(2) is_num_ascii[OF assms(1), of x] by auto
qed

lemma amount_and_code_read:
  assumes "ascii_laws U" "ascii name" "\<forall>x \<in> set name. \<not> (48 \<le> x \<and> x \<le> 57) \<and> x \<noteq> 36"
    and "c \<in> set CURRENCY_CODES"
  shows "extract_denomination U (name @ digits_of n @ lit '' '' @ ascii_upper c)
    = Some (fl (of_nat n), Some (ascii_upper c))"
proof -
  note code = code_letters[OF assms(4)]
  note dg = digits_plain[of n]
  let ?s = "name @ digits_of n @ [32] @ ascii_upper c"
  have as: "ascii ?s" using assms(2) dg(1) code by simp
  have "\<forall>e \<in> set CURRENCY_SYMBOLS. fst e \<notin> set ?s"
    using as assms(3) dg(2) code by (intro no_symbol) auto
  then have sym: "symbol_denomination U ?s CURRENCY_SYMBOLS = None" by (rule symbol_absent)
  let ?low = "map (\<lambda>c. if 65 \<le> c \<and> c \<le> 90 then c + 32 else c) name"
  have "lower ascii_db (digits_of n) = digits_of n"
    using set_digits_of[of n] by (force simp: ascii_db_def intro!: map_idI)
  then have low: "lower U ?s = ?low @ digits_of n @ [32] @ lit c"
    using assms(1) as code by (simp add: ascii_laws_def) (simp add: ascii_db_def)
  have nd: "\<not> is_num U x" if "x \<in> set ?low" for x
    using lowered_no_digit[OF assms(1,2) _ that] assms(3) by blast
  have num32: "\<not> is_num U 32" using is_num_ascii[OF assms(1), of 32] by simp
  have sp: "space U 32" "\<And>x. 97 \<le> x \<Longrightarrow> x \<le> 122 \<Longrightarrow> \<not> space U x"
    using assms(1) by (auto simp: ascii_laws_def ascii_db_def)
  have hit: "amount_code U prev (digits_of n @ [32] @ lit c) = Some (fl (of_nat n), c)" for prev
    using numeral_here_digits[OF assms(1), of "[32] @ lit c" n] num32 sp code code_read[OF assms(4)]
    by (auto simp: amount_code_def skip_space_def word_ends_def)
  have "amount_code U prev (x # xs) = None" if "x \<in> set ?low" for prev x xs
    using nd[OF that] numeral_here_no_digit by (simp add: amount_code_def)
  from search_skip[of ?low "amount_code U" None "digits_of n @ [32] @ lit c", OF this]
  obtain prev' where "search_from None (amount_code U) (?low @ digits_of n @ [32] @ lit c)
      = search_from prev' (amount_code U) (digits_of n @ [32] @ lit c)" by blast
  with search_hit[of "amount_code U", OF hit] have "search (amount_code U) (lower U ?s) = Some (fl (of_nat n), c)"
    by (simp only: search_def low)
  with sym strip_accents_ascii[OF assms(1) as] show ?thesis
    by (simp only: extract_denomination_def Let_def lit_space) simp
qed

lemma dollar_amount_read:
  assumes "ascii_laws U" "ascii name" "36 \<notin> set name"
  shows "extract_denomination U (name @ lit ''$'' @ digits_of n) = Some (fl (of_nat n), Some (lit ''USD''))"
proof -
  let ?d = "name @ [36] @ digits_of n"
  have "digits_of n = [] \<or> \<not> space U (hd (digits_of n))"
  proof -
    have "hd (digits_of n) \<in> {48..57}" using set_digits_of[of n] by (metis hd_in_set subsetD)
    then show ?thesis using assms(1) by (auto simp: ascii_laws_def ascii_db_def)
  qed
  then have "skip_space U (digits_of n) = digits_of n" by (auto simp: skip_space_def dropWhile_eq_self_iff)
  then have hit: "symbol_amount U 36 prev ([36] @ digits_of n) = Some (fl (of_nat n))" for prev
    using numeral_here_digits[OF assms(1), of "[]" n] by (simp add: symbol_amount_def)
  have "symbol_amount U 36 prev (x # xs) = None" if "x \<in> set name" for prev x xs
    using that assms(3) by (auto simp: symbol_amount_def)
  from search_skip[of name "symbol_amount U 36" None "[36] @ digits_of n", OF this]
  obtain prev' where "search_from None (symbol_amount U 36) ?d
      = search_from prev' (symbol_amount U 36) ([36] @ digits_of n)" by blast
  with search_hit[of "symbol_amount U 36", OF hit] have "search (symbol_amount U 36) ?d = Some (fl (of_nat n))"
    by (simp only: search_def)
  then have "symbol_denomination U ?d CURRENCY_SYMBOLS = Some (fl (of_nat n), Some (lit ''USD''))"
    by (simp add: CURRENCY_SYMBOLS_def)
  moreover have "strip_accents U ?d = ?d" using strip_accents_ascii[OF assms(1), of ?d] assms(2) digits_plain(1)[of n] by simp
  ultimately show ?thesis
    by (simp only: extract_denomination_def Let_def lit_space) simp
qed



end
