(* ===== verification/Py_Decimal.thy ===== *)
theory Py_Decimal
  imports Numerics
begin

text \<open>
  The constructor \<open>Decimal(str(x))\<close> as the adapters and the FX provider use it on values
  that come out of JSON: the numeric-string syntax of \<open>decimal\<close> (sign, digits, fraction,
  exponent, infinities and NaN, surrounding blanks and underscores ignored), and comparison
  with zero, which raises \<open>InvalidOperation\<close> on a NaN. Digits are the ASCII digits.
\<close>

section \<open>Decimal values\<close>

fun dec_val :: "decimal \<Rightarrow> rat option" where
  "dec_val (Finite s c e) = Some ((if s then - 1 else 1) * of_nat c * 10 powi e)"
| "dec_val _ = None"

text \<open>\<open>x < 0\<close> and \<open>x <= 0\<close> as Python evaluates them.\<close>

fun dec_neg :: "decimal \<Rightarrow> bool result" where
  "dec_neg (Finite s c e) = Inr (s \<and> c \<noteq> 0)"
| "dec_neg (Infinite s) = Inr s"
| "dec_neg NaN = Inl InvalidOperation"

fun dec_nonpos :: "decimal \<Rightarrow> bool result" where
  "dec_nonpos (Finite s c e) = Inr (s \<or> c = 0)"
| "dec_nonpos (Infinite s) = Inr s"
| "dec_nonpos NaN = Inl InvalidOperation"

lemma signed_numeral_neg:
  "(if s then - 1 else 1) * of_nat c * (10::rat) powi e < 0 \<longleftrightarrow> s \<and> c \<noteq> 0"
proof -
  have "(0::rat) < 10 powi e" by (simp add: zero_less_power_int)
  then show ?thesis by (cases s; cases "c = 0") (auto simp: mult_less_0_iff not_less)
qed

lemma dec_neg_val: "dec_val d = Some r \<Longrightarrow> dec_neg d = Inr (r < 0)"
  by (cases d) (auto simp: signed_numeral_neg)

lemma dec_nonpos_val: "dec_val d = Some r \<Longrightarrow> dec_nonpos d = Inr (r \<le> 0)"
  by (cases d) (auto simp: le_less mult_less_0_iff zero_less_power_int split: if_splits dest: order.asym)

section \<open>The numeric-string syntax\<close>

definition is_digit :: "nat \<Rightarrow> bool" where
  "is_digit c \<longleftrightarrow> 48 \<le> c \<and> c \<le> 57"

definition is_blank :: "nat \<Rightarrow> bool" where
  "is_blank c \<longleftrightarrow> (9 \<le> c \<and> c \<le> 13) \<or> (28 \<le> c \<and> c \<le> 32)"

definition strip :: "ustr \<Rightarrow> ustr" where
  "strip s = rev (dropWhile is_blank (rev (dropWhile is_blank s)))"

definition digits_val :: "ustr \<Rightarrow> nat" where
  "digits_val ds = foldl (\<lambda>n d. 10 * n + (d - 48)) 0 ds"

definition ascii_lower :: "ustr \<Rightarrow> ustr" where
  "ascii_lower = map (\<lambda>c. if 65 \<le> c \<and> c \<le> 90 then c + 32 else c)"

fun split_sign :: "ustr \<Rightarrow> bool \<times> ustr" where
  "split_sign (c # cs) = (if c = 45 then (True, cs) else if c = 43 then (False, cs) else (False, c # cs))"
| "split_sign [] = (False, [])"

definition split_digits :: "ustr \<Rightarrow> ustr \<times> ustr" where
  "split_digits s = (takeWhile is_digit s, dropWhile is_digit s)"

text \<open>The optional exponent part after the mantissa: \<open>None\<close> when the rest is no exponent.\<close>

definition parse_exponent :: "ustr \<Rightarrow> int option" where
  "parse_exponent s =
     (case s of
        [] \<Rightarrow> Some 0
      | c # cs \<Rightarrow>
          if c = 101 \<or> c = 69 then
            (let (neg, ds) = split_sign cs
             in if ds \<noteq> [] \<and> list_all is_digit ds
                then Some ((if neg then - 1 else 1) * int (digits_val ds)) else None)
          else None)"

definition parse_finite :: "bool \<Rightarrow> ustr \<Rightarrow> decimal option" where
  "parse_finite neg s =
     (let (ip, rest) = split_digits s;
          (fp, rest') = (case rest of
                           [] \<Rightarrow> ([], [])
                         | c # cs \<Rightarrow> if c = 46 then split_digits cs else ([], rest))
      in if ip @ fp = [] then None
         else map_option (\<lambda>e. Finite neg (digits_val (ip @ fp)) (e - int (length fp)))
                (parse_exponent rest'))"

definition parse_decimal :: "ustr \<Rightarrow> decimal option" where
  "parse_decimal s =
     (let t = filter (\<lambda>c. c \<noteq> 95) (strip s); (neg, u) = split_sign t; l = ascii_lower u
      in if l = lit ''inf'' \<or> l = lit ''infinity'' then Some (Infinite neg)
         else if l = lit ''nan'' \<or> l = lit ''snan'' then Some NaN
         else parse_finite neg u)"

text \<open>
  \<open>Decimal(str(v))\<close> of a JSON value: a number prints as a decimal numeral that reads back as
  its value, booleans, lists and objects print as no numeral.
\<close>

fun decimal_of_json :: "json \<Rightarrow> decimal option" where
  "decimal_of_json (JInt n) = Some (Finite (n < 0) (nat \<bar>n\<bar>) 0)"
| "decimal_of_json (JFloat d) = Some d"
| "decimal_of_json (JStr s) = parse_decimal s"
| "decimal_of_json _ = None"

lemma parse_decimal_examples:
  "parse_decimal (lit ''20.00'') = Some (Finite False 2000 (- 2))"
  "parse_decimal (lit '' -1e3 '') = Some (Finite True 1 3)"
  "parse_decimal (lit ''NaN'') = Some NaN"
  "parse_decimal (lit ''n/a'') = None"
  by code_simp+

end
