(* ===== verification/Supplier_Api.thy ===== *)
theory Supplier_Api
  imports Title_Text Py_Decimal Schema
begin

text \<open>
  The contract of a supplier adapter, \<open>app/suppliers/base.py\<close>: the items of its catalogue with
  their content hash, the result of a purchase, and the adapter as a record of calls. The
  digest (\<open>sha256\<close> of \<open>json.dumps(..., sort_keys=True)\<close>) is a parameter, a function of the
  document it is given.
\<close>

section \<open>Printing a decimal\<close>

text \<open>\<open>str\<close> of a \<open>Decimal\<close>: plain notation where the exponent allows it, else scientific.\<close>

definition int_text :: "int \<Rightarrow> ustr" where
  "int_text n = (if n < 0 then [45] else []) @ digits_of (nat \<bar>n\<bar>)"

fun dec_str :: "decimal \<Rightarrow> ustr" where
  "dec_str (Finite s c e) =
     (let ds = digits_of c;
          left = e + int (length ds);
          place = (if e \<le> 0 \<and> - 6 < left then left else 1);
          ip = (if place \<le> 0 then [48]
                else if int (length ds) \<le> place then ds @ replicate (nat (place - int (length ds))) 48
                else take (nat place) ds);
          fp = (if place \<le> 0 then [46] @ replicate (nat (- place)) 48 @ ds
                else if int (length ds) \<le> place then []
                else [46] @ drop (nat place) ds)
      in (if s then [45] else []) @ ip @ fp
         @ (if left = place then []
            else [69] @ (if left < place then [] else [43]) @ int_text (left - place)))"
| "dec_str (Infinite s) = (if s then [45] else []) @ lit ''Infinity''"
| "dec_str NaN = lit ''NaN''"

lemma dec_str_examples:
  "dec_str (Finite False 2000 (- 2)) = lit ''20.00''"
  "dec_str (Finite False 5 (- 2)) = lit ''0.05''"
  "dec_str (Finite True 12 3) = lit ''-1.2E+4''"
  "dec_str (Finite False 1 (- 8)) = lit ''1E-8''"
  by code_simp+

section \<open>Items\<close>

record supplier_item =
  si_kind :: product_kind
  si_category_ext_id :: ustr
  si_offer_ext_id :: ustr
  si_name :: ustr
  si_price :: decimal
  si_stock :: int
  si_currency :: ustr
  si_category_name :: "ustr option"
  si_region :: "ustr option"
  si_platform :: "ustr option"
  si_region_restricted :: bool
  si_min_order_quantity :: int
  si_max_order_quantity :: int
  si_raw :: json

definition json_opt :: "ustr option \<Rightarrow> json" where
  "json_opt x = (case x of None \<Rightarrow> JNull | Some s \<Rightarrow> JStr s)"

text \<open>The document that is digested, its keys sorted.\<close>

definition hash_payload :: "supplier_item \<Rightarrow> json" where
  "hash_payload i =
     JObj [(lit ''currency'', JStr (si_currency i)), (lit ''max'', JInt (si_max_order_quantity i)),
           (lit ''min'', JInt (si_min_order_quantity i)), (lit ''name'', JStr (si_name i)),
           (lit ''platform'', json_opt (si_platform i)), (lit ''price'', JStr (dec_str (si_price i))),
           (lit ''region'', json_opt (si_region i)), (lit ''stock'', JInt (si_stock i))]"

definition content_hash :: "(json \<Rightarrow> ustr) \<Rightarrow> supplier_item \<Rightarrow> ustr" where
  "content_hash digest i = digest (hash_payload i)"

section \<open>Purchases\<close>

record purchased_code =
  co_value :: ustr
  co_kind :: ustr

record purchase_result =
  pu_supplier_order_ext_id :: ustr
  pu_codes :: "purchased_code list"
  pu_cost :: "decimal option"
  pu_currency :: ustr
  pu_status :: ustr
  pu_raw :: json

definition is_complete :: "purchase_result \<Rightarrow> bool" where
  "is_complete r \<longleftrightarrow> pu_codes r \<noteq> []"

section \<open>The adapter\<close>

type_synonym item_stream = "supplier_item list \<times> exn option"

record 'w supplier_adapter =
  sa_code :: ustr
  sa_iter_products :: "'w \<Rightarrow> item_stream \<times> 'w"
  sa_purchase :: "supplier_item \<Rightarrow> int \<Rightarrow> ustr \<Rightarrow> 'w \<Rightarrow> purchase_result result \<times> 'w"
  sa_get_order :: "ustr \<Rightarrow> 'w \<Rightarrow> purchase_result option result \<times> 'w"
  sa_balance :: "'w \<Rightarrow> decimal option result \<times> 'w"

end
