(* ===== verification/Store_Api.thy ===== *)
theory Store_Api
  imports Prelude
begin

text \<open>
  The contract of a store adapter, \<open>app/stores/base.py\<close>: the values that cross it and the
  adapter itself as a record of calls on the outside world.
\<close>

section \<open>Values\<close>

record catalog_item =
  ci_product_ext_id :: ustr
  ci_name :: ustr
  ci_product_type :: "ustr option"
  ci_slug :: "ustr option"
  ci_region :: "ustr option"
  ci_platform :: "ustr option"
  ci_qty :: int
  ci_min_price :: "rat option"
  ci_retail_min_price :: "rat option"
  ci_available_to_buy :: bool
  ci_price_limit_min :: "rat option"
  ci_price_limit_max :: "rat option"
  ci_remote_updated_at :: "int option"
  ci_raw :: json

record offer_view =
  ov_offer_ext_id :: ustr
  ov_product_ext_id :: ustr
  ov_price :: "rat option"
  ov_inventory_size :: int
  ov_status :: ustr
  ov_offer_type :: "ustr option"
  ov_raw :: json

definition offer_is_active :: "offer_view \<Rightarrow> bool" where
  "offer_is_active v \<longleftrightarrow> ov_status v = lit ''active''"

record job_result =
  jr_job_id :: ustr
  jr_status :: ustr
  jr_resource_id :: "ustr option"
  jr_errors :: "ustr list"
  jr_raw :: json

definition job_is_finished :: "job_result \<Rightarrow> bool" where
  "job_is_finished j \<longleftrightarrow>
     jr_status j \<in> {lit ''complete'', lit ''failed'', lit ''error''}"

definition job_succeeded :: "job_result \<Rightarrow> bool" where
  "job_succeeded j \<longleftrightarrow> jr_status j = lit ''complete'' \<and> jr_errors j = []"

lemma succeeded_is_finished: "job_succeeded j \<Longrightarrow> job_is_finished j"
  by (simp add: job_succeeded_def job_is_finished_def)

lemmas job_defs = job_is_finished_def job_succeeded_def

section \<open>The adapter\<close>

text \<open>
  Every call may raise. A generator is its list of items and the exception, if any, that ended
  it early.
\<close>

type_synonym 'a stream = "'a list \<times> exn option"

record 'w store_adapter =
  ad_code :: ustr
  ad_iter_catalog :: "int option \<Rightarrow> nat option \<Rightarrow> 'w \<Rightarrow> catalog_item stream \<times> 'w"
  ad_list_offers :: "'w \<Rightarrow> offer_view stream \<times> 'w"
  ad_offers_for_product :: "ustr \<Rightarrow> 'w \<Rightarrow> offer_view list result \<times> 'w"
  ad_create_offer :: "ustr \<Rightarrow> rat \<Rightarrow> int \<Rightarrow> bool \<Rightarrow> 'w \<Rightarrow> job_result result \<times> 'w"
  ad_update_offer ::
    "ustr \<Rightarrow> rat option \<Rightarrow> int option \<Rightarrow> bool option \<Rightarrow> 'w \<Rightarrow> job_result result \<times> 'w"
  ad_get_job :: "ustr \<Rightarrow> 'w \<Rightarrow> job_result result \<times> 'w"

text \<open>\<open>list(generator)\<close>: the items, or the exception that ended the iteration.\<close>

definition stream_list :: "'a stream \<Rightarrow> 'a list result" where
  "stream_list st = (case snd st of None \<Rightarrow> Inr (fst st) | Some e \<Rightarrow> Inl e)"

end
