(* ===== verification/Api_Call.thy ===== *)
theory Api_Call
  imports Title_Text Py_Decimal Supplier_Api Store_Api
begin

text \<open>
  Programs that only talk to the outside world: calls that return or raise, generators that
  yield items and may be ended by an exception, and the Python conversions the adapters apply
  to JSON values they receive (\<open>str\<close>, \<open>int\<close>, iteration, \<open>dict.get\<close>, \<open>json.dumps\<close>).
\<close>

section \<open>Calls\<close>

type_synonym ('w, 'a) call = "'w \<Rightarrow> 'a result \<times> 'w"

definition cret :: "'a \<Rightarrow> ('w, 'a) call" where
  "cret x w = (Inr x, w)"

definition craise :: "exn \<Rightarrow> ('w, 'a) call" where
  "craise e w = (Inl e, w)"

definition clift :: "'a result \<Rightarrow> ('w, 'a) call" where
  "clift r w = (r, w)"

definition cbind :: "('w, 'a) call \<Rightarrow> ('a \<Rightarrow> ('w, 'b) call) \<Rightarrow> ('w, 'b) call" where
  "cbind m f w = (case m w of (Inl e, w') \<Rightarrow> (Inl e, w') | (Inr x, w') \<Rightarrow> f x w')"

definition ctry :: "('w, 'a) call \<Rightarrow> (exn \<Rightarrow> bool) \<Rightarrow> (exn \<Rightarrow> ('w, 'a) call) \<Rightarrow> ('w, 'a) call" where
  "ctry m catches h w =
     (case m w of
        (Inl e, w') \<Rightarrow> if catches e then h e w' else (Inl e, w')
      | r \<Rightarrow> r)"

lemma cbind_simps [simp]:
  "cbind (cret x) f = f x" "cbind (craise e) f = craise e" "cbind (clift (Inr x)) f = f x"
  "cbind (clift (Inl e)) f = craise e" "cbind m cret = m"
  by (auto simp: cbind_def cret_def craise_def clift_def fun_eq_iff split: prod.split sum.split)

lemma cbind_assoc: "cbind (cbind m f) g = cbind m (\<lambda>x. cbind (f x) g)"
  by (auto simp: cbind_def fun_eq_iff split: prod.split sum.split)

lemma cbind_ok: "m w = (Inr x, w') \<Longrightarrow> cbind m f w = f x w'"
  by (simp add: cbind_def)

lemma cbind_err: "m w = (Inl e, w') \<Longrightarrow> cbind m f w = (Inl e, w')"
  by (simp add: cbind_def)

text \<open>Pure results in sequence.\<close>

fun rbind :: "'a result \<Rightarrow> ('a \<Rightarrow> 'b result) \<Rightarrow> 'b result" where
  "rbind (Inl e) f = Inl e"
| "rbind (Inr x) f = f x"

lemma rbind_Inr: "rbind r f = Inr y \<longleftrightarrow> (\<exists>x. r = Inr x \<and> f x = Inr y)"
  by (cases r) auto

section \<open>Generators\<close>

text \<open>A generator run to its end: what it yielded, the exception that ended it, the world after.\<close>

type_synonym ('w, 'a) generator = "'w \<Rightarrow> 'a stream \<times> 'w"

definition gnone :: "('w, 'a) generator" where
  "gnone w = (([], None), w)"

definition gyield :: "'a \<Rightarrow> ('w, 'a) generator" where
  "gyield x w = (([x], None), w)"

definition graise :: "exn \<Rightarrow> ('w, 'a) generator" where
  "graise e w = (([], Some e), w)"

definition gthen :: "('w, 'a) generator \<Rightarrow> ('w, 'a) generator \<Rightarrow> ('w, 'a) generator" where
  "gthen g h w =
     (case g w of
        ((xs, Some e), w') \<Rightarrow> ((xs, Some e), w')
      | ((xs, None), w') \<Rightarrow> (case h w' of ((ys, e), w2) \<Rightarrow> ((xs @ ys, e), w2)))"

definition gcall :: "('w, 'a) call \<Rightarrow> ('a \<Rightarrow> ('w, 'b) generator) \<Rightarrow> ('w, 'b) generator" where
  "gcall m f w = (case m w of (Inl e, w') \<Rightarrow> (([], Some e), w') | (Inr x, w') \<Rightarrow> f x w')"

fun gfor :: "'a list \<Rightarrow> ('a \<Rightarrow> ('w, 'b) generator) \<Rightarrow> ('w, 'b) generator" where
  "gfor [] f = gnone"
| "gfor (x # xs) f = gthen (f x) (gfor xs f)"

lemma gthen_none [simp]: "gthen gnone g = g" "gthen g gnone = g"
  by (auto simp: gthen_def gnone_def fun_eq_iff split: prod.split option.split)

lemma gthen_assoc: "gthen (gthen f g) h = gthen f (gthen g h)"
  by (auto simp: gthen_def fun_eq_iff split: prod.split option.split)

lemma gfor_append: "gfor (xs @ ys) f = gthen (gfor xs f) (gfor ys f)"
  by (induction xs) (auto simp: gthen_assoc)

definition prepend :: "'a list \<Rightarrow> 'a stream \<times> 'w \<Rightarrow> 'a stream \<times> 'w" where
  "prepend xs r = ((xs @ fst (fst r), snd (fst r)), snd r)"

section \<open>Python values of JSON\<close>

text \<open>\<open>repr\<close> of a finite \<open>float\<close>, from its shortest numeral.\<close>

fun strip_zeros :: "nat \<Rightarrow> int \<Rightarrow> nat \<times> int" where
  "strip_zeros c e = (if 0 < c \<and> c mod 10 = 0 then strip_zeros (c div 10) (e + 1) else (c, e))"

declare strip_zeros.simps [simp del]

definition fixed_text :: "ustr \<Rightarrow> int \<Rightarrow> ustr" where
  "fixed_text ds point =
     (if point \<le> 0 then lit ''0.'' @ replicate (nat (- point)) 48 @ ds
      else if int (length ds) \<le> point
      then ds @ replicate (nat (point - int (length ds))) 48 @ lit ''.0''
      else take (nat point) ds @ lit ''.'' @ drop (nat point) ds)"

definition exponent_text :: "int \<Rightarrow> ustr" where
  "exponent_text x =
     lit ''e'' @ (if x < 0 then lit ''-'' else lit ''+'')
     @ (if \<bar>x\<bar> < 10 then [48] else []) @ digits_of (nat \<bar>x\<bar>)"

fun float_text :: "decimal \<Rightarrow> ustr" where
  "float_text (Finite s c e) =
     (let (c', e') = strip_zeros c e; ds = digits_of c';
          point = (if c = 0 then 1 else e' + int (length ds))
      in (if s then lit ''-'' else [])
         @ (if - 4 < point \<and> point \<le> 16 then fixed_text ds point
            else take 1 ds @ (if 1 < length ds then lit ''.'' @ drop 1 ds else [])
                 @ exponent_text (point - 1)))"
| "float_text (Infinite s) = (if s then lit ''-inf'' else lit ''inf'')"
| "float_text NaN = lit ''nan''"

text \<open>\<open>str\<close> of a value; the \<open>repr\<close> of a container is a parameter.\<close>

fun py_str :: "(json \<Rightarrow> ustr) \<Rightarrow> json \<Rightarrow> ustr" where
  "py_str repr JNull = lit ''None''"
| "py_str repr (JBool b) = (if b then lit ''True'' else lit ''False'')"
| "py_str repr (JInt n) = int_text n"
| "py_str repr (JFloat d) = float_text d"
| "py_str repr (JStr s) = s"
| "py_str repr v = repr v"

text \<open>\<open>a or b\<close>, \<open>d.get(k)\<close>, and the loop \<open>for x in v\<close>.\<close>

definition jor :: "json \<Rightarrow> json \<Rightarrow> json" where
  "jor a b = (if jtruthy a then a else b)"

fun as_dict :: "json \<Rightarrow> (ustr \<times> json) list result" where
  "as_dict (JObj ms) = Inr ms"
| "as_dict _ = Inl (OtherError (lit ''AttributeError''))"

definition first_keys :: "(ustr \<times> 'a) list \<Rightarrow> ustr list" where
  "first_keys ms = rev (remdups (rev (map fst ms)))"

fun iterate :: "json \<Rightarrow> json list result" where
  "iterate (JArr xs) = Inr xs"
| "iterate (JStr s) = Inr (map (\<lambda>c. JStr [c]) s)"
| "iterate (JObj ms) = Inr (map JStr (first_keys ms))"
| "iterate _ = Inl (OtherError (lit ''TypeError''))"

text \<open>\<open>int(v)\<close>; a numeral string may group its digits with underscores.\<close>

fun grouped :: "bool \<Rightarrow> ustr \<Rightarrow> bool" where
  "grouped after_digit [] = after_digit"
| "grouped after_digit (c # cs) =
     (if is_digit c then grouped True cs
      else c = 95 \<and> after_digit \<and> cs \<noteq> [] \<and> grouped False cs)"

definition parse_int :: "ustr \<Rightarrow> int option" where
  "parse_int s =
     (let (neg, ds) = split_sign (strip s)
      in if grouped False ds
         then Some ((if neg then - 1 else 1) * int (digits_val (filter is_digit ds))) else None)"

definition toward_zero :: "rat \<Rightarrow> int" where
  "toward_zero x = (if 0 \<le> x then \<lfloor>x\<rfloor> else \<lceil>x\<rceil>)"

fun py_int :: "json \<Rightarrow> int result" where
  "py_int (JInt n) = Inr n"
| "py_int (JBool b) = Inr (of_bool b)"
| "py_int (JFloat d) =
     (case d of
        Finite s c e \<Rightarrow> Inr (toward_zero (the (dec_val d)))
      | Infinite s \<Rightarrow> Inl (OtherError (lit ''OverflowError''))
      | NaN \<Rightarrow> Inl (PyValueError (lit ''cannot convert float NaN to integer'')))"
| "py_int (JStr s) =
     (case parse_int s of
        None \<Rightarrow> Inl (PyValueError (lit ''invalid literal for int()''))
      | Some n \<Rightarrow> Inr n)"
| "py_int _ = Inl (OtherError (lit ''TypeError''))"

text \<open>\<open>int(v or n)\<close>, and a field read as a string or nothing.\<close>

definition int_or :: "int \<Rightarrow> json \<Rightarrow> int result" where
  "int_or n v = py_int (jor v (JInt n))"

definition text_or_none :: "json \<Rightarrow> ustr option" where
  "text_or_none v = (case v of JStr s \<Rightarrow> Some s | _ \<Rightarrow> None)"

text \<open>\<open>json.dumps\<close> with its defaults: ASCII output, a dict keeps one member per key.\<close>

definition hex_digit :: "nat \<Rightarrow> nat" where
  "hex_digit n = (if n < 10 then 48 + n else 87 + n)"

definition escape_unit :: "nat \<Rightarrow> ustr" where
  "escape_unit c =
     lit [CHR 0x5C, CHR ''u'']
     @ map hex_digit [c div 4096 mod 16, c div 256 mod 16, c div 16 mod 16, c mod 16]"

definition escape_char :: "nat \<Rightarrow> ustr" where
  "escape_char c =
     (if c = 34 then [92, 34] else if c = 92 then [92, 92]
      else if c = 10 then [92, 110] else if c = 13 then [92, 114] else if c = 9 then [92, 116]
      else if c = 8 then [92, 98] else if c = 12 then [92, 102]
      else if 32 \<le> c \<and> c \<le> 126 then [c]
      else if c < 65536 then escape_unit c
      else escape_unit (55296 + (c - 65536) div 1024) @ escape_unit (56320 + (c - 65536) mod 1024))"

definition json_string :: "ustr \<Rightarrow> ustr" where
  "json_string s = [34] @ concat (map escape_char s) @ [34]"

fun json_float :: "decimal \<Rightarrow> ustr" where
  "json_float (Infinite s) = (if s then lit ''-Infinity'' else lit ''Infinity'')"
| "json_float NaN = lit ''NaN''"
| "json_float d = float_text d"

definition last_members :: "(ustr \<times> 'a) list \<Rightarrow> (ustr \<times> 'a) list" where
  "last_members ms = map (\<lambda>k. (k, the (map_of (rev ms) k))) (first_keys ms)"

fun json_dumps :: "json \<Rightarrow> ustr" where
  "json_dumps JNull = lit ''null''"
| "json_dumps (JBool b) = (if b then lit ''true'' else lit ''false'')"
| "json_dumps (JInt n) = int_text n"
| "json_dumps (JFloat d) = json_float d"
| "json_dumps (JStr s) = json_string s"
| "json_dumps (JArr xs) = lit ''['' @ join (lit '', '') (map json_dumps xs) @ lit '']''"
| "json_dumps (JObj ms) =
     lit ''{'' @ join (lit '', '') (map (\<lambda>(k, t). json_string k @ lit '': '' @ t)
       (last_members (map (\<lambda>(k, v). (k, json_dumps v)) ms))) @ lit ''}''"

lemma python_text_examples:
  "float_text (Finite False 15 (- 1)) = lit ''1.5''"
  "float_text (Finite False 20 0) = lit ''20.0''"
  "float_text (Finite True 1 16) = lit ''-1e+16''"
  "float_text (Finite False 25 (- 7)) = lit ''2.5e-06''"
  "parse_int (lit '' 1_000 '') = Some 1000"
  "parse_int (lit ''12.0'') = None"
  "json_dumps (JObj [(lit ''a'', JArr [JInt 1, JNull]), (lit ''b'', JBool True)])
     = lit ''{'' @ json_string (lit ''a'') @ lit '': [1, null], '' @ json_string (lit ''b'') @ lit '': true}''"
  by code_simp+

end
