(* ===== verification/Config.thy ===== *)
theory Config
  imports Schema
begin

text \<open>
  The settings of \<open>app/config.py\<close>. A \<open>float\<close> setting is given as the decimal its source text
  spells, which is what the code gets back from \<open>Decimal(str(x))\<close>; where the code computes with
  the float itself the models round with \<open>fl\<close>. The rounding mode is a datatype of the four
  strings its validator accepts.
\<close>

datatype price_rounding = Round_0_01 | Round_0_05 | Round_0_10 | Round_0_99

definition valid_rounding :: "ustr \<Rightarrow> price_rounding result" where
  "valid_rounding v =
     (if v = lit ''0.01'' then Inr Round_0_01
      else if v = lit ''0.05'' then Inr Round_0_05
      else if v = lit ''0.10'' then Inr Round_0_10
      else if v = lit ''0.99'' then Inr Round_0_99
      else Inl (PyValueError (lit ''price_rounding must be one of 0.01, 0.05, 0.10, 0.99'')))"

record settings =
  environment :: ustr
  log_level :: ustr
  secret_headers :: "ustr list"
  database_url :: ustr
  db_pool_size :: int
  db_max_overflow :: int
  fazercards_base_url :: ustr
  fazercards_api_key :: "ustr option"
  fazercards_rate_per_second :: rat
  fazercards_burst :: int
  g2a_base_url :: ustr
  g2a_client_id :: "ustr option"
  g2a_client_secret :: "ustr option"
  g2a_rate_per_second :: rat
  g2a_burst :: int
  g2a_price_changes_per_product_per_hour :: int
  g2a_price_change_safety_margin :: int
  retry_max_attempts :: int
  retry_base_delay_seconds :: rat
  retry_max_delay_seconds :: rat
  retry_jitter :: rat
  http_timeout_seconds :: rat
  store_currency :: ustr
  supplier_currency :: ustr
  fx_rate_usd_eur :: "rat option"
  fx_provider_url :: ustr
  fx_max_age_hours :: int
  default_markup_percent :: rat
  price_rounding :: price_rounding
  min_offer_price :: rat
  match_auto_accept_score :: rat
  match_review_score :: rat
  match_max_candidates :: nat
  catalog_sync_minutes :: int
  price_stock_sync_minutes :: int
  order_poll_seconds :: int
  deactivate_missing_after_runs :: int

definition default_settings :: settings where
  "default_settings =
     \<lparr>environment = lit ''development'',
      log_level = lit ''INFO'',
      secret_headers = [lit ''x-api-key'', lit ''authorization'', lit ''proxy-authorization''],
      database_url = lit ''postgresql+psycopg://bridge:bridge@db:5432/bridge'',
      db_pool_size = 5,
      db_max_overflow = 10,
      fazercards_base_url = lit ''https://api.fzr.cards'',
      fazercards_api_key = None,
      fazercards_rate_per_second = 5,
      fazercards_burst = 10,
      g2a_base_url = lit ''https://api.g2a.com'',
      g2a_client_id = None,
      g2a_client_secret = None,
      g2a_rate_per_second = 4,
      g2a_burst = 8,
      g2a_price_changes_per_product_per_hour = 5,
      g2a_price_change_safety_margin = 1,
      retry_max_attempts = 6,
      retry_base_delay_seconds = 1 / 2,
      retry_max_delay_seconds = 60,
      retry_jitter = 1 / 4,
      http_timeout_seconds = 30,
      store_currency = lit ''EUR'',
      supplier_currency = lit ''USD'',
      fx_rate_usd_eur = None,
      fx_provider_url = lit ''https://api.frankfurter.app/latest?from=USD&to=EUR'',
      fx_max_age_hours = 24,
      default_markup_percent = 15,
      price_rounding = Round_0_01,
      min_offer_price = 3 / 10,
      match_auto_accept_score = 92 / 100,
      match_review_score = 7 / 10,
      match_max_candidates = 10,
      catalog_sync_minutes = 60,
      price_stock_sync_minutes = 12,
      order_poll_seconds = 30,
      deactivate_missing_after_runs = 2\<rparr>"

definition require_fazercards_key :: "settings \<Rightarrow> ustr result" where
  "require_fazercards_key s =
     (case or_none (fazercards_api_key s) of
        None \<Rightarrow> Inl (PyRuntimeError
          (lit ''FAZERCARDS_API_KEY is not set -- refusing to call the supplier API''))
      | Some k \<Rightarrow> Inr k)"

definition require_g2a_credentials :: "settings \<Rightarrow> (ustr \<times> ustr) result" where
  "require_g2a_credentials s =
     (case (or_none (g2a_client_id s), or_none (g2a_client_secret s)) of
        (Some i, Some k) \<Rightarrow> Inr (i, k)
      | _ \<Rightarrow> Inl (PyRuntimeError
          (lit ''G2A_CLIENT_ID / G2A_CLIENT_SECRET are not set -- refusing to call the store API'')))"

definition effective_price_change_budget :: "settings \<Rightarrow> int" where
  "effective_price_change_budget s =
     max 1 (g2a_price_changes_per_product_per_hour s - g2a_price_change_safety_margin s)"

lemma effective_price_change_budget_pos: "1 \<le> effective_price_change_budget s"
  by (simp add: effective_price_change_budget_def)

lemma effective_price_change_budget_within_cap:
  "0 \<le> g2a_price_change_safety_margin s \<Longrightarrow> 1 \<le> g2a_price_changes_per_product_per_hour s \<Longrightarrow>
    effective_price_change_budget s \<le> g2a_price_changes_per_product_per_hour s"
  by (simp add: effective_price_change_budget_def)

end
