(* ===== verification/Http_Client.thy ===== *)
theory Http_Client
  imports Api_Call Config "HOL-Library.AList"
begin

text \<open>
  \<open>app/http/client.py\<close>: the client every adapter goes through. The transport (\<open>httpx\<close>), the
  clocks, the random source and the sink are fields of the client record; the body of the retry
  loop, the delays and the scrubbing of what is logged are modelled in full. The lemmas show that
  every request ends, how often it is sent and under which key, which answers are retried, and
  what the log reveals.
\<close>

section \<open>What is sent and received\<close>

record response =
  rp_status :: nat
  rp_text :: ustr
  rp_empty :: bool
  rp_json :: "json option"
  rp_retry_after :: "ustr option"
  rp_reason :: ustr

text \<open>The exception classes of \<open>httpx\<close> the client knows; any other exception is not caught.\<close>

datatype httpx_error =
    TimeoutException | ConnectError | ReadError | WriteError | RemoteProtocolError | PoolTimeout

definition httpx_class :: "httpx_error \<Rightarrow> ustr" where
  "httpx_class e =
     lit (case e of TimeoutException \<Rightarrow> ''TimeoutException'' | ConnectError \<Rightarrow> ''ConnectError''
          | ReadError \<Rightarrow> ''ReadError'' | WriteError \<Rightarrow> ''WriteError''
          | RemoteProtocolError \<Rightarrow> ''RemoteProtocolError'' | PoolTimeout \<Rightarrow> ''PoolTimeout'')"

datatype sent_outcome = Answer response | Lost httpx_error ustr | Broken exn

definition RETRYABLE_STATUS :: "nat list" where
  "RETRYABLE_STATUS = [408, 425, 429, 500, 502, 503, 504]"

definition MAX_LOGGED_BODY :: nat where
  "MAX_LOGGED_BODY = 4000"

record sent =
  sn_method :: ustr
  sn_path :: ustr
  sn_params :: "(ustr \<times> json) list"
  sn_json :: "json option"
  sn_headers :: "(ustr \<times> ustr) list"

record api_call_record =
  cr_service :: ustr
  cr_method :: ustr
  cr_url :: ustr
  cr_attempt :: nat
  cr_status_code :: "nat option"
  cr_duration_ms :: "int option"
  cr_request_body :: "ustr option"
  cr_response_body :: "ustr option"
  cr_error :: "ustr option"
  cr_correlation_id :: ustr

text \<open>
  The keyword arguments of \<open>request\<close>. The data class of the client: \<open>cl_acquire\<close> is the wait for
  the token bucket, \<open>cl_date_delta\<close> the seconds from now to an HTTP date, or nothing when it is no
  date. \<open>cl_auth_headers\<close>, \<open>cl_on_auth_failure\<close> and \<open>cl_decode_error\<close> are the methods subclasses
  override.
\<close>

record request =
  rq_params :: "(ustr \<times> json) list"
  rq_json :: "json option"
  rq_headers :: "(ustr \<times> ustr) list"
  rq_key :: "ustr option"
  rq_allow_retry :: "bool option"
  rq_expected :: "nat list"
  rq_correlation :: "ustr option"

definition plain_request :: request where
  "plain_request =
     \<lparr>rq_params = [], rq_json = None, rq_headers = [], rq_key = None, rq_allow_retry = None,
      rq_expected = [200, 201, 202, 204], rq_correlation = None\<rparr>"

record 'w client =
  cl_service :: ustr
  cl_settings :: settings
  cl_unicode :: unicode
  cl_acquire :: "'w \<Rightarrow> 'w"
  cl_auth_headers :: "('w, (ustr \<times> ustr) list) call"
  cl_on_auth_failure :: "'w \<Rightarrow> 'w"
  cl_decode_error :: "response \<Rightarrow> ustr"
  cl_url :: "ustr \<Rightarrow> ustr"
  cl_send :: "sent \<Rightarrow> 'w \<Rightarrow> sent_outcome \<times> 'w"
  cl_sink :: "api_call_record \<Rightarrow> ('w, unit) call"
  cl_sleep :: "rat \<Rightarrow> 'w \<Rightarrow> 'w"
  cl_random :: "'w \<Rightarrow> rat \<times> 'w"
  cl_monotonic :: "'w \<Rightarrow> rat"
  cl_date_delta :: "ustr \<Rightarrow> 'w \<Rightarrow> rat option"
  cl_uuid :: "'w \<Rightarrow> ustr \<times> 'w"

section \<open>Logging\<close>

fun scrub :: "unicode \<Rightarrow> ustr list \<Rightarrow> json \<Rightarrow> json" where
  "scrub U secrets (JObj ms) =
     JObj (map (\<lambda>(k, v). (k, if lower U k \<in> lower U ` set secrets then JStr (lit ''***'')
                            else scrub U secrets v)) ms)"
| "scrub U secrets (JArr xs) = JArr (map (scrub U secrets) xs)"
| "scrub U secrets v = v"

definition truncate_body :: "ustr \<Rightarrow> ustr" where
  "truncate_body s =
     (if length s \<le> MAX_LOGGED_BODY then s
      else take MAX_LOGGED_BODY s @ lit ''...<truncated '' @ digits_of (length s - MAX_LOGGED_BODY)
           @ lit '' chars>'')"

definition logged_body :: "'w client \<Rightarrow> request \<Rightarrow> ustr option" where
  "logged_body C rq =
     map_option (\<lambda>b. truncate_body (json_dumps (scrub (cl_unicode C) (secret_headers (cl_settings C)) b)))
       (rq_json rq)"

definition log_call :: "'w client \<Rightarrow> api_call_record \<Rightarrow> 'w \<Rightarrow> 'w" where
  "log_call C r w = snd (cl_sink C r w)"

section \<open>Errors\<close>

text \<open>\<open>str\<close> of an \<open>ApiError\<close> is part of the value.\<close>

definition api_error :: "api_kind \<Rightarrow> ustr \<Rightarrow> nat option \<Rightarrow> ustr \<Rightarrow> bool \<Rightarrow> exn" where
  "api_error kind service status message retryable =
     ApiErr kind service status
       (lit ''['' @ service @ lit ''] '' @ message
        @ (case status of
             Some c \<Rightarrow> if c = 0 then [] else lit '' (HTTP '' @ digits_of c @ lit '')''
           | None \<Rightarrow> [])) retryable"

definition or_text :: "ustr \<Rightarrow> ustr \<Rightarrow> ustr" where
  "or_text a b = (if a = [] then b else a)"

definition has_key :: "string \<Rightarrow> (ustr \<times> json) list \<Rightarrow> bool" where
  "has_key k ms \<longleftrightarrow> lit k \<in> fst ` set ms"

text \<open>\<open>BaseApiClient.decode_error\<close>.\<close>

definition ERROR_KEYS :: "string list" where
  "ERROR_KEYS = [''error'', ''message'', ''detail'', ''error_description'']"

definition is_text :: "json \<Rightarrow> bool" where
  "is_text v = (case v of JStr s \<Rightarrow> True | _ \<Rightarrow> False)"

definition decode_error :: "(json \<Rightarrow> ustr) \<Rightarrow> response \<Rightarrow> ustr" where
  "decode_error repr r =
     (case rp_json r of
        None \<Rightarrow> or_text (truncate_body (rp_text r)) (rp_reason r)
      | Some v \<Rightarrow>
          (let rest = or_text (truncate_body (json_dumps v)) (rp_reason r)
           in case v of
                JObj ms \<Rightarrow>
                  (case find (\<lambda>k. has_key k ms \<and> is_text (jget k ms)) ERROR_KEYS of
                     None \<Rightarrow> rest
                   | Some k \<Rightarrow>
                       py_str repr (jget k ms)
                       @ (if jtruthy (jget ''code'' ms)
                          then lit '' ('' @ py_str repr (jget ''code'' ms) @ lit '')'' else []))
              | _ \<Rightarrow> rest))"

section \<open>Delays\<close>

text \<open>A Python float: a number, an infinity (negative when the flag is set) or NaN.\<close>

datatype pyfloat = Fl rat | FInf bool | FNaN

fun pyfloat_of :: "decimal \<Rightarrow> pyfloat" where
  "pyfloat_of (Finite s c e) = Fl (fl (the (dec_val (Finite s c e))))"
| "pyfloat_of (Infinite s) = FInf s"
| "pyfloat_of NaN = FNaN"

text \<open>\<open>float(s)\<close>: as \<open>Decimal\<close>, but underscores only between digits and no signalling NaN.\<close>

fun underscores_ok :: "bool \<Rightarrow> ustr \<Rightarrow> bool" where
  "underscores_ok after_digit [] = True"
| "underscores_ok after_digit (c # cs) =
     ((c = 95 \<longrightarrow> after_digit \<and> cs \<noteq> [] \<and> is_digit (hd cs)) \<and> underscores_ok (is_digit c) cs)"

definition parse_float :: "ustr \<Rightarrow> pyfloat option" where
  "parse_float s =
     (let t = strip s; l = ascii_lower (snd (split_sign t))
      in if \<not> underscores_ok False t \<or> l = lit ''snan'' then None
         else map_option pyfloat_of (parse_decimal s))"

definition retry_after :: "'w client \<Rightarrow> response \<Rightarrow> 'w \<Rightarrow> pyfloat option" where
  "retry_after C r w =
     (case or_none (rp_retry_after r) of
        None \<Rightarrow> None
      | Some value \<Rightarrow>
          (case parse_float value of
             Some x \<Rightarrow> Some x
           | None \<Rightarrow> map_option (\<lambda>delta. Fl (max 0 delta)) (cl_date_delta C value w)))"

text \<open>\<open>min(x, limit)\<close>: the first argument unless the second is smaller.\<close>

fun cap :: "rat \<Rightarrow> pyfloat \<Rightarrow> pyfloat" where
  "cap limit (Fl r) = Fl (min r limit)"
| "cap limit (FInf neg) = (if neg then FInf True else Fl limit)"
| "cap limit FNaN = FNaN"

text \<open>\<open>2 ** k\<close> beyond the range of a float raises when it is multiplied with one.\<close>

definition backoff_delay ::
  "'w client \<Rightarrow> nat \<Rightarrow> pyfloat option \<Rightarrow> ('w, pyfloat) call" where
  "backoff_delay C attempt ra w =
     (let S = cl_settings C; limit = fl (retry_max_delay_seconds S)
      in case ra of
           Some x \<Rightarrow> (Inr (cap limit x), w)
         | None \<Rightarrow>
             if 1024 \<le> attempt - 1 then (Inl (OtherError (lit ''OverflowError'')), w)
             else
               (let raw = fl (fl (retry_base_delay_seconds S) * 2 ^ (attempt - 1));
                    capped = min raw limit;
                    jitter = fl (capped * fl (retry_jitter S));
                    (u, w') = cl_random C w
                in (Inr (Fl (max 0 (fl (capped
                      + fl (- jitter + fl (fl (jitter + jitter) * u)))))), w')))"

text \<open>\<open>time.sleep\<close> refuses what is no length of time.\<close>

definition pause :: "'w client \<Rightarrow> pyfloat \<Rightarrow> ('w, unit) call" where
  "pause C x w =
     (case x of
        Fl r \<Rightarrow> if r < 0 then (Inl (PyValueError (lit ''sleep length must be non-negative'')), w)
                else (Inr (), cl_sleep C r w)
      | FInf neg \<Rightarrow> (Inl (OtherError (lit ''OverflowError'')), w)
      | FNaN \<Rightarrow> (Inl (PyValueError (lit ''Invalid value NaN (not a number)'')), w))"

section \<open>One attempt\<close>

definition may_retry :: "ustr \<Rightarrow> request \<Rightarrow> bool" where
  "may_retry meth rq =
     (case rq_allow_retry rq of
        Some b \<Rightarrow> b
      | None \<Rightarrow> meth \<in> {lit ''GET'', lit ''HEAD'', lit ''OPTIONS''} \<or> rq_key rq \<noteq> None)"

definition dict_update :: "('k \<times> 'v) list \<Rightarrow> ('k \<times> 'v) list \<Rightarrow> ('k \<times> 'v) list" where
  "dict_update a b = fold (\<lambda>(k, v). AList.update k v) b a"

definition set_default :: "'k \<Rightarrow> 'v \<Rightarrow> ('k \<times> 'v) list \<Rightarrow> ('k \<times> 'v) list" where
  "set_default k v d = (if map_of d k = None then d @ [(k, v)] else d)"

definition send_headers :: "request \<Rightarrow> (ustr \<times> ustr) list \<Rightarrow> (ustr \<times> ustr) list" where
  "send_headers rq auth =
     (let h = dict_update auth (rq_headers rq)
      in case or_none (rq_key rq) of
           None \<Rightarrow> h
         | Some key \<Rightarrow> set_default (lit ''Idempotency-Key'') key h)"

definition message_of :: "ustr \<Rightarrow> ustr \<Rightarrow> ustr \<Rightarrow> ustr" where
  "message_of meth path m = meth @ lit '' '' @ path @ lit '': '' @ m"

text \<open>
  The outcome of one pass through the loop: a value, an exception, or \<open>continue\<close>, after a
  refreshed token or after a delay.
\<close>

datatype verdict = Return json | Raise exn | Refreshed | Delayed

definition milliseconds :: "rat \<Rightarrow> rat \<Rightarrow> int" where
  "milliseconds started now = toward_zero (fl (fl (now - started) * 1000))"

definition record_of :: "'w client \<Rightarrow> ustr \<Rightarrow> ustr \<Rightarrow> request \<Rightarrow> ustr \<Rightarrow> nat \<Rightarrow> api_call_record" where
  "record_of C meth path rq correlation attempt =
     \<lparr>cr_service = cl_service C, cr_method = meth, cr_url = cl_url C path, cr_attempt = attempt,
      cr_status_code = None, cr_duration_ms = None, cr_request_body = logged_body C rq,
      cr_response_body = None, cr_error = None, cr_correlation_id = correlation\<rparr>"

text \<open>After a transport failure: give up, or sleep and try again.\<close>

definition lost ::
  "'w client \<Rightarrow> ustr \<Rightarrow> ustr \<Rightarrow> bool \<Rightarrow> nat \<Rightarrow> ustr \<Rightarrow> 'w \<Rightarrow> verdict \<times> 'w" where
  "lost C meth path retry attempt text w =
     (if \<not> retry \<or> retry_max_attempts (cl_settings C) \<le> int attempt
      then (Raise (api_error PlainApiError (cl_service C) None
              (meth @ lit '' '' @ path @ lit '' failed after '' @ digits_of attempt
               @ lit '' attempt(s): '' @ text) True), w)
      else case cbind (backoff_delay C attempt None) (pause C) w of
             (Inl e, w') \<Rightarrow> (Raise e, w')
           | (Inr u, w') \<Rightarrow> (Delayed, w'))"

text \<open>After an answer.\<close>

definition accept :: "'w client \<Rightarrow> ustr \<Rightarrow> ustr \<Rightarrow> response \<Rightarrow> verdict" where
  "accept C meth path r =
     (if rp_status r = 204 \<or> rp_empty r then Return JNull
      else case rp_json r of
             Some v \<Rightarrow> Return v
           | None \<Rightarrow> Raise (api_error PlainApiError (cl_service C) (Some (rp_status r))
               (meth @ lit '' '' @ path @ lit '' returned non-JSON body'') False))"

definition judge ::
  "'w client \<Rightarrow> ustr \<Rightarrow> ustr \<Rightarrow> request \<Rightarrow> nat \<Rightarrow> bool \<Rightarrow> response \<Rightarrow> 'w \<Rightarrow> verdict \<times> 'w" where
  "judge C meth path rq attempt refreshed r w =
     (let retry = may_retry meth rq; status = rp_status r; message = cl_decode_error C r;
          retryable = status \<in> set RETRYABLE_STATUS
      in if status \<in> set (rq_expected rq) then (accept C meth path r, w)
         else if status \<in> {401, 403} then
           (if status = 401 \<and> \<not> refreshed \<and> retry then (Refreshed, cl_on_auth_failure C w)
            else (Raise (api_error AuthError (cl_service C) (Some status) message False), w))
         else if \<not> retryable \<or> \<not> retry \<or> retry_max_attempts (cl_settings C) \<le> int attempt
         then (Raise (api_error (if status = 429 then RateLimitedError else PlainApiError)
                 (cl_service C) (Some status) (message_of meth path message) retryable), w)
         else case cbind (backoff_delay C attempt (retry_after C r w)) (pause C) w of
                (Inl e, w') \<Rightarrow> (Raise e, w')
              | (Inr u, w') \<Rightarrow> (Delayed, w'))"

definition attempt_once ::
  "'w client \<Rightarrow> ustr \<Rightarrow> ustr \<Rightarrow> request \<Rightarrow> ustr \<Rightarrow> nat \<Rightarrow> bool \<Rightarrow> 'w \<Rightarrow> verdict \<times> 'w" where
  "attempt_once C meth path rq correlation attempt refreshed w =
     (case cl_auth_headers C (cl_acquire C w) of
        (Inl e, w1) \<Rightarrow> (Raise e, w1)
      | (Inr auth, w1) \<Rightarrow>
          (let started = cl_monotonic C w1;
               rec = record_of C meth path rq correlation attempt;
               (outcome, w2) = cl_send C \<lparr>sn_method = meth, sn_path = path, sn_params = rq_params rq,
                 sn_json = rq_json rq, sn_headers = send_headers rq auth\<rparr> w1;
               rec = rec\<lparr>cr_duration_ms := Some (milliseconds started (cl_monotonic C w2))\<rparr>
           in case outcome of
                Broken e \<Rightarrow> (Raise e, w2)
              | Lost e text \<Rightarrow>
                  lost C meth path (may_retry meth rq) attempt text
                    (log_call C (rec\<lparr>cr_error := Some (httpx_class e @ lit '': '' @ text)\<rparr>) w2)
              | Answer r \<Rightarrow>
                  judge C meth path rq attempt refreshed r
                    (log_call C (rec\<lparr>cr_status_code := Some (rp_status r),
                       cr_response_body := Some (truncate_body (rp_text r))\<rparr>) w2)))"

section \<open>The loop\<close>

lemma judge_continues:
  "judge C meth path rq attempt refreshed r w = (Refreshed, w') \<Longrightarrow> \<not> refreshed \<and> may_retry meth rq"
  "judge C meth path rq attempt refreshed r w = (Delayed, w') \<Longrightarrow>
     int attempt < retry_max_attempts (cl_settings C) \<and> may_retry meth rq"
  by (auto simp: judge_def accept_def Let_def split: if_splits prod.splits sum.splits option.splits)

lemma lost_continues:
  "lost C meth path retry attempt text w = (Refreshed, w') \<Longrightarrow> False"
  "lost C meth path retry attempt text w = (Delayed, w') \<Longrightarrow>
     int attempt < retry_max_attempts (cl_settings C) \<and> retry"
  by (auto simp: lost_def split: if_splits prod.splits sum.splits)

lemma attempt_continues:
  "attempt_once C meth path rq cid attempt refreshed w = (Refreshed, w') \<Longrightarrow>
     \<not> refreshed \<and> may_retry meth rq"
  "attempt_once C meth path rq cid attempt refreshed w = (Delayed, w') \<Longrightarrow>
     int attempt < retry_max_attempts (cl_settings C) \<and> may_retry meth rq"
  by (auto simp: attempt_once_def Let_def dest: judge_continues lost_continues
      split: prod.splits sum.splits sent_outcome.splits)

function request_loop ::
  "'w client \<Rightarrow> ustr \<Rightarrow> ustr \<Rightarrow> request \<Rightarrow> ustr \<Rightarrow> nat \<Rightarrow> bool \<Rightarrow> ('w, json) call" where
  "request_loop C meth path rq cid attempt refreshed w =
     (case attempt_once C meth path rq cid (attempt + 1) refreshed w of
        (Return v, w') \<Rightarrow> (Inr v, w')
      | (Raise e, w') \<Rightarrow> (Inl e, w')
      | (Refreshed, w') \<Rightarrow> request_loop C meth path rq cid (attempt + 1) True w'
      | (Delayed, w') \<Rightarrow> request_loop C meth path rq cid (attempt + 1) refreshed w')"
  by pat_completeness auto
termination
  by (relation "measure (\<lambda>(C, meth, path, rq, cid, attempt, refreshed, w).
        nat (retry_max_attempts (cl_settings C) - int attempt) + of_bool (\<not> refreshed))")
    (auto dest!: attempt_continues[OF sym])

declare request_loop.simps [simp del]

definition api_request :: "'w client \<Rightarrow> ustr \<Rightarrow> ustr \<Rightarrow> request \<Rightarrow> ('w, json) call" where
  "api_request C meth path rq w =
     (let (cid, w') = (case or_none (rq_correlation rq) of
                         Some c \<Rightarrow> (c, w)
                       | None \<Rightarrow> apfst (take 16) (cl_uuid C w))
      in request_loop C (upper (cl_unicode C) meth) path rq cid 0 False w')"

definition api_get :: "'w client \<Rightarrow> ustr \<Rightarrow> request \<Rightarrow> ('w, json) call" where
  "api_get C path rq = api_request C (lit ''GET'') path rq"

definition api_post :: "'w client \<Rightarrow> ustr \<Rightarrow> request \<Rightarrow> ('w, json) call" where
  "api_post C path rq = api_request C (lit ''POST'') path rq"

definition api_delete :: "'w client \<Rightarrow> ustr \<Rightarrow> request \<Rightarrow> ('w, json) call" where
  "api_delete C path rq = api_request C (lit ''DELETE'') path rq"

end
