(* ===== verification/Http_Safety.thy ===== *)
theory Http_Safety
  imports Http_Client
begin

text \<open>
  What the client of \<open>Http_Client\<close> guarantees: the number of times a request reaches the network
  and what every attempt carries, the log it leaves, the delays between attempts, and what the
  log hides.
\<close>

section \<open>Attempts and their log\<close>

text \<open>
  \<open>tr\<close> observes in the world what was put on the wire and \<open>lg\<close> what the sink was given; no other
  operation of the client changes either.
\<close>

definition observed ::
  "('w \<Rightarrow> sent list) \<Rightarrow> ('w \<Rightarrow> api_call_record list) \<Rightarrow> 'w client \<Rightarrow> bool" where
  "observed tr lg C \<longleftrightarrow>
     (\<forall>s w. tr (snd (cl_send C s w)) = tr w @ [s] \<and> lg (snd (cl_send C s w)) = lg w)
     \<and> (\<forall>r w. tr (snd (cl_sink C r w)) = tr w \<and> lg (snd (cl_sink C r w)) = lg w @ [r])
     \<and> (\<forall>w. tr (cl_acquire C w) = tr w \<and> lg (cl_acquire C w) = lg w)
     \<and> (\<forall>w. tr (snd (cl_auth_headers C w)) = tr w \<and> lg (snd (cl_auth_headers C w)) = lg w)
     \<and> (\<forall>w. tr (cl_on_auth_failure C w) = tr w \<and> lg (cl_on_auth_failure C w) = lg w)
     \<and> (\<forall>x w. tr (cl_sleep C x w) = tr w \<and> lg (cl_sleep C x w) = lg w)
     \<and> (\<forall>w. tr (snd (cl_random C w)) = tr w \<and> lg (snd (cl_random C w)) = lg w)
     \<and> (\<forall>w. tr (snd (cl_uuid C w)) = tr w \<and> lg (snd (cl_uuid C w)) = lg w)"

text \<open>What one attempt of a request puts on the wire.\<close>

definition carries :: "ustr \<Rightarrow> ustr \<Rightarrow> request \<Rightarrow> 'w client \<Rightarrow> sent \<Rightarrow> bool" where
  "carries meth path rq C s \<longleftrightarrow>
     sn_method s = meth \<and> sn_path s = path \<and> sn_params s = rq_params rq \<and> sn_json s = rq_json rq
     \<and> (\<exists>auth w. fst (cl_auth_headers C w) = Inr auth \<and> sn_headers s = send_headers rq auth)"

definition documents :: "request \<Rightarrow> 'w client \<Rightarrow> ustr \<Rightarrow> ustr \<Rightarrow> api_call_record \<Rightarrow> bool" where
  "documents rq C meth cid r \<longleftrightarrow>
     cr_service r = cl_service C \<and> cr_method r = meth \<and> cr_correlation_id r = cid
     \<and> cr_request_body r = logged_body C rq"

text \<open>The transport raises nothing but the exceptions the client catches.\<close>

definition never_broken :: "'w client \<Rightarrow> bool" where
  "never_broken C \<longleftrightarrow> (\<forall>s w e. fst (cl_send C s w) \<noteq> Broken e)"

lemma pause_frame:
  assumes "observed tr lg C"
  shows "tr (snd (pause C x w)) = tr w \<and> lg (snd (pause C x w)) = lg w"
  using assms by (auto simp: pause_def observed_def split: pyfloat.split)

lemma backoff_frame:
  assumes "observed tr lg C"
  shows "tr (snd (backoff_delay C n ra w)) = tr w \<and> lg (snd (backoff_delay C n ra w)) = lg w"
  using assms by (auto simp: backoff_delay_def observed_def Let_def split: option.split prod.splits)
    (metis snd_conv)+

lemma wait_frame:
  assumes "observed tr lg C" "cbind (backoff_delay C n ra) (pause C) w = (r, w')"
  shows "tr w' = tr w \<and> lg w' = lg w"
proof -
  obtain x w1 where b: "backoff_delay C n ra w = (x, w1)" by (metis prod.collapse)
  have 1: "tr w1 = tr w \<and> lg w1 = lg w" using backoff_frame[OF assms(1), of n ra w] b by simp
  show ?thesis
  proof (cases x)
    case (Inl e)
    with assms(2) b 1 show ?thesis by (simp add: cbind_def)
  next
    case (Inr d)
    with assms(2) b have "pause C d w1 = (r, w')" by (simp add: cbind_def)
    with pause_frame[OF assms(1), of d w1] 1 show ?thesis by simp
  qed
qed

lemma lost_frame:
  assumes "observed tr lg C" "lost C meth path retry n text w = (v, w')"
  shows "tr w' = tr w \<and> lg w' = lg w"
  using assms(2) wait_frame[OF assms(1)]
  by (auto simp: lost_def split: if_splits prod.splits sum.splits)

lemma judge_frame:
  assumes "observed tr lg C" "judge C meth path rq n refreshed r w = (v, w')"
  shows "tr w' = tr w \<and> lg w' = lg w"
  using assms(2) wait_frame[OF assms(1)] assms(1)
  by (auto simp: judge_def Let_def observed_def split: if_splits prod.splits sum.splits)

lemma attempt_effect:
  assumes obs: "observed tr lg C"
    and run: "attempt_once C meth path rq cid n refreshed w = (v, w')"
  obtains (unsent) e where "v = Raise e" "tr w' = tr w" "lg w' = lg w"
  | (one) s r where "carries meth path rq C s" "tr w' = tr w @ [s]" "lg w' = lg w @ [r]"
      "documents rq C meth cid r" "cr_attempt r = n"
  | (broken) s e where "carries meth path rq C s" "tr w' = tr w @ [s]" "lg w' = lg w" "v = Raise e"
      "\<not> never_broken C"
proof -
  obtain a w1 where a: "cl_auth_headers C (cl_acquire C w) = (a, w1)" by (metis prod.collapse)
  have 1: "tr w1 = tr w" "lg w1 = lg w"
    using obs a unfolding observed_def by (metis snd_conv)+
  show thesis
  proof (cases a)
    case (Inl e)
    with run a have "v = Raise e" "w' = w1" by (simp_all add: attempt_once_def)
    with 1 unsent show thesis by blast
  next
    case (Inr auth)
    let ?s = "\<lparr>sn_method = meth, sn_path = path, sn_params = rq_params rq, sn_json = rq_json rq,
      sn_headers = send_headers rq auth\<rparr>"
    have c: "carries meth path rq C ?s" using a Inr unfolding carries_def
      by (simp, intro exI[of _ auth] conjI exI[of _ "cl_acquire C w"]) simp_all
    obtain out w2 where o: "cl_send C ?s w1 = (out, w2)" by (metis prod.collapse)
    have 2: "tr w2 = tr w @ [?s]" "lg w2 = lg w"
      using obs o 1 unfolding observed_def by (metis snd_conv)+
    have sink: "tr (log_call C r w2) = tr w @ [?s]" "lg (log_call C r w2) = lg w @ [r]" for r
      using obs 2 unfolding observed_def log_call_def by metis+
    have doc: "documents rq C meth cid (f (record_of C meth path rq cid n))"
      "cr_attempt (f (record_of C meth path rq cid n)) = n"
      if "f = (\<lambda>r. r\<lparr>cr_duration_ms := t, cr_error := e\<rparr>)
        \<or> f = (\<lambda>r. r\<lparr>cr_duration_ms := t, cr_status_code := st, cr_response_body := b\<rparr>)" for f t e st b
      using that by (auto simp: documents_def record_of_def)
    note step = run[unfolded attempt_once_def a, simplified Inr sum.case prod.case o Let_def]
    show thesis
    proof (cases out)
      case (Broken e)
      with step have "v = Raise e" "w' = w2" by simp_all
      with c 2 Broken o broken show thesis by (metis never_broken_def fst_conv)
    next
      case (Lost e msg)
      with step obtain r where r: "lost C meth path (may_retry meth rq) n msg (log_call C r w2) = (v, w')"
        "documents rq C meth cid r" "cr_attempt r = n"
        using doc by (auto simp: record_of_def documents_def)
      from lost_frame[OF obs r(1)] sink one[OF c _ _ r(2,3)] show thesis by simp
    next
      case (Answer p)
      with step obtain r where r: "judge C meth path rq n refreshed p (log_call C r w2) = (v, w')"
        "documents rq C meth cid r" "cr_attempt r = n"
        using doc by (auto simp: record_of_def documents_def)
      from judge_frame[OF obs r(1)] sink one[OF c _ _ r(2,3)] show thesis by simp
    qed
  qed
qed

definition most_sends :: "'w client \<Rightarrow> nat \<Rightarrow> bool \<Rightarrow> int" where
  "most_sends C attempt refreshed =
     max 1 (retry_max_attempts (cl_settings C) - int attempt) + of_bool (\<not> refreshed)"

definition traffic ::
  "('w \<Rightarrow> sent list) \<Rightarrow> ('w \<Rightarrow> api_call_record list) \<Rightarrow> 'w client \<Rightarrow> ustr \<Rightarrow> ustr \<Rightarrow> request \<Rightarrow> ustr
    \<Rightarrow> nat \<Rightarrow> 'w \<Rightarrow> 'w \<Rightarrow> sent list \<Rightarrow> api_call_record list \<Rightarrow> bool" where
  "traffic tr lg C meth path rq cid n w w' ss rs \<longleftrightarrow>
     tr w' = tr w @ ss \<and> lg w' = lg w @ rs
     \<and> (\<forall>s \<in> set ss. carries meth path rq C s) \<and> (\<forall>r \<in> set rs. documents rq C meth cid r)
     \<and> map cr_attempt rs = [n + 1 ..< n + 1 + length rs]
     \<and> length rs \<le> length ss \<and> (never_broken C \<longrightarrow> length rs = length ss)"

lemma traffic_Cons:
  assumes "carries meth path rq C s" "tr w1 = tr w @ [s]" "lg w1 = lg w @ [r]"
    "documents rq C meth cid r" "cr_attempt r = n + 1"
    "traffic tr lg C meth path rq cid (n + 1) w1 w' ss rs"
  shows "traffic tr lg C meth path rq cid n w w' (s # ss) (r # rs)"
proof -
  have "map cr_attempt (r # rs) = (n + 1) # [n + 1 + 1 ..< n + 1 + 1 + length rs]"
    using assms by (simp add: traffic_def)
  also have "\<dots> = [n + 1 ..< n + 1 + length (r # rs)]" by (simp add: upt_conv_Cons del: upt_Suc)
  finally show ?thesis using assms by (simp add: traffic_def)
qed

lemma loop_traffic:
  assumes "observed tr lg C"
  shows "request_loop C meth path rq cid n refreshed w = (x, w') \<Longrightarrow>
    \<exists>ss rs. traffic tr lg C meth path rq cid n w w' ss rs
      \<and> int (length ss) \<le> most_sends C n refreshed \<and> (\<not> may_retry meth rq \<longrightarrow> length ss \<le> 1)"
  using assms
proof (induction C meth path rq cid n refreshed w rule: request_loop.induct)
  case (1 C meth path rq cid n refreshed w)
  obtain v w1 where v: "attempt_once C meth path rq cid (n + 1) refreshed w = (v, w1)"
    by (metis prod.collapse)
  note run = "1.prems"(1)[unfolded request_loop.simps[of C meth path rq cid n] v prod.case]
  have ms: "1 \<le> most_sends C n refreshed" "0 \<le> most_sends C n refreshed"
    by (auto simp: most_sends_def max_def)
  from "1.prems"(2) v show ?case
  proof (cases rule: attempt_effect)
    case (unsent e)
    then have "w' = w1" using run by simp
    with unsent ms have "traffic tr lg C meth path rq cid n w w' [] [] \<and> int (length []) \<le> most_sends C n refreshed"
      by (simp add: traffic_def)
    then show ?thesis by force
  next
    case (broken s e)
    then have "w' = w1" using run by simp
    with broken ms have "traffic tr lg C meth path rq cid n w w' [s] []" "int (length [s]) \<le> most_sends C n refreshed"
      by (simp_all add: traffic_def)
    then show ?thesis by fastforce
  next
    case (one s r)
    have stop: ?thesis if "w' = w1"
    proof -
      have "traffic tr lg C meth path rq cid n w w' [s] [r]" "int (length [s]) \<le> most_sends C n refreshed"
        using one ms that by (simp_all add: traffic_def)
      then show ?thesis by fastforce
    qed
    have go: ?thesis
      if ih: "\<exists>ss rs. traffic tr lg C meth path rq cid (n + 1) w1 w' ss rs
          \<and> int (length ss) \<le> most_sends C (n + 1) rf \<and> (\<not> may_retry meth rq \<longrightarrow> length ss \<le> 1)"
        and rt: "may_retry meth rq" and lt: "1 + most_sends C (n + 1) rf \<le> most_sends C n refreshed" for rf
    proof -
      from ih obtain ss rs where "traffic tr lg C meth path rq cid (n + 1) w1 w' ss rs"
        "int (length ss) \<le> most_sends C (n + 1) rf" by blast
      with traffic_Cons[of meth path rq C s tr w1 w lg r cid n, OF one] rt lt show ?thesis
        by (intro exI[of _ "s # ss"] exI[of _ "r # rs"]) auto
    qed
    show ?thesis
    proof (cases v)
      case (Return j)
      with run stop show ?thesis by simp
    next
      case (Raise e)
      with run stop show ?thesis by simp
    next
      case Refreshed
      note c = attempt_continues(1)[OF v[unfolded Refreshed]]
      have "1 + most_sends C (n + 1) True \<le> most_sends C n refreshed" using c by (auto simp: most_sends_def)
      with "1.IH"(1)[OF v[symmetric] Refreshed] run Refreshed "1.prems"(2) c go show ?thesis by simp
    next
      case Delayed
      note c = attempt_continues(2)[OF v[unfolded Delayed]]
      have "1 + most_sends C (n + 1) refreshed \<le> most_sends C n refreshed" using c by (auto simp: most_sends_def)
      with "1.IH"(2)[OF v[symmetric] Delayed] run Delayed "1.prems"(2) c go show ?thesis by simp
    qed
  qed
qed

lemma request_traffic:
  assumes "observed tr lg C" "api_request C meth path rq w = (x, w')"
  obtains cid ss rs where
    "traffic tr lg C (upper (cl_unicode C) meth) path rq cid 0 w w' ss rs"
    "int (length ss) \<le> max 1 (retry_max_attempts (cl_settings C)) + 1"
    "\<not> may_retry (upper (cl_unicode C) meth) rq \<Longrightarrow> length ss \<le> 1"
proof -
  obtain cid w1 where c: "(case or_none (rq_correlation rq) of Some c \<Rightarrow> (c, w)
      | None \<Rightarrow> apfst (take 16) (cl_uuid C w)) = (cid, w1)" by (metis prod.collapse)
  then have same: "tr w1 = tr w" "lg w1 = lg w"
    using assms(1) unfolding observed_def
    by (cases "or_none (rq_correlation rq)"; cases "cl_uuid C w"; auto; metis snd_conv)+
  from assms(2) c have "request_loop C (upper (cl_unicode C) meth) path rq cid 0 False w1 = (x, w')"
    by (simp add: api_request_def)
  from loop_traffic[OF assms(1) this] same that show thesis
    by (auto simp: traffic_def most_sends_def)
qed

section \<open>How often a request is sent\<close>

text \<open>
  C35: Every request ends, after at most the configured number of attempts, and one more for a
  refreshed token.
\<close>
theorem request_ends_within_attempts:
  assumes "observed tr lg C"
  shows "\<exists>x w' ss. api_request C meth path rq w = (x, w') \<and> tr w' = tr w @ ss
    \<and> int (length ss) \<le> max 1 (retry_max_attempts (cl_settings C)) + 1"
  using request_traffic[OF assms] by (metis prod.collapse traffic_def)


lemma map_of_dict_update: "k \<notin> fst ` set b \<Longrightarrow> map_of (dict_update a b) k = map_of a k"
  unfolding dict_update_def
proof (induction b arbitrary: a)
  case (Cons x b)
  obtain k1 v1 where x: "x = (k1, v1)" by (cases x)
  with Cons.prems have "k \<noteq> k1" "k \<notin> fst ` set b" by auto
  with Cons.IH[of "AList.update k1 v1 a"] x show ?case by (simp add: update_conv)
qed simp

lemma map_of_set_default:
  "map_of d k = None \<Longrightarrow> map_of (set_default k v d) k = Some v"
  by (simp add: set_default_def map_of_append map_add_def)

lemma keyed_traffic:
  assumes "observed tr lg C" "api_request C meth path rq w = (x, w')"
    and "rq_key rq = Some key" "key \<noteq> []"
    and "lit ''Idempotency-Key'' \<notin> fst ` set (rq_headers rq)"
    and "\<And>w auth. fst (cl_auth_headers C w) = Inr auth \<Longrightarrow> map_of auth (lit ''Idempotency-Key'') = None"
  shows "\<exists>ss. tr w' = tr w @ ss \<and> (\<forall>s \<in> set ss. sn_path s = path \<and> sn_json s = rq_json rq
      \<and> map_of (sn_headers s) (lit ''Idempotency-Key'') = Some key)"
proof -
  obtain cid ss rs where t: "traffic tr lg C (upper (cl_unicode C) meth) path rq cid 0 w w' ss rs"
    by (rule request_traffic[OF assms(1,2)])
  have "map_of (sn_headers s) (lit ''Idempotency-Key'') = Some key"
    if "carries (upper (cl_unicode C) meth) path rq C s" for s
  proof -
    from that obtain auth w1 where a: "fst (cl_auth_headers C w1) = Inr auth"
      "sn_headers s = send_headers rq auth" by (auto simp: carries_def)
    from map_of_dict_update[OF assms(5), of auth] assms(6)[OF a(1)]
    have "map_of (dict_update auth (rq_headers rq)) (lit ''Idempotency-Key'') = None" by simp
    from map_of_set_default[OF this, of key] a(2) assms(3,4) show ?thesis
      by (simp add: send_headers_def Let_def)
  qed
  with t show ?thesis unfolding traffic_def carries_def by blast
qed

text \<open>
  All attempts of a keyed request carry the same idempotency key and the same body, so a server
  that executes a key once executes the request once, however often it is sent.
\<close>
theorem attempts_share_idempotency_key:
  assumes "observed tr lg C" "api_request C meth path rq w = (x, w')"
    and "rq_key rq = Some key" "key \<noteq> []"
    and "lit ''Idempotency-Key'' \<notin> fst ` set (rq_headers rq)"
    and "\<And>w auth. fst (cl_auth_headers C w) = Inr auth \<Longrightarrow> map_of auth (lit ''Idempotency-Key'') = None"
  shows "\<exists>ss. tr w' = tr w @ ss \<and> (\<forall>s \<in> set ss. sn_path s = path \<and> sn_json s = rq_json rq
      \<and> map_of (sn_headers s) (lit ''Idempotency-Key'') = Some key)"
  by (rule keyed_traffic[OF assms])

text \<open>
  Every attempt is logged: the records handed to the sink are numbered from 1 without a gap, carry
  one correlation id and the scrubbed body, and there is one for each time the request was sent,
  unless the transport raised something the client does not catch.
\<close>
theorem every_attempt_is_logged:
  assumes "observed tr lg C" "api_request C meth path rq w = (x, w')"
  shows "\<exists>rs cid. lg w' = lg w @ rs \<and> map cr_attempt rs = [1 ..< length rs + 1]
    \<and> (\<forall>r \<in> set rs. cr_service r = cl_service C \<and> cr_correlation_id r = cid
         \<and> cr_request_body r = logged_body C rq)
    \<and> (never_broken C \<longrightarrow> length (tr w') = length (tr w) + length rs)"
proof -
  obtain cid ss rs where "traffic tr lg C (upper (cl_unicode C) meth) path rq cid 0 w w' ss rs"
    by (rule request_traffic[OF assms])
  then show ?thesis by (intro exI[of _ rs] exI[of _ cid]) (auto simp: traffic_def documents_def)
qed

section \<open>Delays\<close>

definition spread :: "rat \<Rightarrow> rat \<Rightarrow> rat" where
  "spread capped jitter = fl (capped * fl jitter)"

lemma jittered:
  assumes "fl j = j" "0 \<le> j" "0 \<le> u" "u \<le> 1"
  shows "- j \<le> fl (- j + fl (fl (j + j) * u))" "fl (- j + fl (fl (j + j) * u)) \<le> j"
proof -
  have d: "fl (j + j) = j + j" using fl_double[of j] assms(1) by simp
  have "0 \<le> (j + j) * u" "(j + j) * u \<le> j + j" using assms mult_left_le[of u "j + j"] by auto
  then have "0 \<le> fl ((j + j) * u)" "fl ((j + j) * u) \<le> j + j"
    using d by (auto intro: dbl.rnd_nonneg dbl.rnd_le_fixed)
  moreover have "fl (- j) = - j" using assms(1) by (simp add: fl_def)
  ultimately show "- j \<le> fl (- j + fl (fl (j + j) * u))" "fl (- j + fl (fl (j + j) * u)) \<le> j"
    using assms(1) unfolding d by (auto intro: dbl.rnd_ge_fixed dbl.rnd_le_fixed)
qed

text \<open>
  Without advice from the server the delay before the next attempt is the exponential back-off,
  capped, and moved by at most the jitter: never negative, and never more than the cap and its
  jitter, however many attempts were made.
\<close>
theorem backoff_is_bounded:
  assumes "S = cl_settings C" "0 \<le> retry_base_delay_seconds S" "0 \<le> retry_max_delay_seconds S"
    and "0 \<le> retry_jitter S" "retry_jitter S \<le> 1" "n \<le> 1024"
    and "0 \<le> fst (cl_random C w)" "fst (cl_random C w) \<le> 1"
    and "capped = min (fl (fl (retry_base_delay_seconds S) * 2 ^ (n - 1))) (fl (retry_max_delay_seconds S))"
  shows "\<exists>x. backoff_delay C n None w = (Inr (Fl x), snd (cl_random C w))
    \<and> 0 \<le> x \<and> fl (capped - spread capped (retry_jitter S)) \<le> x
    \<and> x \<le> fl (capped + spread capped (retry_jitter S))
    \<and> x \<le> fl (fl (retry_max_delay_seconds S)
                + spread (fl (retry_max_delay_seconds S)) (retry_jitter S))"
proof -
  let ?j = "spread capped (retry_jitter S)" and ?L = "fl (retry_max_delay_seconds S)"
  have c: "0 \<le> capped" "capped \<le> ?L" using assms by (auto intro!: dbl.rnd_nonneg mult_nonneg_nonneg)
  have J: "0 \<le> fl (retry_jitter S)" "fl (retry_jitter S) \<le> 1" using dbl.rnd_unit[OF assms(4,5)] by auto
  have L: "0 \<le> ?L" "fl ?L = ?L" "fl capped = capped"
    using assms(3,9) by (auto simp: min_def intro: dbl.rnd_nonneg)
  have j: "0 \<le> ?j" "?j \<le> capped" "fl ?j = ?j" "?j \<le> spread ?L (retry_jitter S)"
    using c J L mult_left_le[OF J(2) c(1)] unfolding spread_def
    by (auto intro!: dbl.rnd_nonneg dbl.rnd_le_fixed dbl.rnd_mono mult_right_mono)
  obtain u w' where u: "cl_random C w = (u, w')" by (metis prod.collapse)
  let ?a = "fl (- ?j + fl (fl (?j + ?j) * u))" and ?x = "max 0 (fl (capped + fl (- ?j + fl (fl (?j + ?j) * u))))"
  have a: "- ?j \<le> ?a" "?a \<le> ?j" using jittered[OF j(3,1), of u] assms(7,8) u by auto
  have "\<not> 1024 \<le> n - 1" using assms(6) by simp
  then have "backoff_delay C n None w = (Inr (Fl ?x), w')"
    using u by (simp add: backoff_delay_def Let_def assms(9) assms(1)[symmetric] spread_def)
  moreover have "fl (capped - ?j) \<le> ?x" using a by (auto simp: le_max_iff_disj intro!: dbl.rnd_mono)
  moreover have "?x \<le> fl (capped + ?j)" using a c j by (auto intro!: dbl.rnd_nonneg dbl.rnd_mono)
  moreover have "fl (capped + ?j) \<le> fl (?L + spread ?L (retry_jitter S))"
    using c j by (intro dbl.rnd_mono add_mono) auto
  ultimately show ?thesis using u by (intro exI[of _ ?x]) auto
qed

text \<open>
  The answer to a retryable failure: a wait the server asks for is obeyed, up to the configured
  maximum; a server that asks for a negative number of seconds makes the call fail with the
  \<open>ValueError\<close> of \<open>time.sleep\<close> instead of retrying it.
\<close>
theorem retry_after_sets_the_delay:
  assumes "rp_status r \<notin> set (rq_expected rq)" "rp_status r \<in> set RETRYABLE_STATUS"
    and "may_retry meth rq" "int n < retry_max_attempts (cl_settings C)"
    and "retry_after C r w = Some (Fl x)" "0 \<le> retry_max_delay_seconds (cl_settings C)"
  shows "judge C meth path rq n refreshed r w =
    (if 0 \<le> x then (Delayed, cl_sleep C (min x (fl (retry_max_delay_seconds (cl_settings C)))) w)
     else (Raise (PyValueError (lit ''sleep length must be non-negative'')), w))"
proof -
  let ?L = "fl (retry_max_delay_seconds (cl_settings C))"
  have "rp_status r \<noteq> 401" "rp_status r \<noteq> 403" using assms(2) by (auto simp: RETRYABLE_STATUS_def)
  moreover have "0 \<le> ?L" using assms(6) by (rule dbl.rnd_nonneg)
  ultimately show ?thesis
    using assms by (auto simp: judge_def Let_def cbind_def backoff_delay_def pause_def min_def)
qed

text \<open>
  A refusal that retrying cannot cure ends the request at once: the error carries the status, it
  is not marked retryable, and nothing happens after the attempt was logged.
\<close>
theorem refusal_is_final:
  assumes "cl_auth_headers C (cl_acquire C w) = (Inr auth, w1)"
    and "cl_send C \<lparr>sn_method = meth, sn_path = path, sn_params = rq_params rq,
           sn_json = rq_json rq, sn_headers = send_headers rq auth\<rparr> w1 = (Answer r, w2)"
    and "rp_status r \<notin> set (rq_expected rq)" "rp_status r \<notin> set RETRYABLE_STATUS"
    and "rp_status r \<noteq> 401 \<or> refreshed"
  shows "\<exists>kind text rec. request_loop C meth path rq cid n refreshed w =
      (Inl (ApiErr kind (cl_service C) (Some (rp_status r)) text False), log_call C rec w2)
    \<and> (kind = AuthError \<longleftrightarrow> rp_status r \<in> {401, 403}) \<and> kind \<noteq> RateLimitedError
    \<and> cr_status_code rec = Some (rp_status r)"
proof -
  have "rp_status r \<noteq> 429" using assms(4) by (auto simp: RETRYABLE_STATUS_def)
  then show ?thesis
    using assms unfolding request_loop.simps[of C meth path rq cid n refreshed w]
    by (auto simp: attempt_once_def Let_def judge_def api_error_def)
qed

section \<open>What the log reveals\<close>

text \<open>Two documents that differ in the values of secret members only.\<close>

inductive same_public :: "unicode \<Rightarrow> ustr list \<Rightarrow> json \<Rightarrow> json \<Rightarrow> bool" for U secrets where
  same: "same_public U secrets v v"
| arrays: "list_all2 (same_public U secrets) xs ys \<Longrightarrow> same_public U secrets (JArr xs) (JArr ys)"
| objects: "list_all2 (\<lambda>x y. fst x = fst y \<and>
      (lower U (fst x) \<in> lower U ` set secrets \<or> same_public U secrets (snd x) (snd y))) ms ns \<Longrightarrow>
    same_public U secrets (JObj ms) (JObj ns)"

lemma scrub_same_public: "same_public U secrets a b \<Longrightarrow> scrub U secrets a = scrub U secrets b"
proof (induction rule: same_public.induct)
  case (arrays xs ys)
  then have "list_all2 (\<lambda>x y. scrub U secrets x = scrub U secrets y) xs ys"
    by (rule list_all2_mono) simp
  then show ?case by (simp add: list_all2_conv_all_nth list_eq_iff_nth_eq)
next
  case (objects ms ns)
  let ?f = "\<lambda>(k, v). (k, if lower U k \<in> lower U ` set secrets then JStr (lit ''***'')
    else scrub U secrets v)"
  from objects have "list_all2 (\<lambda>x y. ?f x = ?f y) ms ns"
    by (rule list_all2_mono) (auto split: prod.splits)
  then have "map ?f ms = map ?f ns" by (simp add: list_all2_conv_all_nth list_eq_iff_nth_eq)
  then show ?case by simp
qed simp

text \<open>
  C24: The values of the members named secret, at any depth of the body, leave no trace in what is
  logged of the request: bodies that differ in nothing else are logged alike.
\<close>
theorem log_hides_secret_members:
  assumes "same_public (cl_unicode C) (secret_headers (cl_settings C)) a b"
  shows "logged_body C (rq\<lparr>rq_json := Some a\<rparr>) = logged_body C (rq\<lparr>rq_json := Some b\<rparr>)"
  using scrub_same_public[OF assms] by (simp add: logged_body_def)

text \<open>
  The body of an answer is logged as it came, up to the length limit: nothing scrubs it, so a
  token or a delivered code in an answer is written to the log in the clear.
\<close>
theorem answers_are_logged_verbatim:
  assumes "observed tr lg C" "cl_auth_headers C (cl_acquire C w) = (Inr auth, w1)"
    and "cl_send C \<lparr>sn_method = upper (cl_unicode C) meth, sn_path = path, sn_params = rq_params rq,
           sn_json = rq_json rq, sn_headers = send_headers rq auth\<rparr> w1 = (Answer r, w2)"
    and "rq_correlation rq = Some cid" "cid \<noteq> []" "length (rp_text r) \<le> MAX_LOGGED_BODY"
    and "api_request C meth path rq w = (x, w')"
  shows "\<exists>rec \<in> set (lg w'). cr_response_body rec = Some (rp_text r)"
proof -
  let ?m = "upper (cl_unicode C) meth"
  obtain rec where rec: "attempt_once C ?m path rq cid 1 False w = judge C ?m path rq 1 False r (log_call C rec w2)"
    "cr_response_body rec = Some (truncate_body (rp_text r))"
    using assms(2,3) by (simp add: attempt_once_def Let_def)
  obtain v w3 where v: "attempt_once C ?m path rq cid 1 False w = (v, w3)" by (metis prod.collapse)
  have "lg w3 = lg w2 @ [rec]"
    using judge_frame[OF assms(1), of ?m path rq 1 False r "log_call C rec w2" v w3] v rec(1) assms(1)
    by (simp add: observed_def log_call_def)
  then have in3: "rec \<in> set (lg w3)" by simp
  have "request_loop C ?m path rq cid 0 False w = (x, w')"
    using assms(4,5,7) by (simp add: api_request_def)
  then have "w' = w3 \<or> (\<exists>f. request_loop C ?m path rq cid 1 f w3 = (x, w'))"
    unfolding request_loop.simps[of C ?m path rq cid 0 False w] using v
    by (auto split: verdict.splits)
  then have "\<exists>rs. lg w' = lg w3 @ rs"
    using loop_traffic[OF assms(1), of ?m path rq cid 1 _ w3 x w'] unfolding traffic_def by (metis append_Nil2)
  with in3 rec(2) assms(6) show ?thesis by (auto simp: truncate_body_def)
qed

section \<open>A scripted client\<close>

record script =
  sc_sent :: "sent list"
  sc_log :: "api_call_record list"
  sc_answers :: "sent_outcome list"
  sc_slept :: "rat list"

definition scripted :: "script client" where
  "scripted =
     \<lparr>cl_service = lit ''fazercards'', cl_settings = default_settings, cl_unicode = ascii_db,
      cl_acquire = (\<lambda>w. w), cl_auth_headers = cret [(lit ''X-API-Key'', lit ''fc'')],
      cl_on_auth_failure = (\<lambda>w. w), cl_decode_error = decode_error json_dumps, cl_url = (\<lambda>p. p),
      cl_send = (\<lambda>s w. (case sc_answers w of [] \<Rightarrow> Lost TimeoutException [] | a # as \<Rightarrow> a,
        w\<lparr>sc_sent := sc_sent w @ [s], sc_answers := tl (sc_answers w)\<rparr>)),
      cl_sink = (\<lambda>r w. (Inr (), w\<lparr>sc_log := sc_log w @ [r]\<rparr>)),
      cl_sleep = (\<lambda>x w. w\<lparr>sc_slept := sc_slept w @ [x]\<rparr>), cl_random = Pair (1 / 2),
      cl_monotonic = (\<lambda>w. 0), cl_date_delta = (\<lambda>s w. None), cl_uuid = Pair (lit ''c1'')\<rparr>"

definition script_of :: "sent_outcome list \<Rightarrow> script" where
  "script_of as = \<lparr>sc_sent = [], sc_log = [], sc_answers = as, sc_slept = []\<rparr>"

definition answer :: "nat \<Rightarrow> string \<Rightarrow> ustr option \<Rightarrow> response" where
  "answer status body wait =
     \<lparr>rp_status = status, rp_text = lit body, rp_empty = False, rp_json = Some (JObj []),
      rp_retry_after = wait, rp_reason = []\<rparr>"

lemma scripted_observed: "observed sc_sent sc_log scripted"
  by (simp add: observed_def scripted_def cret_def)

lemma scripted_methods:
  "upper (cl_unicode scripted) (lit ''POST'') = lit ''POST''"
  "upper (cl_unicode scripted) (lit ''GET'') = lit ''GET''"
  by (simp add: scripted_def, code_simp)+

theorem request_ends_within_attempts_witness:
  "\<exists>x w'. api_request scripted (lit ''GET'') [] plain_request (script_of []) = (x, w')
     \<and> length (sc_sent w') \<le> 7"
proof -
  obtain x w' ss where r: "api_request scripted (lit ''GET'') [] plain_request (script_of []) = (x, w')"
    "sc_sent w' = sc_sent (script_of []) @ ss"
    "int (length ss) \<le> max 1 (retry_max_attempts (cl_settings scripted)) + 1"
    using request_ends_within_attempts[OF scripted_observed, of "lit ''GET''" "[]" plain_request "script_of []"]
    by blast
  moreover have "sc_sent (script_of []) = []" "retry_max_attempts (cl_settings scripted) = 6"
    by (simp_all add: script_of_def scripted_def default_settings_def)
  ultimately show ?thesis by (intro exI[of _ x] exI[of _ w']) simp
qed


theorem attempts_share_idempotency_key_witness:
  "\<forall>s \<in> set (sc_sent (snd (api_request scripted (lit ''POST'') [] (plain_request\<lparr>rq_key := Some [107]\<rparr>)
      (script_of [])))). map_of (sn_headers s) (lit ''Idempotency-Key'') = Some [107]"
proof -
  let ?rq = "plain_request\<lparr>rq_key := Some [107]\<rparr>"
  obtain x w' where r: "api_request scripted (lit ''POST'') [] ?rq (script_of []) = (x, w')"
    by (metis prod.collapse)
  have a: "map_of auth (lit ''Idempotency-Key'') = None"
    if "fst (cl_auth_headers scripted w) = Inr auth" for w auth
    using that by (auto simp: scripted_def cret_def)
  from attempts_share_idempotency_key[OF scripted_observed r, of "[107]"] a r show ?thesis
    by (auto simp: plain_request_def script_of_def)
qed

theorem every_attempt_is_logged_witness:
  "\<exists>rs. sc_log (snd (api_request scripted (lit ''GET'') [] plain_request (script_of []))) = rs
     \<and> map cr_attempt rs = [1 ..< length rs + 1]"
proof -
  obtain x w' where r: "api_request scripted (lit ''GET'') [] plain_request (script_of []) = (x, w')"
    by (metis prod.collapse)
  from every_attempt_is_logged[OF scripted_observed r] r show ?thesis by (auto simp: script_of_def)
qed

theorem backoff_is_bounded_witness:
  "\<exists>x. backoff_delay scripted 3 None (script_of []) = (Inr (Fl x), script_of []) \<and> 0 \<le> x"
proof -
  have s: "0 \<le> retry_base_delay_seconds default_settings" "0 \<le> retry_max_delay_seconds default_settings"
    "0 \<le> retry_jitter default_settings" "retry_jitter default_settings \<le> 1"
    by (simp_all add: default_settings_def)
  have c: "default_settings = cl_settings scripted" by (simp add: scripted_def)
  have r: "0 \<le> fst (cl_random scripted (script_of []))" "fst (cl_random scripted (script_of [])) \<le> 1"
    "snd (cl_random scripted (script_of [])) = script_of []" by (simp_all add: scripted_def)
  have n: "(3::nat) \<le> 1024" by simp
  from backoff_is_bounded[OF c s n r(1,2) refl] r(3) show ?thesis by auto
qed

theorem retry_after_sets_the_delay_witness:
  "fst (judge scripted (lit ''GET'') [] plain_request 1 False (answer 429 ''slow'' (Some (lit ''7'')))
     (script_of [])) = Delayed"
proof -
  let ?r = "answer 429 ''slow'' (Some (lit ''7''))"
  have p: "parse_decimal (lit ''7'') = Some (Finite False 7 0)" "underscores_ok False (strip (lit ''7''))"
    "ascii_lower (snd (split_sign (strip (lit ''7'')))) \<noteq> lit ''snan''" by code_simp+
  have f: "parse_float (lit ''7'') = Some (Fl 7)"
    using p fl_int[of 7] by (simp add: parse_float_def Let_def)
  have "retry_after scripted ?r (script_of []) = Some (Fl 7)"
    using f by (simp add: retry_after_def answer_def lit_def)
  from retry_after_sets_the_delay[OF _ _ _ _ this, of plain_request "lit ''GET''" 1 "[]" False]
  show ?thesis
    by (simp add: answer_def plain_request_def RETRYABLE_STATUS_def may_retry_def scripted_def
        default_settings_def)
qed

theorem refusal_is_final_witness:
  "\<exists>text w'. request_loop scripted (lit ''GET'') [] plain_request [] 0 False
      (script_of [Answer (answer 404 ''gone'' None)])
    = (Inl (ApiErr PlainApiError (lit ''fazercards'') (Some 404) text False), w')"
proof -
  let ?w = "script_of [Answer (answer 404 ''gone'' None)]" and ?auth = "[(lit ''X-API-Key'', lit ''fc'')]"
  have a: "cl_auth_headers scripted (cl_acquire scripted ?w) = (Inr ?auth, ?w)"
    by (simp add: scripted_def cret_def)
  obtain w2 where s: "cl_send scripted \<lparr>sn_method = lit ''GET'', sn_path = [],
      sn_params = rq_params plain_request, sn_json = rq_json plain_request,
      sn_headers = send_headers plain_request ?auth\<rparr> ?w = (Answer (answer 404 ''gone'' None), w2)"
    by (simp add: scripted_def script_of_def)
  have c: "rp_status (answer 404 ''gone'' None) = 404" "cl_service scripted = lit ''fazercards''"
    by (simp_all add: answer_def scripted_def)
  have e: "rp_status (answer 404 ''gone'' None) \<notin> set (rq_expected plain_request)"
    "rp_status (answer 404 ''gone'' None) \<notin> set RETRYABLE_STATUS"
    "rp_status (answer 404 ''gone'' None) \<noteq> 401 \<or> False"
    by (simp_all add: answer_def plain_request_def RETRYABLE_STATUS_def)
  from refusal_is_final[OF a s e, of "[]" 0] obtain kind msg rec where
    "request_loop scripted (lit ''GET'') [] plain_request [] 0 False ?w
      = (Inl (ApiErr kind (lit ''fazercards'') (Some 404) msg False), log_call scripted rec w2)"
    "kind \<noteq> AuthError" "kind \<noteq> RateLimitedError" unfolding c by auto
  then show ?thesis by (cases kind) auto
qed

theorem log_hides_secret_members_witness:
  "logged_body scripted (plain_request\<lparr>rq_json := Some (JObj [(lit ''x-api-key'', JStr [97])])\<rparr>)
   = logged_body scripted (plain_request\<lparr>rq_json := Some (JObj [(lit ''x-api-key'', JStr [98])])\<rparr>)"
  by (rule log_hides_secret_members, rule same_public.objects)
    (simp add: scripted_def default_settings_def)

theorem answers_are_logged_verbatim_witness:
  "\<exists>rec \<in> set (sc_log (snd (api_request scripted (lit ''POST'') []
      (plain_request\<lparr>rq_correlation := Some [99]\<rparr>) (script_of [Answer (answer 201 ''CODE-1'' None)])))).
     cr_response_body rec = Some (lit ''CODE-1'')"
proof -
  let ?rq = "plain_request\<lparr>rq_correlation := Some [99]\<rparr>"
  let ?w = "script_of [Answer (answer 201 ''CODE-1'' None)]" and ?auth = "[(lit ''X-API-Key'', lit ''fc'')]"
  obtain x w' where r: "api_request scripted (lit ''POST'') [] ?rq ?w = (x, w')" by (metis prod.collapse)
  have a: "cl_auth_headers scripted (cl_acquire scripted ?w) = (Inr ?auth, ?w)"
    by (simp add: scripted_def cret_def)
  obtain w2 where s: "cl_send scripted \<lparr>sn_method = upper (cl_unicode scripted) (lit ''POST''), sn_path = [],
      sn_params = rq_params ?rq, sn_json = rq_json ?rq,
      sn_headers = send_headers ?rq ?auth\<rparr> ?w = (Answer (answer 201 ''CODE-1'' None), w2)"
    by (simp add: scripted_def script_of_def)
  from answers_are_logged_verbatim[OF scripted_observed a s _ _ _ r, of "[99]"] r show ?thesis
    by (simp add: answer_def MAX_LOGGED_BODY_def lit_def)
qed

end
