(* ===== verification/Fazercards.thy ===== *)
theory Fazercards
  imports Http_Safety
begin

text \<open>
  \<open>app/suppliers/fazercards.py\<close>: the supplier's adapter. The error envelope, the walk over the
  cursor-paginated lists, the items of the two product families, the purchase and the reading of
  an order. Response fields are read as the code reads them; \<open>repr\<close>, which only reaches error
  texts and the text of a list or dict, is a parameter. A region or platform that is neither a string
  nor null is taken as absent. The lemmas about these operations are in \<open>Fazercards_Safety\<close>.
\<close>

section \<open>The client\<close>

definition API_PREFIX :: ustr where
  "API_PREFIX = lit ''/api/v2''"

definition PAGE_SIZE :: nat where
  "PAGE_SIZE = 200"

definition fazercards_auth_headers :: "settings \<Rightarrow> ('w, (ustr \<times> ustr) list) call" where
  "fazercards_auth_headers S =
     clift (rbind (require_fazercards_key S) (\<lambda>key.
       Inr [(lit ''X-API-Key'', key), (lit ''Accept'', lit ''application/json'')]))"

definition fazercards_decode_error :: "(json \<Rightarrow> ustr) \<Rightarrow> response \<Rightarrow> ustr" where
  "fazercards_decode_error repr r =
     (case rp_json r of
        None \<Rightarrow> or_text (take 500 (rp_text r)) (rp_reason r)
      | Some (JObj ms) \<Rightarrow>
          if has_key ''error'' ms
          then py_str repr (jget ''error'' ms)
               @ (if jtruthy (jget ''code'' ms)
                  then lit '' ['' @ py_str repr (jget ''code'' ms) @ lit '']'' else [])
          else decode_error repr r
      | Some v \<Rightarrow> decode_error repr r)"

text \<open>The transport given to the constructor, with what the subclass overrides.\<close>

definition fazercards_client :: "settings \<Rightarrow> (json \<Rightarrow> ustr) \<Rightarrow> 'w client \<Rightarrow> 'w client" where
  "fazercards_client S repr base =
     base\<lparr>cl_service := lit ''fazercards'', cl_settings := S,
          cl_auth_headers := fazercards_auth_headers S,
          cl_decode_error := fazercards_decode_error repr\<rparr>"

section \<open>The envelope\<close>

definition TERMINAL_CODES :: "(string \<times> (ustr \<Rightarrow> exn)) list" where
  "TERMINAL_CODES =
     [(''out_of_stock'', OutOfStock), (''insufficient_stock'', OutOfStock),
      (''insufficient_balance'', InsufficientBalance),
      (''insufficient_funds'', InsufficientBalance),
      (''subscription_inactive'', SupplierUnavailable)]"

fun type_name :: "json \<Rightarrow> string" where
  "type_name JNull = ''NoneType''"
| "type_name (JBool b) = ''bool''"
| "type_name (JInt n) = ''int''"
| "type_name (JFloat d) = ''float''"
| "type_name (JStr s) = ''str''"
| "type_name (JArr xs) = ''list''"
| "type_name (JObj ms) = ''dict''"

definition service_error :: "ustr \<Rightarrow> exn" where
  "service_error message = api_error PlainApiError (lit ''fazercards'') None message False"

definition unwrap ::
  "unicode \<Rightarrow> (json \<Rightarrow> ustr) \<Rightarrow> ustr \<Rightarrow> json \<Rightarrow> (ustr \<times> json) list result" where
  "unwrap U repr context payload =
     (case payload of
        JObj ms \<Rightarrow>
          if jget ''ok'' ms = JBool False then
            (let code = lower U (py_str repr (jor (jget ''code'' ms) (JStr [])));
                 message = context @ lit '': ''
                   @ py_str repr (jor (jget ''error'' ms) (JStr (lit ''unknown error'')))
             in case find (\<lambda>(c, _). lit c = code) TERMINAL_CODES of
                  Some (_, cls) \<Rightarrow> Inl (cls message)
                | None \<Rightarrow> Inl (service_error message))
          else Inr ms
      | _ \<Rightarrow> Inl (service_error (context @ lit '': expected a JSON object, got ''
               @ lit (type_name payload))))"

definition to_decimal :: "(json \<Rightarrow> ustr) \<Rightarrow> json \<Rightarrow> decimal result" where
  "to_decimal repr value =
     (if value = JNull then Inl (PyValueError (lit ''missing price''))
      else case decimal_of_json value of
        None \<Rightarrow> Inl (PyValueError (lit ''unparseable price '' @ repr value))
      | Some price \<Rightarrow>
          rbind (dec_neg price) (\<lambda>neg.
            if neg then Inl (PyValueError (lit ''negative price '' @ repr value)) else Inr price))"

section \<open>Paging\<close>

definition fetch ::
  "'w client \<Rightarrow> (json \<Rightarrow> ustr) \<Rightarrow> ustr \<Rightarrow> (ustr \<times> json) list \<Rightarrow> ustr \<Rightarrow> ('w, (ustr \<times> json) list) call" where
  "fetch C repr path params context =
     cbind (api_get C (API_PREFIX @ path) (plain_request\<lparr>rq_params := params\<rparr>))
       (\<lambda>payload. clift (unwrap (cl_unicode C) repr context payload))"

definition page_params :: "json \<Rightarrow> (ustr \<times> json) list" where
  "page_params cursor =
     (lit ''limit'', JInt (int PAGE_SIZE)) # (if jtruthy cursor then [(lit ''cursor'', cursor)] else [])"

definition fetch_page ::
  "'w client \<Rightarrow> (json \<Rightarrow> ustr) \<Rightarrow> ustr \<Rightarrow> json \<Rightarrow> ('w, (ustr \<times> json) list) call" where
  "fetch_page C repr path cursor = fetch C repr path (page_params cursor) (lit ''GET '' @ path)"

text \<open>Membership in a set of cursors: equality of Python values, which lists and dicts do not admit.\<close>

fun number_of :: "json \<Rightarrow> rat option" where
  "number_of (JBool b) = Some (of_bool b)"
| "number_of (JInt n) = Some (of_int n)"
| "number_of (JFloat d) = dec_val d"
| "number_of v = None"

definition py_eq :: "json \<Rightarrow> json \<Rightarrow> bool" where
  "py_eq a b =
     (case (number_of a, number_of b) of
        (Some x, Some y) \<Rightarrow> x = y
      | _ \<Rightarrow> a = b \<and> a \<noteq> JFloat NaN)"

fun hashable :: "json \<Rightarrow> bool" where
  "hashable (JArr xs) = False"
| "hashable (JObj ms) = False"
| "hashable v = True"

text \<open>The end of the loop body: the cursor of the next page, or the end of the list.\<close>

definition next_cursor :: "(ustr \<times> json) list \<Rightarrow> json list \<Rightarrow> json option result" where
  "next_cursor ms seen =
     rbind (as_dict (jor (jget ''meta'' ms) (JObj []))) (\<lambda>meta.
       (let c = jget ''next_cursor'' meta
        in if \<not> jtruthy (jget ''has_more'' meta) \<or> \<not> jtruthy c then Inr None
           else if \<not> hashable c then Inl (OtherError (lit ''TypeError''))
           else if list_ex (py_eq c) seen then Inr None
           else Inr (Some c)))"

text \<open>
  The generator \<open>_paged\<close> with the loop over it: \<open>body\<close> consumes an item before the next page is
  asked for. \<open>None\<close> is a list whose pages never end.
\<close>

partial_function (option) paged ::
  "'w client \<Rightarrow> (json \<Rightarrow> ustr) \<Rightarrow> ustr \<Rightarrow> string \<Rightarrow> (json \<Rightarrow> ('w, 'a) generator) \<Rightarrow> json \<Rightarrow> json list \<Rightarrow> 'w
    \<Rightarrow> ('a stream \<times> 'w) option" where
  "paged C repr path key body cursor seen w =
     (case fetch_page C repr path cursor w of
        (Inl e, w1) \<Rightarrow> Some (([], Some e), w1)
      | (Inr ms, w1) \<Rightarrow>
          (case iterate (jor (jget key ms) (JArr [])) of
             Inl e \<Rightarrow> Some (([], Some e), w1)
           | Inr items \<Rightarrow>
               (case gfor items body w1 of
                  ((xs, Some e), w2) \<Rightarrow> Some ((xs, Some e), w2)
                | ((xs, None), w2) \<Rightarrow>
                    (case next_cursor ms seen of
                       Inl e \<Rightarrow> Some ((xs, Some e), w2)
                     | Inr None \<Rightarrow> Some ((xs, None), w2)
                     | Inr (Some c) \<Rightarrow>
                         Option.bind (paged C repr path key body c (c # seen) w2)
                           (\<lambda>r. Some (prepend xs r))))))"

section \<open>The catalogue\<close>

definition strip_text :: "unicode \<Rightarrow> json \<Rightarrow> ustr result" where
  "strip_text U v =
     (if \<not> jtruthy v then Inr []
      else case v of
        JStr s \<Rightarrow> Inr (strip_by (space U) s)
      | _ \<Rightarrow> Inl (OtherError (lit ''AttributeError'')))"

definition joined_name :: "unicode \<Rightarrow> ustr \<Rightarrow> ustr \<Rightarrow> ustr" where
  "joined_name U category offer =
     (if offer = [] then category
      else if category = [] then offer
      else if contains (lower U category) (lower U offer) then offer
      else if contains (lower U offer) (lower U category) then category
      else category @ lit '' '' @ offer)"

definition compose_name :: "unicode \<Rightarrow> json \<Rightarrow> json \<Rightarrow> ustr result" where
  "compose_name U category offer =
     rbind (strip_text U category) (\<lambda>c. rbind (strip_text U offer) (\<lambda>n. Inr (joined_name U c n)))"

text \<open>What the two families know of the category an offer belongs to.\<close>

record category_info =
  ca_kind :: product_kind
  ca_id :: json
  ca_name :: json
  ca_region :: json
  ca_platform :: json
  ca_restricted :: bool
  ca_raw :: "(ustr \<times> json)"

definition offer_item ::
  "unicode \<Rightarrow> (json \<Rightarrow> ustr) \<Rightarrow> category_info \<Rightarrow> json \<Rightarrow> (ustr \<times> json) list \<Rightarrow> decimal
    \<Rightarrow> supplier_item result" where
  "offer_item U repr ca offer_id offer price =
     rbind (compose_name U (ca_name ca) (jget ''name'' offer)) (\<lambda>name.
     rbind (int_or 0 (jget ''stock'' offer)) (\<lambda>stock.
     rbind (int_or 1 (jget ''min_order_quantity'' offer)) (\<lambda>low.
     rbind (int_or 1 (jget ''max_order_quantity'' offer)) (\<lambda>high.
       Inr \<lparr>si_kind = ca_kind ca, si_category_ext_id = py_str repr (ca_id ca),
            si_offer_ext_id = py_str repr offer_id, si_name = name, si_price = price,
            si_stock = stock, si_currency = lit ''USD'', si_category_name = text_or_none (ca_name ca),
            si_region = text_or_none (ca_region ca), si_platform = text_or_none (ca_platform ca),
            si_region_restricted = ca_restricted ca, si_min_order_quantity = low,
            si_max_order_quantity = high,
            si_raw = JObj [ca_raw ca, (lit ''offer'', JObj offer)]\<rparr>))))"

text \<open>One offer: skipped without an id or a usable price.\<close>

definition offer_items ::
  "unicode \<Rightarrow> (json \<Rightarrow> ustr) \<Rightarrow> category_info \<Rightarrow> string \<Rightarrow> json \<Rightarrow> ('w, supplier_item) generator" where
  "offer_items U repr ca id_key v =
     gcall (clift (as_dict v)) (\<lambda>offer.
       if \<not> jtruthy (jget id_key offer) then gnone
       else case to_decimal repr (jget ''price_usd'' offer) of
         Inl (PyValueError m) \<Rightarrow> gnone
       | Inl e \<Rightarrow> graise e
       | Inr price \<Rightarrow>
           gcall (clift (offer_item U repr ca (jget id_key offer) offer price)) gyield)"

definition gift_card_category ::
  "'w client \<Rightarrow> (json \<Rightarrow> ustr) \<Rightarrow> json \<Rightarrow> ('w, supplier_item) generator" where
  "gift_card_category C repr v =
     gcall (clift (as_dict v)) (\<lambda>category.
       (let i = jget ''category_id'' category
        in if \<not> jtruthy i then gnone
           else
             gcall (fetch C repr (lit ''/giftcards/cards'') [(lit ''category_id'', i)]
                      (lit ''GET /giftcards/cards?category_id='' @ py_str repr i)) (\<lambda>body.
             gcall (clift (iterate (jor (jget ''offers'' body) (JArr [])))) (\<lambda>offers.
               gfor offers (offer_items (cl_unicode C) repr
                 \<lparr>ca_kind = GIFT_CARD, ca_id = i,
                  ca_name = jor (jor (jget ''name'' body) (jget ''name'' category)) (JStr []),
                  ca_region = JNull, ca_platform = JNull, ca_restricted = False,
                  ca_raw = (lit ''category'', v)\<rparr> ''card_id'')))))"

definition game_key_category ::
  "'w client \<Rightarrow> (json \<Rightarrow> ustr) \<Rightarrow> json \<Rightarrow> ('w, supplier_item) generator" where
  "game_key_category C repr v =
     gcall (clift (as_dict v)) (\<lambda>game.
       (let i = jget ''game_id'' game
        in if \<not> jtruthy i then gnone
           else
             gcall (fetch C repr (lit ''/gamekeys/keys'') [(lit ''game_id'', i)]
                      (lit ''GET /gamekeys/keys?game_id='' @ py_str repr i)) (\<lambda>body.
             gcall (clift (iterate (jor (jget ''keys'' body) (JArr [])))) (\<lambda>offers.
               gfor offers (offer_items (cl_unicode C) repr
                 \<lparr>ca_kind = GAME_KEY, ca_id = i,
                  ca_name = jor (jor (jget ''GameName'' body) (jget ''name'' game)) (JStr []),
                  ca_region = jor (jget ''region'' body) (jget ''region'' game),
                  ca_platform = jor (jget ''platform'' body) (jget ''platform'' game),
                  ca_restricted = jtruthy (jor (jget ''region_restriction'' body)
                                               (jget ''region_restriction'' game)),
                  ca_raw = (lit ''game'', v)\<rparr> ''key_id'')))))"

definition iter_gift_cards ::
  "'w client \<Rightarrow> (json \<Rightarrow> ustr) \<Rightarrow> 'w \<Rightarrow> (supplier_item stream \<times> 'w) option" where
  "iter_gift_cards C repr w =
     paged C repr (lit ''/giftcards'') ''items'' (gift_card_category C repr) JNull [] w"

definition iter_game_keys ::
  "'w client \<Rightarrow> (json \<Rightarrow> ustr) \<Rightarrow> 'w \<Rightarrow> (supplier_item stream \<times> 'w) option" where
  "iter_game_keys C repr w =
     paged C repr (lit ''/gamekeys'') ''items'' (game_key_category C repr) JNull [] w"

definition iter_products ::
  "'w client \<Rightarrow> (json \<Rightarrow> ustr) \<Rightarrow> 'w \<Rightarrow> (supplier_item stream \<times> 'w) option" where
  "iter_products C repr w =
     Option.bind (iter_game_keys C repr w) (\<lambda>r.
       case snd (fst r) of
         Some e \<Rightarrow> Some r
       | None \<Rightarrow> map_option (prepend (fst (fst r))) (iter_gift_cards C repr (snd r)))"

section \<open>Orders\<close>

definition CODE_FIELDS :: "string list" where
  "CODE_FIELDS = [''cards'', ''keys'', ''codes'', ''items'']"

definition VALUE_KEYS :: "string list" where
  "VALUE_KEYS = [''code'', ''key'', ''value'', ''card'', ''serial'']"

definition text_code :: "ustr \<Rightarrow> purchased_code" where
  "text_code v = \<lparr>co_value = v, co_kind = lit ''text''\<rparr>"

fun entry_codes :: "unicode \<Rightarrow> (json \<Rightarrow> ustr) \<Rightarrow> json \<Rightarrow> purchased_code list" where
  "entry_codes U repr (JStr s) =
     (let v = strip_by (space U) s in if v = [] then [] else [text_code v])"
| "entry_codes U repr (JObj ms) =
     (case find (\<lambda>k. case jget k ms of JStr s \<Rightarrow> strip_by (space U) s \<noteq> [] | _ \<Rightarrow> False) VALUE_KEYS of
        None \<Rightarrow> []
      | Some k \<Rightarrow>
          (case jget k ms of
             JStr s \<Rightarrow>
               [text_code (strip_by (space U) s
                  @ (if jtruthy (jget ''pin'' ms)
                     then lit '' / PIN: '' @ py_str repr (jget ''pin'' ms) else []))]
           | _ \<Rightarrow> []))"
| "entry_codes U repr v = []"

fun codes_in ::
  "unicode \<Rightarrow> (json \<Rightarrow> ustr) \<Rightarrow> (ustr \<times> json) list \<Rightarrow> string list \<Rightarrow> purchased_code list result" where
  "codes_in U repr order [] = Inr []"
| "codes_in U repr order (f # fs) =
     rbind (iterate (jor (jget f order) (JArr []))) (\<lambda>entries.
       (let codes = concat (map (entry_codes U repr) entries)
        in if codes = [] then codes_in U repr order fs else Inr codes))"

definition extract_codes ::
  "unicode \<Rightarrow> (json \<Rightarrow> ustr) \<Rightarrow> (ustr \<times> json) list \<Rightarrow> purchased_code list result" where
  "extract_codes U repr order = codes_in U repr order CODE_FIELDS"

definition parse_order ::
  "unicode \<Rightarrow> (json \<Rightarrow> ustr) \<Rightarrow> json \<Rightarrow> purchase_result result" where
  "parse_order U repr v =
     rbind (as_dict v) (\<lambda>order.
       (let order_id = jor (jor (jget ''id'' order) (jget ''order_id'' order)) (jget ''orderId'' order);
            cost = jor (jor (jget ''total_usd'' order) (jget ''total'' order)) (jget ''amount'' order)
        in if \<not> jtruthy order_id
           then Inl (service_error
             (lit ''supplier order response has no id -- cannot track this purchase''))
           else rbind (extract_codes U repr order) (\<lambda>codes.
             rbind (if cost = JNull then Inr None else map_sum id Some (to_decimal repr cost)) (\<lambda>c.
               Inr \<lparr>pu_supplier_order_ext_id = py_str repr order_id, pu_codes = codes, pu_cost = c,
                    pu_currency = lit ''USD'',
                    pu_status = py_str repr (jor (jget ''status'' order) (JStr (lit ''completed''))),
                    pu_raw = v\<rparr>))))"

definition quantity_ok :: "supplier_item \<Rightarrow> int \<Rightarrow> bool" where
  "quantity_ok i q \<longleftrightarrow>
     si_min_order_quantity i \<le> q \<and> (si_max_order_quantity i = 0 \<or> q \<le> si_max_order_quantity i)"

definition order_path :: "supplier_item \<Rightarrow> ustr" where
  "order_path i =
     API_PREFIX @ (if si_kind i = GAME_KEY then lit ''/gamekeys/order'' else lit ''/giftcards/order'')"

definition order_body :: "supplier_item \<Rightarrow> int \<Rightarrow> json" where
  "order_body i q =
     (if si_kind i = GAME_KEY
      then JObj [(lit ''game_id'', JStr (si_category_ext_id i)),
                 (lit ''key_id'', JStr (si_offer_ext_id i)), (lit ''quantity'', JInt q)]
      else JObj [(lit ''category_id'', JStr (si_category_ext_id i)),
                 (lit ''card_id'', JStr (si_offer_ext_id i)), (lit ''quantity'', JInt q)])"

definition order_request :: "supplier_item \<Rightarrow> int \<Rightarrow> ustr \<Rightarrow> request" where
  "order_request i q key =
     plain_request\<lparr>rq_json := Some (order_body i q), rq_key := Some key,
                   rq_expected := [200, 201, 202]\<rparr>"

definition purchase ::
  "'w client \<Rightarrow> (json \<Rightarrow> ustr) \<Rightarrow> supplier_item \<Rightarrow> int \<Rightarrow> ustr \<Rightarrow> ('w, purchase_result) call" where
  "purchase C repr i q key =
     (if \<not> quantity_ok i q
      then craise (PyValueError (lit ''quantity '' @ int_text q @ lit '' outside supplier limits [''
             @ int_text (si_min_order_quantity i) @ lit '', ''
             @ int_text (si_max_order_quantity i) @ lit '']''))
      else
        cbind (api_post C (order_path i) (order_request i q key)) (\<lambda>payload.
        cbind (clift (unwrap (cl_unicode C) repr (lit ''POST '' @ order_path i) payload)) (\<lambda>ms.
          clift (parse_order (cl_unicode C) repr (jor (jget ''order'' ms) (JObj []))))))"

definition get_order ::
  "'w client \<Rightarrow> (json \<Rightarrow> ustr) \<Rightarrow> ustr \<Rightarrow> ('w, purchase_result option) call" where
  "get_order C repr i =
     cbind (ctry (cbind (fetch C repr (lit ''/orders/'' @ i) [] (lit ''GET /orders/'' @ i))
                    (\<lambda>ms. cret (Some ms)))
              (\<lambda>e. status_code e = Some 404) (\<lambda>e. cret None)) (\<lambda>found.
       case found of
         None \<Rightarrow> cret None
       | Some ms \<Rightarrow>
           clift (map_sum id Some
             (parse_order (cl_unicode C) repr (jor (jget ''order'' ms) (JObj [])))))"

definition balance :: "'w client \<Rightarrow> (json \<Rightarrow> ustr) \<Rightarrow> ('w, decimal option) call" where
  "balance C repr =
     cbind (fetch C repr (lit ''/balance'') [] (lit ''GET /balance'')) (\<lambda>ms.
       clift (if jget ''balance'' ms = JNull then Inr None
              else map_sum id Some (to_decimal repr (jget ''balance'' ms))))"

end
