(* ===== verification/Fazercards_Safety.thy ===== *)
theory Fazercards_Safety
  imports Fazercards
begin

text \<open>
  What the adapter of \<open>Fazercards\<close> guarantees: the walk over the pages ends, what an item of the
  feed may be, a purchase is one purchase however often it is sent, and what is read from an
  order.
\<close>

section \<open>The envelope\<close>

text \<open>
  The envelope decides: a dict whose \<open>ok\<close> is not \<open>false\<close> is handed on as it is, every other answer
  raises, and the codes that need the situation to change raise their own exceptions.
\<close>
theorem envelope_decides:
  "(unwrap U repr context payload = Inr ms \<longleftrightarrow> payload = JObj ms \<and> jget ''ok'' ms \<noteq> JBool False)
   \<and> (\<forall>e. unwrap U repr context payload = Inl e \<longrightarrow>
        is_api_error e \<or> e \<in> range OutOfStock \<union> range InsufficientBalance \<union> range SupplierUnavailable)"
  by (auto simp: unwrap_def service_error_def api_error_def Let_def TERMINAL_CODES_def
      split: json.splits option.splits if_splits)

section \<open>Paging\<close>

text \<open>The cursors the server hands out are among those of a list.\<close>

definition cursors_among :: "json list \<Rightarrow> 'w client \<Rightarrow> (json \<Rightarrow> ustr) \<Rightarrow> ustr \<Rightarrow> bool" where
  "cursors_among K C repr path \<longleftrightarrow>
     (\<forall>cursor w ms seen c. fst (fetch_page C repr path cursor w) = Inr ms
        \<and> next_cursor ms seen = Inr (Some c) \<longrightarrow> c \<in> set K)"

lemma next_cursor_new:
  "next_cursor ms seen = Inr (Some c) \<Longrightarrow> \<not> list_ex (py_eq c) seen \<and> hashable c"
  by (auto simp: next_cursor_def rbind_Inr Let_def split: if_splits)

lemma py_eq_refl: "c \<noteq> JFloat NaN \<Longrightarrow> py_eq c c"
  by (auto simp: py_eq_def split: option.split)

lemma paging_ends:
  assumes "cursors_among K C repr path" "JFloat NaN \<notin> set K" "set seen \<subseteq> set K"
  shows "\<exists>r. paged C repr path key body cursor seen w = Some r"
  using assms(3)
proof (induction "card (set K - set seen)" arbitrary: cursor seen w rule: less_induct)
  case less
  obtain x w1 where f: "fetch_page C repr path cursor w = (x, w1)" by (metis prod.collapse)
  have next_page: "\<exists>r. paged C repr path key body c (c # seen) w2 = Some r"
    if "x = Inr ms" "next_cursor ms seen = Inr (Some c)" for ms c w2
  proof -
    from assms(1) f that have c: "c \<in> set K" unfolding cursors_among_def by (metis fst_conv)
    with assms(2) have "c \<noteq> JFloat NaN" by metis
    with next_cursor_new[OF that(2)] py_eq_refl[of c] have new: "c \<notin> set seen"
      by (auto simp: list_ex_iff)
    with c have "set K - set (c # seen) \<subset> set K - set seen" by auto
    then have "card (set K - set (c # seen)) < card (set K - set seen)"
      by (intro psubset_card_mono) auto
    with less c show ?thesis by (simp add: subset_iff)
  qed
  note step = paged.simps[of C repr path key body cursor seen w, unfolded f prod.case]
  show ?case
  proof (cases x)
    case (Inl e)
    with step show ?thesis by simp
  next
    case (Inr ms)
    show ?thesis
    proof (cases "iterate (jor (jget key ms) (JArr []))")
      case (Inl e)
      with step \<open>x = Inr ms\<close> show ?thesis by simp
    next
      case (Inr items)
      obtain xs e w2 where g: "gfor items body w1 = ((xs, e), w2)" by (metis prod.collapse)
      note step2 = step[unfolded \<open>x = Inr ms\<close> Inr sum.case g prod.case]
      show ?thesis
      proof (cases e)
        case None
        note step3 = step2[unfolded None option.case]
        show ?thesis
        proof (cases "next_cursor ms seen")
          case (Inr n)
          show ?thesis
          proof (cases n)
            case (Some c)
            with next_page[OF \<open>x = Inr ms\<close>, of c w2] Inr
            obtain r where "paged C repr path key body c (c # seen) w2 = Some r" by blast
            with step3 Inr Some show ?thesis by simp
          qed (use step3 Inr in simp)
        qed (use step3 in simp)
      qed (use step2 in simp)
    qed
  qed
qed

text \<open>
  The walk over a list ends when the server has finitely many cursors, whatever it says about
  further pages: a cursor that comes back stops it.
\<close>
theorem paging_terminates:
  assumes "cursors_among K C repr path" "JFloat NaN \<notin> set K"
  shows "\<exists>items err w'. paged C repr path key body JNull [] w = Some ((items, err), w')"
  using paging_ends[OF assms, of "[]" key body JNull w] by (metis empty_subsetI list.set(1) prod.collapse)

section \<open>The feed\<close>

lemma gfor_all:
  assumes "\<And>x w. x \<in> set xs \<Longrightarrow> list_all P (fst (fst (f x w)))"
  shows "list_all P (fst (fst (gfor xs f w)))"
  using assms
proof (induction xs arbitrary: w)
  case (Cons x xs)
  obtain ys e w1 where 1: "f x w = ((ys, e), w1)" by (metis prod.collapse)
  obtain zs e2 w2 where 2: "gfor xs f w1 = ((zs, e2), w2)" by (metis prod.collapse)
  have "list_all P ys" using Cons.prems[of x w] 1 by simp
  moreover have "list_all P zs" using Cons.IH[of w1] Cons.prems 2 by simp
  ultimately show ?case using 1 2 by (cases e) (simp_all add: gthen_def)
qed (simp add: gnone_def)

lemma gcall_all:
  assumes "\<And>x w. list_all P (fst (fst (f x w)))"
  shows "list_all P (fst (fst (gcall m f w)))"
  using assms by (auto simp: gcall_def split: prod.split sum.split)

lemma paged_all:
  assumes ret: "paged C repr path key body cursor seen w = Some r"
    and "\<And>x w. list_all P (fst (fst (body x w)))"
  shows "list_all P (fst (fst r))"
proof -
  have "(\<forall>x w. list_all P (fst (fst (body x w)))) \<longrightarrow> list_all P (fst (fst r))"
  proof (rule paged.raw_induct[where P = "\<lambda>C repr path key body cursor seen w r.
      (\<forall>x w. list_all P (fst (fst (body x w)))) \<longrightarrow> list_all P (fst (fst r))", OF _ ret])
    fix f C repr path key body cursor seen w r
    assume ih: "\<And>C repr path key body cursor seen w r. f C repr path key body cursor seen w = Some r \<Longrightarrow>
        (\<forall>x w. list_all P (fst (fst (body x w)))) \<longrightarrow> list_all P (fst (fst r))"
      and eq: "(case fetch_page C repr path cursor w of
        (Inl e, w1) \<Rightarrow> Some (([], Some e), w1)
      | (Inr ms, w1) \<Rightarrow>
          (case iterate (jor (jget key ms) (JArr [])) of
             Inl e \<Rightarrow> Some (([], Some e), w1)
           | Inr items \<Rightarrow>
               (case gfor items body w1 of
                  ((xs, Some e), w2) \<Rightarrow> Some ((xs, Some e), w2)
                | ((xs, None), w2) \<Rightarrow>
                    (case next_cursor ms seen of
                       Inl e \<Rightarrow> Some ((xs, Some e), w2)
                     | Inr None \<Rightarrow> Some ((xs, None), w2)
                     | Inr (Some c) \<Rightarrow>
                         Option.bind (f C repr path key body c (c # seen) w2)
                           (\<lambda>r. Some (prepend xs r)))))) = Some r"
    show "(\<forall>x w. list_all P (fst (fst (body x w)))) \<longrightarrow> list_all P (fst (fst r))"
    proof
      assume all: "\<forall>x w. list_all P (fst (fst (body x w)))"
      have page: "list_all P (fst (fst (gfor items body w1)))" for items w1
        using gfor_all[of items P body w1] all by blast
      have "list_all P xs" if "gfor items body w1 = ((xs, e), w2)" for items w1 xs e w2
        using page[of items w1] that by simp
      with eq ih all show "list_all P (fst (fst r))"
        by (auto simp: prepend_def bind_eq_Some_conv page simp del: jget.simps
            split: prod.splits sum.splits option.splits)
    qed
  qed
  with assms(2) show ?thesis by blast
qed

text \<open>What is known of every item: a price that is not negative, in dollars, and a known family.\<close>

definition sound_item :: "supplier_item \<Rightarrow> bool" where
  "sound_item i \<longleftrightarrow> dec_neg (si_price i) = Inr False \<and> si_currency i = lit ''USD''"

lemma to_decimal_sound: "to_decimal repr v = Inr price \<Longrightarrow> dec_neg price = Inr False"
  by (auto simp: to_decimal_def rbind_Inr split: if_splits option.splits)

lemma offer_item_sound:
  "offer_item U repr ca i offer price = Inr item \<Longrightarrow> dec_neg price = Inr False \<Longrightarrow>
    sound_item item \<and> si_kind item = ca_kind ca"
  by (auto simp: offer_item_def rbind_Inr sound_item_def)

lemma offer_items_sound:
  "list_all (\<lambda>i. sound_item i \<and> si_kind i = ca_kind ca) (fst (fst (offer_items U repr ca id_key v w)))"
  by (auto simp: offer_items_def gcall_def clift_def gnone_def graise_def gyield_def
      dest!: offer_item_sound[OF _ to_decimal_sound]
      split: sum.splits exn.splits)

lemma gift_cards_sound:
  "list_all (\<lambda>i. sound_item i \<and> si_kind i = GIFT_CARD) (fst (fst (gift_card_category C repr v w)))"
  unfolding gift_card_category_def Let_def
  by (intro gcall_all) (auto intro!: gcall_all gfor_all simp: gnone_def
      offer_items_sound[where ca = "\<lparr>ca_kind = GIFT_CARD, ca_id = i, ca_name = n, ca_region = r,
        ca_platform = p, ca_restricted = b, ca_raw = c\<rparr>" for i n r p b c, simplified])

lemma game_keys_sound:
  "list_all (\<lambda>i. sound_item i \<and> si_kind i = GAME_KEY) (fst (fst (game_key_category C repr v w)))"
  unfolding game_key_category_def Let_def
  by (intro gcall_all) (auto intro!: gcall_all gfor_all simp: gnone_def
      offer_items_sound[where ca = "\<lparr>ca_kind = GAME_KEY, ca_id = i, ca_name = n, ca_region = r,
        ca_platform = p, ca_restricted = b, ca_raw = c\<rparr>" for i n r p b c, simplified])

text \<open>
  The feed is the game keys followed by the gift cards, and every item of it, also of a feed that
  an error cut short, carries a price that is not negative.
\<close>
theorem feed_items_are_sound:
  assumes "iter_products C repr w = Some ((items, err), w')"
  shows "\<exists>games cards. items = games @ cards \<and> (\<forall>i \<in> set games. sound_item i \<and> si_kind i = GAME_KEY)
    \<and> (\<forall>i \<in> set cards. sound_item i \<and> si_kind i = GIFT_CARD)"
proof -
  from assms obtain gs e w1 where g: "iter_game_keys C repr w = Some ((gs, e), w1)"
    by (auto simp: iter_products_def bind_eq_Some_conv)
  have games: "\<forall>i \<in> set gs. sound_item i \<and> si_kind i = GAME_KEY"
    using paged_all[OF g[unfolded iter_game_keys_def] game_keys_sound] by (simp add: list_all_iff)
  show ?thesis
  proof (cases e)
    case (Some x)
    with assms g have "items = gs" by (simp add: iter_products_def)
    with games show ?thesis by (intro exI[of _ gs] exI[of _ "[]"]) simp
  next
    case None
    with assms g obtain cs where c: "iter_gift_cards C repr w1 = Some ((cs, err), w')" "items = gs @ cs"
      by (auto simp: iter_products_def prepend_def)
    have "\<forall>i \<in> set cs. sound_item i \<and> si_kind i = GIFT_CARD"
      using paged_all[OF c(1)[unfolded iter_gift_cards_def] gift_cards_sound] by (simp add: list_all_iff)
    with games c(2) show ?thesis by blast
  qed
qed

text \<open>
  An offer with an id whose price is missing, unreadable or negative is skipped, and the feed goes
  on; one whose price reads as NaN is not: the comparison raises \<open>InvalidOperation\<close>, which ends
  the feed.
\<close>
theorem nan_price_ends_the_feed:
  assumes "jtruthy (jget id_key offer)" "price = jget ''price_usd'' offer"
  shows "(price = JNull \<or> decimal_of_json price = None
        \<or> (\<exists>d. decimal_of_json price = Some d \<and> dec_neg d = Inr True)
      \<longrightarrow> offer_items U repr ca id_key (JObj offer) w = (([], None), w))
    \<and> (decimal_of_json price = Some NaN
      \<longrightarrow> offer_items U repr ca id_key (JObj offer) w = (([], Some InvalidOperation), w))"
  using assms
  by (auto simp: offer_items_def gcall_def clift_def to_decimal_def gnone_def graise_def simp del: jget.simps)

section \<open>Names\<close>

lemma starts_with_conv: "starts_with u s \<longleftrightarrow> (\<exists>q. s = u @ q)"
  by (induction u s rule: starts_with.induct) auto

lemma contains_conv: "contains u s \<longleftrightarrow> (\<exists>p q. s = p @ u @ q)"
proof (induction u s rule: contains.induct)
  case (2 u x xs)
  show ?case
  proof
    assume "contains u (x # xs)"
    with 2 show "\<exists>p q. x # xs = p @ u @ q"
      by (auto simp: starts_with_conv intro: exI[of _ "[]"] exI[of _ "x # p" for p])
        (metis append_Cons append_Nil)+
  next
    assume "\<exists>p q. x # xs = p @ u @ q"
    then obtain p q where e: "x # xs = p @ u @ q" by blast
    show "contains u (x # xs)"
    proof (cases p)
      case Nil
      with e have "starts_with u (x # xs)" by (auto simp: starts_with_conv)
      then show ?thesis by simp
    next
      case (Cons y ys)
      with e 2 show ?thesis by auto
    qed
  qed
qed auto

text \<open>
  The composed name says both, the category and the offer, whatever the case of either, and never
  repeats one that the other already contains.
\<close>
theorem composed_name_says_both:
  assumes "ascii_laws U" "ascii category" "ascii offer"
  shows "contains (lower U category) (lower U (joined_name U category offer))
    \<and> contains (lower U offer) (lower U (joined_name U category offer))
    \<and> (contains (lower U category) (lower U offer) \<longrightarrow> category \<noteq> [] \<longrightarrow> offer \<noteq> []
         \<longrightarrow> joined_name U category offer = offer)"
proof -
  have low: "lower U s = map (\<lambda>c. if 65 \<le> c \<and> c \<le> 90 then c + 32 else c) s" if "ascii s" for s
    using assms(1) that by (simp add: ascii_laws_def) (simp add: ascii_db_def)
  have refl: "contains s s" for s by (auto simp: contains_conv intro: exI[of _ "[]"])
  have nil: "contains [] s" for s by (auto simp: contains_conv)
  have "ascii (category @ lit '' '' @ offer)" using assms by (simp add: lit_def)
  note lows = low[OF assms(2)] low[OF assms(3)] low[OF this]
  have "contains (lower U category) (lower U (category @ lit '' '' @ offer))"
    "contains (lower U offer) (lower U (category @ lit '' '' @ offer))"
    unfolding lows contains_conv by (fastforce intro: exI[of _ "[]"])+
  then show ?thesis using refl nil lows by (auto simp: joined_name_def)
qed

section \<open>Purchases\<close>

lemma fazercards_observed:
  "observed tr lg base \<Longrightarrow> observed tr lg (fazercards_client S repr base)"
  by (auto simp: observed_def fazercards_client_def fazercards_auth_headers_def clift_def)


section \<open>Orders\<close>

text \<open>
  Codes listed as texts under any of the known names are delivered as they are, in order; when a
  single object stands where the list should, its member names are taken for the codes, whatever
  their values.
\<close>
theorem codes_of_an_order:
  assumes "f \<in> set CODE_FIELDS" "\<And>g. g \<in> set CODE_FIELDS \<Longrightarrow> g \<noteq> f \<Longrightarrow> jget g order = JNull"
    and "cs \<noteq> []" "\<forall>c \<in> set cs. c \<noteq> [] \<and> strip_by (space U) c = c"
  shows "(jget f order = JArr (map JStr cs) \<longrightarrow> extract_codes U repr order = Inr (map text_code cs))
    \<and> (\<forall>ms. jget f order = JObj ms \<and> first_keys ms = cs \<longrightarrow>
         extract_codes U repr order = Inr (map text_code cs))"
proof -
  have codes: "concat (map (entry_codes U repr) (map JStr cs)) = map text_code cs"
    using assms(4) by (induction cs) (auto simp: Let_def)
  have skip: "codes_in U repr order (gs @ hs) = codes_in U repr order hs"
    if "\<forall>g \<in> set gs. jget g order = JNull" for gs hs
    using that by (induction gs) (simp_all add: jor_def del: jget.simps)
  obtain gs hs where split: "CODE_FIELDS = gs @ f # hs" using split_list[OF assms(1)] by blast
  have "distinct CODE_FIELDS" by (simp add: CODE_FIELDS_def)
  then have "\<forall>g \<in> set gs. g \<in> set CODE_FIELDS \<and> g \<noteq> f" unfolding split by auto
  with assms(2) have "\<forall>g \<in> set gs. jget g order = JNull" by blast
  then have "extract_codes U repr order = codes_in U repr order (f # hs)"
    unfolding extract_codes_def split by (rule skip)
  moreover have "codes_in U repr order (f # hs) = Inr (map text_code cs)"
    if "iterate (jor (jget f order) (JArr [])) = Inr (map JStr cs)"
    using assms(3) by (simp only: codes_in.simps that rbind.simps codes Let_def) simp
  moreover have "ms \<noteq> []" if "first_keys ms = cs" for ms :: "(ustr \<times> json) list"
    using that assms(3) by (auto simp: first_keys_def)
  ultimately show ?thesis using assms(3) by (auto simp: jor_def simp del: jget.simps)
qed

text \<open>
  An order whose cost cannot be read raises after the purchase was made, and the codes it delivered
  are not returned.
\<close>
theorem unreadable_cost_loses_the_codes:
  assumes "jtruthy (jget ''id'' order)" "extract_codes U repr order = Inr codes"
    and "jtruthy (jget ''total_usd'' order)" "to_decimal repr (jget ''total_usd'' order) = Inl e"
  shows "parse_order U repr (JObj order) = Inl e"
  using assms by (auto simp: parse_order_def jor_def Let_def simp del: jget.simps)

section \<open>A scripted supplier\<close>

definition page :: "json \<Rightarrow> sent_outcome" where
  "page v = Answer \<lparr>rp_status = 200, rp_text = [], rp_empty = False, rp_json = Some v,
     rp_retry_after = None, rp_reason = []\<rparr>"

definition supplier_settings :: settings where
  "supplier_settings = default_settings\<lparr>fazercards_api_key := Some (lit ''fc'')\<rparr>"

definition scripted_supplier :: "script client" where
  "scripted_supplier = fazercards_client supplier_settings json_dumps scripted"

text \<open>A server that answers every call alike.\<close>

definition echo :: "json \<Rightarrow> script client" where
  "echo v = fazercards_client supplier_settings json_dumps
     (scripted\<lparr>cl_send := (\<lambda>s w. (page v, w\<lparr>sc_sent := sc_sent w @ [s]\<rparr>))\<rparr>)"

lemma echo_fields:
  "cl_auth_headers (echo v) =
     cret [(lit ''X-API-Key'', lit ''fc''), (lit ''Accept'', lit ''application/json'')]"
  "cl_acquire (echo v) = (\<lambda>w. w)" "cl_settings (echo v) = supplier_settings"
  "cl_send (echo v) s w = (page v, w\<lparr>sc_sent := sc_sent w @ [s]\<rparr>)" "cl_unicode (echo v) = ascii_db"
  by (simp_all add: echo_def fazercards_client_def fazercards_auth_headers_def clift_def cret_def
      scripted_def supplier_settings_def require_fazercards_key_def fun_eq_iff default_settings_def)

lemma echo_request:
  assumes "200 \<in> set (rq_expected rq)"
  shows "fst (api_request (echo v) meth path rq w) = Inr v"
  using assms
  by (cases "or_none (rq_correlation rq)")
    (auto simp: api_request_def request_loop.simps attempt_once_def judge_def accept_def echo_fields
      cret_def page_def Let_def split: prod.splits)

lemma echo_fetch:
  "fst (fetch (echo v) repr path params context w) = unwrap ascii_db repr context v"
proof -
  obtain w' where "api_get (echo v) (API_PREFIX @ path) (plain_request\<lparr>rq_params := params\<rparr>) w = (Inr v, w')"
    using echo_request[of "plain_request\<lparr>rq_params := params\<rparr>" v "lit ''GET''" "API_PREFIX @ path" w]
    by (simp add: plain_request_def api_get_def) (metis fst_conv prod.collapse)
  then show ?thesis by (simp add: fetch_def cbind_def clift_def echo_fields)
qed

text \<open>A page that always names the same next page.\<close>

definition endless_page :: json where
  "endless_page = JObj [(lit ''items'', JArr [JInt 1]),
     (lit ''meta'', JObj [(lit ''has_more'', JBool True), (lit ''next_cursor'', JStr [99])])]"

lemma endless_cursors: "cursors_among [JStr [99]] (echo endless_page) repr path"
  by (auto simp: cursors_among_def fetch_page_def echo_fetch endless_page_def unwrap_def next_cursor_def
      jor_def Let_def split: if_splits)

theorem paging_terminates_witness:
  "\<exists>items err w'. paged (echo endless_page) json_dumps [] ''items'' gyield JNull [] (script_of [])
     = Some ((items, err), w')"
  by (rule paging_terminates[OF endless_cursors]) simp

text \<open>A catalogue with no categories.\<close>

definition empty_page :: json where
  "empty_page = JObj [(lit ''items'', JArr [])]"

lemma empty_feed:
  "\<exists>w'. paged (echo empty_page) repr path ''items'' body JNull [] w = Some (([], None), w')"
proof -
  obtain w1 where f: "fetch_page (echo empty_page) repr path JNull w = (Inr [(lit ''items'', JArr [])], w1)"
    using echo_fetch[of empty_page repr path "page_params JNull" "lit ''GET '' @ path" w]
    by (simp add: empty_page_def unwrap_def fetch_page_def) (metis prod.collapse)
  show ?thesis
    by (subst paged.simps) (simp add: f jor_def next_cursor_def Let_def gnone_def)
qed

theorem feed_items_are_sound_witness:
  "\<exists>w'. iter_products (echo empty_page) json_dumps (script_of []) = Some (([], None), w')
     \<and> (\<exists>games cards. [] = games @ cards \<and> list_all (\<lambda>i. sound_item i \<and> si_kind i = GAME_KEY) games)"
proof -
  obtain w1 where 1: "iter_game_keys (echo empty_page) json_dumps (script_of []) = Some (([], None), w1)"
    using empty_feed unfolding iter_game_keys_def by metis
  obtain w2 where 2: "iter_gift_cards (echo empty_page) json_dumps w1 = Some (([], None), w2)"
    using empty_feed unfolding iter_gift_cards_def by metis
  have "iter_products (echo empty_page) json_dumps (script_of []) = Some (([], None), w2)"
    using 1 2 by (simp add: iter_products_def prepend_def)
  from feed_items_are_sound[OF this] this show ?thesis by (auto simp: list_all_iff)
qed

definition lone_category :: category_info where
  "lone_category = \<lparr>ca_kind = GIFT_CARD, ca_id = JInt 1, ca_name = JStr [], ca_region = JNull,
     ca_platform = JNull, ca_restricted = False, ca_raw = (lit ''category'', JNull)\<rparr>"

theorem nan_price_ends_the_feed_witness:
  "offer_items ascii_db json_dumps lone_category ''card_id''
      (JObj [(lit ''card_id'', JInt 7), (lit ''price_usd'', JStr (lit ''NaN''))]) (script_of [])
    = (([], Some InvalidOperation), script_of [])"
proof -
  let ?o = "[(lit ''card_id'', JInt 7), (lit ''price_usd'', JStr (lit ''NaN''))]"
  have "jtruthy (jget ''card_id'' ?o)" "JStr (lit ''NaN'') = jget ''price_usd'' ?o" by simp_all
  from nan_price_ends_the_feed[OF this] parse_decimal_examples(3) show ?thesis by simp
qed

theorem composed_name_says_both_witness:
  "contains (lower ascii_db (lit ''50 USD'')) (lower ascii_db (joined_name ascii_db (lit ''Roblox'') (lit ''50 USD'')))"
  by (rule composed_name_says_both[OF ascii_db_laws, THEN conjunct2, THEN conjunct1])
    (simp_all add: lit_def)


theorem codes_of_an_order_witness:
  "extract_codes ascii_db json_dumps [(lit ''cards'', JObj [(lit ''code'', JStr (lit ''ABC''))])]
     = Inr [text_code (lit ''code'')]"
proof -
  let ?order = "[(lit ''cards'', JObj [(lit ''code'', JStr (lit ''ABC''))])]"
  have a: "''cards'' \<in> set CODE_FIELDS" by (simp add: CODE_FIELDS_def)
  have b: "jget g ?order = JNull" if "g \<in> set CODE_FIELDS" "g \<noteq> ''cards''" for g using that by simp
  have c: "[lit ''code''] \<noteq> []" by simp
  have d: "\<forall>c \<in> set [lit ''code'']. c \<noteq> [] \<and> strip_by (space ascii_db) c = c"
    by (simp add: lit_def strip_by_def ascii_db_def)
  from codes_of_an_order[OF a b c d] show ?thesis by (simp add: first_keys_def)
qed

theorem unreadable_cost_loses_the_codes_witness:
  "parse_order ascii_db json_dumps (JObj [(lit ''id'', JInt 1),
      (lit ''codes'', JArr [JStr (lit ''ABC'')]), (lit ''total_usd'', JStr (lit ''n/a''))])
    = Inl (PyValueError (lit ''unparseable price '' @ json_dumps (JStr (lit ''n/a''))))"
proof -
  let ?order = "[(lit ''id'', JInt 1), (lit ''codes'', JArr [JStr (lit ''ABC'')]),
    (lit ''total_usd'', JStr (lit ''n/a''))]"
  have a: "jtruthy (jget ''id'' ?order)" "jtruthy (jget ''total_usd'' ?order)" by simp_all
  have "strip_by (space ascii_db) (lit ''ABC'') = lit ''ABC''"
    by (simp add: lit_def strip_by_def ascii_db_def)
  then have b: "extract_codes ascii_db json_dumps ?order = Inr [text_code (lit ''ABC'')]"
    by (simp add: extract_codes_def CODE_FIELDS_def jor_def Let_def)
  have c: "to_decimal json_dumps (jget ''total_usd'' ?order)
      = Inl (PyValueError (lit ''unparseable price '' @ json_dumps (JStr (lit ''n/a''))))"
    using parse_decimal_examples(4) by (simp add: to_decimal_def)
  show ?thesis by (rule unreadable_cost_loses_the_codes[OF a(1) b a(2) c])
qed

end
