(* ===== verification/G2a.thy ===== *)
theory G2a
  imports Http_Safety
begin

text \<open>
  \<open>app/stores/g2a.py\<close>: the store's adapter. The OAuth token and its cache, the paged catalogue and
  offer lists, the writes with their asynchronous jobs, and the orders. The token endpoint, the
  wall clock and the reading of a date are parameters. The contract of a store has prices with a
  value only: a field that reads as NaN or as an infinity counts as absent in the items. A string
  field that is neither a string nor null is taken as absent, a \<open>resourceId\<close> as its text.
\<close>

section \<open>The client\<close>

definition PRODUCTS_PAGE_SIZE :: nat where "PRODUCTS_PAGE_SIZE = 20"
definition OFFERS_PAGE_SIZE :: nat where "OFFERS_PAGE_SIZE = 100"
definition TOKEN_REFRESH_MARGIN_SECONDS :: rat where "TOKEN_REFRESH_MARGIN_SECONDS = 60"

text \<open>\<open>te_post\<close> is the form post of the bare \<open>httpx\<close> client to the token path, \<open>te_time\<close> \<open>time.time()\<close>.\<close>

record 'w token_endpoint =
  te_post :: "(ustr \<times> ustr) list \<Rightarrow> 'w \<Rightarrow> sent_outcome \<times> 'w"
  te_time :: "'w \<Rightarrow> rat"

record token_state =
  tk_token :: "json option"
  tk_expires_at :: pyfloat

definition no_token :: token_state where
  "no_token = \<lparr>tk_token = None, tk_expires_at = Fl 0\<rparr>"

text \<open>\<open>float(v)\<close> of a JSON value, and \<open>max(30.0, x - 60)\<close>.\<close>

fun py_float :: "json \<Rightarrow> pyfloat result" where
  "py_float (JInt n) = Inr (Fl (fl (of_int n)))"
| "py_float (JBool b) = Inr (Fl (of_bool b))"
| "py_float (JFloat d) = Inr (pyfloat_of d)"
| "py_float (JStr s) =
     (case parse_float s of
        None \<Rightarrow> Inl (PyValueError (lit ''could not convert string to float''))
      | Some x \<Rightarrow> Inr x)"
| "py_float _ = Inl (OtherError (lit ''TypeError''))"

fun lifetime :: "pyfloat \<Rightarrow> pyfloat" where
  "lifetime (Fl r) = Fl (max 30 (fl (r - TOKEN_REFRESH_MARGIN_SECONDS)))"
| "lifetime (FInf neg) = (if neg then Fl 30 else FInf False)"
| "lifetime FNaN = Fl 30"

fun after :: "rat \<Rightarrow> pyfloat \<Rightarrow> pyfloat" where
  "after now (Fl r) = Fl (fl (now + r))"
| "after now x = x"

text \<open>\<open>now >= x\<close>.\<close>

fun reached :: "rat \<Rightarrow> pyfloat \<Rightarrow> bool" where
  "reached now (Fl r) = (r \<le> now)"
| "reached now (FInf neg) = neg"
| "reached now FNaN = False"

definition token_form :: "ustr \<times> ustr \<Rightarrow> (ustr \<times> ustr) list" where
  "token_form c =
     [(lit ''grant_type'', lit ''client_credentials''), (lit ''client_id'', fst c),
      (lit ''client_secret'', snd c)]"

definition g2a_auth_error :: "nat option \<Rightarrow> ustr \<Rightarrow> exn" where
  "g2a_auth_error status message = api_error AuthError (lit ''g2a'') status message False"

text \<open>The token in an answer, with its lifetime in seconds.\<close>

definition token_of :: "response \<Rightarrow> (json \<times> pyfloat) result" where
  "token_of r =
     (if rp_status r \<noteq> 200
      then Inl (g2a_auth_error (Some (rp_status r)) (lit ''token request failed: '' @ take 300 (rp_text r)))
      else case rp_json r of
        None \<Rightarrow> Inl (PyValueError (lit ''JSONDecodeError''))
      | Some payload \<Rightarrow>
          rbind (as_dict payload) (\<lambda>ms.
            if \<not> jtruthy (jget ''access_token'' ms)
            then Inl (g2a_auth_error None (lit ''token response has no access_token''))
            else rbind (py_float (jor (jget ''expires_in'' ms) (JInt 3600))) (\<lambda>e.
              Inr (jget ''access_token'' ms, e))))"

definition fetch_token :: "settings \<Rightarrow> 'w token_endpoint \<Rightarrow> ('w \<times> token_state, json) call" where
  "fetch_token S E x =
     (case require_g2a_credentials S of
        Inl e \<Rightarrow> (Inl e, x)
      | Inr c \<Rightarrow>
          (case te_post E (token_form c) (fst x) of
             (Broken e, w') \<Rightarrow> (Inl e, w', snd x)
           | (Lost e t, w') \<Rightarrow> (Inl (OtherError (httpx_class e @ lit '': '' @ t)), w', snd x)
           | (Answer r, w') \<Rightarrow>
               (case token_of r of
                  Inl e \<Rightarrow> (Inl e, w', snd x)
                | Inr (tok, e) \<Rightarrow>
                    (Inr tok, w', \<lparr>tk_token = Some tok,
                                   tk_expires_at = after (te_time E w') (lifetime e)\<rparr>))))"

definition token :: "settings \<Rightarrow> 'w token_endpoint \<Rightarrow> ('w \<times> token_state, json) call" where
  "token S E x =
     (case tk_token (snd x) of
        None \<Rightarrow> fetch_token S E x
      | Some tok \<Rightarrow>
          if reached (te_time E (fst x)) (tk_expires_at (snd x)) then fetch_token S E x
          else (Inr tok, x))"

definition g2a_auth_headers ::
  "settings \<Rightarrow> (json \<Rightarrow> ustr) \<Rightarrow> 'w token_endpoint \<Rightarrow> ('w \<times> token_state, (ustr \<times> ustr) list) call" where
  "g2a_auth_headers S repr E =
     cbind (token S E) (\<lambda>tok.
       cret [(lit ''Authorization'', lit ''Bearer '' @ py_str repr tok),
             (lit ''Accept'', lit ''application/json'')])"

definition get_or :: "string \<Rightarrow> json \<Rightarrow> (ustr \<times> json) list \<Rightarrow> json" where
  "get_or k v ms = (if has_key k ms then jget k ms else v)"

definition error_part :: "(json \<Rightarrow> ustr) \<Rightarrow> json \<Rightarrow> ustr" where
  "error_part repr v =
     (case v of
        JObj ms \<Rightarrow> py_str repr (get_or ''code'' (JStr (lit ''?'')) ms) @ lit '': ''
          @ py_str repr (get_or ''message'' (get_or ''detail'' (JStr []) ms) ms)
      | _ \<Rightarrow> py_str repr v)"

definition g2a_decode_error :: "(json \<Rightarrow> ustr) \<Rightarrow> response \<Rightarrow> ustr" where
  "g2a_decode_error repr r =
     (case rp_json r of
        None \<Rightarrow> or_text (take 500 (rp_text r)) (rp_reason r)
      | Some (JObj ms) \<Rightarrow>
          (case jget ''errors'' ms of
             JArr (e # es) \<Rightarrow> join (lit ''; '') (map (error_part repr) (e # es))
           | _ \<Rightarrow> decode_error repr r)
      | Some v \<Rightarrow> decode_error repr r)"

text \<open>The client: the transport it is given, beside the state of the token.\<close>

definition g2a_client ::
  "settings \<Rightarrow> (json \<Rightarrow> ustr) \<Rightarrow> 'w token_endpoint \<Rightarrow> 'w client \<Rightarrow> ('w \<times> token_state) client" where
  "g2a_client S repr E base =
     \<lparr>cl_service = lit ''g2a'', cl_settings = S, cl_unicode = cl_unicode base,
      cl_acquire = apfst (cl_acquire base), cl_auth_headers = g2a_auth_headers S repr E,
      cl_on_auth_failure = (\<lambda>x. (fst x, no_token)), cl_decode_error = g2a_decode_error repr,
      cl_url = cl_url base,
      cl_send = (\<lambda>s x. case cl_send base s (fst x) of (out, w') \<Rightarrow> (out, w', snd x)),
      cl_sink = (\<lambda>r x. case cl_sink base r (fst x) of (u, w') \<Rightarrow> (u, w', snd x)),
      cl_sleep = (\<lambda>t. apfst (cl_sleep base t)),
      cl_random = (\<lambda>x. case cl_random base (fst x) of (u, w') \<Rightarrow> (u, w', snd x)),
      cl_monotonic = (\<lambda>x. cl_monotonic base (fst x)),
      cl_date_delta = (\<lambda>s x. cl_date_delta base s (fst x)),
      cl_uuid = (\<lambda>x. case cl_uuid base (fst x) of (u, w') \<Rightarrow> (u, w', snd x))\<rparr>"

section \<open>Reading values\<close>

definition read_decimal :: "json \<Rightarrow> decimal option" where
  "read_decimal v = (if v = JNull \<or> v = JStr [] then None else decimal_of_json v)"

definition finite_price :: "json \<Rightarrow> rat option" where
  "finite_price v = Option.bind (read_decimal v) dec_val"

text \<open>
  \<open>_parse_dt\<close>: \<open>parsers\<close> are the two readings of \<open>datetime\<close> it tries in turn, with the zone it
  supplies.
\<close>

definition read_time :: "(json \<Rightarrow> ustr) \<Rightarrow> (ustr \<Rightarrow> int option) list \<Rightarrow> json \<Rightarrow> int option" where
  "read_time repr parsers v =
     (if \<not> jtruthy v then None
      else let t = replace_str (lit ''Z'') (lit ''+00:00'') (strip (py_str repr v))
           in Option.bind (find (\<lambda>p. p t \<noteq> None) parsers) (\<lambda>p. p t))"

definition adapter_get :: "'x client \<Rightarrow> ustr \<Rightarrow> (ustr \<times> json) list \<Rightarrow> ('x, (ustr \<times> json) list) call" where
  "adapter_get C path params =
     cbind (api_get C path (plain_request\<lparr>rq_params := params\<rparr>))
       (\<lambda>payload. clift (as_dict (jor payload (JObj []))))"

section \<open>The catalogue\<close>

definition parse_catalog_item ::
  "(json \<Rightarrow> ustr) \<Rightarrow> (ustr \<Rightarrow> int option) list \<Rightarrow> json \<Rightarrow> catalog_item option result" where
  "parse_catalog_item repr parsers v =
     rbind (as_dict v) (\<lambda>doc.
       if \<not> jtruthy (jget ''id'' doc) \<or> \<not> jtruthy (jget ''name'' doc) then Inr None
       else rbind (as_dict (jor (jget ''priceLimit'' doc) (JObj []))) (\<lambda>limits.
         rbind (int_or 0 (jget ''qty'' doc)) (\<lambda>qty.
           Inr (Some \<lparr>ci_product_ext_id = py_str repr (jget ''id'' doc),
             ci_name = py_str repr (jget ''name'' doc),
             ci_product_type = text_or_none (jget ''type'' doc),
             ci_slug = text_or_none (jget ''slug'' doc),
             ci_region = text_or_none (jget ''region'' doc),
             ci_platform = text_or_none (jget ''platform'' doc), ci_qty = qty,
             ci_min_price = finite_price (jget ''minPrice'' doc),
             ci_retail_min_price = finite_price (jget ''retail_min_price'' doc),
             ci_available_to_buy = jtruthy (get_or ''availableToBuy'' (JBool True) doc),
             ci_price_limit_min = finite_price (jget ''min'' limits),
             ci_price_limit_max = finite_price (jget ''max'' limits),
             ci_remote_updated_at = read_time repr parsers (jget ''updated_at'' doc),
             ci_raw = v\<rparr>))))"

text \<open>A parsed value is yielded, a dropped one is not.\<close>

definition yield_parsed :: "('a option) result \<Rightarrow> ('x, 'a) generator" where
  "yield_parsed r =
     gcall (clift r) (\<lambda>o'. case o' of None \<Rightarrow> gnone | Some v \<Rightarrow> gyield v)"

definition flag_text :: "bool \<Rightarrow> json" where
  "flag_text b = JStr (if b then lit ''true'' else lit ''false'')"

definition catalog_params :: "(int \<Rightarrow> ustr) \<Rightarrow> int option \<Rightarrow> bool \<Rightarrow> nat \<Rightarrow> (ustr \<times> json) list" where
  "catalog_params fmt since with_out page =
     [(lit ''page'', JInt (int page)), (lit ''includeOutOfStock'', flag_text with_out)]
     @ (case since of None \<Rightarrow> [] | Some t \<Rightarrow> [(lit ''updatedAtFrom'', JStr (fmt t))])"

fun int_value :: "json \<Rightarrow> int option" where
  "int_value (JInt n) = Some n"
| "int_value (JBool b) = Some (of_bool b)"
| "int_value v = None"

definition last_catalog_page :: "(ustr \<times> json) list \<Rightarrow> nat \<Rightarrow> nat \<Rightarrow> nat \<Rightarrow> nat option \<Rightarrow> bool" where
  "last_catalog_page ms seen n page max_pages \<longleftrightarrow>
     (case int_value (jget ''total'' ms) of Some t \<Rightarrow> t \<le> int seen | None \<Rightarrow> False)
     \<or> n < PRODUCTS_PAGE_SIZE
     \<or> (case max_pages of Some k \<Rightarrow> k < page + 1 | None \<Rightarrow> False)"

partial_function (option) crawl ::
  "'x client \<Rightarrow> (nat \<Rightarrow> (ustr \<times> json) list) \<Rightarrow> (json \<Rightarrow> ('x, 'a) generator) \<Rightarrow> nat option \<Rightarrow> nat \<Rightarrow> nat
    \<Rightarrow> 'x \<Rightarrow> ('a stream \<times> 'x) option" where
  "crawl C params body max_pages page seen x =
     (case adapter_get C (lit ''/v1/products'') (params page) x of
        (Inl e, x1) \<Rightarrow> Some (([], Some e), x1)
      | (Inr ms, x1) \<Rightarrow>
          if \<not> jtruthy (jget ''docs'' ms) then Some (([], None), x1)
          else case iterate (jget ''docs'' ms) of
            Inl e \<Rightarrow> Some (([], Some e), x1)
          | Inr docs \<Rightarrow>
              (case gfor docs body x1 of
                 ((ys, Some e), x2) \<Rightarrow> Some ((ys, Some e), x2)
               | ((ys, None), x2) \<Rightarrow>
                   if last_catalog_page ms (seen + length docs) (length docs) page max_pages
                   then Some ((ys, None), x2)
                   else Option.bind (crawl C params body max_pages (page + 1) (seen + length docs) x2)
                          (\<lambda>r. Some (prepend ys r))))"

definition iter_catalog ::
  "'x client \<Rightarrow> (json \<Rightarrow> ustr) \<Rightarrow> (ustr \<Rightarrow> int option) list \<Rightarrow> (int \<Rightarrow> ustr) \<Rightarrow> int option \<Rightarrow> bool \<Rightarrow> nat option
    \<Rightarrow> 'x \<Rightarrow> (catalog_item stream \<times> 'x) option" where
  "iter_catalog C repr parsers fmt since with_out max_pages x =
     crawl C (catalog_params fmt since with_out)
       (\<lambda>doc. yield_parsed (parse_catalog_item repr parsers doc)) max_pages 1 0 x"

section \<open>Offers\<close>

definition parse_offer :: "(json \<Rightarrow> ustr) \<Rightarrow> json \<Rightarrow> offer_view option result" where
  "parse_offer repr v =
     rbind (as_dict v) (\<lambda>row.
     rbind (as_dict (jor (jget ''product'' row) (JObj []))) (\<lambda>product.
       if \<not> jtruthy (jget ''id'' row) \<or> \<not> jtruthy (jget ''id'' product) then Inr None
       else rbind (as_dict (jor (jget ''inventory'' row) (JObj []))) (\<lambda>inventory.
         rbind (int_or 0 (jget ''size'' inventory)) (\<lambda>n.
           Inr (Some \<lparr>ov_offer_ext_id = py_str repr (jget ''id'' row),
             ov_product_ext_id = py_str repr (jget ''id'' product),
             ov_price = finite_price (jget ''price'' row), ov_inventory_size = n,
             ov_status = py_str repr (jor (jget ''status'' row) (JStr (lit ''unknown''))),
             ov_offer_type = text_or_none (jget ''type'' row), ov_raw = v\<rparr>)))))"

definition offer_params :: "ustr \<Rightarrow> bool option \<Rightarrow> nat \<Rightarrow> (ustr \<times> json) list" where
  "offer_params offer_type active page =
     [(lit ''page'', JInt (int page)), (lit ''itemsPerPage'', JInt (int OFFERS_PAGE_SIZE)),
      (lit ''type[]'', JStr offer_type)]
     @ (case active of None \<Rightarrow> [] | Some b \<Rightarrow> [(lit ''active'', flag_text b)])"

definition last_offer_page :: "(ustr \<times> json) list \<Rightarrow> nat \<Rightarrow> nat \<Rightarrow> bool" where
  "last_offer_page meta n page \<longleftrightarrow>
     n < OFFERS_PAGE_SIZE
     \<or> (case int_value (jget ''totalResults'' meta) of
          Some t \<Rightarrow> t \<le> int (page * OFFERS_PAGE_SIZE) | None \<Rightarrow> False)"

partial_function (option) list_offers ::
  "'x client \<Rightarrow> (json \<Rightarrow> ustr) \<Rightarrow> ustr \<Rightarrow> bool option \<Rightarrow> nat \<Rightarrow> 'x \<Rightarrow> (offer_view stream \<times> 'x) option" where
  "list_offers C repr offer_type active page x =
     (case adapter_get C (lit ''/v1/offers'') (offer_params offer_type active page) x of
        (Inl e, x1) \<Rightarrow> Some (([], Some e), x1)
      | (Inr ms, x1) \<Rightarrow>
          (case iterate (jor (jget ''data'' ms) (JArr [])) of
             Inl e \<Rightarrow> Some (([], Some e), x1)
           | Inr rows \<Rightarrow>
               (case gfor rows (\<lambda>row. yield_parsed (parse_offer repr row)) x1 of
                  ((ys, Some e), x2) \<Rightarrow> Some ((ys, Some e), x2)
                | ((ys, None), x2) \<Rightarrow>
                    (case as_dict (jor (jget ''meta'' ms) (JObj [])) of
                       Inl e \<Rightarrow> Some ((ys, Some e), x2)
                     | Inr meta \<Rightarrow>
                         if last_offer_page meta (length rows) page then Some ((ys, None), x2)
                         else Option.bind (list_offers C repr offer_type active (page + 1) x2)
                                (\<lambda>r. Some (prepend ys r))))))"

fun parse_all :: "('a \<Rightarrow> 'b option result) \<Rightarrow> 'a list \<Rightarrow> 'b list result" where
  "parse_all f [] = Inr []"
| "parse_all f (v # vs) =
     rbind (f v) (\<lambda>b. rbind (parse_all f vs) (\<lambda>bs.
       Inr (case b of None \<Rightarrow> bs | Some y \<Rightarrow> y # bs)))"

definition offer_rows :: "json \<Rightarrow> json list result" where
  "offer_rows v = (case v of JObj ms \<Rightarrow> if ms = [] then Inr [] else Inr [v] | _ \<Rightarrow> iterate (jor v (JArr [])))"

definition not_found :: "exn \<Rightarrow> bool" where
  "not_found e \<longleftrightarrow> is_api_error e \<and> status_code e = Some 404"

definition offers_for_product ::
  "'x client \<Rightarrow> (json \<Rightarrow> ustr) \<Rightarrow> ustr \<Rightarrow> ('x, offer_view list) call" where
  "offers_for_product C repr product =
     cbind (ctry (cbind (adapter_get C (lit ''/v1/products/'' @ product @ lit ''/offers'') [])
                    (\<lambda>ms. cret (Some ms))) not_found (\<lambda>e. cret None)) (\<lambda>found.
       case found of
         None \<Rightarrow> cret []
       | Some ms \<Rightarrow>
           clift (rbind (offer_rows (jget ''data'' ms)) (parse_all (parse_offer repr))))"

section \<open>Writes and their jobs\<close>

definition element_error :: "(json \<Rightarrow> ustr) \<Rightarrow> json \<Rightarrow> ustr option" where
  "element_error repr v =
     (case v of
        JObj el \<Rightarrow>
          if jtruthy (jget ''code'' el)
          then Some (strip (py_str repr (jget ''code'' el) @ lit '': ''
                       @ py_str repr (get_or ''message'' (JStr []) el)))
          else None
      | _ \<Rightarrow> None)"

definition element_offer :: "json \<Rightarrow> json option" where
  "element_offer v =
     (case v of
        JObj el \<Rightarrow>
          if jget ''resourceType'' el = JStr (lit ''offer'') \<and> jtruthy (jget ''resourceId'' el)
          then Some (jget ''resourceId'' el) else None
      | _ \<Rightarrow> None)"

definition parse_job :: "(json \<Rightarrow> ustr) \<Rightarrow> ustr option \<Rightarrow> (ustr \<times> json) list \<Rightarrow> job_result result" where
  "parse_job repr job_id payload =
     rbind (as_dict (jor (jget ''data'' payload) (JObj []))) (\<lambda>data.
     rbind (iterate (jor (jget ''elements'' data) (JArr []))) (\<lambda>elements.
       Inr \<lparr>jr_job_id = py_str repr (jor (jget ''jobId'' data)
              (JStr (case job_id of None \<Rightarrow> [] | Some i \<Rightarrow> i))),
            jr_status = py_str repr (jor (jget ''status'' data) (JStr (lit ''pending''))),
            jr_resource_id = (case List.map_filter element_offer elements of
              [] \<Rightarrow> None | v # vs \<Rightarrow> Some (py_str repr v)),
            jr_errors = List.map_filter (element_error repr) elements, jr_raw = JObj payload\<rparr>))"

text \<open>\<open>f"{price:.2f}"\<close> of a \<open>Decimal\<close>.\<close>

definition price_text :: "rat \<Rightarrow> ustr" where
  "price_text p =
     (let n = half_even (p * 100); m = nat \<bar>n\<bar>
      in (if p < 0 then [45] else []) @ digits_of (m div 100) @ [46, 48 + m div 10 mod 10, 48 + m mod 10])"

definition write_offer :: "'x client \<Rightarrow> ustr \<Rightarrow> ustr \<Rightarrow> request \<Rightarrow> (json \<Rightarrow> ustr) \<Rightarrow> ('x, job_result) call" where
  "write_offer C meth path rq repr =
     cbind (api_request C meth path rq) (\<lambda>payload.
       clift (rbind (as_dict (jor payload (JObj []))) (parse_job repr None)))"

definition create_body :: "ustr \<Rightarrow> rat \<Rightarrow> int \<Rightarrow> bool \<Rightarrow> ustr \<Rightarrow> json" where
  "create_body product price n active visibility =
     JObj [(lit ''offerType'', JStr (lit ''dropshipping'')),
       (lit ''variants'', JArr [JObj
         [(lit ''price'', JObj [(lit ''retail'', JStr (price_text price))]),
          (lit ''productId'', JStr product), (lit ''active'', JBool active),
          (lit ''inventory'', JObj [(lit ''size'', JInt n)]),
          (lit ''visibility'', JStr visibility)]])]"

definition create_offer ::
  "'x client \<Rightarrow> (json \<Rightarrow> ustr) \<Rightarrow> ustr \<Rightarrow> rat \<Rightarrow> int \<Rightarrow> bool \<Rightarrow> ustr \<Rightarrow> ('x, job_result) call" where
  "create_offer C repr product price n active visibility =
     write_offer C (lit ''POST'') (lit ''/v1/offers'')
       (plain_request\<lparr>rq_json := Some (create_body product price n active visibility),
                      rq_expected := [200, 201, 202]\<rparr>) repr"

definition variant_of ::
  "rat option \<Rightarrow> int option \<Rightarrow> bool option \<Rightarrow> bool option \<Rightarrow> ustr option \<Rightarrow> (ustr \<times> json) list" where
  "variant_of price n active archive visibility =
     (case price of None \<Rightarrow> []
      | Some p \<Rightarrow> [(lit ''price'', JObj [(lit ''retail'', JStr (price_text p))])])
     @ (case n of None \<Rightarrow> [] | Some k \<Rightarrow> [(lit ''inventory'', JObj [(lit ''size'', JInt k)])])
     @ (case active of None \<Rightarrow> [] | Some b \<Rightarrow> [(lit ''active'', JBool b)])
     @ (case archive of None \<Rightarrow> [] | Some b \<Rightarrow> [(lit ''archive'', JBool b)])
     @ (case visibility of None \<Rightarrow> [] | Some v \<Rightarrow> [(lit ''visibility'', JStr v)])"

definition update_offer ::
  "'x client \<Rightarrow> (json \<Rightarrow> ustr) \<Rightarrow> ustr \<Rightarrow> rat option \<Rightarrow> int option \<Rightarrow> bool option \<Rightarrow> bool option
    \<Rightarrow> ustr option \<Rightarrow> ('x, job_result) call" where
  "update_offer C repr offer price n active archive visibility =
     (let variant = variant_of price n active archive visibility
      in if variant = [] then craise (PyValueError (lit ''update_offer called with nothing to change''))
         else write_offer C (lit ''PATCH'') (lit ''/v1/offers/'' @ offer)
                (plain_request\<lparr>rq_json := Some (JObj [(lit ''offerType'', JStr (lit ''dropshipping'')),
                                                     (lit ''variant'', JObj variant)]),
                   rq_expected := [200, 202], rq_allow_retry := Some True\<rparr>) repr)"

definition delete_offer :: "'x client \<Rightarrow> (json \<Rightarrow> ustr) \<Rightarrow> ustr \<Rightarrow> ('x, job_result) call" where
  "delete_offer C repr offer =
     write_offer C (lit ''DELETE'') (lit ''/v1/offers/'' @ offer) (plain_request\<lparr>rq_expected := [200, 202]\<rparr>) repr"

definition get_job :: "'x client \<Rightarrow> (json \<Rightarrow> ustr) \<Rightarrow> ustr \<Rightarrow> ('x, job_result) call" where
  "get_job C repr job_id =
     cbind (adapter_get C (lit ''/v1/jobs/'' @ job_id) []) (\<lambda>ms.
       clift (parse_job repr (Some job_id) ms))"

text \<open>\<open>wait_for_job\<close>: \<open>clock\<close> and \<open>nap\<close> are \<open>time.monotonic\<close> and \<open>time.sleep\<close>; \<open>None\<close> does not return.\<close>

partial_function (option) poll_job ::
  "('x \<Rightarrow> rat) \<Rightarrow> (rat \<Rightarrow> 'x \<Rightarrow> 'x) \<Rightarrow> ('x, job_result) call \<Rightarrow> rat \<Rightarrow> rat \<Rightarrow> job_result \<Rightarrow> 'x
    \<Rightarrow> (job_result result \<times> 'x) option" where
  "poll_job clock nap get deadline every latest x =
     (if clock x < deadline
      then case get x of
             (Inl e, x1) \<Rightarrow> Some (Inl e, x1)
           | (Inr j, x1) \<Rightarrow>
               if job_is_finished j then Some (Inr j, x1)
               else poll_job clock nap get deadline every j (nap every x1)
      else Some (Inr latest, x))"

definition wait_for_job ::
  "'x client \<Rightarrow> (json \<Rightarrow> ustr) \<Rightarrow> (rat \<Rightarrow> 'x \<Rightarrow> 'x) \<Rightarrow> ustr \<Rightarrow> rat \<Rightarrow> rat \<Rightarrow> 'x
    \<Rightarrow> (job_result result \<times> 'x) option" where
  "wait_for_job C repr nap job_id timeout every x =
     poll_job (cl_monotonic C) nap (get_job C repr job_id) (fl (cl_monotonic C x + timeout)) every
       \<lparr>jr_job_id = job_id, jr_status = lit ''pending'', jr_resource_id = None, jr_errors = [],
        jr_raw = JObj []\<rparr> x"

section \<open>Orders\<close>

record order_view =
  sv_order_ext_id :: ustr
  sv_status :: ustr
  sv_items :: "json list"
  sv_raw :: json

definition is_dict :: "json \<Rightarrow> bool" where
  "is_dict v = (case v of JObj ms \<Rightarrow> True | _ \<Rightarrow> False)"

definition order_items_of :: "json \<Rightarrow> json list" where
  "order_items_of v = (case v of JObj ms \<Rightarrow> [v] | JArr xs \<Rightarrow> filter is_dict xs | _ \<Rightarrow> [])"

definition parse_store_order :: "(json \<Rightarrow> ustr) \<Rightarrow> json \<Rightarrow> order_view option result" where
  "parse_store_order repr v =
     rbind (as_dict v) (\<lambda>row.
       if \<not> jtruthy (jget ''id'' row) then Inr None
       else Inr (Some \<lparr>sv_order_ext_id = py_str repr (jget ''id'' row),
         sv_status = py_str repr (jor (jget ''status'' row) (JStr (lit ''unknown''))),
         sv_items = order_items_of (jget ''items'' row), sv_raw = v\<rparr>))"

definition order_params ::
  "(int \<Rightarrow> ustr) \<Rightarrow> ustr list \<Rightarrow> int option \<Rightarrow> nat \<Rightarrow> nat \<Rightarrow> (ustr \<times> json) list" where
  "order_params fmt statuses created_from page_size page =
     [(lit ''page'', JInt (int page)), (lit ''itemsPerPage'', JInt (int page_size)),
      (lit ''sortBy'', JStr (lit ''purchase_date'')), (lit ''sortStrategy'', JStr (lit ''DESC''))]
     @ (if statuses = [] then [] else [(lit ''statuses'', JArr (map JStr statuses))])
     @ (case created_from of None \<Rightarrow> [] | Some t \<Rightarrow> [(lit ''createdAt[from]'', JStr (fmt t))])"

text \<open>\<open>left\<close> is the number of pages that may still be asked for.\<close>

fun list_orders ::
  "'x client \<Rightarrow> (json \<Rightarrow> ustr) \<Rightarrow> (nat \<Rightarrow> (ustr \<times> json) list) \<Rightarrow> nat \<Rightarrow> nat \<Rightarrow> ('x, order_view) generator" where
  "list_orders C repr params page 0 = gnone"
| "list_orders C repr params page (Suc left) =
     gcall (adapter_get C (lit ''/v4/seller/orders'') (params page)) (\<lambda>ms.
     gcall (clift (iterate (jor (jget ''data'' ms) (JArr [])))) (\<lambda>rows.
     gthen (gfor rows (\<lambda>row. yield_parsed (parse_store_order repr row)))
       (gcall (clift (as_dict (jor (jget ''meta'' ms) (JObj [])))) (\<lambda>meta.
          if \<not> jtruthy (jget ''hasNext'' meta) \<or> rows = [] then gnone
          else list_orders C repr params (page + 1) left))))"

definition get_store_order ::
  "'x client \<Rightarrow> (json \<Rightarrow> ustr) \<Rightarrow> ustr \<Rightarrow> ('x, order_view option) call" where
  "get_store_order C repr i =
     cbind (ctry (cbind (adapter_get C (lit ''/v4/seller/orders/'' @ i) []) (\<lambda>ms. cret (Some ms)))
              not_found (\<lambda>e. cret None)) (\<lambda>found.
       case found of
         None \<Rightarrow> cret None
       | Some ms \<Rightarrow> clift (parse_store_order repr (jor (jget ''data'' ms) (JObj []))))"

section \<open>The adapter\<close>

text \<open>
  \<open>G2AAdapter\<close> as the store of the services. A walk that never ends has no value: what is proved of
  one states when it ends.
\<close>

definition g2a_store ::
  "'x client \<Rightarrow> (json \<Rightarrow> ustr) \<Rightarrow> (ustr \<Rightarrow> int option) list \<Rightarrow> (int \<Rightarrow> ustr) \<Rightarrow> 'x store_adapter" where
  "g2a_store C repr parsers fmt =
     \<lparr>ad_code = lit ''g2a'',
      ad_iter_catalog = (\<lambda>since pages x. the (iter_catalog C repr parsers fmt since True pages x)),
      ad_list_offers = (\<lambda>x. the (list_offers C repr (lit ''dropshipping'') None 1 x)),
      ad_offers_for_product = offers_for_product C repr,
      ad_create_offer = (\<lambda>p price n b. create_offer C repr p price n b (lit ''all'')),
      ad_update_offer = (\<lambda>o' price n b. update_offer C repr o' price n b None None),
      ad_get_job = get_job C repr\<rparr>"

end
