(* ===== verification/G2a_Safety.thy ===== *)
theory G2a_Safety
  imports G2a
begin

text \<open>
  What the adapter of \<open>G2a\<close> guarantees: how often a write reaches the store and with what, that a
  price survives its way into the request, when a dead token is replaced, that the catalogue walk
  and the polling of a job end, and what a job's answer means.
\<close>

section \<open>Writes\<close>

text \<open>The token endpoint is not part of what \<open>tr\<close> and \<open>lg\<close> observe.\<close>

definition unseen_tokens ::
  "('w \<Rightarrow> sent list) \<Rightarrow> ('w \<Rightarrow> api_call_record list) \<Rightarrow> 'w token_endpoint \<Rightarrow> bool" where
  "unseen_tokens tr lg E \<longleftrightarrow>
     (\<forall>form w. tr (snd (te_post E form w)) = tr w \<and> lg (snd (te_post E form w)) = lg w)"

lemma fetch_token_frame:
  "unseen_tokens tr lg E \<Longrightarrow> fetch_token S E x = (r, x') \<Longrightarrow>
     tr (fst x') = tr (fst x) \<and> lg (fst x') = lg (fst x)"
  unfolding unseen_tokens_def fetch_token_def
  by (auto split: sum.splits prod.splits sent_outcome.splits) (metis snd_conv)+

lemma token_frame:
  "unseen_tokens tr lg E \<Longrightarrow> token S E x = (r, x') \<Longrightarrow>
     tr (fst x') = tr (fst x) \<and> lg (fst x') = lg (fst x)"
  by (auto simp: token_def dest: fetch_token_frame split: option.splits if_splits)

lemma auth_headers_frame:
  assumes "unseen_tokens tr lg E"
  shows "tr (fst (snd (g2a_auth_headers S repr E x))) = tr (fst x)
    \<and> lg (fst (snd (g2a_auth_headers S repr E x))) = lg (fst x)"
proof -
  obtain r x' where t: "token S E x = (r, x')" by (metis prod.collapse)
  with token_frame[OF assms t] show ?thesis
    by (cases r) (simp_all add: g2a_auth_headers_def cbind_def cret_def)
qed

lemma g2a_observed:
  fixes base :: "'a client"
  assumes "observed tr lg base" "unseen_tokens tr lg E"
  shows "observed (tr \<circ> fst) (lg \<circ> fst) (g2a_client S repr E base)"
proof -
  have p: "snd (case m of (u, w') \<Rightarrow> (u, w', t)) = (snd m, t)"
    for m :: "'c \<times> 'a" and t :: token_state
    by (simp split: prod.split)
  show ?thesis
    using assms(1) auth_headers_frame[OF assms(2)]
    by (auto simp: observed_def g2a_client_def p)
qed

lemma g2a_client_simps [simp]:
  "cl_unicode (g2a_client S repr E base) = cl_unicode base"
  "cl_settings (g2a_client S repr E base) = S"
  "cl_auth_headers (g2a_client S repr E base) = g2a_auth_headers S repr E"
  "cl_on_auth_failure (g2a_client S repr E base) x = (fst x, no_token)"
  "cl_service (g2a_client S repr E base) = lit ''g2a''"
  "cl_decode_error (g2a_client S repr E base) = g2a_decode_error repr"
  by (simp_all add: g2a_client_def)

text \<open>The world after a call that only reads its answer further is that of the request.\<close>

lemma write_offer_world:
  "write_offer C meth path rq repr x = (r, x') \<Longrightarrow> snd (api_request C meth path rq x) = x'"
  by (auto simp: write_offer_def cbind_def clift_def split: prod.splits sum.splits)

text \<open>What a write may put on the wire: at most \<open>n\<close> requests, all of them the same.\<close>

definition at_most ::
  "nat \<Rightarrow> sent list \<Rightarrow> ustr \<Rightarrow> ustr \<Rightarrow> json option \<Rightarrow> sent list \<Rightarrow> bool" where
  "at_most n old meth path body new \<longleftrightarrow>
     (\<exists>ss. new = old @ ss \<and> length ss \<le> n
        \<and> (\<forall>s \<in> set ss. sn_method s = meth \<and> sn_path s = path \<and> sn_json s = body))"

lemma write_offer_traffic:
  assumes "observed tr lg base" "unseen_tokens tr lg E" "C = g2a_client S repr E base"
    and "upper (cl_unicode base) meth = meth" "write_offer C meth path rq repr x = (r, x')"
  shows "at_most (if may_retry meth rq then nat (max 1 (retry_max_attempts S)) + 1 else 1)
      (tr (fst x)) meth path (rq_json rq) (tr (fst x'))"
proof -
  obtain y where y: "api_request C meth path rq x = (y, x')"
    using write_offer_world[OF assms(5)] by (metis prod.collapse)
  have obs: "observed (tr \<circ> fst) (lg \<circ> fst) C" using g2a_observed[OF assms(1,2)] assms(3) by simp
  obtain cid ss rs where
    t: "traffic (tr \<circ> fst) (lg \<circ> fst) C (upper (cl_unicode C) meth) path rq cid 0 x x' ss rs"
    "int (length ss) \<le> max 1 (retry_max_attempts (cl_settings C)) + 1"
    "\<not> may_retry (upper (cl_unicode C) meth) rq \<Longrightarrow> length ss \<le> 1"
    by (rule request_traffic[OF obs y]) blast
  have "upper (cl_unicode C) meth = meth" "cl_settings C = S" using assms(3,4) by simp_all
  with t show ?thesis unfolding at_most_def traffic_def carries_def
    by (intro exI[of _ ss]) auto
qed

text \<open>
  C9: The writes of the store. A new offer is put on the wire at most once, whatever the answer, and so
  is a deletion; an update may be sent again, but every attempt carries the same absolute values,
  and an update of nothing is not sent.
\<close>
theorem offer_writes_on_the_wire:
  assumes "observed tr lg base" "unseen_tokens tr lg E" "C = g2a_client S repr E base"
    and "ascii_laws (cl_unicode base)"
  shows "at_most 1 (tr (fst x)) (lit ''POST'') (lit ''/v1/offers'')
      (Some (create_body product price n active vis))
      (tr (fst (snd (create_offer C repr product price n active vis x))))
    \<and> at_most 1 (tr (fst x)) (lit ''DELETE'') (lit ''/v1/offers/'' @ offer) None
      (tr (fst (snd (delete_offer C repr offer x))))
    \<and> (if variant_of p k a ar v = []
       then snd (update_offer C repr offer p k a ar v x) = x
       else at_most (nat (max 1 (retry_max_attempts S)) + 1) (tr (fst x)) (lit ''PATCH'')
         (lit ''/v1/offers/'' @ offer)
         (Some (JObj [(lit ''offerType'', JStr (lit ''dropshipping'')),
                      (lit ''variant'', JObj (variant_of p k a ar v))]))
         (tr (fst (snd (update_offer C repr offer p k a ar v x)))))"
proof -
  have up: "upper (cl_unicode base) (lit ''POST'') = lit ''POST''"
    "upper (cl_unicode base) (lit ''DELETE'') = lit ''DELETE''"
    "upper (cl_unicode base) (lit ''PATCH'') = lit ''PATCH''"
    using assms(4) by (simp_all add: ascii_laws_def ascii_def lit_def) (simp_all add: ascii_db_def)
  have ne: "may_retry (lit ''POST'') (plain_request\<lparr>rq_json := b, rq_expected := e\<rparr>) = False"
    "may_retry (lit ''DELETE'') (plain_request\<lparr>rq_expected := e\<rparr>) = False"
    "may_retry m (plain_request\<lparr>rq_json := b, rq_expected := e, rq_allow_retry := Some True\<rparr>) = True"
    for m b e
    by (simp_all add: may_retry_def plain_request_def)
  have pr: "rq_json plain_request = None" by (simp add: plain_request_def)
  have run: "at_most (if may_retry meth rq then nat (max 1 (retry_max_attempts S)) + 1 else 1)
      (tr (fst x)) meth path (rq_json rq) (tr (fst (snd (write_offer C meth path rq repr x))))"
    if "upper (cl_unicode base) meth = meth" for meth path rq
    using write_offer_traffic[OF assms(1-3) that prod.collapse[symmetric]] by simp
  let ?B = "Some (create_body product price n active vis)"
  let ?V = "Some (JObj [(lit ''offerType'', JStr (lit ''dropshipping'')),
    (lit ''variant'', JObj (variant_of p k a ar v))])"
  note create = run[where path = "lit ''/v1/offers''"
      and rq = "plain_request\<lparr>rq_json := ?B, rq_expected := [200, 201, 202]\<rparr>", OF up(1)]
  note delete = run[where path = "lit ''/v1/offers/'' @ offer"
      and rq = "plain_request\<lparr>rq_expected := [200, 202]\<rparr>", OF up(2)]
  note update = run[where path = "lit ''/v1/offers/'' @ offer"
      and rq = "plain_request\<lparr>rq_json := ?V, rq_expected := [200, 202], rq_allow_retry := Some True\<rparr>",
      OF up(3)]
  show ?thesis
    using create delete update
    by (simp add: ne pr create_offer_def delete_offer_def update_offer_def Let_def craise_def)
qed

section \<open>Prices\<close>

lemma digits_val_snoc: "digits_val (ds @ [c]) = 10 * digits_val ds + (c - 48)"
  by (simp add: digits_val_def)

lemma digits_val_digits: "digits_val (digits_of n) = n"
proof (induction n rule: digits_of.induct)
  case (1 n)
  show ?case
  proof (cases "n < 10")
    case True
    then show ?thesis by (subst digits_of.simps) (simp add: digits_val_def)
  next
    case False
    with 1 show ?thesis by (subst digits_of.simps) (simp add: digits_val_snoc)
  qed
qed

lemma digits_of_digits: "c \<in> set (digits_of n) \<Longrightarrow> is_digit c"
  using set_digits_of[of n] by (force simp: is_digit_def)

lemma split_digits_append:
  "\<forall>c \<in> set ds. is_digit c \<Longrightarrow> rest = [] \<or> \<not> is_digit (hd rest) \<Longrightarrow>
     split_digits (ds @ rest) = (ds, rest)"
  by (cases rest) (auto simp: split_digits_def takeWhile_append dropWhile_append)

lemma parse_fixed_point:
  assumes "b < 10" "c < 10"
  shows "parse_finite neg (digits_of a @ [46, 48 + b, 48 + c]) = Some (Finite neg (100 * a + 10 * b + c) (- 2))"
proof -
  have d: "is_digit (48 + b)" "is_digit (48 + c)" "\<not> is_digit 46" using assms by (auto simp: is_digit_def)
  have 1: "split_digits (digits_of a @ [46, 48 + b, 48 + c]) = (digits_of a, [46, 48 + b, 48 + c])"
    using digits_of_digits d by (intro split_digits_append) auto
  have 2: "split_digits [48 + b, 48 + c] = ([48 + b, 48 + c], [])"
    using d split_digits_append[of "[48 + b, 48 + c]" "[]"] by simp
  have "digits_val (digits_of a @ [48 + b, 48 + c]) = 100 * a + 10 * b + c"
    using digits_val_snoc[of "digits_of a @ [48 + b]" "48 + c"] digits_val_snoc[of "digits_of a" "48 + b"]
    by (simp add: digits_val_digits)
  with 1 2 show ?thesis by (simp add: parse_finite_def parse_exponent_def)
qed

lemma strip_solid: "\<forall>c \<in> set s. \<not> is_blank c \<Longrightarrow> strip s = s"
proof -
  assume a: "\<forall>c \<in> set s. \<not> is_blank c"
  then have "dropWhile is_blank s = s" "dropWhile is_blank (rev s) = rev s"
    by (auto simp: dropWhile_eq_self_iff hd_rev)
  then show "strip s = s" by (simp add: strip_def)
qed

lemma parse_price:
  assumes "b < 10" "c < 10"
  shows "parse_decimal ((if neg then [45] else []) @ digits_of a @ [46, 48 + b, 48 + c])
    = Some (Finite neg (100 * a + 10 * b + c) (- 2))"
proof -
  let ?u = "digits_of a @ [46, 48 + b, 48 + c]"
  let ?s = "(if neg then [45] else []) @ ?u"
  have u: "\<forall>x \<in> set ?u. x = 46 \<or> is_digit x" using digits_of_digits assms by (auto simp: is_digit_def)
  then have s: "\<forall>x \<in> set ?s. \<not> is_blank x \<and> x \<noteq> 95" by (auto simp: is_digit_def is_blank_def)
  then have t: "filter (\<lambda>c. c \<noteq> 95) (strip ?s) = ?s" using strip_solid[of ?s] by simp
  obtain h r where h: "?u = h # r" using set_digits_of[of a] by (cases "digits_of a") auto
  with u have "h \<noteq> 45 \<and> h \<noteq> 43" by (auto simp: is_digit_def)
  then have sg: "split_sign ?s = (neg, ?u)" unfolding h by simp
  have no: "ascii_lower ?u \<noteq> lit (CHR ''i'' # k)" "ascii_lower ?u \<noteq> lit (CHR ''n'' # k)"
    "ascii_lower ?u \<noteq> lit (CHR ''s'' # k)" for k
    using u unfolding h by (auto simp: ascii_lower_def lit_def is_digit_def)
  show ?thesis
    unfolding parse_decimal_def t sg Let_def prod.case using no parse_fixed_point[OF assms] by simp
qed

lemma price_text_value:
  "finite_price (JStr (price_text p)) = Some (of_int (half_even (p * 100)) / 100)"
proof -
  define n where "n = half_even (p * 100)"
  define m where "m = nat \<bar>n\<bar>"
  have t: "price_text p = (if p < 0 then [45] else []) @ digits_of (m div 100)
      @ [46, 48 + m div 10 mod 10, 48 + m mod 10]"
    by (simp add: price_text_def Let_def n_def m_def)
  have "m div 100 = m div 10 div 10" by (simp add: div_mult2_eq[symmetric])
  then have parts: "100 * (m div 100) + 10 * (m div 10 mod 10) + m mod 10 = m"
    using div_mult_mod_eq[of "m div 10" 10] div_mult_mod_eq[of m 10] by linarith
  have "(if p < 0 then - 1 else 1) * rat_of_nat m = of_int n"
    using half_even_mono[of "p * 100" 0] half_even_mono[of 0 "p * 100"] half_even_of_int[of 0]
    by (auto simp: m_def n_def)
  moreover have "parse_decimal (price_text p) = Some (Finite (p < 0) m (- 2))"
    unfolding t by (subst parse_price) (simp_all add: parts del: One_nat_def)
  moreover have "price_text p \<noteq> []" unfolding t by simp
  ultimately show ?thesis by (simp add: finite_price_def read_decimal_def power_int_minus n_def)
qed

text \<open>
  A price survives its way into a request: the text that is sent reads back as the price rounded to
  the cent, so as the price itself when it is in cents.
\<close>
theorem price_text_reads_back:
  "finite_price (JStr (price_text p)) = Some (of_int (half_even (p * 100)) / 100)
    \<and> finite_price (JStr (price_text (of_int n / 100))) = Some (of_int n / 100)"
  using price_text_value[of p] price_text_value[of "of_int n / 100"] by (simp add: half_even_of_int)

section \<open>Walks and waits that end\<close>

definition totals_below :: "int \<Rightarrow> 'x client \<Rightarrow> (nat \<Rightarrow> (ustr \<times> json) list) \<Rightarrow> bool" where
  "totals_below n C params \<longleftrightarrow>
     (\<forall>page x ms. fst (adapter_get C (lit ''/v1/products'') (params page) x) = Inr ms \<longrightarrow>
        (\<exists>t \<le> n. int_value (jget ''total'' ms) = Some t))"

lemma crawl_step:
  assumes "\<And>seen' x'. seen + 20 \<le> seen' \<Longrightarrow>
      (\<forall>k. max_pages = Some k \<longrightarrow> page < k) \<Longrightarrow>
      (totals_below n C params \<Longrightarrow> int seen' < n) \<Longrightarrow>
      \<exists>r. crawl C params body max_pages (page + 1) seen' x' = Some r"
  shows "\<exists>r. crawl C params body max_pages page seen x = Some r"
proof -
  obtain y x1 where g: "adapter_get C (lit ''/v1/products'') (params page) x = (y, x1)"
    by (metis prod.collapse)
  note step = crawl.simps[of C params body max_pages page seen x, unfolded g prod.case]
  show ?thesis
  proof (cases y)
    case (Inr ms)
    note step = step[unfolded Inr sum.case]
    show ?thesis
    proof (cases "jtruthy (jget ''docs'' ms)")
      case True
      show ?thesis
      proof (cases "iterate (jget ''docs'' ms)")
        case (Inr docs)
        obtain ys e x2 where b: "gfor docs body x1 = ((ys, e), x2)" by (metis prod.collapse)
        let ?last = "last_catalog_page ms (seen + length docs) (length docs) page max_pages"
        have more: "\<exists>r. crawl C params body max_pages (page + 1) (seen + length docs) x2 = Some r"
          if "\<not> ?last"
        proof (rule assms)
          show "seen + 20 \<le> seen + length docs" "\<forall>k. max_pages = Some k \<longrightarrow> page < k"
            using that by (auto simp: last_catalog_page_def PRODUCTS_PAGE_SIZE_def)
          assume "totals_below n C params"
          with g \<open>y = Inr ms\<close> obtain t where "t \<le> n" "int_value (jget ''total'' ms) = Some t"
            unfolding totals_below_def by (metis fst_conv)
          with that show "int (seen + length docs) < n" by (simp add: last_catalog_page_def)
        qed
        show ?thesis
        proof (cases "e = None \<and> \<not> ?last")
          case True
          with more obtain r where "crawl C params body max_pages (page + 1) (seen + length docs) x2 = Some r"
            by blast
          with step Inr b True \<open>jtruthy _\<close> show ?thesis by simp
        next
          case False
          with step Inr b \<open>jtruthy _\<close> show ?thesis by (cases e) auto
        qed
      qed (use step True in simp)
    qed (use step in simp)
  qed (use step in simp)
qed

lemma crawl_capped: "\<exists>r. crawl C params body (Some k) page seen x = Some r"
proof (induction "k - page" arbitrary: page seen x rule: less_induct)
  case less
  show ?case by (rule crawl_step[where n = 0]) (use less in auto)
qed

lemma crawl_total:
  assumes "totals_below n C params"
  shows "\<exists>r. crawl C params body max_pages page seen x = Some r"
proof (induction "nat (n - int seen)" arbitrary: page seen x rule: less_induct)
  case less
  show ?case by (rule crawl_step[where n = n]) (use less assms in auto)
qed

text \<open>
  C36: The walk over the catalogue ends: always when it is given a page cap, and without one as soon as
  the totals the store states are bounded, whatever else the pages hold.
\<close>
theorem catalogue_walk_ends:
  assumes "max_pages \<noteq> None \<or> (\<exists>n. totals_below n C (catalog_params fmt since with_out))"
  shows "\<exists>items err x'. iter_catalog C repr parsers fmt since with_out max_pages x = Some ((items, err), x')"
proof -
  have "\<exists>r. iter_catalog C repr parsers fmt since with_out max_pages x = Some r"
  proof (cases max_pages)
    case None
    with assms obtain n where "totals_below n C (catalog_params fmt since with_out)" by blast
    then show ?thesis unfolding iter_catalog_def by (rule crawl_total)
  next
    case (Some k)
    show ?thesis unfolding iter_catalog_def Some by (rule crawl_capped)
  qed
  then show ?thesis by (metis prod.collapse)
qed

text \<open>
  Waiting for a job returns, at the latest when the time is up, and with a job that is not finished
  only then; \<open>every\<close> is the length of the sleep between two polls.
\<close>
theorem wait_for_job_returns:
  assumes "0 < every"
    and "\<forall>y. cl_monotonic C y \<le> cl_monotonic C (snd (get_job C repr job_id y))"
    and "\<forall>y. cl_monotonic C y + every \<le> cl_monotonic C (nap every y)"
  shows "\<exists>r x'. wait_for_job C repr nap job_id timeout every x = Some (r, x')
    \<and> (\<forall>j. r = Inr j \<longrightarrow> job_is_finished j \<or> fl (cl_monotonic C x + timeout) \<le> cl_monotonic C x')"
proof -
  define deadline where "deadline = fl (cl_monotonic C x + timeout)"
  have "\<exists>r x'. poll_job (cl_monotonic C) nap (get_job C repr job_id) deadline every latest y = Some (r, x')
      \<and> (\<forall>j. r = Inr j \<longrightarrow> job_is_finished j \<or> deadline \<le> cl_monotonic C x')" for latest y
  proof (induction "nat \<lceil>(deadline - cl_monotonic C y) / every\<rceil>" arbitrary: latest y rule: less_induct)
    case less
    note step = poll_job.simps[of "cl_monotonic C" nap "get_job C repr job_id" deadline every latest y]
    show ?case
    proof (cases "cl_monotonic C y < deadline")
      case True
      obtain r y1 where g: "get_job C repr job_id y = (r, y1)" by (metis prod.collapse)
      with assms(2) have le: "cl_monotonic C y \<le> cl_monotonic C y1" by (metis snd_conv)
      let ?z = "nap every y1"
      have "cl_monotonic C y + every \<le> cl_monotonic C ?z" using le assms(3) by (meson add_right_mono order_trans)
      then have "deadline - cl_monotonic C ?z \<le> deadline - cl_monotonic C y - every" by linarith
      with assms(1) have "(deadline - cl_monotonic C ?z) / every \<le> (deadline - cl_monotonic C y - every) / every"
        by (intro divide_right_mono) auto
      then have "(deadline - cl_monotonic C ?z) / every \<le> (deadline - cl_monotonic C y) / every - 1"
        using assms(1) by (simp add: diff_divide_distrib)
      then have "\<lceil>(deadline - cl_monotonic C ?z) / every\<rceil> \<le> \<lceil>(deadline - cl_monotonic C y) / every\<rceil> - 1"
        by (metis ceiling_diff_one ceiling_mono)
      moreover have "0 < \<lceil>(deadline - cl_monotonic C y) / every\<rceil>" using True assms(1) by simp
      ultimately have "nat \<lceil>(deadline - cl_monotonic C ?z) / every\<rceil>
          < nat \<lceil>(deadline - cl_monotonic C y) / every\<rceil>" by linarith
      from less[OF this] step True g show ?thesis by (cases r) auto
    next
      case False
      with step show ?thesis by auto
    qed
  qed
  then show ?thesis unfolding wait_for_job_def deadline_def[symmetric] by blast
qed

section \<open>Tokens\<close>

text \<open>A token in the cache that is not due for renewal at the time of the request.\<close>

definition live_token :: "'w token_endpoint \<Rightarrow> 'w \<Rightarrow> token_state \<Rightarrow> json \<Rightarrow> bool" where
  "live_token E w ts tok \<longleftrightarrow> tk_token ts = Some tok \<and> \<not> reached (te_time E w) (tk_expires_at ts)"

definition bearer :: "(json \<Rightarrow> ustr) \<Rightarrow> json \<Rightarrow> (ustr \<times> ustr) list" where
  "bearer repr tok =
     [(lit ''Authorization'', lit ''Bearer '' @ py_str repr tok),
      (lit ''Accept'', lit ''application/json'')]"

lemma live_token_headers:
  "live_token E w ts tok \<Longrightarrow> g2a_auth_headers S repr E (w, ts) = (Inr (bearer repr tok), w, ts)"
  by (simp add: live_token_def g2a_auth_headers_def token_def cbind_def cret_def bearer_def)

lemma new_token_headers:
  "require_g2a_credentials S = Inr c \<Longrightarrow> te_post E (token_form c) w = (Answer r, w1) \<Longrightarrow>
     token_of r = Inr (tok, e) \<Longrightarrow>
     g2a_auth_headers S repr E (w, no_token)
       = (Inr (bearer repr tok), w1, \<lparr>tk_token = Some tok, tk_expires_at = after (te_time E w1) (lifetime e)\<rparr>)"
  by (simp add: g2a_auth_headers_def token_def no_token_def fetch_token_def cbind_def cret_def bearer_def)

definition with_auth :: "ustr \<Rightarrow> ustr \<Rightarrow> request \<Rightarrow> (ustr \<times> ustr) list \<Rightarrow> sent" where
  "with_auth meth path rq auth =
     \<lparr>sn_method = meth, sn_path = path, sn_params = rq_params rq, sn_json = rq_json rq,
      sn_headers = send_headers rq auth\<rparr>"

lemma g2a_send:
  "cl_send base s w = (out, w2) \<Longrightarrow> cl_send (g2a_client S repr E base) s (w, ts) = (out, w2, ts)"
  "cl_acquire (g2a_client S repr E base) (w, ts) = (cl_acquire base w, ts)"
  by (simp_all add: g2a_client_def)

lemma g2a_log:
  "log_call (g2a_client S repr E base) rec (w, ts) = (log_call base rec w, ts)"
  by (simp add: g2a_client_def log_call_def split: prod.split)

lemma attempt_answered:
  assumes "C = g2a_client S repr E base"
    and "g2a_auth_headers S repr E (cl_acquire base w, ts) = (Inr auth, w1, ts1)"
    and "cl_send base (with_auth meth path rq auth) w1 = (Answer r, w2)"
  shows "\<exists>rec. attempt_once C meth path rq cid n refreshed (w, ts)
    = judge C meth path rq n refreshed r (log_call base rec w2, ts1)"
proof -
  have "cl_auth_headers C (cl_acquire C (w, ts)) = (Inr auth, w1, ts1)"
    using assms(1,2) by (simp add: g2a_send)
  moreover have "cl_send C (with_auth meth path rq auth) (w1, ts1) = (Answer r, w2, ts1)"
    using assms(1,3) by (simp add: g2a_send)
  moreover have "log_call C rec (w2, ts1) = (log_call base rec w2, ts1)" for rec
    using assms(1) by (simp add: g2a_log)
  ultimately show ?thesis by (simp add: attempt_once_def with_auth_def Let_def) (intro exI, rule refl)
qed

text \<open>
  C37: A token the store no longer accepts costs a read nothing but a second attempt: the token is
  dropped, a new one is fetched, the request is repeated with it and its answer is the result, and the
  new token stays in the cache.
\<close>
theorem rejected_token_is_replaced:
  assumes "C = g2a_client S repr E base" "may_retry meth rq"
    and "live_token E (cl_acquire base w) ts old" "require_g2a_credentials S = Inr c"
    and "cl_send base (with_auth meth path rq (bearer repr old)) (cl_acquire base w) = (Answer r, w1)"
    and "rp_status r = 401" "401 \<notin> set (rq_expected rq)"
    and "\<forall>rec. te_post E (token_form c) (cl_acquire base (log_call base rec w1)) = (Answer t, w2 rec)"
    and "token_of t = Inr (tok, e)"
    and "\<forall>rec. cl_send base (with_auth meth path rq (bearer repr tok)) (w2 rec) = (Answer r', w3 rec)"
    and "rp_status r' \<in> set (rq_expected rq)" "accept C meth path r' = Return v"
  shows "\<exists>w' rec. request_loop C meth path rq cid 0 False (w, ts) = (Inr v, w',
      \<lparr>tk_token = Some tok, tk_expires_at = after (te_time E (w2 rec)) (lifetime e)\<rparr>)"
proof -
  obtain rec where 1: "attempt_once C meth path rq cid 1 False (w, ts)
      = judge C meth path rq 1 False r (log_call base rec w1, ts)"
    using attempt_answered[OF assms(1) live_token_headers[OF assms(3)] assms(5), of cid 1 False] by blast
  have "judge C meth path rq 1 False r (log_call base rec w1, ts)
      = (Refreshed, log_call base rec w1, no_token)"
    using assms(1,2,6,7) by (simp add: judge_def Let_def)
  note first = 1[unfolded this]
  let ?ts = "\<lparr>tk_token = Some tok, tk_expires_at = after (te_time E (w2 rec)) (lifetime e)\<rparr>"
  obtain rec' where 2: "attempt_once C meth path rq cid 2 True (log_call base rec w1, no_token)
      = judge C meth path rq 2 True r' (log_call base rec' (w3 rec), ?ts)"
    using attempt_answered[OF assms(1) new_token_headers[OF assms(4) assms(8)[rule_format] assms(9)]
        assms(10)[rule_format], of cid 2 True] by blast
  have "judge C meth path rq 2 True r' (log_call base rec' (w3 rec), ?ts) = (Return v, log_call base rec' (w3 rec), ?ts)"
    using assms(11,12) by (simp add: judge_def Let_def)
  note second = 2[unfolded this]
  have "request_loop C meth path rq cid 0 False (w, ts) = request_loop C meth path rq cid 1 True
      (log_call base rec w1, no_token)"
    using first by (subst request_loop.simps) simp
  also have "\<dots> = (Inr v, log_call base rec' (w3 rec), ?ts)"
    using second by (subst request_loop.simps) (simp add: numeral_2_eq_2)
  finally show ?thesis by blast
qed

text \<open>
  A write that is not repeated keeps the rejected token: the call fails with the store's refusal and
  the token stays in the cache, so the next write is refused as well.
\<close>
theorem rejected_token_survives_a_write:
  assumes "C = g2a_client S repr E base" "\<not> may_retry meth rq"
    and "live_token E (cl_acquire base w) ts tok"
    and "cl_send base (with_auth meth path rq (bearer repr tok)) (cl_acquire base w) = (Answer r, w1)"
    and "rp_status r = 401" "401 \<notin> set (rq_expected rq)"
  shows "\<exists>m w'. request_loop C meth path rq cid 0 False (w, ts)
    = (Inl (ApiErr AuthError (lit ''g2a'') (Some 401) m False), w', ts)"
proof -
  obtain rec where 1: "attempt_once C meth path rq cid 1 False (w, ts)
      = judge C meth path rq 1 False r (log_call base rec w1, ts)"
    using attempt_answered[OF assms(1) live_token_headers[OF assms(3)] assms(4), of cid 1 False] by blast
  then have "\<exists>m. attempt_once C meth path rq cid 1 False (w, ts)
      = (Raise (ApiErr AuthError (lit ''g2a'') (Some 401) m False), log_call base rec w1, ts)"
    using assms(1,2,5,6) by (simp add: judge_def Let_def api_error_def)
  then show ?thesis by (subst request_loop.simps) auto
qed

section \<open>Jobs\<close>

text \<open>
  What a job's answer means: it succeeded if and only if its status is complete and no element
  carries an error code, it is finished when the status is one of the three final ones, and the
  offer it names is that of the first element that names one.
\<close>
theorem job_verdict:
  assumes "parse_job repr i ms = Inr j" "jget ''data'' ms = JObj d"
    and "jget ''elements'' d = JArr els" "jget ''status'' d = JStr s"
  shows "(job_succeeded j \<longleftrightarrow> s = lit ''complete''
      \<and> (\<forall>el. JObj el \<in> set els \<longrightarrow> \<not> jtruthy (jget ''code'' el)))
    \<and> (job_is_finished j \<longleftrightarrow> s \<in> {lit ''complete'', lit ''failed'', lit ''error''})
    \<and> jr_resource_id j = (case List.map_filter element_offer els of
         [] \<Rightarrow> None | v # vs \<Rightarrow> Some (py_str repr v))"
proof -
  have "d \<noteq> []" using assms(4) by auto
  then have data: "as_dict (jor (jget ''data'' ms) (JObj [])) = Inr d"
    using assms(2) by (simp add: jor_def)
  have els: "iterate (jor (jget ''elements'' d) (JArr [])) = Inr els"
    using assms(3) by (simp add: jor_def)
  have j: "jr_status j = (if s = [] then lit ''pending'' else s)"
    "jr_errors j = List.map_filter (element_error repr) els"
    "jr_resource_id j = (case List.map_filter element_offer els of
         [] \<Rightarrow> None | v # vs \<Rightarrow> Some (py_str repr v))"
    using assms(1) unfolding parse_job_def data rbind.simps els assms(4)
    by (auto simp: jor_def)
  have "List.map_filter (element_error repr) els = []
      \<longleftrightarrow> (\<forall>el. JObj el \<in> set els \<longrightarrow> \<not> jtruthy (jget ''code'' el))"
    by (auto simp: map_filter_def filter_empty_conv element_error_def split: json.split)
  with j show ?thesis by (auto simp: job_defs)
qed

section \<open>A scripted store\<close>

definition store_settings :: settings where
  "store_settings = default_settings\<lparr>g2a_client_id := Some [105], g2a_client_secret := Some [115]\<rparr>"

definition scripted_tokens :: "script token_endpoint" where
  "scripted_tokens =
     \<lparr>te_post = (\<lambda>form w. (Answer ((answer 200 '''' None)\<lparr>rp_json :=
        Some (JObj [(lit ''access_token'', JStr [116])])\<rparr>), w)), te_time = (\<lambda>w. 0)\<rparr>"

definition scripted_store :: "(script \<times> token_state) client" where
  "scripted_store = g2a_client store_settings json_dumps scripted_tokens scripted"

definition old_token :: token_state where
  "old_token = \<lparr>tk_token = Some (JStr [111]), tk_expires_at = Fl 10\<rparr>"

lemma scripted_store_facts:
  "unseen_tokens sc_sent sc_log scripted_tokens" "ascii_laws (cl_unicode scripted)"
  "require_g2a_credentials store_settings = Inr ([105], [115])"
  "live_token scripted_tokens w old_token (JStr [111])"
  by (simp_all add: unseen_tokens_def scripted_tokens_def scripted_def ascii_db_laws
      require_g2a_credentials_def store_settings_def live_token_def old_token_def)

lemma scripted_steps:
  "cl_acquire scripted w = w"
  "cl_send scripted s w = (case sc_answers w of [] \<Rightarrow> Lost TimeoutException [] | a # as \<Rightarrow> a,
     w\<lparr>sc_sent := sc_sent w @ [s], sc_answers := tl (sc_answers w)\<rparr>)"
  "log_call scripted rec w = w\<lparr>sc_log := sc_log w @ [rec]\<rparr>"
  by (simp_all add: scripted_def log_call_def)

theorem offer_writes_on_the_wire_witness:
  "at_most 1 [] (lit ''POST'') (lit ''/v1/offers'') (Some (create_body [49] 1 5 True (lit ''all'')))
     (sc_sent (fst (snd (create_offer scripted_store json_dumps [49] 1 5 True (lit ''all'')
        (script_of [Answer (answer 500 ''oops'' None)], no_token)))))"
  using offer_writes_on_the_wire[OF scripted_observed scripted_store_facts(1) scripted_store_def
      scripted_store_facts(2), where x = "(script_of [Answer (answer 500 ''oops'' None)], no_token)"
        and product = "[49]" and price = 1 and n = 5 and active = True
        and vis = "lit ''all''"]
  by (simp add: script_of_def)

theorem catalogue_walk_ends_witness:
  "\<exists>items err x'. iter_catalog scripted_store json_dumps [] (\<lambda>t. []) None True (Some 3) (script_of [], no_token)
     = Some ((items, err), x')"
  by (rule catalogue_walk_ends) simp

theorem rejected_token_is_replaced_witness:
  "\<exists>w' ts. request_loop scripted_store (lit ''GET'') (lit ''/v1/jobs/1'') plain_request [] 0 False
      (script_of [Answer (answer 401 ''dead'' None), Answer (answer 200 ''ok'' None)], old_token)
    = (Inr (JObj []), w', ts) \<and> tk_token ts = Some (JStr [116])"
proof -
  let ?w = "script_of [Answer (answer 401 ''dead'' None), Answer (answer 200 ''ok'' None)]"
  let ?t = "(answer 200 '''' None)\<lparr>rp_json := Some (JObj [(lit ''access_token'', JStr [116])])\<rparr>"
  let ?s = "\<lambda>k. with_auth (lit ''GET'') (lit ''/v1/jobs/1'') plain_request (bearer json_dumps (JStr [k]))"
  have a: "may_retry (lit ''GET'') plain_request" by (simp add: may_retry_def plain_request_def)
  have s1: "cl_send scripted (?s 111) (cl_acquire scripted ?w) = (Answer (answer 401 ''dead'' None),
      ?w\<lparr>sc_sent := [?s 111], sc_answers := [Answer (answer 200 ''ok'' None)]\<rparr>)" (is "_ = (_, ?w1)")
    by (simp add: scripted_steps script_of_def)
  have t: "\<forall>rec. te_post scripted_tokens (token_form ([105], [115])) (cl_acquire scripted (log_call scripted rec ?w1))
      = (Answer ?t, log_call scripted rec ?w1)" by (simp add: scripted_tokens_def scripted_steps)
  have k: "token_of ?t = Inr (JStr [116], Fl (fl 3600))"
    by (simp add: token_of_def answer_def jor_def lit_def)
  have s2: "\<forall>rec. cl_send scripted (?s 116) (log_call scripted rec ?w1) = (Answer (answer 200 ''ok'' None),
      ?w1\<lparr>sc_sent := [?s 111, ?s 116], sc_answers := [], sc_log := [rec]\<rparr>)"
    by (simp add: scripted_steps script_of_def)
  have e: "rp_status (answer 401 ''dead'' None) = 401" "401 \<notin> set (rq_expected plain_request)"
    "rp_status (answer 200 ''ok'' None) \<in> set (rq_expected plain_request)"
    "accept scripted_store (lit ''GET'') (lit ''/v1/jobs/1'') (answer 200 ''ok'' None) = Return (JObj [])"
    by (simp_all add: answer_def plain_request_def accept_def)
  from rejected_token_is_replaced[OF scripted_store_def a scripted_store_facts(4,3) s1 e(1,2) t k s2 e(3,4), of "[]"]
  show ?thesis by auto
qed

theorem rejected_token_survives_a_write_witness:
  "\<exists>m w'. request_loop scripted_store (lit ''POST'') (lit ''/v1/offers'') plain_request [] 0 False
      (script_of [Answer (answer 401 ''dead'' None)], old_token)
    = (Inl (ApiErr AuthError (lit ''g2a'') (Some 401) m False), w', old_token)"
proof -
  let ?w = "script_of [Answer (answer 401 ''dead'' None)]"
  let ?s = "with_auth (lit ''POST'') (lit ''/v1/offers'') plain_request (bearer json_dumps (JStr [111]))"
  have a: "\<not> may_retry (lit ''POST'') plain_request" by (simp add: may_retry_def plain_request_def)
  have s: "cl_send scripted ?s (cl_acquire scripted ?w) = (Answer (answer 401 ''dead'' None),
      ?w\<lparr>sc_sent := [?s], sc_answers := []\<rparr>)"
    by (simp add: scripted_steps script_of_def)
  have e: "rp_status (answer 401 ''dead'' None) = 401" "401 \<notin> set (rq_expected plain_request)"
    by (simp_all add: answer_def plain_request_def)
  show ?thesis
    by (rule rejected_token_survives_a_write[OF scripted_store_def a scripted_store_facts(4) s e])
qed

theorem job_verdict_witness:
  "\<exists>j. parse_job json_dumps None [(lit ''data'', JObj [(lit ''status'', JStr (lit ''complete'')),
      (lit ''elements'', JArr [JObj [(lit ''code'', JStr [69])]])])] = Inr j \<and> \<not> job_succeeded j"
proof -
  let ?el = "JObj [(lit ''code'', JStr [69])]"
  let ?d = "[(lit ''status'', JStr (lit ''complete'')), (lit ''elements'', JArr [?el])]"
  obtain j where j: "parse_job json_dumps None [(lit ''data'', JObj ?d)] = Inr j"
    by (simp add: parse_job_def jor_def lit_def)
  have f: "jget ''data'' [(lit ''data'', JObj ?d)] = JObj ?d" "jget ''elements'' ?d = JArr [?el]"
    "jget ''status'' ?d = JStr (lit ''complete'')" by (simp_all add: lit_def)
  from job_verdict[OF j f] j show ?thesis by (auto simp: lit_def)
qed

text \<open>A store whose clock is its world and whose jobs stay pending.\<close>

definition ticking :: "rat client" where
  "ticking =
     \<lparr>cl_service = lit ''g2a'', cl_settings = store_settings, cl_unicode = ascii_db,
      cl_acquire = (\<lambda>w. w), cl_auth_headers = cret [], cl_on_auth_failure = (\<lambda>w. w),
      cl_decode_error = decode_error json_dumps, cl_url = (\<lambda>p. p),
      cl_send = (\<lambda>s w. (Answer (answer 200 ''ok'' None), w)), cl_sink = (\<lambda>r w. (Inr (), w)),
      cl_sleep = (\<lambda>t w. w + t), cl_random = Pair 0, cl_monotonic = (\<lambda>w. w),
      cl_date_delta = (\<lambda>s w. None), cl_uuid = Pair (lit ''c1'')\<rparr>"

lemma ticking_get: "snd (get_job ticking json_dumps i w) = w"
proof -
  have "attempt_once ticking m p plain_request c n b w = (Return (JObj []), w)" for m p c n b
    by (simp add: attempt_once_def ticking_def cret_def Let_def judge_def plain_request_def answer_def
        accept_def log_call_def)
  then have "request_loop ticking m p plain_request c n b w = (Inr (JObj []), w)" for m p c n b
    by (subst request_loop.simps) simp
  moreover have "plain_request\<lparr>rq_params := []\<rparr> = plain_request"
    "rq_correlation plain_request = None" by (simp_all add: plain_request_def)
  moreover have "cl_uuid ticking w = (lit ''c1'', w)"
    by (simp add: ticking_def)
  ultimately show ?thesis
    by (simp add: get_job_def adapter_get_def api_get_def api_request_def cbind_def clift_def
        jor_def)
qed

theorem wait_for_job_returns_witness:
  "\<exists>j x'. wait_for_job ticking json_dumps (\<lambda>t w. w + t) [49] 60 2 0 = Some (j, x')"
proof -
  have "\<forall>y. cl_monotonic ticking y \<le> cl_monotonic ticking (snd (get_job ticking json_dumps [49] y))"
    "\<forall>y. cl_monotonic ticking y + 2 \<le> cl_monotonic ticking (y + 2)"
    unfolding ticking_get by (simp_all add: ticking_def)
  from wait_for_job_returns[where every = 2 and nap = "\<lambda>t w. w + t", OF _ this, of 60 0]
  show ?thesis by fastforce
qed

end
