(* ===== verification/Sync_Run.thy ===== *)
theory Sync_Run
  imports Work
begin

text \<open>
  \<open>SyncRunRecorder\<close> of \<open>app/services/catalog_sync.py\<close>: the row that describes a run, opened
  before the body of the \<open>with\<close> block and closed after it, whether it ends or raises. The
  counters live in memory, beside the world, so that they survive an exception of the body.
\<close>

section \<open>Counters\<close>

type_synonym stats = "(string \<times> int) list"

definition stat :: "stats \<Rightarrow> string \<Rightarrow> int" where
  "stat st k = (case map_of st k of None \<Rightarrow> 0 | Some n \<Rightarrow> n)"

fun stat_add :: "string \<Rightarrow> int \<Rightarrow> stats \<Rightarrow> stats" where
  "stat_add k n [] = [(k, n)]"
| "stat_add k n ((k', m) # st) = (if k' = k then (k', m + n) # st else (k', m) # stat_add k n st)"

lemma stat_Nil [simp]: "stat [] k = 0"
  by (simp add: stat_def)

lemma stat_stat_add [simp]: "stat (stat_add k n st) k' = stat st k' + (if k' = k then n else 0)"
  by (induction st) (auto simp: stat_def)

lemma stat_add_keys: "set (map fst (stat_add k n st)) = insert k (set (map fst st))"
  by (induction k n st rule: stat_add.induct) auto

lemma stat_add_distinct: "distinct (map fst st) \<Longrightarrow> distinct (map fst (stat_add k n st))"
proof (induction st)
  case (Cons x st)
  with stat_add_keys[of k n st] show ?case by (cases x) auto
qed simp

section \<open>The recorder\<close>

type_synonym ('w, 'a) counted = "('w \<times> stats, 'a) work"

definition bump :: "string \<Rightarrow> int \<Rightarrow> ('w, unit) counted" where
  "bump k n ws d = (Inr (), (fst ws, stat_add k n (snd ws)), d)"

definition in_run :: "('w, 'a) work \<Rightarrow> ('w, 'a) counted" where
  "in_run m ws d = (case m (fst ws) d of (r, w', d') \<Rightarrow> (r, (w', snd ws), d'))"

definition open_run :: "'w runtime \<Rightarrow> ustr \<Rightarrow> ('w, nat) work" where
  "open_run R kind =
     wbind (wtime (txn_now R)) (\<lambda>now.
     wbind (wread (\<lambda>d. fresh_id run_id (sync_runs d))) (\<lambda>i.
     wthen (wmodify (\<lambda>d. d\<lparr>sync_runs := sync_runs d @
               [\<lparr>run_id = i, run_kind = kind, run_state = RUNNING, run_stats = [], run_error = None,
                 run_started_at = now, run_finished_at = None\<rparr>]\<rparr>))
     (wthen wflush (wret i))))"

definition end_state :: "exn option \<Rightarrow> stats \<Rightarrow> run_state" where
  "end_state err st =
     (if err \<noteq> None then RunFailed else if stat st ''errors'' \<noteq> 0 then PARTIAL else SUCCESS)"

definition end_error :: "exn option \<Rightarrow> ustr option" where
  "end_error err =
     map_option (\<lambda>e. take 4000 (lit (exn_class e) @ lit '': '' @ exn_str e)) err"

definition closed_row :: "'w runtime \<Rightarrow> stats \<Rightarrow> exn option \<Rightarrow> 'w \<Rightarrow> sync_run \<Rightarrow> sync_run" where
  "closed_row R st err w r =
     r\<lparr>run_stats := st, run_finished_at := Some (utcnow R w), run_state := end_state err st,
       run_error := end_error err\<rparr>"

definition close_run :: "'w runtime \<Rightarrow> nat \<Rightarrow> stats \<Rightarrow> exn option \<Rightarrow> ('w, unit) work" where
  "close_run R i st err w =
     wthen (wmodify (\<lambda>d. d\<lparr>sync_runs :=
              map (\<lambda>r. if run_id r = i then closed_row R st err w r else r) (sync_runs d)\<rparr>))
       wflush w"

definition with_run :: "'w runtime \<Rightarrow> ustr \<Rightarrow> ('w, 'a) counted \<Rightarrow> ('w, 'a) work" where
  "with_run R kind body =
     wbind (open_run R kind) (\<lambda>i w d.
       case body (w, []) d of
         (r, ws, d') \<Rightarrow>
           wthen (close_run R i (snd ws) (case r of Inl e \<Rightarrow> Some e | Inr _ \<Rightarrow> None))
             (wlift r) (fst ws) d')"

lemma wp_bump [wp_simps]:
  "wp (bump k n) Q ws d = Q (Inr ()) (fst ws, stat_add k n (snd ws)) d"
  by (simp add: wp_def bump_def)

lemma wp_in_run [wp_simps]:
  "wp (in_run m) Q ws d = wp m (\<lambda>r w d. Q r (w, snd ws) d) (fst ws) d"
  by (simp add: wp_def in_run_def split: prod.split)

lemma steps_bump [step_intros]: "preorder_on_db R \<Longrightarrow> steps R (bump k n)"
  by (simp add: preorder_on_db_def steps_def bump_def reflp_def)

lemma steps_in_run [step_intros]: "steps R m \<Longrightarrow> steps R (in_run m)"
  unfolding steps_def in_run_def by (metis (no_types, lifting) prod.case_eq_if snd_conv)

text \<open>A relation that ignores the \<open>sync_runs\<close> table is kept by a recorded run if its body keeps it.\<close>

definition ignores_runs :: "(database \<Rightarrow> database \<Rightarrow> bool) \<Rightarrow> bool" where
  "ignores_runs R \<longleftrightarrow> (\<forall>d f. R d (d\<lparr>sync_runs := f\<rparr>))"

lemma steps_with_run [step_intros]:
  assumes "preorder_on_db R" "ignores_runs R" "steps R body"
  shows "steps R (with_run T kind body)"
proof -
  have m: "steps R (wmodify (\<lambda>d. d\<lparr>sync_runs := f d\<rparr>))" for f
    using assms(2) by (intro steps_modify) (simp add: ignores_runs_def)
  have o: "steps R (open_run T kind)"
    unfolding open_run_def using assms(1) by (intro step_intros m)
  have c: "steps R (close_run T i st e)" for i st e
  proof (rule stepsI)
    fix w d x w' d'
    assume "close_run T i st e w d = (x, w', d')"
    then show "R d d'"
      unfolding close_run_def
      by (rule stepsD[OF steps_then[OF assms(1) m steps_pure(5)[OF assms(1)]]])
  qed
  have "steps R (\<lambda>w d. case body (w, []) d of (r, ws, d') \<Rightarrow>
      wthen (close_run T i (snd ws) (case r of Inl e \<Rightarrow> Some e | Inr _ \<Rightarrow> None)) (wlift r) (fst ws) d')"
    for i
  proof (rule stepsI)
    fix w d x w' d'
    assume a: "(case body (w, []) d of (r, ws, d') \<Rightarrow>
      wthen (close_run T i (snd ws) (case r of Inl e \<Rightarrow> Some e | Inr _ \<Rightarrow> None)) (wlift r) (fst ws) d')
      = (x, w', d')"
    obtain r ws d1 where b: "body (w, []) d = (r, ws, d1)" by (metis prod.collapse)
    with assms(3) have 1: "R d d1" by (rule stepsD)
    from a b have "wthen (close_run T i (snd ws) (case r of Inl e \<Rightarrow> Some e | Inr _ \<Rightarrow> None))
      (wlift r) (fst ws) d1 = (x, w', d')" by simp
    moreover have "steps R (wthen (close_run T i (snd ws) (case r of Inl e \<Rightarrow> Some e | Inr _ \<Rightarrow> None))
      (wlift r))" by (intro steps_then c steps_pure assms(1))
    ultimately have "R d1 d'" using stepsD by metis
    with 1 assms(1) show "R d d'" unfolding preorder_on_db_def by (metis transpD)
  qed
  then show ?thesis unfolding with_run_def by (intro steps_bind assms(1) o)
qed

section \<open>What is recorded\<close>

text \<open>The database as the body of the block finds it.\<close>

definition opened :: "'w runtime \<Rightarrow> ustr \<Rightarrow> 'w \<Rightarrow> database \<Rightarrow> database" where
  "opened R kind w d = d\<lparr>sync_runs := sync_runs d @
     [\<lparr>run_id = fresh_id run_id (sync_runs d), run_kind = kind, run_state = RUNNING,
       run_stats = [], run_error = None, run_started_at = txn_now R w, run_finished_at = None\<rparr>]\<rparr>"

definition result_error :: "'a result \<Rightarrow> exn option" where
  "result_error r = (case r of Inl e \<Rightarrow> Some e | Inr _ \<Rightarrow> None)"

lemma opened_ok: "database_ok d \<Longrightarrow> database_ok (opened R kind w d)"
proof -
  have "fresh_id run_id (sync_runs d) \<notin> run_id ` set (sync_runs d)"
    by (metis fresh_id_fresh imageE)
  then show "database_ok d \<Longrightarrow> database_ok (opened R kind w d)"
    by (simp add: database_ok_def opened_def)
qed

lemma relabelled_runs_ok:
  "database_ok d \<Longrightarrow> map run_id rs = map run_id (sync_runs d) \<Longrightarrow> database_ok (d\<lparr>sync_runs := rs\<rparr>)"
  by (simp add: database_ok_def)

lemma with_run_result:
  assumes "database_ok d" "body (w, []) (opened R kind w d) = (r, (w', st), d1)" "database_ok d1"
  shows "with_run R kind body w d =
     (r, w', d1\<lparr>sync_runs := map (\<lambda>x. if run_id x = fresh_id run_id (sync_runs d)
         then closed_row R st (result_error r) w' x else x) (sync_runs d1)\<rparr>)"
proof -
  let ?i = "fresh_id run_id (sync_runs d)"
  let ?err = "result_error r"
  have "map run_id (map (\<lambda>x. if run_id x = ?i then closed_row R st ?err w' x else x) (sync_runs d1))
      = map run_id (sync_runs d1)"
    by (auto simp: closed_row_def)
  from relabelled_runs_ok[OF assms(3) this]
  have c: "close_run R ?i st ?err w' d1 = (Inr (), w', d1\<lparr>sync_runs :=
      map (\<lambda>x. if run_id x = ?i then closed_row R st ?err w' x else x) (sync_runs d1)\<rparr>)"
    by (simp add: close_run_def wbind_def wthen_def wmodify_def wflush_def flush_def)
  have "open_run R kind w d = (Inr ?i, w, opened R kind w d)"
    using opened_ok[OF assms(1), of R kind w]
    by (simp add: open_run_def wbind_def wthen_def wtime_def wread_def wmodify_def wflush_def
        wret_def flush_def opened_def)
  with c assms(2) show ?thesis
    by (simp add: with_run_def wbind_def[of "open_run R kind"] wthen_def
        wbind_def[of "close_run R ?i st ?err"] result_error_def[symmetric] wlift_def)
qed

lemma with_run_success:
  assumes "with_run R kind body w d = (Inr x, w', d')"
  shows "\<exists>st d1. body (w, []) (opened R kind w d) = (Inr x, (w', st), d1)
    \<and> d' = d1\<lparr>sync_runs := sync_runs d'\<rparr>"
proof -
  obtain r ws d1 where b: "body (w, []) (opened R kind w d) = (r, ws, d1)" by (metis prod.collapse)
  have "open_run R kind w d = (Inr (fresh_id run_id (sync_runs d)), w, opened R kind w d)"
    using assms by (auto simp: with_run_def wbind_def[of "open_run R kind"] open_run_def wbind_def
        wthen_def wtime_def wread_def wmodify_def wflush_def wret_def flush_def opened_def
        split: if_splits)
  with assms b show ?thesis
    by (cases ws) (auto simp: with_run_def wbind_def wthen_def wlift_def close_run_def wmodify_def
        wflush_def flush_def split: prod.splits sum.splits if_splits)
qed

text \<open>
  Every run is recorded: whether the body of the block ends or raises, the run's row holds
  its counters and its outcome (failed with the text of the exception, partial when errors
  were counted, success otherwise) and the result is the one of the body. When the body
  raised, however, \<open>session_scope\<close> rolls the row back together with everything else, so a
  crashed run leaves no row at all.
\<close>
theorem run_recorded_but_rolled_back_on_crash:
  assumes "database_ok d" "body (w, []) (opened R kind w d) = (r, (w', st), d1)" "database_ok d1"
    and "\<exists>x \<in> set (sync_runs d1). run_id x = fresh_id run_id (sync_runs d)"
  shows "(\<exists>d' row. with_run R kind body w d = (r, w', d') \<and> row \<in> set (sync_runs d')
      \<and> run_id row = fresh_id run_id (sync_runs d) \<and> run_stats row = st
      \<and> run_state row = end_state (result_error r) st \<and> run_error row = end_error (result_error r))
    \<and> (\<forall>e. r = Inl e \<longrightarrow> session_scope (with_run R kind body) w d = (Inl e, w', d))"
proof -
  note wr = with_run_result[where body = body, OF assms(1-3)]
  from assms(4) obtain x where "x \<in> set (sync_runs d1)" "run_id x = fresh_id run_id (sync_runs d)"
    by blast
  with wr show ?thesis
    by (auto simp: session_scope_def closed_row_def image_iff intro!: bexI[of _ x])
qed

definition crashing_body :: "(unit, unit) counted" where
  "crashing_body = wthen (bump ''errors'' 1) (wraise (PricingError (lit ''no FX rate available'')))"

definition still_clock :: "'w runtime" where
  "still_clock = \<lparr>http_get = (\<lambda>u w. (Inl InvalidOperation, w)), utcnow = (\<lambda>w. 5), txn_now = (\<lambda>w. 4)\<rparr>"

theorem run_recorded_but_rolled_back_on_crash_witness:
  "\<exists>d' row. with_run still_clock (lit ''offers'') crashing_body () empty_database
      = (Inl (PricingError (lit ''no FX rate available'')), (), d')
    \<and> row \<in> set (sync_runs d') \<and> run_state row = RunFailed
    \<and> session_scope (with_run still_clock (lit ''offers'') crashing_body) () empty_database
      = (Inl (PricingError (lit ''no FX rate available'')), (), empty_database)"
proof -
  let ?d1 = "opened still_clock (lit ''offers'') () empty_database"
  have b: "crashing_body ((), []) ?d1
      = (Inl (PricingError (lit ''no FX rate available'')), ((), [(''errors'', 1)]), ?d1)"
    by (simp add: crashing_body_def wthen_def wbind_def bump_def wraise_def)
  have "\<exists>x \<in> set (sync_runs ?d1). run_id x = fresh_id run_id (sync_runs empty_database)"
    by (simp add: opened_def)
  from run_recorded_but_rolled_back_on_crash[where body = crashing_body, OF empty_database_ok b opened_ok[OF empty_database_ok] this]
  show ?thesis by (auto simp: end_state_def result_error_def)
qed

end
