(* ===== verification/Pricing.thy ===== *)
theory Pricing
  imports Config Py_Decimal Work
begin

text \<open>
  \<open>app/services/pricing.py\<close>: the cached exchange rate (\<open>FxProvider\<close>) and the computation of
  a store price (\<open>Pricer\<close>), in \<open>Decimal\<close> arithmetic. The HTTP client and the clocks are
  parameters. The lemmas show when a cached rate is used and when pricing stops, how far a
  published price can be from the computed one, that prices follow costs monotonically and
  stay inside the floor and the limits of the store, and that a price is never refused for a
  cost, rate and markup of the size the columns can hold.
\<close>

section \<open>The FX provider\<close>

definition hours :: "int \<Rightarrow> timestamp" where
  "hours h = h * 3600 * 1000000"

text \<open>The newest cached quote of the configured pair.\<close>

fun newest :: "fx_rate list \<Rightarrow> fx_rate option" where
  "newest [] = None"
| "newest (r # rs) =
     (case newest rs of
        None \<Rightarrow> Some r
      | Some r' \<Rightarrow> Some (if fx_fetched_at r' \<le> fx_fetched_at r then r else r'))"

definition fx_cached :: "settings \<Rightarrow> database \<Rightarrow> fx_rate option" where
  "fx_cached s d =
     newest (filter (\<lambda>r. fx_base r = supplier_currency s \<and> fx_quote r = store_currency s)
               (fx_rates d))"

definition rate_of_payload :: "settings \<Rightarrow> json \<Rightarrow> decimal result" where
  "rate_of_payload s payload =
     (case payload of
        JObj ms \<Rightarrow>
          (let rates = jget ''rates'' ms
           in case (if jtruthy rates then rates else JObj []) of
                JObj rs \<Rightarrow>
                  (let raw = (case map_of (rev rs) (store_currency s) of
                                None \<Rightarrow> JNull | Some v \<Rightarrow> v)
                   in if raw = JNull
                      then Inl (PricingError (lit ''FX provider returned no rate''))
                      else case decimal_of_json raw of
                             None \<Rightarrow> Inl InvalidOperation
                           | Some q \<Rightarrow>
                               (case dec_nonpos q of
                                  Inl e \<Rightarrow> Inl e
                                | Inr True \<Rightarrow>
                                    Inl (PricingError (lit ''FX provider returned a non-positive rate''))
                                | Inr False \<Rightarrow> Inr q))
              | _ \<Rightarrow> Inl (OtherError (lit ''rates is not an object'')))
      | _ \<Rightarrow> Inl (OtherError (lit ''payload is not an object'')))"

definition fx_fetch :: "'w runtime \<Rightarrow> settings \<Rightarrow> 'w \<Rightarrow> decimal result \<times> 'w" where
  "fx_fetch R s w =
     (case http_get R (fx_provider_url s) w of
        (Inl e, w') \<Rightarrow> (Inl e, w')
      | (Inr payload, w') \<Rightarrow> (rate_of_payload s payload, w'))"

definition fresh_enough :: "'w runtime \<Rightarrow> settings \<Rightarrow> 'w \<Rightarrow> fx_rate \<Rightarrow> bool" where
  "fresh_enough R s w r \<longleftrightarrow> utcnow R w - fx_fetched_at r < hours (fx_max_age_hours s)"

text \<open>
  A fetched rate goes into a \<open>Numeric(18, 8)\<close> column: a value of eleven or more integer
  digits, or an infinite one, is refused when the row is flushed, outside the \<open>try\<close> block.
\<close>

definition storable_rate :: "decimal \<Rightarrow> rat option" where
  "storable_rate q =
     (case dec_val q of None \<Rightarrow> None | Some r \<Rightarrow> if r < 10 ^ 10 then Some r else None)"

definition fx_rate_now :: "'w runtime \<Rightarrow> settings \<Rightarrow> bool \<Rightarrow> ('w, rat) work" where
  "fx_rate_now R s force_refresh w d =
     (case fx_rate_usd_eur s of
        Some r \<Rightarrow> (Inr r, w, d)
      | None \<Rightarrow>
          (let cached = (if force_refresh then None else fx_cached s d)
           in case (case cached of None \<Rightarrow> None
                    | Some c \<Rightarrow> if fresh_enough R s w c then Some c else None) of
                Some c \<Rightarrow> (Inr (fx_value c), w, d)
              | None \<Rightarrow>
                  (case fx_fetch R s w of
                     (Inl e, w') \<Rightarrow>
                       (Inl (if cached \<noteq> None
                             then StaleFxRate (lit ''FX refresh failed and the cached rate is too old'')
                             else PricingError (lit ''no FX rate available'')), w', d)
                   | (Inr q, w') \<Rightarrow>
                       (case storable_rate q of
                          None \<Rightarrow> (Inl (OtherError (lit ''numeric field overflow'')), w', d)
                        | Some r \<Rightarrow>
                            (Inr r, w',
                             d\<lparr>fx_rates := fx_rates d @
                                 [\<lparr>fx_base = supplier_currency s, fx_quote = store_currency s,
                                   fx_value = r, fx_source = fx_provider_url s,
                                   fx_fetched_at = txn_now R w'\<rparr>]\<rparr>)))))"

section \<open>The pricer\<close>

datatype price_reason = NoReason | FixedOverride | RaisedToMin rat | LoweredToMax rat

record price_breakdown =
  pb_supplier_price :: rat
  pb_fx_rate :: rat
  pb_markup_percent :: rat
  pb_raw_price :: rat
  pb_final_price :: rat
  pb_clamped :: bool
  pb_floored :: bool
  pb_reason :: price_reason

fun step_of :: "price_rounding \<Rightarrow> rat" where
  "step_of Round_0_01 = 1 / 100"
| "step_of Round_0_05 = 5 / 100"
| "step_of Round_0_10 = 10 / 100"
| "step_of Round_0_99 = 1"

definition round_price :: "price_rounding \<Rightarrow> rat \<Rightarrow> rat result" where
  "round_price mode value =
     (if mode = Round_0_99
      then let whole = of_int (half_up value);
               whole' = (if whole < value then dctx (whole + 1) else whole)
           in Inr (max (99 / 100) (dctx (whole' - 1 / 100)))
      else case quantize_half_up 0 (dctx (value / step_of mode)) of
             Inl e \<Rightarrow> Inl e
           | Inr n \<Rightarrow> Inr (dctx (n * step_of mode)))"

definition effective_markup :: "settings \<Rightarrow> product_mapping option \<Rightarrow> rat" where
  "effective_markup s mapping =
     (case mapping of
        None \<Rightarrow> default_markup_percent s
      | Some m \<Rightarrow> (case pm_markup_percent_override m of
                     None \<Rightarrow> default_markup_percent s | Some x \<Rightarrow> x))"

definition raw_price :: "rat \<Rightarrow> rat \<Rightarrow> rat \<Rightarrow> rat" where
  "raw_price cost rate markup = dctx (dctx (cost * rate) * dctx (1 + dctx (markup / 100)))"

text \<open>A limit column counts when it is set and positive.\<close>

definition limit_of :: "rat option \<Rightarrow> rat option" where
  "limit_of l = (case l of None \<Rightarrow> None | Some x \<Rightarrow> if 0 < x then Some x else None)"

definition clamp_min :: "rat option \<Rightarrow> rat \<times> bool \<times> price_reason \<Rightarrow> rat \<times> bool \<times> price_reason" where
  "clamp_min l fcr =
     (case limit_of l of
        None \<Rightarrow> fcr
      | Some x \<Rightarrow> if fst fcr < x then (x, True, RaisedToMin x) else fcr)"

definition clamp_max :: "rat option \<Rightarrow> rat \<times> bool \<times> price_reason \<Rightarrow> rat \<times> bool \<times> price_reason" where
  "clamp_max l fcr =
     (case limit_of l of
        None \<Rightarrow> fcr
      | Some x \<Rightarrow> if x < fst fcr then (x, True, LoweredToMax x) else fcr)"

definition apply_store_limits :: "store_product option \<Rightarrow> rat \<Rightarrow> rat \<times> bool \<times> price_reason" where
  "apply_store_limits store_product final =
     (case store_product of
        None \<Rightarrow> (final, False, NoReason)
      | Some g \<Rightarrow>
          clamp_max (st_price_limit_max g) (clamp_min (st_price_limit_min g) (final, False, NoReason)))"

text \<open>The pure part of \<open>compute\<close>, once the exchange rate is known.\<close>

definition markup_price ::
  "settings \<Rightarrow> product_mapping option \<Rightarrow> store_product option \<Rightarrow> rat \<Rightarrow> rat \<Rightarrow> price_breakdown result" where
  "markup_price s mapping store_product cost rate =
     (let markup = effective_markup s mapping;
          raw = raw_price cost rate markup
      in case round_price (price_rounding s) raw of
           Inl e \<Rightarrow> Inl e
         | Inr rounded \<Rightarrow>
             (let floored = (rounded < min_offer_price s);
                  floor_price = (if floored then min_offer_price s else rounded);
                  (final, clamped, reason) = apply_store_limits store_product floor_price
              in case (quantize (- 4) raw, quantize (- 2) final) of
                   (Inr raw', Inr final') \<Rightarrow>
                     Inr \<lparr>pb_supplier_price = cost, pb_fx_rate = rate, pb_markup_percent = markup,
                          pb_raw_price = raw', pb_final_price = final', pb_clamped = clamped,
                          pb_floored = floored, pb_reason = reason\<rparr>
                 | _ \<Rightarrow> Inl InvalidOperation))"

definition fixed_price :: "settings \<Rightarrow> rat \<Rightarrow> rat \<Rightarrow> price_breakdown result" where
  "fixed_price s cost fixed =
     (case round_price (price_rounding s) fixed of
        Inl e \<Rightarrow> Inl e
      | Inr final \<Rightarrow>
          Inr \<lparr>pb_supplier_price = cost, pb_fx_rate = 1, pb_markup_percent = 0,
               pb_raw_price = fixed, pb_final_price = final, pb_clamped = False,
               pb_floored = False, pb_reason = FixedOverride\<rparr>)"

definition override_of :: "product_mapping option \<Rightarrow> rat option" where
  "override_of mapping = (case mapping of None \<Rightarrow> None | Some m \<Rightarrow> pm_fixed_price_override m)"

definition compute ::
  "settings \<Rightarrow> ('w, rat) work \<Rightarrow> supplier_product \<Rightarrow> product_mapping option \<Rightarrow> store_product option
    \<Rightarrow> ('w, price_breakdown) work" where
  "compute s fx_rate_fn sp mapping store_product w d =
     (case override_of mapping of
        Some fixed \<Rightarrow> (fixed_price s (sp_price_supplier sp) fixed, w, d)
      | None \<Rightarrow>
          (case fx_rate_fn w d of
             (Inl e, w', d') \<Rightarrow> (Inl e, w', d')
           | (Inr rate, w', d') \<Rightarrow>
               (markup_price s mapping store_product (sp_price_supplier sp) rate, w', d')))"

section \<open>Rounding to a price step\<close>

lemma dctx_int: "\<bar>n\<bar> < 10 ^ 28 \<Longrightarrow> dctx (of_int n) = of_int n"
  by (rule dctx_exact[of _ n 0]) auto

lemma powi_minus_2: "(10::rat) powi - 2 = 1 / 100"
  by (simp add: power_int_minus)

lemma dctx_cents: "\<bar>n\<bar> < 10 ^ 28 \<Longrightarrow> dctx (of_int n / 100) = of_int n / 100"
  by (rule dctx_exact[of _ n "- 2"]) (simp_all add: powi_minus_2)

definition cents :: "rat \<Rightarrow> bool" where
  "cents x \<longleftrightarrow> (\<exists>n. x = of_int n / 100 \<and> \<bar>n\<bar> < 10 ^ 28)"

lemma quantize_cents: "cents x \<Longrightarrow> quantize (- 2) x = Inr x"
  using quantize_exact[of x _ "- 2"] by (auto simp: cents_def powi_minus_2)

lemma unit_coefficient_bounds:
  "0 \<le> n \<Longrightarrow> n \<le> 10 ^ 20 \<Longrightarrow> \<bar>n\<bar> < 10 ^ 28 \<and> \<bar>100 * n - 1\<bar> < (10 ^ 28 :: int)"
  by auto

lemma step_coefficient_bounds:
  assumes "0 \<le> n" "n \<le> 10 ^ 22" "1 \<le> k" "k \<le> 100"
  shows "\<bar>n * k\<bar> < (10 ^ 28 :: int)"
proof -
  have "n * k \<le> 10 ^ 22 * 100" using assms mult_mono[of n "10 ^ 22" k 100] by simp
  moreover have "0 \<le> n * k" using assms by simp
  ultimately show ?thesis by simp
qed

text \<open>Up to \<open>10 ^ 20\<close> the \<open>.99\<close> mode is the next whole unit minus a cent, exactly.\<close>

lemma half_up_ceiling: "(if of_int (half_up v) < v then half_up v + 1 else half_up v) = \<lceil>v\<rceil>"
proof (cases "of_int (half_up v) < v")
  case True
  with half_up_near[of v] have "\<lceil>v\<rceil> = half_up v + 1"
    unfolding abs_le_iff ceiling_eq_iff of_int_add of_int_1 by linarith
  with True show ?thesis by simp
next
  case False
  with half_up_near[of v] have "\<lceil>v\<rceil> = half_up v"
    unfolding abs_le_iff ceiling_eq_iff by linarith
  with False show ?thesis by simp
qed

lemma round_price_99:
  assumes "0 \<le> v" "v < 10 ^ 20"
  shows "round_price Round_0_99 v = Inr (max (99 / 100) (of_int \<lceil>v\<rceil> - 1 / 100))"
proof -
  let ?h = "half_up v"
  have "\<lceil>v\<rceil> \<le> 10 ^ 20" "0 \<le> \<lceil>v\<rceil>" using assms by (simp_all add: ceiling_le_iff)
  then have c: "\<bar>\<lceil>v\<rceil>\<bar> < 10 ^ 28" and c': "\<bar>100 * \<lceil>v\<rceil> - 1\<bar> < 10 ^ 28"
    using unit_coefficient_bounds by blast+
  have "(if of_int ?h < v then dctx (of_int ?h + 1) else of_int ?h) = of_int \<lceil>v\<rceil>"
  proof (cases "of_int ?h < v")
    case True
    then have "?h + 1 = \<lceil>v\<rceil>" using half_up_ceiling[of v] by simp
    then have "(of_int ?h + 1 :: rat) = of_int \<lceil>v\<rceil>" by (metis of_int_1 of_int_add)
    with True dctx_int[OF c] show ?thesis by simp
  next
    case False
    with half_up_ceiling[of v] show ?thesis by simp
  qed
  moreover have "dctx (of_int \<lceil>v\<rceil> - 1 / 100) = of_int \<lceil>v\<rceil> - 1 / 100"
    using dctx_cents[OF c'] by (simp add: diff_divide_distrib)
  ultimately show ?thesis by (simp add: round_price_def Let_def)
qed

lemma step_of_bounds: "mode \<noteq> Round_0_99 \<Longrightarrow> 1 / 100 \<le> step_of mode \<and> step_of mode \<le> 1 / 10"
  by (cases mode) auto

lemma step_of_cents: "\<exists>k. step_of mode = of_int k / 100 \<and> 1 \<le> k \<and> k \<le> 100"
proof (cases mode)
  case Round_0_01
  then show ?thesis by (intro exI[of _ 1]) simp
next
  case Round_0_05
  then show ?thesis by (intro exI[of _ 5]) simp
next
  case Round_0_10
  then show ?thesis by (intro exI[of _ 10]) simp
next
  case Round_0_99
  then show ?thesis by (intro exI[of _ 100]) simp
qed

lemma round_price_step:
  assumes "mode \<noteq> Round_0_99" "0 \<le> v" "v < 10 ^ 20"
  shows "\<exists>n. n = half_up (dctx (v / step_of mode)) \<and> 0 \<le> n \<and> n \<le> 10 ^ 22
    \<and> round_price mode v = Inr (of_int n * step_of mode)"
proof -
  define n where "n = half_up (dctx (v / step_of mode))"
  have st: "1 / 100 \<le> step_of mode" using step_of_bounds[OF assms(1)] by simp
  have q: "0 \<le> v / step_of mode" using st assms(2) by simp
  have "v / step_of mode \<le> 10 ^ 20 / (1 / 100)"
    using st assms by (intro frac_le) auto
  then have "dctx (v / step_of mode) \<le> of_int (10 ^ 22)"
    using dctx_int[of "10 ^ 22"] by (intro dec.rnd_le_fixed) auto
  then have "n \<le> half_up (of_int (10 ^ 22))" unfolding n_def by (rule half_up_mono)
  then have le: "n \<le> 10 ^ 22" by (simp only: half_up_of_int)
  have ge: "0 \<le> n" unfolding n_def by (intro half_up_nonneg dec.rnd_nonneg q)
  obtain k where k: "step_of mode = of_int k / 100" "1 \<le> k" "k \<le> 100" using step_of_cents by blast
  from dctx_cents[OF step_coefficient_bounds[OF ge le k(2,3)]] have "dctx (of_int n * step_of mode) = of_int n * step_of mode"
    by (simp add: k)
  then have "round_price mode v = Inr (of_int n * step_of mode)"
    using assms(1) le ge by (simp add: round_price_def quantize_half_up_def Let_def flip: n_def)
  with le ge show ?thesis by (auto simp: n_def)
qed

lemma round_price_total:
  assumes "0 \<le> v" "v < 10 ^ 20"
  shows "\<exists>p. round_price mode v = Inr p \<and> cents p \<and> 0 \<le> p \<and> p \<le> 10 ^ 21"
proof (cases "mode = Round_0_99")
  case True
  have c: "\<lceil>v\<rceil> \<le> 10 ^ 20" "0 \<le> \<lceil>v\<rceil>" using assms by (simp_all add: ceiling_le_iff)
  have bound: "max (99 / 100) (of_int n - 1 / 100) \<le> (10 ^ 21 :: rat)" if "n \<le> 10 ^ 20" for n
  proof -
    have "(of_int n :: rat) \<le> of_int (10 ^ 20)" using that by (simp only: of_int_le_iff)
    then show ?thesis by simp
  qed
  have "cents (of_int \<lceil>v\<rceil> - 1 / 100)"
    unfolding cents_def
  proof (intro exI[of _ "100 * \<lceil>v\<rceil> - 1"] conjI)
    show "\<bar>100 * \<lceil>v\<rceil> - 1\<bar> < 10 ^ 28" using unit_coefficient_bounds c by blast
  qed (simp add: diff_divide_distrib)
  moreover have "cents (99 / 100)" unfolding cents_def by (intro exI[of _ 99]) simp
  ultimately have "cents (max (99 / 100) (of_int \<lceil>v\<rceil> - 1 / 100))" by (auto simp: max_def)
  moreover have "0 \<le> max (99 / 100) (of_int \<lceil>v\<rceil> - 1 / 100 :: rat)" by (simp add: le_max_iff_disj)
  ultimately show ?thesis using True round_price_99[OF assms] bound[OF c(1)] by blast
next
  case False
  from round_price_step[OF this assms] obtain n where n: "0 \<le> n" "n \<le> 10 ^ 22"
    "round_price mode v = Inr (of_int n * step_of mode)" by blast
  obtain k where k: "step_of mode = of_int k / 100" "1 \<le> k" "k \<le> 100" using step_of_cents by blast
  have "cents (of_int n * step_of mode)"
    unfolding cents_def using step_coefficient_bounds[OF n(1,2) k(2,3)]
    by (intro exI[of _ "n * k"]) (simp add: k)
  moreover have "of_int n * step_of mode \<le> of_int (10 ^ 22) * (1 / 10)"
    using n(1,2) step_of_bounds[OF False] by (intro mult_mono) (auto simp only: of_int_le_iff)
  moreover have "0 \<le> of_int n * step_of mode" using n step_of_bounds[OF False] by simp
  ultimately show ?thesis using n(3) by auto
qed

lemma round_price_mono:
  assumes "0 \<le> x" "x \<le> y" "y < 10 ^ 20" "round_price mode x = Inr a" "round_price mode y = Inr b"
  shows "a \<le> b"
proof (cases "mode = Round_0_99")
  case True
  have "(of_int \<lceil>x\<rceil> :: rat) \<le> of_int \<lceil>y\<rceil>" using assms(2) by (simp add: ceiling_mono)
  with True assms round_price_99[of x] round_price_99[of y] show ?thesis by auto
next
  case False
  then have st: "0 < step_of mode" using step_of_bounds by force
  have "half_up (dctx (x / step_of mode)) \<le> half_up (dctx (y / step_of mode))"
    using assms(2) st by (intro half_up_mono dec.rnd_mono divide_right_mono) auto
  with False assms round_price_step[OF False, of x] round_price_step[OF False, of y] st
  show ?thesis by (auto intro: mult_right_mono)
qed

text \<open>How far the rounded price can fall below the value: \<open>step_loss\<close>.\<close>

definition step_loss :: "price_rounding \<Rightarrow> rat" where
  "step_loss mode = (if mode = Round_0_99 then 1 / 100 else step_of mode * (1 / 2 + 1 / 10 ^ 5))"

lemma dctx_error: "0 \<le> x \<Longrightarrow> \<bar>dctx x - x\<bar> \<le> x / (2 * 10 ^ 27)"
  using round_sig_error[of 10 28 x] by (cases "x = 0") (auto simp: dctx_def)

lemma round_price_near:
  assumes "0 \<le> v" "v < 10 ^ 20" "round_price mode v = Inr p"
  shows "v - step_loss mode \<le> p" "mode \<noteq> Round_0_99 \<Longrightarrow> p \<le> v + step_loss mode"
proof -
  have "v - step_loss mode \<le> p \<and> (mode \<noteq> Round_0_99 \<longrightarrow> p \<le> v + step_loss mode)"
  proof (cases "mode = Round_0_99")
    case True
    with assms round_price_99[of v] have "of_int \<lceil>v\<rceil> - 1 / 100 \<le> p" by auto
    then have "v - 1 / 100 \<le> p" using le_of_int_ceiling[of v] by linarith
    with True show ?thesis by (simp add: step_loss_def)
  next
    case False
    let ?st = "step_of mode" and ?q = "v / step_of mode"
    have st: "1 / 100 \<le> ?st" using step_of_bounds[OF False] by simp
    then have q: "0 \<le> ?q" "?q \<le> 10 ^ 22" using assms(1,2) by (auto simp: divide_le_eq)
    have p: "p = of_int (half_up (dctx ?q)) * ?st"
      using round_price_step[OF False assms(1,2)] assms(3) by auto
    have "?q / (2 * 10 ^ 27) \<le> 1 / 10 ^ 5" using q by simp
    with dctx_error[OF q(1)] half_up_near[of "dctx ?q"]
    have "\<bar>of_int (half_up (dctx ?q)) - ?q\<bar> \<le> 1 / 2 + 1 / 10 ^ 5" by linarith
    then have "\<bar>of_int (half_up (dctx ?q)) - ?q\<bar> * ?st \<le> (1 / 2 + 1 / 10 ^ 5) * ?st"
      using st by (intro mult_right_mono) auto
    moreover have "\<bar>of_int (half_up (dctx ?q)) - ?q\<bar> * ?st = \<bar>p - v\<bar>"
    proof -
      have "(of_int (half_up (dctx ?q)) - ?q) * ?st = p - v"
        using st by (simp add: p left_diff_distrib)
      then show ?thesis using st by (metis abs_mult abs_of_pos zero_less_divide_1_iff
        zero_less_numeral less_le_trans)
    qed
    ultimately have "\<bar>p - v\<bar> \<le> step_loss mode"
      using False by (simp add: step_loss_def mult.commute)
    then show ?thesis unfolding abs_le_iff by linarith
  qed
  then show "v - step_loss mode \<le> p" "mode \<noteq> Round_0_99 \<Longrightarrow> p \<le> v + step_loss mode" by auto
qed

section \<open>The price before and after clamping\<close>

definition column_sized :: "rat \<Rightarrow> rat \<Rightarrow> rat \<Rightarrow> bool" where
  "column_sized cost rate markup \<longleftrightarrow>
     0 \<le> cost \<and> cost \<le> 10 ^ 8 \<and> 0 \<le> rate \<and> rate \<le> 10 ^ 10 \<and> - 100 \<le> markup \<and> markup \<le> 1000"

lemma dctx_markup:
  assumes "- 100 \<le> markup"
  shows "0 \<le> dctx (1 + dctx (markup / 100))"
proof -
  have "- 1 \<le> dctx (markup / 100)"
    using assms by (intro dec.rnd_ge_fixed) (auto simp: dec.rnd_minus)
  then show ?thesis by (intro dec.rnd_nonneg) simp
qed

lemma raw_price_nonneg: "0 \<le> cost \<Longrightarrow> 0 \<le> rate \<Longrightarrow> - 100 \<le> markup \<Longrightarrow> 0 \<le> raw_price cost rate markup"
  unfolding raw_price_def by (intro dec.rnd_mult_nonneg dctx_markup dec.rnd_nonneg) auto

lemma raw_price_mono:
  assumes "0 \<le> cost" "cost \<le> cost'" "0 \<le> rate" "rate \<le> rate'" "- 100 \<le> markup" "markup \<le> markup'"
  shows "raw_price cost rate markup \<le> raw_price cost' rate' markup'"
proof -
  have m: "dctx (1 + dctx (markup / 100)) \<le> dctx (1 + dctx (markup' / 100))"
    using assms by (intro dec.rnd_mono add_left_mono dec.rnd_mono divide_right_mono) auto
  have c: "dctx (cost * rate) \<le> dctx (cost' * rate')"
    using assms by (intro dec.rnd_mult_mono) auto
  have "0 \<le> dctx (cost * rate)" using assms by (intro dec.rnd_mult_nonneg) auto
  from dec.rnd_mult_mono[OF this c dctx_markup[OF assms(5)] m] show ?thesis
    unfolding raw_price_def .
qed

lemma raw_price_bound:
  assumes "column_sized cost rate markup"
  shows "0 \<le> raw_price cost rate markup \<and> raw_price cost rate markup < 10 ^ 20"
proof
  note [simp] = dctx_int[of "10", simplified] dctx_int[of "11", simplified]
  have "raw_price cost rate markup \<le> raw_price (10 ^ 8) (10 ^ 10) 1000"
    using assms by (intro raw_price_mono) (auto simp: column_sized_def)
  also have "\<dots> = 11 * 10 ^ 18"
    using dctx_int[of "10 ^ 18"] dctx_int[of "11 * 10 ^ 18"] by (simp add: raw_price_def)
  finally show "raw_price cost rate markup < 10 ^ 20" by simp
  show "0 \<le> raw_price cost rate markup"
    using assms by (intro raw_price_nonneg) (auto simp: column_sized_def)
qed

text \<open>A markup of zero or more never brings the raw price below the converted cost.\<close>

lemma raw_price_covers_cost:
  assumes "0 \<le> cost" "0 \<le> rate" "0 \<le> markup" "dctx (cost * rate) = c"
  shows "dctx c \<le> raw_price cost rate markup"
proof -
  have c: "0 \<le> c" using assms by (auto intro: dec.rnd_mult_nonneg)
  have "dctx 1 \<le> dctx (1 + dctx (markup / 100))"
    using assms by (intro dec.rnd_mono) (auto intro: dec.rnd_nonneg)
  then have "dctx (c * 1) \<le> dctx (c * dctx (1 + dctx (markup / 100)))"
    using c by (intro dec.rnd_mult_mono) auto
  then show ?thesis using assms by (simp add: raw_price_def)
qed

definition limited :: "store_product option \<Rightarrow> rat \<Rightarrow> rat" where
  "limited g x = fst (apply_store_limits g x)"

lemma limited_None [simp]: "limited None x = x"
  by (simp add: limited_def apply_store_limits_def)

lemma limited_Some:
  "limited (Some g) x =
     (let y = (case limit_of (st_price_limit_min g) of None \<Rightarrow> x | Some l \<Rightarrow> max x l)
      in case limit_of (st_price_limit_max g) of None \<Rightarrow> y | Some u \<Rightarrow> min y u)"
  by (auto simp: limited_def apply_store_limits_def clamp_min_def clamp_max_def Let_def max_def
      min_def split: option.split)

lemma limited_mono: "x \<le> y \<Longrightarrow> limited g x \<le> limited g y"
  by (cases g) (auto simp: limited_Some Let_def split: option.split)

definition limits_below :: "rat \<Rightarrow> store_product option \<Rightarrow> bool" where
  "limits_below b g \<longleftrightarrow>
     (case g of None \<Rightarrow> True
      | Some g \<Rightarrow> (\<forall>l. limit_of (st_price_limit_min g) = Some l \<longrightarrow> l \<le> b)
               \<and> (\<forall>l. limit_of (st_price_limit_max g) = Some l \<longrightarrow> l \<le> b))"

lemma limit_of_pos: "limit_of l = Some x \<Longrightarrow> 0 < x"
  by (auto simp: limit_of_def split: option.splits if_splits)

lemma limited_bound:
  "0 \<le> x \<Longrightarrow> x \<le> b \<Longrightarrow> limits_below b g \<Longrightarrow> 0 \<le> limited g x \<and> limited g x \<le> b"
  by (cases g)
    (auto simp: limited_Some limits_below_def Let_def split: option.split dest: limit_of_pos)

lemma quantize_total:
  assumes "0 \<le> x" "x \<le> 10 ^ 22"
  shows "\<exists>c. quantize (- 2) x = Inr (of_int c / 100) \<and> (\<exists>q. quantize (- 4) x = Inr q)
    \<and> \<bar>of_int c / 100 - x\<bar> \<le> 1 / 200"
proof -
  have bound: "\<bar>half_even (x / 10 powi - int k)\<bar> < 10 ^ 28" if "k \<le> 4" for k
  proof -
    have "x / 10 powi - int k = x * 10 ^ k" by (simp add: power_int_minus field_simps)
    also have "\<dots> \<le> 10 ^ 22 * 10 ^ 4"
      using assms that by (intro mult_mono power_increasing) auto
    also have "\<dots> = of_int (10 ^ 26)" by simp
    finally have "half_even (x / 10 powi - int k) \<le> half_even (of_int (10 ^ 26))"
      by (rule half_even_mono)
    moreover have "half_even (of_int 0) \<le> half_even (x / 10 powi - int k)"
      using assms by (intro half_even_mono) (simp add: power_int_minus)
    ultimately show ?thesis unfolding half_even_of_int by simp
  qed
  have "\<bar>of_int (half_even (x * 100)) / 100 - x\<bar> \<le> 1 / 200"
    using half_even_near[of "x * 100"] by (simp add: abs_le_iff field_simps)
  moreover have "quantize (- 4) x = Inr (of_int (half_even (x * 10000)) / 10000)"
    using bound[of 4] by (simp add: quantize_def Let_def power_int_minus)
  moreover have "quantize (- 2) x = Inr (of_int (half_even (x * 100)) / 100)"
    using bound[of 2] by (simp add: quantize_def Let_def power_int_minus)
  ultimately show ?thesis by blast
qed

definition settings_sized :: "settings \<Rightarrow> bool" where
  "settings_sized s \<longleftrightarrow> 0 \<le> min_offer_price s \<and> min_offer_price s \<le> 10 ^ 8"

text \<open>
  The functional behaviour of the markup path on column-sized inputs: it returns, and the
  final price is the rounded raw price, raised to the floor, clamped to the limits of the
  store and quantized to cents.
\<close>

lemma markup_price_eq:
  assumes "column_sized cost rate (effective_markup s m)" "settings_sized s"
    and "limits_below (10 ^ 8) g"
  shows "\<exists>p r. markup_price s m g cost rate = Inr p
    \<and> round_price (price_rounding s) (raw_price cost rate (effective_markup s m)) = Inr r
    \<and> quantize (- 2) (limited g (max r (min_offer_price s))) = Inr (pb_final_price p)
    \<and> pb_floored p = (r < min_offer_price s) \<and> pb_fx_rate p = rate
    \<and> pb_markup_percent p = effective_markup s m \<and> pb_supplier_price p = cost"
proof -
  let ?raw = "raw_price cost rate (effective_markup s m)"
  note raw = raw_price_bound[OF assms(1)]
  then obtain r where r: "round_price (price_rounding s) ?raw = Inr r" "0 \<le> r" "r \<le> 10 ^ 21"
    using round_price_total by blast
  let ?x = "max r (min_offer_price s)"
  have "0 \<le> ?x" "?x \<le> 10 ^ 21" using r assms(2) by (auto simp: settings_sized_def)
  moreover have "limits_below (10 ^ 21) g"
    using assms(3) by (force simp: limits_below_def split: option.splits)
  ultimately have "0 \<le> limited g ?x" "limited g ?x \<le> 10 ^ 21"
    using limited_bound by blast+
  then have "0 \<le> limited g ?x" "limited g ?x \<le> 10 ^ 22" by auto
  from quantize_total[OF this] obtain c where
    c: "quantize (- 2) (limited g ?x) = Inr (of_int c / 100)" by blast
  have "0 \<le> ?raw" "?raw \<le> 10 ^ 22" using raw by auto
  from quantize_total[OF this] obtain r4 where r4: "quantize (- 4) ?raw = Inr r4" by blast
  have x: "(if r < min_offer_price s then min_offer_price s else r) = ?x" by (simp add: max_def)
  show ?thesis
    using r(1) c r4
    by (cases "apply_store_limits g ?x") (auto simp: markup_price_def x limited_def Let_def)
qed

section \<open>Properties of a published price\<close>

text \<open>Costs, rates and markups order prices.\<close>

lemma quantize_Inr_mono:
  "x \<le> y \<Longrightarrow> quantize e x = Inr a \<Longrightarrow> quantize e y = Inr b \<Longrightarrow> a \<le> b"
  by (rule quantize_mono)

lemma published_mono:
  assumes "column_sized cost rate (effective_markup s m)"
    and "column_sized cost' rate' (effective_markup s m')"
    and "settings_sized s" "limits_below (10 ^ 8) g"
    and le: "cost \<le> cost'" "rate \<le> rate'" "effective_markup s m \<le> effective_markup s m'"
    and p: "markup_price s m g cost rate = Inr p"
    and p': "markup_price s m' g cost' rate' = Inr p'"
  shows "pb_final_price p \<le> pb_final_price p'"
proof -
  from markup_price_eq[OF assms(1,3,4)] p obtain r where
    r: "round_price (price_rounding s) (raw_price cost rate (effective_markup s m)) = Inr r"
      "quantize (- 2) (limited g (max r (min_offer_price s))) = Inr (pb_final_price p)" by auto
  from markup_price_eq[OF assms(2,3,4)] p' obtain r' where
    r': "round_price (price_rounding s) (raw_price cost' rate' (effective_markup s m')) = Inr r'"
      "quantize (- 2) (limited g (max r' (min_offer_price s))) = Inr (pb_final_price p')" by auto
  have "raw_price cost rate (effective_markup s m) \<le> raw_price cost' rate' (effective_markup s m')"
    using assms(1) le by (intro raw_price_mono) (auto simp: column_sized_def)
  then have "r \<le> r'"
    using round_price_mono[OF _ _ _ r(1) r'(1)] raw_price_bound[OF assms(1)]
      raw_price_bound[OF assms(2)] by blast
  then have "limited g (max r (min_offer_price s)) \<le> limited g (max r' (min_offer_price s))"
    by (intro limited_mono) auto
  from quantize_Inr_mono[OF this r(2) r'(2)] show ?thesis .
qed

lemma published_ge:
  assumes "column_sized cost rate (effective_markup s m)" "settings_sized s"
    and "limits_below (10 ^ 8) g" "markup_price s m g cost rate = Inr p"
    and b: "cents b" "\<And>x r. round_price (price_rounding s)
          (raw_price cost rate (effective_markup s m)) = Inr r \<Longrightarrow> max r (min_offer_price s) = x
          \<Longrightarrow> b \<le> limited g x"
  shows "b \<le> pb_final_price p"
  using markup_price_eq[OF assms(1-3)] assms(4) b(2)
  by (auto intro: quantize_Inr_mono[OF _ quantize_cents[OF b(1)]])

lemma published_le:
  assumes "column_sized cost rate (effective_markup s m)" "settings_sized s"
    and "limits_below (10 ^ 8) g" "markup_price s m g cost rate = Inr p"
    and b: "cents b" "\<And>x. limited g x \<le> b"
  shows "pb_final_price p \<le> b"
  using markup_price_eq[OF assms(1-3)] assms(4) b(2)
  by (auto intro: quantize_Inr_mono[OF _ _ quantize_cents[OF b(1)]])

text \<open>
  The markup computation always returns a price (never an \<open>InvalidOperation\<close>) for costs,
  rates, markups and limits of the size the columns hold, and the price is the raw price
  rounded to the configured step, raised to the floor, clamped to the limits of the store and
  quantized to cents.
\<close>
theorem markup_price_returns:
  assumes "column_sized cost rate (effective_markup s m)" "settings_sized s"
    and "limits_below (10 ^ 8) g"
  shows "\<exists>p r. markup_price s m g cost rate = Inr p
    \<and> round_price (price_rounding s) (raw_price cost rate (effective_markup s m)) = Inr r
    \<and> quantize (- 2) (limited g (max r (min_offer_price s))) = Inr (pb_final_price p)
    \<and> pb_floored p = (r < min_offer_price s)"
  using markup_price_eq[OF assms] by blast

text \<open>A cost of 20 USD at a rate of 0.9 with the default settings.\<close>

lemma default_settings_sized: "settings_sized default_settings"
  by (simp add: settings_sized_def default_settings_def)

lemma sample_sized:
  "column_sized 20 (9 / 10) (effective_markup default_settings None)"
  "column_sized 25 (9 / 10) (effective_markup default_settings None)"
  by (simp_all add: column_sized_def effective_markup_def default_settings_def)

lemma no_limits: "limits_below (10 ^ 8) None"
  by (simp add: limits_below_def)

theorem markup_price_returns_witness:
  "\<exists>p. markup_price default_settings None None 20 (9 / 10) = Inr p"
  using markup_price_returns[OF sample_sized(1) default_settings_sized no_limits] by blast

text \<open>
  C13: Prices follow costs: for the same store product, a higher supplier cost, exchange rate or
  effective markup never gives a lower published price, through every rounding step.
\<close>
theorem price_follows_cost:
  assumes "column_sized cost rate (effective_markup s m)"
    and "column_sized cost' rate' (effective_markup s m')"
    and "settings_sized s" "limits_below (10 ^ 8) g"
    and "cost \<le> cost'" "rate \<le> rate'" "effective_markup s m \<le> effective_markup s m'"
    and "markup_price s m g cost rate = Inr p" "markup_price s m' g cost' rate' = Inr p'"
  shows "pb_final_price p \<le> pb_final_price p'"
  by (rule published_mono[OF assms])

theorem price_follows_cost_witness:
  "\<exists>p p'. markup_price default_settings None None 20 (9 / 10) = Inr p
     \<and> markup_price default_settings None None 25 (9 / 10) = Inr p'
     \<and> pb_final_price p \<le> pb_final_price p'"
proof -
  obtain p p' where p: "markup_price default_settings None None 20 (9 / 10) = Inr p"
    and p': "markup_price default_settings None None 25 (9 / 10) = Inr p'"
    using markup_price_eq[OF sample_sized(1) default_settings_sized no_limits]
      markup_price_eq[OF sample_sized(2) default_settings_sized no_limits] by blast
  from price_follows_cost[OF sample_sized default_settings_sized no_limits _ _ _ p p'] p p'
  show ?thesis by auto
qed

text \<open>
  A price is never published below the converted supplier cost by more than one rounding
  step's loss (half a step, or one cent in the \<open>.99\<close> mode), as long as the markup is not
  negative and the store publishes no maximum.
\<close>
theorem price_covers_cost:
  assumes "column_sized cost rate (effective_markup s m)" "0 \<le> effective_markup s m"
    and "settings_sized s" "limits_below (10 ^ 8) g"
    and "case g of None \<Rightarrow> True | Some g' \<Rightarrow> limit_of (st_price_limit_max g') = None"
    and p: "markup_price s m g cost rate = Inr p"
  shows "dctx (cost * rate) - step_loss (price_rounding s) \<le> pb_final_price p"
proof -
  let ?raw = "raw_price cost rate (effective_markup s m)"
  note raw = raw_price_bound[OF assms(1)]
  from raw round_price_total obtain r where
    r: "round_price (price_rounding s) ?raw = Inr r" "cents r" by blast
  have "dctx (cost * rate) \<le> ?raw"
    using raw_price_covers_cost[of cost rate "effective_markup s m", OF _ _ assms(2) refl] assms(1)
    by (simp add: column_sized_def)
  also have "?raw - step_loss (price_rounding s) \<le> r"
    using round_price_near(1)[OF _ _ r(1)] raw by blast
  moreover have "r \<le> pb_final_price p"
  proof (rule published_ge[OF assms(1,3,4) p r(2)])
    fix x r'
    assume "round_price (price_rounding s) ?raw = Inr r'" "max r' (min_offer_price s) = x"
    then have "r \<le> x" using r(1) by auto
    also have "x \<le> limited g x"
      using assms(5) by (cases g) (auto simp: limited_Some Let_def split: option.split)
    finally show "r \<le> limited g x" .
  qed
  ultimately show ?thesis by linarith
qed

theorem price_covers_cost_witness:
  "\<exists>p. markup_price default_settings None None 20 (9 / 10) = Inr p
     \<and> dctx 18 - step_loss Round_0_01 \<le> pb_final_price p"
proof -
  obtain p where p: "markup_price default_settings None None 20 (9 / 10) = Inr p"
    using markup_price_eq[OF sample_sized(1) default_settings_sized no_limits] by blast
  from price_covers_cost[OF sample_sized(1) _ default_settings_sized no_limits _ p] p
  show ?thesis by (auto simp: effective_markup_def default_settings_def)
qed


definition sample_store_product :: store_product where
  "sample_store_product =
     \<lparr>st_id = 1, st_store_code = lit ''g2a'', st_product_ext_id = lit ''10000000000001'',
      st_name = lit ''Game'', st_name_normalized = lit ''game'', st_match_key = lit ''game||'',
      st_slug = None, st_product_type = None, st_region = None, st_platform = None, st_qty = 3,
      st_min_price = None, st_retail_min_price = None, st_available_to_buy = True,
      st_price_limit_min = Some (5 / 2), st_price_limit_max = Some 15,
      st_remote_updated_at = None, st_raw = JNull, st_synced_at = 0\<rparr>"

lemma cents_examples: "cents (5 / 2)" "cents 15" "cents (3 / 10)"
  unfolding cents_def by (rule exI[of _ 250], simp) (rule exI[of _ 1500], simp, rule exI[of _ 30], simp)


text \<open>
  A store limit that is not a whole number of cents is not respected: when it binds, the
  published price is the limit quantized half to even, which can lie below the store's own
  minimum (the witness: a minimum of 2.505 is published as 2.50).
\<close>
theorem fractional_minimum_is_quantized:
  assumes "column_sized cost rate (effective_markup s m)" "settings_sized s"
    and "limits_below (10 ^ 8) (Some g)"
    and lo: "limit_of (st_price_limit_min g) = Some lo" and hi: "limit_of (st_price_limit_max g) = None"
    and "raw_price cost rate (effective_markup s m) + step_loss (price_rounding s) \<le> lo"
    and "price_rounding s \<noteq> Round_0_99" "min_offer_price s \<le> lo"
    and p: "markup_price s m (Some g) cost rate = Inr p"
  shows "quantize (- 2) lo = Inr (pb_final_price p)"
proof -
  from markup_price_eq[OF assms(1-3)] p obtain r where
    r: "round_price (price_rounding s) (raw_price cost rate (effective_markup s m)) = Inr r"
      "quantize (- 2) (limited (Some g) (max r (min_offer_price s))) = Inr (pb_final_price p)"
    by auto
  have "r \<le> lo"
    using round_price_near(2)[OF _ _ r(1)] raw_price_bound[OF assms(1)] assms(6,7) by force
  with assms(8) have "limited (Some g) (max r (min_offer_price s)) = lo"
    by (simp add: limited_Some lo hi Let_def)
  with r(2) show ?thesis by simp
qed

definition odd_limit_product :: store_product where
  "odd_limit_product =
     sample_store_product\<lparr>st_price_limit_min := Some (2505 / 1000), st_price_limit_max := None\<rparr>"

lemma dctx_examples:
  "dctx (9 / 10) = 9 / 10" "dctx (3 / 20) = 3 / 20" "dctx (23 / 20) = 23 / 20"
  "dctx (207 / 200) = 207 / 200"
proof -
  show "dctx (9 / 10) = 9 / 10"
    by (rule dctx_exact[of _ 9 "- 1"]) (simp_all add: power_int_minus)
  show "dctx (3 / 20) = 3 / 20"
    by (rule dctx_exact[of _ 15 "- 2"]) (simp_all add: power_int_minus)
  show "dctx (23 / 20) = 23 / 20"
    by (rule dctx_exact[of _ 115 "- 2"]) (simp_all add: power_int_minus)
  show "dctx (207 / 200) = 207 / 200"
    by (rule dctx_exact[of _ 1035 "- 3"]) (simp_all add: power_int_minus)
qed

lemma raw_price_example: "raw_price 1 (9 / 10) 15 = 207 / 200"
proof -
  have "1 * (9 / 10) = (9 / 10 :: rat)" "15 / 100 = (3 / 20 :: rat)" "1 + 3 / 20 = (23 / 20 :: rat)"
    "9 / 10 * (23 / 20) = (207 / 200 :: rat)" by simp_all
  then show ?thesis unfolding raw_price_def by (simp only: dctx_examples)
qed

theorem fractional_minimum_is_quantized_witness:
  "\<exists>p. markup_price default_settings None (Some odd_limit_product) 1 (9 / 10) = Inr p
     \<and> pb_final_price p = 5 / 2 \<and> pb_final_price p < 2505 / 1000"
proof -
  have sz: "column_sized 1 (9 / 10) (effective_markup default_settings None)"
    and g: "limits_below (10 ^ 8) (Some odd_limit_product)"
    and lo: "limit_of (st_price_limit_min odd_limit_product) = Some (2505 / 1000)"
    and hi: "limit_of (st_price_limit_max odd_limit_product) = None"
    by (simp_all add: limits_below_def limit_of_def odd_limit_product_def sample_store_product_def
        column_sized_def effective_markup_def default_settings_def)
  obtain p where p: "markup_price default_settings None (Some odd_limit_product) 1 (9 / 10) = Inr p"
    using markup_price_eq[OF sz default_settings_sized g] by blast
  have "raw_price 1 (9 / 10) (effective_markup default_settings None) = 207 / 200"
    using raw_price_example by (simp add: effective_markup_def default_settings_def)
  then have "quantize (- 2) (2505 / 1000) = Inr (pb_final_price p)"
    by (intro fractional_minimum_is_quantized[OF sz default_settings_sized g lo hi _ _ _ p])
      (simp_all add: step_loss_def default_settings_def)
  moreover have "quantize (- 2) (2505 / 1000) = Inr (5 / 2)"
    using floor_unique[of 250 "501 / 2 :: rat"]
    by (simp add: quantize_def half_even_def Let_def power_int_minus)
  ultimately show ?thesis using p by simp
qed

text \<open>
  A fixed price that is a multiple of the rounding step is published exactly as set,
  without consulting the exchange rate, the floor or the limits of the store (the witness
  publishes 0.05 under a floor of 0.30).
\<close>
theorem fixed_price_published_as_set:
  assumes "override_of mapping = Some (of_int n * step_of (price_rounding s))"
    and "price_rounding s \<noteq> Round_0_99" "0 \<le> n" "n \<le> 10 ^ 18"
  shows "\<exists>p. compute s fx_rate_fn sp mapping g w d = (Inr p, w, d)
    \<and> pb_final_price p = of_int n * step_of (price_rounding s) \<and> pb_reason p = FixedOverride"
proof -
  let ?st = "step_of (price_rounding s)" and ?v = "of_int n * step_of (price_rounding s)"
  have st: "0 < ?st" "?st \<le> 1" using step_of_bounds[OF assms(2)] by auto
  have n: "(of_int n :: rat) \<le> of_int (10 ^ 18)" using assms(4) by (simp only: of_int_le_iff)
  have "0 \<le> ?v" using st assms(3) by simp
  moreover have "?v \<le> 10 ^ 18 * 1" using n st assms(3) by (intro mult_mono) auto
  ultimately have v: "0 \<le> ?v" "?v < 10 ^ 20" by auto
  have "half_up (dctx (?v / ?st)) = n" using st assms(3,4) dctx_int[of n] by simp
  then have "round_price (price_rounding s) ?v = Inr ?v"
    using round_price_step[OF assms(2) v] by auto
  then show ?thesis by (simp add: compute_def assms(1) fixed_price_def)
qed

text \<open>A product, and a mapping with a fixed price, for the examples.\<close>

definition sample_product :: supplier_product where
  "sample_product =
     \<lparr>sp_id = 1, sp_supplier_id = 1, sp_kind = GAME_KEY, sp_category_ext_id = lit ''7'',
      sp_offer_ext_id = lit ''42'', sp_category_name = None, sp_name = lit ''Game'',
      sp_name_normalized = lit ''game'', sp_region = None, sp_platform = None,
      sp_region_restricted = False, sp_price_supplier = 20, sp_supplier_currency = lit ''USD'',
      sp_stock = 5, sp_min_order_quantity = 1, sp_max_order_quantity = 10, sp_content_hash = [],
      sp_raw = JNull, sp_is_active = True, sp_missing_runs = 0, sp_last_seen_at = 0\<rparr>"

definition sample_mapping :: product_mapping where
  "sample_mapping =
     \<lparr>pm_id = 1, pm_supplier_product_id = 1, pm_store_code = lit ''g2a'',
      pm_store_product_id = Some 1, pm_status = APPROVED, pm_score = Some (95 / 100),
      pm_method = Some (lit ''auto''), pm_candidates = [], pm_markup_percent_override = None,
      pm_fixed_price_override = None, pm_sync_enabled = True, pm_reviewed_by = None,
      pm_reviewed_at = None, pm_note = None\<rparr>"

definition pinned_mapping :: product_mapping where
  "pinned_mapping = sample_mapping\<lparr>pm_fixed_price_override := Some (1 / 20)\<rparr>"

theorem fixed_price_published_as_set_witness:
  "\<exists>p. compute default_settings (\<lambda>w d. (Inl InvalidOperation, w, d)) sample_product
         (Some pinned_mapping) None () empty_database = (Inr p, (), empty_database)
     \<and> pb_final_price p = 1 / 20 \<and> pb_final_price p < min_offer_price default_settings"
  using fixed_price_published_as_set[of "Some pinned_mapping" 5 default_settings
      "\<lambda>w d. (Inl InvalidOperation, w, d)" sample_product None "()" empty_database]
  by (auto simp: override_of_def pinned_mapping_def sample_mapping_def default_settings_def)


text \<open>A clock at hour 30, a quote fetched at hour 20 and one fetched at hour 1.\<close>

definition sample_runtime :: "json result \<Rightarrow> unit runtime" where
  "sample_runtime answer =
     \<lparr>http_get = (\<lambda>u w. (answer, w)), utcnow = (\<lambda>w. hours 30), txn_now = (\<lambda>w. hours 30)\<rparr>"

definition quote_at :: "rat \<Rightarrow> timestamp \<Rightarrow> fx_rate" where
  "quote_at r t =
     \<lparr>fx_base = lit ''USD'', fx_quote = lit ''EUR'', fx_value = r, fx_source = [], fx_fetched_at = t\<rparr>"

definition quotes_db :: "fx_rate list \<Rightarrow> database" where
  "quotes_db qs = empty_database\<lparr>fx_rates := qs\<rparr>"

lemmas fx_example_defs = sample_runtime_def quote_at_def quotes_db_def empty_database_def
  default_settings_def fx_cached_def fx_rate_now_def fx_fetch_def fresh_enough_def hours_def


text \<open>
  When the provider cannot be reached, no rate is pinned and the newest quote is too old,
  no price is computed: pricing raises \<open>StaleFxRate\<close> if there was a quote to refuse and
  \<open>PricingError\<close> otherwise, and the database is unchanged.
\<close>
theorem no_price_without_fresh_rate:
  assumes "fx_rate_usd_eur s = None" "override_of mapping = None"
    and "\<And>c. fx_cached s d = Some c \<Longrightarrow> hours (fx_max_age_hours s) \<le> utcnow R w - fx_fetched_at c"
    and "http_get R (fx_provider_url s) w = (Inl e, w')"
  shows "\<exists>e'. compute s (fx_rate_now R s False) sp mapping g w d = (Inl e', w', d)
    \<and> is_pricing_error e' \<and> ((\<exists>m. e' = StaleFxRate m) \<longleftrightarrow> fx_cached s d \<noteq> None)"
proof (cases "fx_cached s d")
  case None
  with assms show ?thesis by (simp add: compute_def fx_rate_now_def fx_fetch_def Let_def)
next
  case (Some c)
  with assms(3) have "\<not> fresh_enough R s w c" by (force simp: fresh_enough_def)
  with Some assms show ?thesis by (simp add: compute_def fx_rate_now_def fx_fetch_def Let_def)
qed

abbreviation "stale_db \<equiv> quotes_db [quote_at 1 (hours 1)]"

abbreviation "offline \<equiv> sample_runtime (Inl InvalidOperation)"

lemma stale_example:
  "fx_cached default_settings stale_db = Some (quote_at 1 (hours 1))"
  "fx_rate_usd_eur default_settings = None"
  "hours (fx_max_age_hours default_settings) \<le> utcnow offline () - fx_fetched_at (quote_at 1 (hours 1))"
  "http_get offline u () = (Inl InvalidOperation, ())"
  by (simp_all add: fx_example_defs)

theorem no_price_without_fresh_rate_witness:
  "\<exists>e'. compute default_settings (fx_rate_now offline default_settings False) sample_product None
      None () stale_db = (Inl e', (), stale_db) \<and> (\<exists>m. e' = StaleFxRate m)"
proof -
  have "override_of None = None" by (simp add: override_of_def)
  moreover have "hours (fx_max_age_hours default_settings) \<le> utcnow offline () - fx_fetched_at c"
    if "fx_cached default_settings stale_db = Some c" for c
    using that stale_example(1,3) by (simp only: option.inject)
  ultimately show ?thesis
    using no_price_without_fresh_rate[OF stale_example(2) _ _ stale_example(4), of None stale_db sample_product None]
      stale_example(1) by (simp only: option.distinct simp_thms) blast
qed

section \<open>Exchange-rate sources\<close>

text \<open>
  What the pricer relies on: a rate is positive and storable, asking for one touches only the
  rate table, and the invariant of the table is kept. \<open>live\<close> shows that \<open>FxProvider.rate\<close>
  is such a source.
\<close>

locale fx_source =
  fixes rate :: "('w, rat) work" and inv :: "database \<Rightarrow> bool"
  assumes rate_range: "inv d \<Longrightarrow> rate w d = (Inr r, w', d') \<Longrightarrow> 0 < r \<and> r \<le> 10 ^ 10"
    and rate_inv: "inv d \<Longrightarrow> rate w d = (x, w', d') \<Longrightarrow> inv d'"
    and rate_frame: "rate w d = (x, w', d') \<Longrightarrow> d' = d\<lparr>fx_rates := fx_rates d'\<rparr>"
    and rate_refused: "rate w d = (Inl e, w', d') \<Longrightarrow> d' = d"
begin

lemma compute_database:
  "compute s rate sp m g w d = (x, w', d') \<Longrightarrow> d' = d \<or> (\<exists>y. rate w d = (y, w', d'))"
  by (auto simp: compute_def split: option.splits prod.splits sum.splits)

lemma compute_frame: "compute s rate sp m g w d = (x, w', d') \<Longrightarrow> d' = d\<lparr>fx_rates := fx_rates d'\<rparr>"
  by (drule compute_database) (auto dest: rate_frame)

lemma compute_inv: "inv d \<Longrightarrow> compute s rate sp m g w d = (x, w', d') \<Longrightarrow> inv d'"
  by (drule compute_database) (auto dest: rate_inv)

lemma compute_fails_with_rate:
  assumes "inv d" "settings_sized s" "limits_below (10 ^ 8) g"
    and "0 \<le> sp_price_supplier sp" "sp_price_supplier sp \<le> 10 ^ 8"
    and "- 100 \<le> effective_markup s m" "effective_markup s m \<le> 1000"
    and "\<And>v. override_of m = Some v \<Longrightarrow> 0 \<le> v \<and> v \<le> 10 ^ 8"
    and "compute s rate sp m g w d = (Inl e, w', d')"
  shows "override_of m = None \<and> rate w d = (Inl e, w', d') \<and> d' = d"
proof (cases "override_of m")
  case (Some v)
  with assms(8) have "0 \<le> v" "v < 10 ^ 20" by force+
  from round_price_total[OF this, of "price_rounding s"] Some assms(9) show ?thesis
    by (auto simp: compute_def fixed_price_def)
next
  case None
  show ?thesis
  proof (cases "rate w d")
    case (fields x w1 d1)
    show ?thesis
    proof (cases x)
      case (Inl e1)
      with fields None assms(9) rate_refused show ?thesis by (auto simp: compute_def)
    next
      case (Inr r)
      with fields rate_range[OF assms(1)] assms
      have "column_sized (sp_price_supplier sp) r (effective_markup s m)"
        by (force simp: column_sized_def)
      from markup_price_eq[OF this assms(2,3)] fields None Inr assms(9) show ?thesis
        by (auto simp: compute_def)
    qed
  qed
qed

end

definition fx_inv :: "settings \<Rightarrow> database \<Rightarrow> bool" where
  "fx_inv s d \<longleftrightarrow> (\<forall>r. fx_rate_usd_eur s = Some r \<longrightarrow> 0 < r \<and> r \<le> 10 ^ 10)
     \<and> list_all (\<lambda>q. 0 < fx_value q \<and> fx_value q \<le> 10 ^ 10) (fx_rates d)"

lemma newest_in: "newest rs = Some r \<Longrightarrow> r \<in> set rs"
  by (induction rs arbitrary: r) (auto split: option.splits if_splits)

lemma fx_cached_in: "fx_cached s d = Some c \<Longrightarrow> c \<in> set (fx_rates d)"
  by (auto simp: fx_cached_def dest: newest_in)

lemma rate_of_payload_pos:
  "rate_of_payload s p = Inr q \<Longrightarrow> dec_val q = Some x \<Longrightarrow> 0 < x"
  using dec_nonpos_val[of q x]
  by (auto simp: rate_of_payload_def Let_def split: json.splits if_splits option.splits sum.splits
      bool.splits)

lemma fx_fetch_range:
  "fx_fetch R s w = (Inr q, w') \<Longrightarrow> storable_rate q = Some r \<Longrightarrow> 0 < r \<and> r \<le> 10 ^ 10"
  by (auto simp: fx_fetch_def storable_rate_def split: prod.splits sum.splits option.splits
      if_splits dest: rate_of_payload_pos)

lemma fx_rate_now_cases:
  assumes "fx_rate_now R s b w d = (x, w', d')"
  obtains (pinned) r where "fx_rate_usd_eur s = Some r" "x = Inr r" "d' = d"
  | (cached) c where "fx_cached s d = Some c" "x = Inr (fx_value c)" "d' = d"
  | (refused) e where "x = Inl e" "d' = d"
  | (fetched) q r row where "fx_fetch R s w = (Inr q, w')" "storable_rate q = Some r" "x = Inr r"
      "d' = d\<lparr>fx_rates := fx_rates d @ [row]\<rparr>" "fx_value row = r"
proof (cases "fx_rate_usd_eur s")
  case (Some r)
  with assms that(1) show ?thesis by (simp add: fx_rate_now_def)
next
  case None
  define cached where "cached = (if b then None else fx_cached s d)"
  define usable where "usable = (case cached of None \<Rightarrow> None
                    | Some c \<Rightarrow> if fresh_enough R s w c then Some c else None)"
  show ?thesis
  proof (cases usable)
    case (Some c)
    then have "fx_cached s d = Some c"
      by (auto simp: usable_def cached_def split: option.splits if_splits)
    with assms None Some that(2)[of c] show ?thesis
      by (simp add: fx_rate_now_def usable_def cached_def Let_def)
  next
    case unusable: None
    obtain y w1 where f: "fx_fetch R s w = (y, w1)" by fastforce
    show ?thesis
    proof (cases y)
      case (Inl e)
      with assms None unusable f have "d' = d" "\<exists>e. x = Inl e"
        by (auto simp: fx_rate_now_def usable_def cached_def Let_def)
      with that(3) show ?thesis by blast
    next
      case (Inr q)
      show ?thesis
      proof (cases "storable_rate q")
        case st: None
        have "d' = d" "\<exists>e. x = Inl e"
          using assms None unusable f Inr st by (auto simp: fx_rate_now_def usable_def cached_def Let_def)
        with that(3) show ?thesis by blast
      next
        case (Some r)
        have "x = Inr r" "w1 = w'" "\<exists>row. d' = d\<lparr>fx_rates := fx_rates d @ [row]\<rparr> \<and> fx_value row = r"
          using assms None unusable f Inr Some
          by (simp_all add: fx_rate_now_def usable_def cached_def Let_def) auto
        with f Inr Some that(4) show ?thesis by blast
      qed
    qed
  qed
qed

interpretation live: fx_source "fx_rate_now R s False" "fx_inv s" for R s
proof unfold_locales
  fix d w r w' d'
  assume "fx_inv s d" "fx_rate_now R s False w d = (Inr r, w', d')"
  from this(2) this(1) show "0 < r \<and> r \<le> 10 ^ 10"
    by (cases rule: fx_rate_now_cases)
      (auto simp: fx_inv_def list_all_iff dest: fx_fetch_range fx_cached_in)
next
  fix d w x w' d'
  assume "fx_inv s d" "fx_rate_now R s False w d = (x, w', d')"
  from this(2) this(1) show "fx_inv s d'"
    by (cases rule: fx_rate_now_cases) (auto simp: fx_inv_def dest: fx_fetch_range)
next
  fix d w x w' d'
  assume "fx_rate_now R s False w d = (x, w', d')"
  then show "d' = d\<lparr>fx_rates := fx_rates d'\<rparr>" by (cases rule: fx_rate_now_cases) auto
next
  fix d w e w' d'
  assume "fx_rate_now R s False w d = (Inl e, w', d')"
  then show "d' = d" by (cases rule: fx_rate_now_cases) auto
qed

text \<open>
  Pricing fails only for want of an exchange rate: for a supplier price, markup, override
  and limits of the size the columns hold, \<open>Pricer.compute\<close> raises nothing but the exception
  of the rate lookup, and then leaves the database as it was.
\<close>
theorem pricing_fails_only_on_rate:
  assumes "fx_inv s d" "settings_sized s" "limits_below (10 ^ 8) g"
    and "0 \<le> sp_price_supplier sp" "sp_price_supplier sp \<le> 10 ^ 8"
    and "- 100 \<le> effective_markup s m" "effective_markup s m \<le> 1000"
    and "\<And>v. override_of m = Some v \<Longrightarrow> 0 \<le> v \<and> v \<le> 10 ^ 8"
    and "compute s (fx_rate_now R s False) sp m g w d = (Inl e, w', d')"
  shows "override_of m = None \<and> fx_rate_now R s False w d = (Inl e, w', d') \<and> d' = d"
  by (rule live.compute_fails_with_rate[OF assms])

theorem pricing_fails_only_on_rate_witness:
  "\<exists>e. compute default_settings (fx_rate_now offline default_settings False) sample_product None
      None () stale_db = (Inl e, (), stale_db)
    \<and> fx_rate_now offline default_settings False () stale_db = (Inl e, (), stale_db)"
proof -
  have inv: "fx_inv default_settings stale_db" by (simp add: fx_inv_def fx_example_defs)
  have fx: "fx_rate_now offline default_settings False () stale_db
      = (Inl (StaleFxRate (lit ''FX refresh failed and the cached rate is too old'')), (), stale_db)"
    using stale_example by (simp add: fx_rate_now_def fx_fetch_def fresh_enough_def Let_def)
  have "compute default_settings (fx_rate_now offline default_settings False) sample_product None
      None () stale_db
      = (Inl (StaleFxRate (lit ''FX refresh failed and the cached rate is too old'')), (), stale_db)"
    by (simp add: compute_def override_of_def fx)
  moreover from pricing_fails_only_on_rate[OF inv default_settings_sized no_limits _ _ _ _ _ this]
  have "fx_rate_now offline default_settings False () stale_db
      = (Inl (StaleFxRate (lit ''FX refresh failed and the cached rate is too old'')), (), stale_db)"
    by (simp add: sample_product_def override_of_def effective_markup_def default_settings_def)
  ultimately show ?thesis by blast
qed

end
