(* ===== verification/Rate_Limit.thy ===== *)
theory Rate_Limit
  imports Config Numerics
begin

text \<open>
  \<open>app/http/ratelimit.py\<close>: the token bucket that paces all calls to one API, in double
  arithmetic, and the hourly budget of price changes per product, kept in the
  \<open>price_change_log\<close> table. The lemmas bound what the bucket can grant over any sequence of
  calls, show that a blocked caller is served, and give the laws of the budget that
  \<open>Offer_Sync\<close> relies on as a locale.
\<close>

section \<open>The token bucket\<close>

text \<open>
  \<open>clock\<close> and \<open>sleep\<close> are the two functions the bucket is built with. The lock makes each
  refill-and-take atomic: one step here.
\<close>

record 'w timer =
  clock :: "'w \<Rightarrow> rat \<times> 'w"
  sleep :: "rat \<Rightarrow> 'w \<Rightarrow> 'w"

record bucket =
  bk_rate :: rat
  bk_capacity :: int
  bk_tokens :: rat
  bk_updated :: rat

definition new_bucket :: "'w timer \<Rightarrow> rat \<Rightarrow> int \<Rightarrow> 'w \<Rightarrow> bucket result \<times> 'w" where
  "new_bucket T rate capacity w =
     (if rate \<le> 0 then (Inl (PyValueError (lit ''rate must be positive'')), w)
      else let (now, w') = clock T w
           in (Inr \<lparr>bk_rate = rate, bk_capacity = max 1 capacity,
                   bk_tokens = fl (of_int (max 1 capacity)), bk_updated = now\<rparr>, w'))"

definition refill_at :: "rat \<Rightarrow> bucket \<Rightarrow> bucket" where
  "refill_at now b =
     (let elapsed = fl (now - bk_updated b)
      in if 0 < elapsed
         then b\<lparr>bk_tokens := min (of_int (bk_capacity b))
                               (fl (bk_tokens b + fl (elapsed * bk_rate b))),
                bk_updated := now\<rparr>
         else b)"

definition take_tokens :: "rat \<Rightarrow> bucket \<Rightarrow> bucket" where
  "take_tokens n b = b\<lparr>bk_tokens := fl (bk_tokens b - n)\<rparr>"

definition try_acquire_at :: "rat \<Rightarrow> rat \<Rightarrow> bucket \<Rightarrow> bool \<times> bucket" where
  "try_acquire_at now n b =
     (let b1 = refill_at now b
      in if n \<le> bk_tokens b1 then (True, take_tokens n b1) else (False, b1))"

definition try_acquire :: "'w timer \<Rightarrow> rat \<Rightarrow> bucket \<Rightarrow> 'w \<Rightarrow> bool \<times> bucket \<times> 'w" where
  "try_acquire T n b w =
     (let (now, w') = clock T w; (ok, b') = try_acquire_at now n b in (ok, b', w'))"

text \<open>\<open>acquire\<close> loops until a token is free: \<open>None\<close> is a call that never returns.\<close>

partial_function (option) acquire_loop ::
  "'w timer \<Rightarrow> rat \<Rightarrow> rat \<Rightarrow> bucket \<Rightarrow> 'w \<Rightarrow> (rat \<times> bucket \<times> 'w) option" where
  "acquire_loop T n waited b w =
     (let (now, w1) = clock T w; b1 = refill_at now b
      in if n \<le> bk_tokens b1 then Some (waited, take_tokens n b1, w1)
         else let delay = fl (fl (n - bk_tokens b1) / bk_rate b)
              in acquire_loop T n (fl (waited + delay)) b1 (sleep T delay w1))"

definition acquire :: "'w timer \<Rightarrow> rat \<Rightarrow> bucket \<Rightarrow> 'w \<Rightarrow> (rat \<times> bucket \<times> 'w) option" where
  "acquire T n b w = acquire_loop T n 0 b w"

definition bucket_ok :: "bucket \<Rightarrow> bool" where
  "bucket_ok b \<longleftrightarrow> 0 < bk_rate b \<and> 1 \<le> bk_capacity b \<and> bk_capacity b < 2 ^ 53
     \<and> 0 \<le> bk_tokens b \<and> bk_tokens b \<le> of_int (bk_capacity b) \<and> fl (bk_tokens b) = bk_tokens b"

lemma bucket_okD:
  assumes "bucket_ok b"
  shows "0 < bk_rate b" "1 \<le> (of_int (bk_capacity b) :: rat)" "0 \<le> bk_tokens b"
    "bk_tokens b \<le> of_int (bk_capacity b)" "fl (bk_tokens b) = bk_tokens b"
    "fl (of_int (bk_capacity b)) = of_int (bk_capacity b)"
  using assms fl_int[of "bk_capacity b"] by (auto simp: bucket_ok_def)

lemma new_bucket_ok:
  "new_bucket T rate capacity w = (Inr b, w') \<Longrightarrow> capacity < 2 ^ 53 \<Longrightarrow> bucket_ok b"
  using fl_int[of "max 1 capacity"]
  by (auto simp: new_bucket_def bucket_ok_def Let_def split: if_splits prod.splits)

lemma refill_frame [simp]:
  "bk_rate (refill_at now b) = bk_rate b" "bk_capacity (refill_at now b) = bk_capacity b"
  by (simp_all add: refill_at_def Let_def)

lemma take_frame [simp]:
  "bk_rate (take_tokens n b) = bk_rate b" "bk_capacity (take_tokens n b) = bk_capacity b"
  "bk_updated (take_tokens n b) = bk_updated b"
  by (simp_all add: take_tokens_def)

lemma refill_step:
  assumes "bucket_ok b"
  shows "bucket_ok (refill_at now b)" "bk_tokens b \<le> bk_tokens (refill_at now b)"
    "bk_updated b \<le> bk_updated (refill_at now b)"
    "bk_updated b \<le> now \<Longrightarrow> bk_updated (refill_at now b) = now"
proof -
  note b = bucket_okD[OF assms]
  let ?e = "fl (now - bk_updated b)" and ?c = "of_int (bk_capacity b) :: rat"
  let ?t = "fl (bk_tokens b + fl (?e * bk_rate b))"
  have late: "bk_updated b < now" if "0 < ?e"
    using that dbl.rnd_mono[of "now - bk_updated b" 0] by force
  have grow: "bk_tokens b \<le> ?t" if "0 < ?e"
    using that b dbl.rnd_nonneg[of "?e * bk_rate b"]
    by (intro dbl.rnd_ge_fixed) auto
  have "fl (min ?c ?t) = min ?c ?t" using b by (auto simp: min_def)
  then show "bucket_ok (refill_at now b)"
    using assms b grow by (auto simp: bucket_ok_def refill_at_def Let_def min_def)
  show "bk_tokens b \<le> bk_tokens (refill_at now b)"
    using b grow by (auto simp: refill_at_def Let_def)
  show "bk_updated b \<le> bk_updated (refill_at now b)"
    using late by (auto simp: refill_at_def Let_def)
  show "bk_updated (refill_at now b) = now" if "bk_updated b \<le> now"
    using that fl_pos[of "now - bk_updated b"]
    by (cases "bk_updated b = now") (auto simp: refill_at_def Let_def)
qed

lemma take_step:
  assumes "bucket_ok b" "0 \<le> n" "n \<le> bk_tokens b"
  shows "bucket_ok (take_tokens n b)"
proof -
  note b = bucket_okD[OF assms(1)]
  have "fl (bk_tokens b - n) \<le> of_int (bk_capacity b)"
    using b assms by (intro dbl.rnd_le_fixed) auto
  with assms b show ?thesis
    by (auto simp: bucket_ok_def take_tokens_def intro: dbl.rnd_nonneg)
qed

lemma try_acquire_at_ok:
  "bucket_ok b \<Longrightarrow> 0 \<le> n \<Longrightarrow> try_acquire_at now n b = (ok, b') \<Longrightarrow> bucket_ok b'"
  using refill_step(1)[of b now] take_step[of "refill_at now b" n]
  by (auto simp: try_acquire_at_def Let_def split: if_splits)

text \<open>The calls of all threads, in the order the lock serialises them, at the given clock readings.\<close>

fun attempts :: "rat list \<Rightarrow> bucket \<Rightarrow> bool list \<times> bucket" where
  "attempts [] b = ([], b)"
| "attempts (t # ts) b =
     (let (ok, b1) = try_acquire_at t 1 b; (oks, b2) = attempts ts b1 in (ok # oks, b2))"

definition growth :: "bucket \<Rightarrow> rat \<Rightarrow> rat" where
  "growth b d = d * bk_rate b * (1 + 1 / 2 ^ 53) ^ 3"

lemma refill_growth:
  assumes "bucket_ok b" "b' = refill_at now b"
  shows "bk_tokens b' \<le> bk_tokens b + growth b (bk_updated b' - bk_updated b)
           + of_int (bk_capacity b) / 2 ^ 53"
proof (cases "0 < fl (now - bk_updated b)")
  case False
  with assms bucket_okD(2)[OF assms(1)] show ?thesis
    by (simp add: refill_at_def Let_def growth_def)
next
  case True
  note b = bucket_okD[OF assms(1)]
  let ?d = "now - bk_updated b" and ?u = "1 + 1 / 2 ^ 53 :: rat"
  have d: "0 \<le> ?d" using True dbl.rnd_mono[of ?d 0] by force
  have up: "fl x \<le> x * ?u" if "0 \<le> x" for x
    using fl_bounds(1)[OF that] by (simp add: distrib_left)
  have "fl (fl ?d * bk_rate b) \<le> fl ?d * bk_rate b * ?u"
    using True b by (intro up) simp
  also have "\<dots> \<le> ?d * ?u * bk_rate b * ?u"
    using up[OF d] b by (intro mult_right_mono) auto
  finally have x: "fl (fl ?d * bk_rate b) \<le> ?d * bk_rate b * ?u ^ 2"
    by (simp add: power2_eq_square mult_ac)
  have "0 \<le> fl (fl ?d * bk_rate b)" using True b by (intro dbl.rnd_nonneg) simp
  then have "fl (bk_tokens b + fl (fl ?d * bk_rate b))
      \<le> (bk_tokens b + fl (fl ?d * bk_rate b)) * ?u"
    using b by (intro up) simp
  also have "\<dots> \<le> (bk_tokens b + ?d * bk_rate b * ?u ^ 2) * ?u"
    using x by (intro mult_right_mono) auto
  also have "\<dots> = bk_tokens b * ?u + growth b ?d"
    by (simp add: growth_def power3_eq_cube power2_eq_square distrib_right mult_ac)
  also have "bk_tokens b * ?u \<le> bk_tokens b + of_int (bk_capacity b) / 2 ^ 53"
    using b by (simp add: distrib_left divide_right_mono)
  finally show ?thesis using True assms(2) by (simp add: refill_at_def Let_def min_le_iff_disj)
qed

lemma take_growth:
  assumes "bucket_ok b" "1 \<le> bk_tokens b"
  shows "bk_tokens (take_tokens 1 b) + 1 \<le> bk_tokens b + of_int (bk_capacity b) / 2 ^ 53"
proof -
  have "(bk_tokens b - 1) / 2 ^ 53 \<le> of_int (bk_capacity b) / 2 ^ 53"
    using bucket_okD(4)[OF assms(1)] by (intro divide_right_mono) auto
  moreover have "fl (bk_tokens b - 1) \<le> bk_tokens b - 1 + (bk_tokens b - 1) / 2 ^ 53"
    using assms(2) by (intro fl_bounds) simp
  moreover have "bk_tokens (take_tokens 1 b) = fl (bk_tokens b - 1)" by (simp add: take_tokens_def)
  ultimately show ?thesis by linarith
qed

lemma try_growth:
  assumes "bucket_ok b" "try_acquire_at t 1 b = (ok, b')"
  shows "bk_tokens b' + of_bool ok \<le> bk_tokens b + growth b (bk_updated b' - bk_updated b)
           + 2 * of_int (bk_capacity b) / 2 ^ 53"
    and "bk_rate b' = bk_rate b" "bk_capacity b' = bk_capacity b" "bk_updated b \<le> bk_updated b'"
proof -
  have c: "0 \<le> of_int (bk_capacity b) / (2 ^ 53 :: rat)" using bucket_okD(2)[OF assms(1)] by simp
  note r = refill_growth[OF assms(1) refl, of t] refill_step(1)[OF assms(1), of t]
  show "bk_tokens b' + of_bool ok \<le> bk_tokens b + growth b (bk_updated b' - bk_updated b)
           + 2 * of_int (bk_capacity b) / 2 ^ 53"
  proof (cases "1 \<le> bk_tokens (refill_at t b)")
    case True
    with assms(2) have [simp]: "ok" "b' = take_tokens 1 (refill_at t b)"
      by (auto simp: try_acquire_at_def Let_def)
    from take_growth[OF r(2) True] r(1) show ?thesis by simp
  next
    case False
    with assms(2) have [simp]: "\<not> ok" "b' = refill_at t b"
      by (auto simp: try_acquire_at_def Let_def)
    from r(1) c show ?thesis by simp
  qed
  show "bk_rate b' = bk_rate b" "bk_capacity b' = bk_capacity b" "bk_updated b \<le> bk_updated b'"
    using assms(2) refill_step(3)[OF assms(1), of t]
    by (auto simp: try_acquire_at_def Let_def split: if_splits)
qed

lemma attempts_growth:
  assumes "bucket_ok b" "attempts ts b = (oks, b')"
  shows "bucket_ok b' \<and> bk_tokens b' + of_nat (count_list oks True)
      \<le> bk_tokens b + growth b (bk_updated b' - bk_updated b)
         + of_nat (length ts) * (2 * of_int (bk_capacity b) / 2 ^ 53)"
  using assms
proof (induction ts arbitrary: b oks)
  case (Cons t ts)
  obtain ok b1 where t: "try_acquire_at t 1 b = (ok, b1)" by fastforce
  obtain os where a: "attempts ts b1 = (os, b')" and [simp]: "oks = ok # os"
    using Cons.prems(2) t by (auto split: prod.splits)
  have "bucket_ok b1" using try_acquire_at_ok[OF Cons.prems(1) _ t] by simp
  note IH = Cons.IH[OF this a] and st = try_growth[OF Cons.prems(1) t]
  have "growth b1 (bk_updated b' - bk_updated b1) + growth b (bk_updated b1 - bk_updated b)
      = growth b (bk_updated b' - bk_updated b)"
    by (simp add: growth_def st(2) distrib_right[symmetric])
  moreover have "of_nat (length (t # ts)) * (2 * of_int (bk_capacity b) / 2 ^ 53)
      = 2 * of_int (bk_capacity b) / 2 ^ 53
        + of_nat (length ts) * (2 * of_int (bk_capacity b1) / 2 ^ 53 :: rat)"
    by (simp only: st(3) list.size of_nat_Suc add_Suc_right distrib_right add_0_right of_nat_add
        mult_1_left of_nat_0)
  moreover have "of_nat (count_list oks True) = of_bool ok + (of_nat (count_list os True) :: rat)"
    by simp
  ultimately have "bk_tokens b' + of_nat (count_list oks True)
      \<le> bk_tokens b + growth b (bk_updated b' - bk_updated b)
         + of_nat (length (t # ts)) * (2 * of_int (bk_capacity b) / 2 ^ 53)"
    using IH st(1) by linarith
  with IH show ?case by blast
qed (auto simp: growth_def)

lemma attempts_updated:
  "(\<And>t. t \<in> set ts \<Longrightarrow> t \<le> e) \<Longrightarrow> bk_updated b \<le> e \<Longrightarrow> attempts ts b = (oks, b') \<Longrightarrow> bk_updated b' \<le> e"
proof (induction ts arbitrary: b oks)
  case (Cons t ts)
  obtain ok b1 where t: "try_acquire_at t 1 b = (ok, b1)" by fastforce
  obtain os b2 where a: "attempts ts b1 = (os, b2)" by fastforce
  have "bk_updated b1 \<le> e"
    using t Cons.prems(1)[of t] Cons.prems(2)
    by (auto simp: try_acquire_at_def Let_def refill_at_def split: if_splits)
  with Cons.IH[of b1 os] Cons.prems t a show ?case by auto
qed simp

text \<open>
  C39: However the calls of the threads interleave and whatever the clock reads, a bucket never
  grants more tokens than its capacity plus rate times the elapsed time (up to the rounding
  of doubles: a factor of \<open>(1 + 2 powi -53) ^ 3\<close> and \<open>2 powi -52\<close> of the capacity per call).
\<close>
theorem bucket_grants_bounded:
  assumes "bucket_ok b" "attempts ts b = (oks, b')" "\<And>t. t \<in> set ts \<Longrightarrow> t \<le> e" "bk_updated b \<le> e"
  shows "of_nat (count_list oks True)
    \<le> of_int (bk_capacity b) + growth b (e - bk_updated b)
      + of_nat (length ts) * (2 * of_int (bk_capacity b) / 2 ^ 53)"
proof -
  have "growth b (bk_updated b' - bk_updated b) \<le> growth b (e - bk_updated b)"
    using attempts_updated[OF assms(3,4,2)] bucket_okD(1)[OF assms(1)]
    unfolding growth_def by (intro mult_right_mono) auto
  with attempts_growth[OF assms(1,2)] bucket_okD(4)[OF assms(1)] bucket_okD(3)[of b']
  show ?thesis by linarith
qed

definition sample_bucket :: bucket where
  "sample_bucket = \<lparr>bk_rate = 4, bk_capacity = 1, bk_tokens = 1, bk_updated = 0\<rparr>"

theorem bucket_grants_bounded_witness:
  "of_nat (count_list (fst (attempts [0, 0] sample_bucket)) True)
     \<le> (1 + growth sample_bucket 0 + 2 * (2 / 2 ^ 53) :: rat)"
proof -
  have ok: "bucket_ok sample_bucket" by (simp add: bucket_ok_def sample_bucket_def)
  obtain oks b' where a: "attempts [0, 0] sample_bucket = (oks, b')" by fastforce
  have "bk_updated sample_bucket \<le> 0" by (simp add: sample_bucket_def)
  from bucket_grants_bounded[OF ok a _ this] a show ?thesis
    by (simp add: sample_bucket_def growth_def)
qed

section \<open>A blocked caller is served\<close>

text \<open>
  Every \<open>sleep\<close> lets the clock advance by at least \<open>d\<close> seconds beyond the reading before it.
\<close>

definition ticking :: "'w timer \<Rightarrow> rat \<Rightarrow> bool" where
  "ticking T d \<longleftrightarrow>
     (\<forall>w now w1 delay. clock T w = (now, w1) \<longrightarrow> 0 \<le> delay \<longrightarrow>
        now + d \<le> fst (clock T (sleep T delay w1)))"

lemma refill_gain:
  assumes ok: "bucket_ok b" and now: "bk_updated b + d \<le> now" and d: "0 < d"
    and gain: "1 / 2 ^ 20 \<le> fl (fl d * bk_rate b)"
  shows "min 1 (bk_tokens b + 1 / 2 ^ 21) \<le> bk_tokens (refill_at now b)"
proof -
  note b = bucket_okD[OF ok]
  let ?e = "fl (now - bk_updated b)"
  have e: "fl d \<le> ?e" "0 < fl d" using now d fl_pos[of d] by (auto intro: dbl.rnd_mono)
  then have "fl (fl d * bk_rate b) \<le> fl (?e * bk_rate b)"
    using b by (intro dbl.rnd_mult_mono) auto
  with gain have inc: "1 / 2 ^ 20 \<le> fl (?e * bk_rate b)" by linarith
  have "min 1 (bk_tokens b + 1 / 2 ^ 21) \<le> fl (bk_tokens b + fl (?e * bk_rate b))"
  proof (cases "bk_tokens b \<le> 1")
    case True
    have "bk_tokens b + 1 / 2 ^ 20 - (bk_tokens b + 1 / 2 ^ 20) / 2 ^ 53
        \<le> fl (bk_tokens b + 1 / 2 ^ 20)"
      using b by (intro fl_bounds(2)) auto
    also have "\<dots> \<le> fl (bk_tokens b + fl (?e * bk_rate b))"
      using inc by (intro dbl.rnd_mono) auto
    finally have "bk_tokens b + 1 / 2 ^ 20 - (bk_tokens b + 1 / 2 ^ 20) / 2 ^ 53
        \<le> fl (bk_tokens b + fl (?e * bk_rate b))" .
    moreover have "(bk_tokens b + 1 / 2 ^ 20) / 2 ^ 53 \<le> 1 / 2 ^ 21" using True by simp
    moreover have "(1 / 2 ^ 20 :: rat) = 1 / 2 ^ 21 + 1 / 2 ^ 21" by simp
    ultimately show ?thesis unfolding min_le_iff_disj by linarith
  next
    case False
    then have "1 \<le> fl (bk_tokens b + fl (?e * bk_rate b))"
      using inc by (intro dbl.rnd_ge_fixed) auto
    then show ?thesis by (simp add: min_le_iff_disj)
  qed
  with e b show ?thesis by (auto simp: refill_at_def Let_def min_le_iff_disj)
qed

lemma acquire_loop_step:
  assumes "clock T w = (now, w1)"
  shows "acquire_loop T n waited b w =
     (if n \<le> bk_tokens (refill_at now b) then Some (waited, take_tokens n (refill_at now b), w1)
      else acquire_loop T n (fl (waited + fl (fl (n - bk_tokens (refill_at now b)) / bk_rate b)))
             (refill_at now b)
             (sleep T (fl (fl (n - bk_tokens (refill_at now b)) / bk_rate b)) w1))"
  by (subst acquire_loop.simps) (simp add: assms Let_def)

lemma acquire_loop_returns:
  assumes T: "ticking T d" and d: "0 < d"
  shows "bucket_ok b \<Longrightarrow> 1 / 2 ^ 20 \<le> fl (fl d * bk_rate b) \<Longrightarrow> clock T w = (now, w1)
    \<Longrightarrow> bk_updated b \<le> now \<Longrightarrow> 0 \<le> waited
    \<Longrightarrow> 1 \<le> bk_tokens (refill_at now b) + of_nat N / 2 ^ 21
    \<Longrightarrow> \<exists>r b' w'. acquire_loop T 1 waited b w = Some (r, b', w') \<and> 0 \<le> r \<and> bucket_ok b'"
proof (induction N arbitrary: waited b w now w1)
  case 0
  then show ?case
    using refill_step(1)[of b now] by (auto simp: acquire_loop_step intro: take_step)
next
  case (Suc N)
  let ?b = "refill_at now b"
  let ?delay = "fl (fl (1 - bk_tokens ?b) / bk_rate b)"
  note ok = refill_step[OF Suc.prems(1), of now]
  show ?case
  proof (cases "1 \<le> bk_tokens ?b")
    case True
    then show ?thesis
      using Suc.prems ok(1) by (auto simp: acquire_loop_step intro: take_step)
  next
    case False
    have delay: "0 \<le> ?delay"
      using False bucket_okD(1)[OF Suc.prems(1)]
      by (intro dbl.rnd_nonneg divide_nonneg_pos) auto
    obtain now' w1' where c: "clock T (sleep T ?delay w1) = (now', w1')" by fastforce
    have upd: "bk_updated ?b + d \<le> now'"
      using T Suc.prems(3,4) ok(4) delay c unfolding ticking_def by fastforce
    have "min 1 (bk_tokens ?b + 1 / 2 ^ 21) \<le> bk_tokens (refill_at now' ?b)"
      using Suc.prems(2) by (intro refill_gain[OF ok(1) upd d]) simp
    moreover have "of_nat (Suc N) / 2 ^ 21 = of_nat N / 2 ^ 21 + (1 / 2 ^ 21 :: rat)"
      by (simp add: add_divide_distrib)
    moreover have "0 \<le> of_nat N / (2 ^ 21 :: rat)" by simp
    ultimately have "1 \<le> bk_tokens (refill_at now' ?b) + of_nat N / 2 ^ 21"
      using Suc.prems(6) unfolding min_le_iff_disj by linarith
    moreover have "0 \<le> fl (waited + ?delay)" using delay Suc.prems(5) by (intro dbl.rnd_nonneg) simp
    moreover have "bk_updated ?b \<le> now'" using upd d by simp
    moreover have "1 / 2 ^ 20 \<le> fl (fl d * bk_rate ?b)" using Suc.prems(2) by simp
    ultimately show ?thesis
      using Suc.IH[OF ok(1) _ c, of "fl (waited + ?delay)"] False
      by (simp only: acquire_loop_step[OF Suc.prems(3)] if_False)
  qed
qed

text \<open>
  A caller blocked on an empty bucket is always served: if every sleep moves the clock by
  some \<open>d\<close> worth at least a millionth of a token, \<open>acquire\<close> returns, reports a non-negative
  waiting time and leaves a well-formed bucket.
\<close>
theorem acquire_returns:
  assumes "ticking T d" "0 < d" "bucket_ok b" "1 / 2 ^ 20 \<le> fl (fl d * bk_rate b)"
    and "bk_updated b \<le> fst (clock T w)"
  shows "\<exists>waited b' w'. acquire T 1 b w = Some (waited, b', w') \<and> 0 \<le> waited \<and> bucket_ok b'"
proof -
  obtain now w1 where c: "clock T w = (now, w1)" by fastforce
  have "1 \<le> bk_tokens (refill_at now b) + of_nat (2 ^ 21) / 2 ^ 21"
    using bucket_okD(3)[OF refill_step(1)[OF assms(3)]] by simp
  from acquire_loop_returns[OF assms(1,2,3,4) c _ _ this] assms(5) c
  show ?thesis by (simp add: acquire_def)
qed

text \<open>A clock that only moves while its caller sleeps, and oversleeps by a tenth of a second.\<close>

definition sleepy_timer :: "rat timer" where
  "sleepy_timer = \<lparr>clock = (\<lambda>w. (w, w)), sleep = (\<lambda>d w. w + d + 1 / 8)\<rparr>"

theorem acquire_returns_witness:
  "\<exists>waited b' w'. acquire sleepy_timer 1 (sample_bucket\<lparr>bk_tokens := 0\<rparr>) 0 = Some (waited, b', w')"
proof -
  have tick: "ticking sleepy_timer (1 / 8)" by (auto simp: ticking_def sleepy_timer_def)
  have ok: "bucket_ok (sample_bucket\<lparr>bk_tokens := 0\<rparr>)" by (simp add: bucket_ok_def sample_bucket_def)
  have "fl (1 / 8) = 1 / 8" "fl (1 / 2) = 1 / 2"
    by (rule fl_exact[of _ 1 "- 3"]; simp add: power_int_minus)
      (rule fl_exact[of _ 1 "- 1"]; simp add: power_int_minus)
  moreover have "1 / 8 * 4 = (1 / 2 :: rat)" by simp
  ultimately have "fl (fl (1 / 8) * 4) = 1 / 2" by (simp only:)
  then have gain: "1 / 2 ^ 20 \<le> fl (fl (1 / 8) * bk_rate (sample_bucket\<lparr>bk_tokens := 0\<rparr>))"
    by (simp add: sample_bucket_def)
  have "bk_updated (sample_bucket\<lparr>bk_tokens := 0\<rparr>) \<le> fst (clock sleepy_timer 0)"
    by (simp add: sample_bucket_def sleepy_timer_def)
  from acquire_returns[OF tick _ ok gain this] show ?thesis by auto
qed

section \<open>The price-change budget\<close>

text \<open>
  The log of price changes is a table; a window is the hour before \<open>now\<close>. \<open>record\<close> stamps a
  row with the server's clock unless it is given a time. Prices are whole cents, which the
  \<open>float\<close> they pass through and the column keep.
\<close>

definition an_hour :: timestamp where
  "an_hour = 3600 * 1000000"

definition window_start :: "timestamp \<Rightarrow> timestamp" where
  "window_start now = now - an_hour"

definition budget_used :: "ustr \<Rightarrow> ustr \<Rightarrow> timestamp \<Rightarrow> database \<Rightarrow> nat" where
  "budget_used store product_ext_id now d =
     length (filter (\<lambda>c. pc_store_code c = store \<and> pc_product_ext_id c = product_ext_id
                       \<and> window_start now \<le> pc_changed_at c) (price_changes d))"

definition budget_allows :: "ustr \<Rightarrow> int \<Rightarrow> ustr \<Rightarrow> timestamp \<Rightarrow> database \<Rightarrow> bool" where
  "budget_allows store limit product_ext_id now d \<longleftrightarrow>
     int (budget_used store product_ext_id now d) < limit"

definition budget_record ::
  "ustr \<Rightarrow> ustr \<Rightarrow> rat \<Rightarrow> rat option \<Rightarrow> ustr option \<Rightarrow> timestamp \<Rightarrow> database \<Rightarrow> database" where
  "budget_record store product_ext_id new_price old_price offer_ext_id stamp d =
     d\<lparr>price_changes := price_changes d @
         [\<lparr>pc_store_code = store, pc_product_ext_id = product_ext_id, pc_offer_ext_id = offer_ext_id,
           pc_old_price = old_price, pc_new_price = new_price, pc_changed_at = stamp\<rparr>]\<rparr>"

definition budget_prune :: "timestamp \<Rightarrow> int \<Rightarrow> database \<Rightarrow> nat \<times> database" where
  "budget_prune now older_than_hours d =
     (let cutoff = now - older_than_hours * an_hour
      in (length (filter (\<lambda>c. pc_changed_at c < cutoff) (price_changes d)),
          d\<lparr>price_changes := filter (\<lambda>c. \<not> pc_changed_at c < cutoff) (price_changes d)\<rparr>))"

text \<open>
  The contract between the budget and its client: a recorded change is counted, for its own
  product only, while it is in the window; as time passes the count falls.
\<close>

locale price_budget =
  fixes used :: "ustr \<Rightarrow> timestamp \<Rightarrow> database \<Rightarrow> nat"
    and note_change :: "ustr \<Rightarrow> rat \<Rightarrow> rat option \<Rightarrow> ustr option \<Rightarrow> timestamp \<Rightarrow> database \<Rightarrow> database"
  assumes used_later: "now \<le> now' \<Longrightarrow> used p now' d \<le> used p now d"
    and used_note: "used p now (note_change q new old ext stamp d) =
          used p now d + (if p = q \<and> window_start now \<le> stamp then 1 else 0)"
    and note_frame: "note_change q new old ext stamp d =
          d\<lparr>price_changes := price_changes (note_change q new old ext stamp d)\<rparr>"
begin

lemma guarded_change_within:
  assumes "\<And>p. int (used p now d) \<le> limit" "now \<le> now'"
    and "int (used q now' d) < limit"
  shows "int (used p now' (note_change q new old ext stamp d)) \<le> limit"
proof -
  have "int (used p now' d) \<le> limit" using used_later[OF assms(2), of p d] assms(1)[of p] by linarith
  with assms(3) show ?thesis by (auto simp: used_note)
qed

lemma used_other: "p \<noteq> q \<Longrightarrow> used p now (note_change q new old ext stamp d) = used p now d"
  by (simp add: used_note)

end

interpretation log: price_budget "budget_used store" "budget_record store" for store
proof
  show "budget_used store p now' d \<le> budget_used store p now d" if "now \<le> now'" for p now now' d
    unfolding budget_used_def using that by (intro length_filter_mono) (auto simp: window_start_def)
qed (auto simp: budget_used_def budget_record_def)

lemma budget_record_database_ok [simp]:
  "database_ok (budget_record store q new old ext stamp d) = database_ok d"
  by (simp add: budget_record_def database_ok_def)

text \<open>
  Pruning the log of price changes with any retention of at least an hour never changes
  how much of a product's budget counts as used, now or later, and reports the number of rows
  it removed.
\<close>
theorem prune_keeps_budget:
  assumes "1 \<le> older_than_hours" "now \<le> later"
    and "budget_prune now older_than_hours d = (n, d')"
  shows "budget_used store p later d' = budget_used store p later d
    \<and> n + length (price_changes d') = length (price_changes d)"
proof
  have "an_hour \<le> older_than_hours * an_hour" using assms(1) by (simp add: an_hour_def)
  then have "\<not> pc_changed_at c < now - older_than_hours * an_hour"
    if "window_start later \<le> pc_changed_at c" for c
    using that assms(2) by (simp add: window_start_def)
  then have "filter (\<lambda>c. pc_store_code c = store \<and> pc_product_ext_id c = p
                \<and> window_start later \<le> pc_changed_at c)
              (filter (\<lambda>c. \<not> pc_changed_at c < now - older_than_hours * an_hour) cs)
    = filter (\<lambda>c. pc_store_code c = store \<and> pc_product_ext_id c = p
                \<and> window_start later \<le> pc_changed_at c) cs" for cs :: "price_change_log list"
    unfolding filter_filter by (intro filter_cong) auto
  with assms(3) show "budget_used store p later d' = budget_used store p later d"
    by (auto simp: budget_used_def budget_prune_def Let_def simp del: filter_filter)
  from assms(3) show "n + length (price_changes d') = length (price_changes d)"
    using sum_length_filter_compl[of "\<lambda>c. pc_changed_at c < now - older_than_hours * an_hour"]
    by (auto simp: budget_prune_def Let_def)
qed

theorem prune_keeps_budget_witness:
  "fst (budget_prune (50 * an_hour) 48
      (budget_record [103] [49] 5 None None 0 empty_database)) = 1
   \<and> length (price_changes (snd (budget_prune (50 * an_hour) 48
      (budget_record [103] [49] 5 None None 0 empty_database)))) = 0"
proof -
  obtain n d' where p: "budget_prune (50 * an_hour) 48
      (budget_record [103] [49] 5 None None 0 empty_database) = (n, d')" by fastforce
  then have "length (price_changes d') = 0"
    by (auto simp: budget_prune_def budget_record_def empty_database_def an_hour_def Let_def)
  with prune_keeps_budget[OF _ order_refl p] p show ?thesis
    by (simp add: budget_record_def empty_database_def)
qed

end
