(* ===== verification/Offer_Sync.thy ===== *)
theory Offer_Sync
  imports Sync_Run Store_Api Pricing Rate_Limit
begin

text \<open>
  \<open>app/services/offer_sync.py\<close>: pushing mapped products to the store as offers. The store
  adapter, the clocks and the exchange-rate source are parameters; an offer is addressed by its
  primary key in the session's view of the database, so that each assignment to an attribute
  is one step. The lemmas give the behaviour of a push on every branch, what it leaves in the
  offer's row, and how the price-change budget bounds it.
\<close>

section \<open>Attributes of an offer\<close>

definition offer_at :: "nat \<Rightarrow> database \<Rightarrow> store_offer option" where
  "offer_at i d = find_row (\<lambda>r. so_id r = i) (store_offers d)"

definition get_offer :: "nat \<Rightarrow> ('w, store_offer) work" where
  "get_offer i w d =
     (case offer_at i d of
        None \<Rightarrow> (Inl (PyLookupError (lit ''no such offer'')), w, d)
      | Some r \<Rightarrow> (Inr r, w, d))"

definition put_offer :: "nat \<Rightarrow> (store_offer \<Rightarrow> store_offer) \<Rightarrow> database \<Rightarrow> database" where
  "put_offer i f d =
     d\<lparr>store_offers := map (\<lambda>r. if so_id r = i then f r else r) (store_offers d)\<rparr>"

definition set_offer :: "nat \<Rightarrow> (store_offer \<Rightarrow> store_offer) \<Rightarrow> ('w, unit) work" where
  "set_offer i f = wmodify (put_offer i f)"

section \<open>Selection\<close>

definition syncable_status :: "mapping_status \<Rightarrow> bool" where
  "syncable_status s \<longleftrightarrow> s = AUTO \<or> s = APPROVED"

definition syncable ::
  "ustr \<Rightarrow> nat option \<Rightarrow> database \<Rightarrow> (product_mapping \<times> supplier_product \<times> store_product) list" where
  "syncable store limit d =
     (let rows = [(m, sp, st). m \<leftarrow> product_mappings d,
                    pm_store_code m = store \<and> syncable_status (pm_status m) \<and> pm_sync_enabled m,
                    sp \<leftarrow> supplier_products d,
                    sp_id sp = pm_supplier_product_id m \<and> sp_is_active sp,
                    st \<leftarrow> store_products d, pm_store_product_id m = Some (st_id st)]
      in case limit of None \<Rightarrow> rows | Some n \<Rightarrow> if n = 0 then rows else take n rows)"

record desired =
  de_price :: rat
  de_inventory :: int
  de_active :: bool

definition desired_stock :: "supplier_product \<Rightarrow> int" where
  "desired_stock sp =
     (if sp_max_order_quantity sp \<noteq> 0
      then min (sp_stock sp) (sp_max_order_quantity sp * 50) else sp_stock sp)"

definition desired_offer ::
  "settings \<Rightarrow> ('w, rat) work \<Rightarrow> product_mapping \<Rightarrow> supplier_product \<Rightarrow> store_product
    \<Rightarrow> ('w, desired) work" where
  "desired_offer s fx m sp st =
     wbind (compute s fx sp (Some m) (Some st)) (\<lambda>b.
       wret \<lparr>de_price = pb_final_price b, de_inventory = desired_stock sp,
             de_active = 0 < desired_stock sp\<rparr>)"

definition new_offer :: "nat \<Rightarrow> ustr \<Rightarrow> product_mapping \<Rightarrow> store_product \<Rightarrow> store_offer" where
  "new_offer i store m st =
     \<lparr>so_id = i, so_mapping_id = pm_id m, so_store_code = store, so_offer_ext_id = None,
      so_product_ext_id = st_product_ext_id st, so_state = OfferPending, so_active = False,
      so_pushed_price = None, so_pushed_inventory = None, so_pushed_active = None,
      so_last_pushed_at = None, so_pending_job_id = None, so_last_error = None,
      so_consecutive_failures = 0\<rparr>"

definition offer_row :: "ustr \<Rightarrow> product_mapping \<Rightarrow> store_product \<Rightarrow> ('w, nat) work" where
  "offer_row store m st =
     wbind (wread (\<lambda>d. find_row (\<lambda>r. so_mapping_id r = pm_id m) (store_offers d))) (\<lambda>row.
       case row of
         Some r \<Rightarrow> wret (so_id r)
       | None \<Rightarrow>
           wbind (wread (\<lambda>d. fresh_id so_id (store_offers d))) (\<lambda>i.
           wthen (wmodify (\<lambda>d. d\<lparr>store_offers := store_offers d @ [new_offer i store m st]\<rparr>))
           (wthen wflush (wret i))))"

section \<open>Pushing one offer\<close>

datatype action =
    SkippedUnchanged | WouldCreate | WouldUpdate | AwaitingJob | Created | Updated
  | DeferredPriceBudget | DeferredRateLimited | Errors

fun action_name :: "action \<Rightarrow> string" where
  "action_name SkippedUnchanged = ''skipped_unchanged''"
| "action_name WouldCreate = ''would_create''"
| "action_name WouldUpdate = ''would_update''"
| "action_name AwaitingJob = ''awaiting_job''"
| "action_name Created = ''created''"
| "action_name Updated = ''updated''"
| "action_name DeferredPriceBudget = ''deferred_price_budget''"
| "action_name DeferredRateLimited = ''deferred_rate_limited''"
| "action_name Errors = ''errors''"

definition changed_by_price :: "store_offer \<Rightarrow> desired \<Rightarrow> bool" where
  "changed_by_price r de \<longleftrightarrow> so_pushed_price r \<noteq> Some (de_price de)"

definition changed_by_stock :: "store_offer \<Rightarrow> desired \<Rightarrow> bool" where
  "changed_by_stock r de \<longleftrightarrow> so_pushed_inventory r \<noteq> Some (de_inventory de)"

definition changed_by_active :: "store_offer \<Rightarrow> desired \<Rightarrow> bool" where
  "changed_by_active r de \<longleftrightarrow> so_pushed_active r \<noteq> Some (de_active de)"

definition job_error_text :: "job_result \<Rightarrow> ustr" where
  "job_error_text job =
     (let joined = (case jr_errors job of
                      [] \<Rightarrow> []
                    | e # es \<Rightarrow> e @ concat (map (\<lambda>x. lit ''; '' @ x) es))
      in if joined \<noteq> [] then joined else lit ''job '' @ jr_status job)"

definition forget_push :: "store_offer \<Rightarrow> store_offer" where
  "forget_push r =
     r\<lparr>so_pushed_price := None, so_pushed_inventory := None, so_pushed_active := None\<rparr>"

definition rejected_offer :: "job_result \<Rightarrow> store_offer \<Rightarrow> store_offer" where
  "rejected_offer job r =
     forget_push (r\<lparr>so_last_error := Some (job_error_text job), so_state := FAILED\<rparr>)"

definition resolve_remote :: "'w store_adapter \<Rightarrow> nat \<Rightarrow> ('w, bool) work" where
  "resolve_remote A i =
     wbind (get_offer i) (\<lambda>r.
     wbind (wcall (ad_offers_for_product A (so_product_ext_id r))) (\<lambda>remote.
       case remote of
         [] \<Rightarrow> wret False
       | v # _ \<Rightarrow>
           wthen (set_offer i (\<lambda>r. r\<lparr>so_offer_ext_id := Some (ov_offer_ext_id v)\<rparr>))
           (wthen wflush (wret True))))"

definition resolve_offer_id :: "'w store_adapter \<Rightarrow> nat \<Rightarrow> ('w, bool) work" where
  "resolve_offer_id A i =
     wbind (get_offer i) (\<lambda>r.
       case or_none (so_pending_job_id r) of
         None \<Rightarrow> resolve_remote A i
       | Some j \<Rightarrow>
           wbind (wtry (wbind (wcall (ad_get_job A j)) (\<lambda>job. wret (Some job)))
                    is_api_error (\<lambda>e. wret None)) (\<lambda>jo.
             case jo of
               None \<Rightarrow> wret False
             | Some job \<Rightarrow>
                 if \<not> job_is_finished job then wret False
                 else
                   wthen (set_offer i (\<lambda>r. r\<lparr>so_pending_job_id := None\<rparr>))
                   (if job_succeeded job \<and> truthy (jr_resource_id job)
                    then wthen (set_offer i (\<lambda>r. r\<lparr>so_offer_ext_id := jr_resource_id job\<rparr>))
                         (wthen wflush (wret True))
                    else if \<not> job_succeeded job
                    then wthen (set_offer i (rejected_offer job))
                         (wthen wflush (wret False))
                    else resolve_remote A i)))"

definition remembered :: "desired \<Rightarrow> timestamp \<Rightarrow> bool \<Rightarrow> store_offer \<Rightarrow> store_offer" where
  "remembered de now keep_price r =
     r\<lparr>so_pushed_price := (if keep_price then so_pushed_price r else Some (de_price de)),
       so_pushed_inventory := Some (de_inventory de),
       so_pushed_active := Some (de_active de),
       so_active := de_active de,
       so_last_pushed_at := Some now,
       so_last_error := None,
       so_consecutive_failures := 0\<rparr>"

definition remember :: "nat \<Rightarrow> desired \<Rightarrow> timestamp \<Rightarrow> bool \<Rightarrow> ('w, unit) work" where
  "remember i de now keep_price = wthen (set_offer i (remembered de now keep_price)) wflush"

definition live_state :: "desired \<Rightarrow> offer_state" where
  "live_state de = (if de_active de then LIVE else OUT_OF_STOCK)"

definition record_change ::
  "'w runtime \<Rightarrow> 'w store_adapter \<Rightarrow> nat \<Rightarrow> rat \<Rightarrow> rat option \<Rightarrow> ('w, unit) work" where
  "record_change R A i new_price old_price =
     wbind (get_offer i) (\<lambda>r.
     wbind (wtime (txn_now R)) (\<lambda>stamp.
     wthen (wmodify (budget_record (ad_code A) (so_product_ext_id r) new_price old_price
                       (so_offer_ext_id r) stamp))
       wflush))"

definition send_update ::
  "'w runtime \<Rightarrow> 'w store_adapter \<Rightarrow> nat \<Rightarrow> desired \<Rightarrow> timestamp
    \<Rightarrow> bool \<Rightarrow> bool \<Rightarrow> bool \<Rightarrow> bool \<Rightarrow> ('w, action) work" where
  "send_update R A i de now price_changed stock_changed active_changed send_price =
     wbind (get_offer i) (\<lambda>r.
     wbind (wcall (ad_update_offer A (the (so_offer_ext_id r))
              (if send_price then Some (de_price de) else None)
              (if stock_changed then Some (de_inventory de) else None)
              (if active_changed then Some (de_active de) else None))) (\<lambda>job.
     wthen (set_offer i (\<lambda>r. r\<lparr>so_pending_job_id := or_none (Some (jr_job_id job)),
                               so_state := live_state de\<rparr>))
     (wthen (remember i de now (\<not> send_price))
     (wthen (if send_price
             then record_change R A i (de_price de) (so_pushed_price r) else wret ())
     (wret (if price_changed \<and> \<not> send_price then DeferredPriceBudget else Updated))))))"

definition update_offer_row ::
  "'w runtime \<Rightarrow> settings \<Rightarrow> 'w store_adapter \<Rightarrow> nat \<Rightarrow> desired \<Rightarrow> timestamp
    \<Rightarrow> bool \<Rightarrow> bool \<Rightarrow> bool \<Rightarrow> ('w, action) work" where
  "update_offer_row R s A i de now price_changed stock_changed active_changed =
     wbind (get_offer i) (\<lambda>r.
     wbind (if price_changed
            then wthen wflush (wbind (wtime (utcnow R)) (\<lambda>t.
                   wread (budget_allows (ad_code A) (effective_price_change_budget s)
                            (so_product_ext_id r) t)))
            else wret False) (\<lambda>send_price.
       if \<not> (send_price \<or> stock_changed \<or> active_changed) then wret DeferredPriceBudget
       else send_update R A i de now price_changed stock_changed active_changed send_price))"

definition adopt_conflict ::
  "'w runtime \<Rightarrow> settings \<Rightarrow> 'w store_adapter \<Rightarrow> nat \<Rightarrow> desired \<Rightarrow> timestamp \<Rightarrow> exn
    \<Rightarrow> ('w, action) work" where
  "adopt_conflict R s A i de now e =
     (if status_code e = Some 409
      then wthen (set_offer i (\<lambda>r. r\<lparr>so_pending_job_id := None\<rparr>))
           (wbind (resolve_offer_id A i) (\<lambda>ok.
              if ok then update_offer_row R s A i de now True True True else wraise e))
      else wraise e)"

definition finish_create ::
  "'w runtime \<Rightarrow> 'w store_adapter \<Rightarrow> nat \<Rightarrow> desired \<Rightarrow> timestamp \<Rightarrow> ('w, action) work" where
  "finish_create R A i de now =
     wthen (set_offer i (\<lambda>r. r\<lparr>so_state := live_state de\<rparr>))
     (wthen (remember i de now False)
     (wthen (record_change R A i (de_price de) None)
     (wret Created)))"

definition created_job ::
  "'w runtime \<Rightarrow> 'w store_adapter \<Rightarrow> nat \<Rightarrow> desired \<Rightarrow> timestamp \<Rightarrow> job_result
    \<Rightarrow> ('w, action) work" where
  "created_job R A i de now job =
     wthen (set_offer i (\<lambda>r. r\<lparr>so_pending_job_id := or_none (Some (jr_job_id job))\<rparr>))
     (if truthy (jr_resource_id job)
      then wthen (set_offer i (\<lambda>r. r\<lparr>so_offer_ext_id := jr_resource_id job\<rparr>))
             (finish_create R A i de now)
      else if jr_job_id job \<noteq> []
      then wbind (resolve_offer_id A i) (\<lambda>ok.
           wbind (get_offer i) (\<lambda>r.
             if \<not> ok \<and> so_state r = FAILED then wret Errors
             else finish_create R A i de now))
      else finish_create R A i de now)"

definition create_offer_row ::
  "'w runtime \<Rightarrow> settings \<Rightarrow> 'w store_adapter \<Rightarrow> nat \<Rightarrow> desired \<Rightarrow> timestamp \<Rightarrow> ('w, action) work" where
  "create_offer_row R s A i de now =
     wbind (get_offer i) (\<lambda>r.
     wbind (wtry
              (wbind (wcall (ad_create_offer A (so_product_ext_id r) (de_price de)
                               (de_inventory de) (de_active de))) (\<lambda>job. wret (Inl job)))
              is_api_error
              (\<lambda>e. wbind (adopt_conflict R s A i de now e) (\<lambda>a. wret (Inr a)))) (\<lambda>x.
       case x of
         Inr a \<Rightarrow> wret a
       | Inl job \<Rightarrow> created_job R A i de now job))"

definition sync_failed :: "nat \<Rightarrow> exn \<Rightarrow> ('w, action) work" where
  "sync_failed i e =
     (if is_rate_limited e
      then wthen (set_offer i (\<lambda>r. r\<lparr>so_last_error := Some (exn_str e)\<rparr>))
           (wthen wflush (wret DeferredRateLimited))
      else wthen (set_offer i (\<lambda>r.
                    let n = so_consecutive_failures r + 1
                    in r\<lparr>so_last_error := Some (take 2000 (exn_str e)),
                         so_consecutive_failures := n,
                         so_state := (if 5 \<le> n then FAILED else so_state r)\<rparr>))
           (wthen wflush (wret Errors)))"

definition push_offer ::
  "'w runtime \<Rightarrow> settings \<Rightarrow> 'w store_adapter \<Rightarrow> nat \<Rightarrow> desired \<Rightarrow> timestamp
    \<Rightarrow> bool \<Rightarrow> bool \<Rightarrow> bool \<Rightarrow> ('w, action) work" where
  "push_offer R s A i de now price_changed stock_changed active_changed =
     wbind (get_offer i) (\<lambda>r.
     wbind (if so_offer_ext_id r = None \<and> truthy (so_pending_job_id r)
            then resolve_offer_id A i else wret True) (\<lambda>ready.
       if \<not> ready then wret AwaitingJob
       else wbind (get_offer i) (\<lambda>r.
              if so_offer_ext_id r = None then create_offer_row R s A i de now
              else update_offer_row R s A i de now price_changed stock_changed active_changed)))"

definition sync_one ::
  "'w runtime \<Rightarrow> settings \<Rightarrow> 'w store_adapter \<Rightarrow> nat \<Rightarrow> desired \<Rightarrow> bool \<Rightarrow> timestamp
    \<Rightarrow> ('w, action) work" where
  "sync_one R s A i de dry_run now =
     wbind (get_offer i) (\<lambda>r.
       if \<not> (changed_by_price r de \<or> changed_by_stock r de \<or> changed_by_active r de)
       then wret SkippedUnchanged
       else if dry_run
       then wret (if so_offer_ext_id r = None then WouldCreate else WouldUpdate)
       else wtry (push_offer R s A i de now (changed_by_price r de) (changed_by_stock r de)
                    (changed_by_active r de))
              is_api_error (sync_failed i))"

section \<open>A run\<close>

definition sync_row ::
  "'w runtime \<Rightarrow> settings \<Rightarrow> ('w, rat) work \<Rightarrow> 'w store_adapter \<Rightarrow> bool \<Rightarrow> timestamp
    \<Rightarrow> product_mapping \<times> supplier_product \<times> store_product \<Rightarrow> unit \<Rightarrow> ('w, unit) counted" where
  "sync_row R s fx A dry_run now row u =
     (case row of (m, sp, st) \<Rightarrow>
        wthen (bump ''examined'' 1)
        (wbind (wtry (in_run (desired_offer s fx m sp st)) is_pricing_error
                  (\<lambda>e. wthen (bump ''errors'' 1) (wraise e))) (\<lambda>de.
         wbind (in_run (offer_row (ad_code A) m st)) (\<lambda>i.
         wbind (in_run (sync_one R s A i de dry_run now)) (\<lambda>a.
           bump (action_name a) 1)))))"

definition run_offers ::
  "'w runtime \<Rightarrow> settings \<Rightarrow> ('w, rat) work \<Rightarrow> 'w store_adapter \<Rightarrow> nat option \<Rightarrow> bool
    \<Rightarrow> ('w, stats) work" where
  "run_offers R s fx A limit dry_run =
     wbind (wtime (utcnow R)) (\<lambda>now.
       with_run R (lit ''offers:'' @ ad_code A)
         (wbind (wread (syncable (ad_code A) limit)) (\<lambda>rows.
          wthen (wfold (sync_row R s fx A dry_run now) rows ())
          (wthen wflush (\<lambda>ws d. (Inr (snd ws), ws, d))))))"

section \<open>Reconciling asynchronous jobs\<close>

definition reconcile_row :: "'w store_adapter \<Rightarrow> store_offer \<Rightarrow> stats \<Rightarrow> ('w, stats) work" where
  "reconcile_row A r st =
     (let st = stat_add ''checked'' 1 st; i = so_id r
      in wbind (wtry (wbind (wcall (ad_get_job A (the (so_pending_job_id r))))
                        (\<lambda>job. wret (Some job)))
                  is_api_error (\<lambda>e. wret None)) (\<lambda>jo.
           case jo of
             None \<Rightarrow> wret st
           | Some job \<Rightarrow>
               if \<not> job_is_finished job then wret (stat_add ''pending'' 1 st)
               else
                 wthen (set_offer i (\<lambda>r. r\<lparr>so_pending_job_id := None\<rparr>))
                 (if job_succeeded job
                  then wthen (set_offer i (\<lambda>r. r\<lparr>so_offer_ext_id :=
                                 (if truthy (jr_resource_id job) \<and> \<not> truthy (so_offer_ext_id r)
                                  then jr_resource_id job else so_offer_ext_id r),
                               so_last_error := None\<rparr>))
                       (wret (stat_add ''completed'' 1 st))
                  else wthen (set_offer i (\<lambda>r. rejected_offer job
                               (r\<lparr>so_consecutive_failures := so_consecutive_failures r + 1\<rparr>)))
                       (wret (stat_add ''failed'' 1 st)))))"

definition pending_offers :: "ustr \<Rightarrow> nat \<Rightarrow> database \<Rightarrow> store_offer list" where
  "pending_offers store limit d =
     take limit (filter (\<lambda>r. so_store_code r = store \<and> so_pending_job_id r \<noteq> None)
                   (store_offers d))"

definition reconcile_jobs :: "'w store_adapter \<Rightarrow> nat \<Rightarrow> ('w, stats) work" where
  "reconcile_jobs A limit =
     wbind (wread (pending_offers (ad_code A) limit)) (\<lambda>rows.
     wbind (wfold (reconcile_row A) rows
              [(''checked'', 0), (''completed'', 0), (''failed'', 0), (''pending'', 0)]) (\<lambda>st.
     wthen wflush (wret st)))"

section \<open>Adopting offers the store already has\<close>

definition adopted :: "offer_view \<Rightarrow> store_offer \<Rightarrow> store_offer" where
  "adopted v r =
     r\<lparr>so_offer_ext_id := Some (ov_offer_ext_id v), so_pushed_price := ov_price v,
       so_pushed_inventory := Some (ov_inventory_size v),
       so_pushed_active := Some (offer_is_active v), so_active := offer_is_active v,
       so_state := (if offer_is_active v then LIVE else OUT_OF_STOCK)\<rparr>"

definition by_product :: "offer_view list \<Rightarrow> ustr \<Rightarrow> offer_view option" where
  "by_product vs = map_of (rev (map (\<lambda>v. (ov_product_ext_id v, v)) vs))"

definition adopt_row ::
  "'w store_adapter \<Rightarrow> offer_view list \<Rightarrow> product_mapping \<times> supplier_product \<times> store_product
    \<Rightarrow> stats \<Rightarrow> ('w, stats) work" where
  "adopt_row A remote row stt =
     (case row of (m, sp, st) \<Rightarrow>
        case by_product remote (st_product_ext_id st) of
          None \<Rightarrow> wret stt
        | Some v \<Rightarrow>
            wbind (offer_row (ad_code A) m st) (\<lambda>i.
            wbind (get_offer i) (\<lambda>r.
              if so_offer_ext_id r = Some (ov_offer_ext_id v) then wret stt
              else wthen (set_offer i (adopted v)) (wret (stat_add ''adopted'' 1 stt)))))"

definition adopt_existing_offers :: "'w store_adapter \<Rightarrow> ('w, stats) work" where
  "adopt_existing_offers A =
     wbind (wcall (\<lambda>w. case ad_list_offers A w of (st, w') \<Rightarrow> (stream_list st, w'))) (\<lambda>remote.
     (let products = remdups (map ov_product_ext_id remote);
          st0 = [(''seen'', int (length products)), (''adopted'', 0), (''unknown'', 0)]
      in wbind (wread (syncable (ad_code A) None)) (\<lambda>rows.
         wbind (wfold (adopt_row A remote) rows st0) (\<lambda>st.
         wbind (wthen wflush (wread (syncable (ad_code A) None))) (\<lambda>rows'.
         (let mapped = map (\<lambda>(m, sp, st). st_product_ext_id st) rows'
          in wthen wflush
               (wret (stat_add ''unknown''
                  (int (length (filter (\<lambda>p. p \<notin> set mapped) products))) st))))))))"

section \<open>Reading and writing the row\<close>

definition offer_identity :: "store_offer \<Rightarrow> nat \<times> nat \<times> ustr \<times> ustr" where
  "offer_identity r = (so_id r, so_mapping_id r, so_store_code r, so_product_ext_id r)"

definition keeps_identity :: "(store_offer \<Rightarrow> store_offer) \<Rightarrow> bool" where
  "keeps_identity f \<longleftrightarrow> (\<forall>r. offer_identity (f r) = offer_identity r)"

lemma find_map_same:
  assumes "\<And>r. P (f r) = P r"
  shows "find P (map f rs) = map_option f (find P rs)"
  using assms by (induction rs) auto

lemma offer_at_put [simp]:
  assumes "keeps_identity f"
  shows "offer_at j (put_offer i f d) = (if j = i then map_option f (offer_at i d) else offer_at j d)"
proof -
  have id: "so_id (f r) = so_id r" for r
    using assms by (simp add: keeps_identity_def offer_identity_def)
  let ?g = "\<lambda>r. if so_id r = i then f r else r"
  have "find (\<lambda>r. so_id r = j) (map ?g (store_offers d)) = map_option ?g (find (\<lambda>r. so_id r = j) (store_offers d))"
    by (rule find_map_same) (simp add: id)
  moreover have "map_option ?g (find (\<lambda>r. so_id r = j) rs)
      = (if j = i then map_option f (find (\<lambda>r. so_id r = j) rs) else find (\<lambda>r. so_id r = j) rs)" for rs
    by (induction rs) auto
  ultimately show ?thesis by (auto simp: offer_at_def find_row_def put_offer_def)
qed

lemma offer_at_record [simp]:
  "offer_at i (budget_record store p new old ext t d) = offer_at i d"
  by (simp add: offer_at_def budget_record_def)

lemma offer_at_id: "offer_at i d = Some r \<Longrightarrow> so_id r = i \<and> r \<in> set (store_offers d)"
  unfolding offer_at_def by (drule find_row_Some) simp

lemma price_changes_put [simp]: "price_changes (put_offer i f d) = price_changes d"
  by (simp add: put_offer_def)

lemma wp_get_offer [wp_simps]:
  "wp (get_offer i) Q w d =
     (case offer_at i d of
        None \<Rightarrow> Q (Inl (PyLookupError (lit ''no such offer''))) w d | Some r \<Rightarrow> Q (Inr r) w d)"
  by (simp add: wp_def get_offer_def split: option.split)

lemma wp_set_offer [wp_simps]: "wp (set_offer i f) Q w d = Q (Inr ()) w (put_offer i f d)"
  by (simp add: set_offer_def wp_modify)

lemma keeps_identity_updates [simp]:
  "keeps_identity (\<lambda>r. r\<lparr>so_pending_job_id := a r\<rparr>)"
  "keeps_identity (\<lambda>r. r\<lparr>so_offer_ext_id := b r\<rparr>)"
  "keeps_identity (\<lambda>r. r\<lparr>so_offer_ext_id := b r, so_last_error := c r\<rparr>)"
  "keeps_identity (\<lambda>r. r\<lparr>so_state := e r\<rparr>)"
  "keeps_identity (\<lambda>r. r\<lparr>so_last_error := c r\<rparr>)"
  "keeps_identity (\<lambda>r. r\<lparr>so_pending_job_id := a r, so_state := e r\<rparr>)"
  "keeps_identity (\<lambda>r. r\<lparr>so_last_error := c r, so_consecutive_failures := n r, so_state := e r\<rparr>)"
  "keeps_identity (rejected_offer job)" "keeps_identity (remembered de now k)"
  "keeps_identity (\<lambda>r. rejected_offer job (r\<lparr>so_consecutive_failures := n r\<rparr>))"
  "keeps_identity (adopted v)"
  by (auto simp: keeps_identity_def offer_identity_def rejected_offer_def forget_push_def
      remembered_def adopted_def)

text \<open>What a failed or deferred push leaves alone.\<close>

definition kept :: "store_offer \<Rightarrow> store_offer \<Rightarrow> bool" where
  "kept r r' \<longleftrightarrow> offer_identity r' = offer_identity r \<and> so_state r' = so_state r
     \<and> so_active r' = so_active r \<and> so_pushed_price r' = so_pushed_price r
     \<and> so_pushed_inventory r' = so_pushed_inventory r \<and> so_pushed_active r' = so_pushed_active r
     \<and> so_last_pushed_at r' = so_last_pushed_at r
     \<and> so_consecutive_failures r' = so_consecutive_failures r"

lemma kept_refl [simp]: "kept r r"
  by (simp add: kept_def)

lemma kept_trans: "kept r r' \<Longrightarrow> kept r' r'' \<Longrightarrow> kept r r''"
  by (simp add: kept_def)

lemma kept_updates [simp]:
  "kept r (r\<lparr>so_pending_job_id := a\<rparr>)" "kept r (r\<lparr>so_offer_ext_id := b\<rparr>)"
  "kept r (r\<lparr>so_last_error := c\<rparr>)"
  "kept r (r\<lparr>so_pending_job_id := a, so_offer_ext_id := b\<rparr>)"
  by (simp_all add: kept_def offer_identity_def)

text \<open>
  What each part of a push establishes, for a row that was \<open>r\<close> before: the first argument list
  fixes the offer, \<open>r\<close> and the price log before.
\<close>

definition resolve_post ::
  "nat \<Rightarrow> store_offer \<Rightarrow> price_change_log list \<Rightarrow> bool result \<Rightarrow> 'w \<Rightarrow> database \<Rightarrow> bool" where
  "resolve_post i r pcl x w' d' \<longleftrightarrow>
     (\<exists>r'. offer_at i d' = Some r' \<and> price_changes d' = pcl \<and>
        (case x of
           Inl e \<Rightarrow> is_api_error e \<longrightarrow> kept r r'
         | Inr found \<Rightarrow> (if found then kept r r' \<and> so_offer_ext_id r' \<noteq> None
                       else kept r r' \<or> so_state r' = FAILED \<and> so_pushed_price r' = None)))"

lemma resolve_without_job:
  "offer_at i d = Some r \<Longrightarrow> so_pending_job_id r = None \<Longrightarrow>
    resolve_offer_id A i w d = resolve_remote A i w d"
  by (simp add: resolve_offer_id_def wbind_def get_offer_def)

lemma resolve_remote_keeps:
  assumes "offer_at i d = Some r'" "kept r r'" "price_changes d = pcl"
  shows "wp (resolve_remote A i) (\<lambda>x w' d'. \<exists>r'. offer_at i d' = Some r' \<and> kept r r'
    \<and> price_changes d' = pcl \<and> (x = Inr True \<longrightarrow> so_offer_ext_id r' \<noteq> None)) w d"
proof -
  have k: "kept r (r'\<lparr>so_offer_ext_id := x\<rparr>)" for x
    using assms(2) kept_updates(2) by (rule kept_trans)
  show ?thesis
    unfolding resolve_remote_def using assms k
    by (auto simp: wp_simps split: prod.split sum.split list.split)
qed

lemma resolve_remote_wp:
  assumes "offer_at i d = Some r'" "kept r r'" "price_changes d = pcl"
  shows "wp (resolve_remote A i) (resolve_post i r pcl) w d"
  by (rule wp_mono[OF resolve_remote_keeps[OF assms]])
    (auto simp: resolve_post_def split: sum.split)

lemma resolve_offer_id_wp:
  assumes "offer_at i d = Some r'" "kept r r'" "price_changes d = pcl"
  shows "wp (resolve_offer_id A i) (resolve_post i r pcl) w d"
proof -
  have k: "kept r (r'\<lparr>so_pending_job_id := x\<rparr>)"
    "kept r (r'\<lparr>so_pending_job_id := x, so_offer_ext_id := y\<rparr>)" for x y
    using assms(2) kept_updates(1,4) by (blast intro: kept_trans)+
  have q: "wp (resolve_remote A i) (resolve_post i r pcl) w
      (put_offer i (\<lambda>r. r\<lparr>so_pending_job_id := None\<rparr>) d)" for w
    using assms k by (intro resolve_remote_wp[of _ _ "r'\<lparr>so_pending_job_id := None\<rparr>"]) auto
  have f: "so_state (rejected_offer job x) = FAILED" "so_pushed_price (rejected_offer job x) = None"
    for job x by (simp_all add: rejected_offer_def forget_push_def)
  have t: "truthy x \<Longrightarrow> x \<noteq> None" for x :: "ustr option" by (cases x) auto
  show ?thesis
    unfolding resolve_offer_id_def using assms k resolve_remote_wp[OF assms] q f
    by (auto simp: wp_simps resolve_post_def[of _ _ _ "Inr _"] resolve_post_def[of _ _ _ "Inl _"] dest: t
        split: prod.split sum.split option.split if_split)
qed

text \<open>The price log grew by one entry for this product, or not at all.\<close>

definition logged :: "ustr \<Rightarrow> store_offer \<Rightarrow> bool \<Rightarrow> price_change_log list \<Rightarrow> database \<Rightarrow> bool" where
  "logged store r sent pcl d' \<longleftrightarrow>
     (if sent
      then \<exists>c. price_changes d' = pcl @ [c] \<and> pc_store_code c = store
             \<and> pc_product_ext_id c = so_product_ext_id r
      else price_changes d' = pcl)"

definition pushed_stock :: "desired \<Rightarrow> store_offer \<Rightarrow> bool" where
  "pushed_stock de r' \<longleftrightarrow> so_pushed_inventory r' = Some (de_inventory de)
     \<and> so_pushed_active r' = Some (de_active de) \<and> so_active r' = de_active de
     \<and> so_state r' = live_state de \<and> so_last_error r' = None \<and> so_consecutive_failures r' = 0"

definition update_post ::
  "ustr \<Rightarrow> int \<Rightarrow> timestamp \<Rightarrow> nat \<Rightarrow> store_offer \<Rightarrow> desired \<Rightarrow> bool \<Rightarrow> bool \<Rightarrow> bool \<Rightarrow> database
    \<Rightarrow> action result \<Rightarrow> 'w \<Rightarrow> database \<Rightarrow> bool" where
  "update_post store limit t i r de pc sc ac d0 x w' d' \<longleftrightarrow>
     (\<exists>r' sent. offer_at i d' = Some r' \<and> offer_identity r' = offer_identity r
        \<and> logged store r sent (price_changes d0) d'
        \<and> (sent \<longrightarrow> pc \<and> budget_allows store limit (so_product_ext_id r) t d0)
        \<and> (case x of
             Inl e \<Rightarrow> is_api_error e \<longrightarrow> kept r r' \<and> \<not> sent
           | Inr a \<Rightarrow>
               (a = Updated \<and> sent = pc \<and> pushed_stock de r'
                  \<and> so_pushed_price r' = (if pc then Some (de_price de) else so_pushed_price r))
               \<or> (a = DeferredPriceBudget \<and> pc \<and> \<not> sent \<and> so_pushed_price r' = so_pushed_price r
                  \<and> (\<not> sc \<and> \<not> ac \<and> r' = r \<or> pushed_stock de r'))))"

lemma record_change_wp:
  assumes "offer_at i d = Some r'" "so_product_ext_id r' = so_product_ext_id r"
    and "\<And>x d'. offer_at i d' = Some r' \<Longrightarrow> logged (ad_code A) r True (price_changes d) d'
      \<Longrightarrow> x = Inr () \<or> x = Inl (IntegrityError ''constraint'') \<Longrightarrow> Q x w d'"
  shows "wp (record_change R A i new old) Q w d"
proof -
  have "logged (ad_code A) r True (price_changes d)
      (budget_record (ad_code A) (so_product_ext_id r') new old (so_offer_ext_id r') t d)" for t
    using assms(2) by (simp add: logged_def budget_record_def)
  then show ?thesis
    unfolding record_change_def using assms(1) by (auto simp: wp_simps intro!: assms(3))
qed

lemma remembered_fields:
  "so_pushed_price (remembered de now b r) = (if b then so_pushed_price r else Some (de_price de))"
  "so_state (remembered de now b r) = so_state r"
  "offer_identity (remembered de now b r) = offer_identity r"
  "so_product_ext_id (remembered de now b r) = so_product_ext_id r"
  "so_offer_ext_id (remembered de now b r) = so_offer_ext_id r"
  "pushed_stock de (remembered de now b r) = (so_state r = live_state de)"
  by (simp_all add: remembered_def offer_identity_def pushed_stock_def)

lemma send_update_wp:
  fixes w :: 'w
  assumes r: "offer_at i d = Some r" and pc: "price_changes d = price_changes d0"
    and ok: "send \<Longrightarrow> pc \<and> budget_allows (ad_code A) (effective_price_change_budget s)
      (so_product_ext_id r) t d0"
  shows "wp (send_update R A i de now pc sc ac send)
    (update_post (ad_code A) (effective_price_change_budget s) t i r de pc sc ac d0) w d"
proof -
  let ?L = "effective_price_change_budget s" and ?P = "so_product_ext_id r"
  let ?post = "update_post (ad_code A) ?L t i r de pc sc ac d0"
  have stop: "?post (Inl e) w' d" for e and w' :: 'w
    using r pc by (auto simp: update_post_def logged_def intro!: exI[of _ False])
  define r1 where "r1 b j = remembered de now b
    (r\<lparr>so_pending_job_id := j, so_state := live_state de\<rparr>)" for b j
  define d1 where "d1 b j = put_offer i (remembered de now b) (put_offer i
    (\<lambda>r. r\<lparr>so_pending_job_id := j, so_state := live_state de\<rparr>) d)" for b j
  have d1: "offer_at i (d1 b j) = Some (r1 b j)" "price_changes (d1 b j) = price_changes d0" for b j
    using r pc by (simp_all add: d1_def r1_def)
  have r1: "offer_identity (r1 b j) = offer_identity r" "so_product_ext_id (r1 b j) = ?P"
    "pushed_stock de (r1 b j)" "so_pushed_price (r1 b j) = (if b then so_pushed_price r else Some (de_price de))"
    for b j by (simp_all add: r1_def remembered_def offer_identity_def pushed_stock_def)
  have noapi: "?post (Inl (IntegrityError m)) w' (d1 b j)" for m b j and w' :: 'w
    using d1 r1 by (auto simp: update_post_def logged_def intro!: exI[of _ False])
  have quiet: "?post (Inr (if pc then DeferredPriceBudget else Updated)) w' (d1 True j)" for j and w' :: 'w
    using d1[of True j] r1[of True j]
    by (auto simp: update_post_def logged_def intro!: exI[of _ False])
  have sent: "?post (Inr Updated) w' d'" "?post (Inl (IntegrityError m)) w' d'"
    if "pc \<and> budget_allows (ad_code A) ?L ?P t d0" "offer_at i d' = Some (r1 False j)"
      "logged (ad_code A) r True (price_changes d0) d'"
    for d' j m and w' :: 'w
    using that r1[of False j] by (auto simp: update_post_def intro!: exI[of _ True])
  have rec: "wp (record_change R A i p q)
      (\<lambda>x w d. case x of Inl e \<Rightarrow> ?post (Inl e) w d | Inr u \<Rightarrow> ?post (Inr Updated) w d) w' (d1 False j)"
    if "send" for p q j and w' :: 'w
  proof (rule record_change_wp[OF d1(1) r1(2)])
    fix x d'
    assume o: "offer_at i d' = Some (r1 False j)"
      and l: "logged (ad_code A) r True (price_changes (d1 False j)) d'"
      and x: "x = Inr () \<or> x = Inl (IntegrityError ''constraint'')"
    from x sent[OF ok[OF that] o l[unfolded d1(2)]]
    show "case x of Inl e \<Rightarrow> ?post (Inl e) w' d' | Inr u \<Rightarrow> ?post (Inr Updated) w' d'" by auto
  qed
  obtain x w' where call: "ad_update_offer A (the (so_offer_ext_id r))
      (if send then Some (de_price de) else None) (if sc then Some (de_inventory de) else None)
      (if ac then Some (de_active de) else None) w = (x, w')" by fastforce
  show ?thesis
  proof (cases x)
    case (Inl e)
    with r call stop show ?thesis by (simp add: send_update_def wp_simps)
  next
    case (Inr job)
    with r call rec ok show ?thesis
      using quiet noapi
      by (cases send; cases pc) (simp_all add: send_update_def wp_simps remember_def
          d1_def[symmetric] cong: sum.case_cong)
  qed
qed

lemma update_offer_row_wp:
  assumes r: "offer_at i d = Some r" and t: "t = utcnow R w" and pc: "price_changes d = price_changes d0"
    and some: "pc \<or> sc \<or> ac"
  shows "wp (update_offer_row R s A i de now pc sc ac)
    (update_post (ad_code A) (effective_price_change_budget s) t i r de pc sc ac d0) w d"
proof -
  let ?L = "effective_price_change_budget s" and ?P = "so_product_ext_id r"
  let ?post = "update_post (ad_code A) ?L t i r de pc sc ac d0"
  have allows: "budget_allows (ad_code A) ?L ?P t d = budget_allows (ad_code A) ?L ?P t d0"
    using pc by (simp add: budget_allows_def budget_used_def)
  have stop: "?post (Inl e) w d" for e
    using r pc by (auto simp: update_post_def logged_def intro!: exI[of _ False])
  have idle: "?post (Inr DeferredPriceBudget) w d" if "pc" "\<not> sc" "\<not> ac"
    using that r pc by (auto simp: update_post_def logged_def intro!: exI[of _ False])
  have send: "wp (send_update R A i de now pc sc ac b) ?post w d"
    if "b \<Longrightarrow> pc \<and> budget_allows (ad_code A) ?L ?P t d0" for b
    using that by (rule send_update_wp[OF r pc])
  show ?thesis
  proof (cases pc)
    case True
    with r t allows stop idle send show ?thesis by (simp add: update_offer_row_def wp_simps)
  next
    case False
    with r send some show ?thesis by (simp add: update_offer_row_def wp_simps)
  qed
qed

text \<open>What a push of any kind establishes, the adoption of an existing offer included.\<close>

definition push_post ::
  "ustr \<Rightarrow> nat \<Rightarrow> store_offer \<Rightarrow> desired \<Rightarrow> bool \<Rightarrow> bool \<Rightarrow> bool \<Rightarrow> price_change_log list
    \<Rightarrow> action result \<Rightarrow> 'w \<Rightarrow> database \<Rightarrow> bool" where
  "push_post store i r de pc sc ac pcl x w' d' \<longleftrightarrow>
     (\<exists>r' sent. offer_at i d' = Some r' \<and> logged store r sent pcl d'
        \<and> (case x of
             Inl e \<Rightarrow> is_api_error e \<longrightarrow> kept r r' \<and> \<not> sent
           | Inr a \<Rightarrow>
               (a = Created \<or> a = Updated) \<and> pushed_stock de r' \<and> (a = Created \<longrightarrow> sent)
                 \<and> (so_pushed_price r' = Some (de_price de)
                    \<or> \<not> pc \<and> so_pushed_price r' = so_pushed_price r)
               \<or> a = DeferredPriceBudget \<and> \<not> sent \<and> so_pushed_price r' = so_pushed_price r
                 \<and> (\<not> sc \<and> \<not> ac \<and> kept r r' \<or> pushed_stock de r')
               \<or> a = AwaitingJob \<and> \<not> sent
                 \<and> (kept r r' \<or> so_state r' = FAILED \<and> so_pushed_price r' = None)
               \<or> a = Errors \<and> \<not> sent \<and> so_state r' = FAILED))"

lemma logged_kept: "kept r r1 \<Longrightarrow> logged store r1 sent pcl d' \<Longrightarrow> logged store r sent pcl d'"
proof -
  assume "kept r r1"
  then have "so_product_ext_id r1 = so_product_ext_id r" by (simp add: kept_def offer_identity_def)
  then show "logged store r1 sent pcl d' \<Longrightarrow> logged store r sent pcl d'"
    by (cases sent) (simp_all add: logged_def)
qed

lemma update_push_post:
  assumes "update_post store limit t i r1 de pc' sc' ac' d0 x w' d'" "kept r r1"
    and "pc' = pc \<and> sc' = sc \<and> ac' = ac \<or> pc' \<and> sc' \<and> ac'"
  shows "push_post store i r de pc sc ac (price_changes d0) x w' d'"
proof -
  from assms(1) obtain r' sent where u: "offer_at i d' = Some r'"
    "logged store r1 sent (price_changes d0) d'"
    "case x of
       Inl e \<Rightarrow> is_api_error e \<longrightarrow> kept r1 r' \<and> \<not> sent
     | Inr a \<Rightarrow>
         (a = Updated \<and> sent = pc' \<and> pushed_stock de r'
            \<and> so_pushed_price r' = (if pc' then Some (de_price de) else so_pushed_price r1))
         \<or> (a = DeferredPriceBudget \<and> pc' \<and> \<not> sent \<and> so_pushed_price r' = so_pushed_price r1
            \<and> (\<not> sc' \<and> \<not> ac' \<and> r' = r1 \<or> pushed_stock de r'))"
    unfolding update_post_def by blast
  have p: "so_pushed_price r1 = so_pushed_price r" using assms(2) by (simp add: kept_def)
  note l = logged_kept[OF assms(2) u(2)]
  show ?thesis
  proof (cases x)
    case (Inl e)
    with u l assms(2) show ?thesis
      unfolding push_post_def by (intro exI[of _ r'] exI[of _ sent]) (auto intro: kept_trans)
  next
    case (Inr a)
    with u l assms(2,3) p show ?thesis
      unfolding push_post_def by (intro exI[of _ r'] exI[of _ sent]) (auto split: if_splits)
  qed
qed

lemma update_row_push_wp:
  assumes "offer_at i d = Some r1" "kept r r1" "price_changes d = pcl"
    and "pc' = pc \<and> sc' = sc \<and> ac' = ac \<or> pc' \<and> sc' \<and> ac'" "pc \<or> sc \<or> ac"
  shows "wp (update_offer_row R s A i de now pc' sc' ac')
    (push_post (ad_code A) i r de pc sc ac pcl) w d"
  unfolding assms(3)[symmetric]
proof (rule wp_mono[OF update_offer_row_wp[OF assms(1) refl refl]])
  show "pc' \<or> sc' \<or> ac'" using assms(4,5) by blast
qed (erule update_push_post[OF _ assms(2,4)])

lemma push_postI:
  "offer_at i d' = Some r' \<Longrightarrow> price_changes d' = pcl \<Longrightarrow> kept r r' \<Longrightarrow>
    push_post store i r de pc sc ac pcl (Inl e) w' d'"
  "offer_at i d' = Some r' \<Longrightarrow> price_changes d' = pcl \<Longrightarrow> \<not> is_api_error e \<Longrightarrow>
    push_post store i r de pc sc ac pcl (Inl e) w' d'"
  "offer_at i d' = Some r' \<Longrightarrow> price_changes d' = pcl \<Longrightarrow> so_state r' = FAILED \<Longrightarrow>
    push_post store i r de pc sc ac pcl (Inr Errors) w' d'"
  "offer_at i d' = Some r' \<Longrightarrow> price_changes d' = pcl \<Longrightarrow>
    kept r r' \<or> so_state r' = FAILED \<and> so_pushed_price r' = None \<Longrightarrow>
    push_post store i r de pc sc ac pcl (Inr AwaitingJob) w' d'"
  unfolding push_post_def logged_def
  by (rule exI[of _ r'], rule exI[of _ False], simp)+

lemma resolve_push_wp:
  assumes "offer_at i d = Some r'" "kept r r'" "price_changes d = pcl"
    and "\<And>w d r'. offer_at i d = Some r' \<Longrightarrow> kept r r' \<Longrightarrow> so_offer_ext_id r' \<noteq> None
      \<Longrightarrow> price_changes d = pcl \<Longrightarrow> wp (f True) Q w d"
    and "\<And>w d r'. offer_at i d = Some r'
      \<Longrightarrow> kept r r' \<or> so_state r' = FAILED \<and> so_pushed_price r' = None
      \<Longrightarrow> price_changes d = pcl \<Longrightarrow> wp (f False) Q w d"
    and "\<And>e w d r'. offer_at i d = Some r' \<Longrightarrow> price_changes d = pcl
      \<Longrightarrow> is_api_error e \<longrightarrow> kept r r' \<Longrightarrow> Q (Inl e) w d"
  shows "wp (wbind (resolve_offer_id A i) f) Q w d"
proof -
  have "case x of Inl e \<Rightarrow> Q (Inl e) w d | Inr v \<Rightarrow> wp (f v) Q w d"
    if x: "resolve_post i r pcl x w d" for x w d
  proof (cases x)
    case (Inl e)
    with x assms(6) show ?thesis by (auto simp: resolve_post_def)
  next
    case (Inr v)
    with x assms(4,5) show ?thesis by (cases v) (auto simp: resolve_post_def)
  qed
  with resolve_offer_id_wp[OF assms(1-3)] show ?thesis
    unfolding wp_bind by (rule wp_mono)
qed

lemma finish_create_wp:
  assumes "offer_at i d = Some r1" "offer_identity r1 = offer_identity r" "price_changes d = pcl"
  shows "wp (finish_create R A i de now) (push_post (ad_code A) i r de pc sc ac pcl) w d"
proof -
  define r2 where "r2 = remembered de now False (r1\<lparr>so_state := live_state de\<rparr>)"
  define d2 where "d2 = put_offer i (remembered de now False)
    (put_offer i (\<lambda>r. r\<lparr>so_state := live_state de\<rparr>) d)"
  have d2: "offer_at i d2 = Some r2" "price_changes d2 = pcl"
    using assms by (simp_all add: d2_def r2_def)
  have r2: "so_product_ext_id r2 = so_product_ext_id r" "pushed_stock de r2"
    "so_pushed_price r2 = Some (de_price de)"
    using assms(2) by (simp_all add: r2_def remembered_def offer_identity_def pushed_stock_def)
  have stop: "push_post (ad_code A) i r de pc sc ac pcl (Inl (IntegrityError m)) w d2" for m
    by (rule push_postI(2)[OF d2]) simp
  have "push_post (ad_code A) i r de pc sc ac pcl
      (case x of Inl e \<Rightarrow> Inl e | Inr u \<Rightarrow> Inr Created) w d'"
    if "offer_at i d' = Some r2" "logged (ad_code A) r True (price_changes d2) d'"
      "x = Inr () \<or> x = Inl (IntegrityError ''constraint'')" for x d'
    using that r2 d2(2) unfolding push_post_def
    by (intro exI[of _ r2] exI[of _ True]) auto
  then have "wp (record_change R A i (de_price de) None)
      (\<lambda>x w d. push_post (ad_code A) i r de pc sc ac pcl
        (case x of Inl e \<Rightarrow> Inl e | Inr u \<Rightarrow> Inr Created) w d) w d2"
    by (intro record_change_wp[OF d2(1) r2(1)]) blast
  then have "wp (record_change R A i (de_price de) None)
      (\<lambda>x w d. case x of Inl e \<Rightarrow> push_post (ad_code A) i r de pc sc ac pcl (Inl e) w d
        | Inr u \<Rightarrow> push_post (ad_code A) i r de pc sc ac pcl (Inr Created) w d) w d2"
    by (rule wp_mono) (auto split: sum.splits)
  with stop show ?thesis
    by (simp add: finish_create_def remember_def wp_simps d2_def[symmetric] cong: sum.case_cong)
qed

lemma created_job_wp:
  assumes "offer_at i d = Some r1" "kept r r1" "price_changes d = pcl"
  shows "wp (created_job R A i de now job) (push_post (ad_code A) i r de pc sc ac pcl) w d"
proof -
  let ?p = "or_none (Some (jr_job_id job))" and ?post = "push_post (ad_code A) i r de pc sc ac pcl"
  let ?d1 = "put_offer i (\<lambda>r. r\<lparr>so_pending_job_id := ?p\<rparr>) d"
  have d1: "offer_at i ?d1 = Some (r1\<lparr>so_pending_job_id := ?p\<rparr>)" "price_changes ?d1 = pcl"
    using assms by simp_all
  have k: "kept r (r1\<lparr>so_pending_job_id := ?p\<rparr>)"
    using assms(2) kept_updates(1) by (rule kept_trans)
  have id: "offer_identity (r1\<lparr>so_pending_job_id := ?p\<rparr>) = offer_identity r"
    "offer_identity (r1\<lparr>so_pending_job_id := ?p, so_offer_ext_id := x\<rparr>) = offer_identity r" for x
    using k by (simp_all add: kept_def offer_identity_def)
  have fin: "wp (finish_create R A i de now) ?post w ?d1"
    by (rule finish_create_wp[OF d1(1) id(1) d1(2)])
  have fin': "wp (finish_create R A i de now) ?post w
      (put_offer i (\<lambda>r. r\<lparr>so_offer_ext_id := x\<rparr>) ?d1)" for x
    by (rule finish_create_wp[OF _ id(2)[of x]]) (use assms in simp_all)
  have res: "wp (wbind (resolve_offer_id A i) (\<lambda>ok. wbind (get_offer i) (\<lambda>r.
             if \<not> ok \<and> so_state r = FAILED then wret Errors else finish_create R A i de now)))
      ?post w ?d1"
  proof (rule resolve_push_wp[OF d1(1) k d1(2)], goal_cases)
    case (1 w d r')
    have "wp (finish_create R A i de now) ?post w d"
      by (rule finish_create_wp[OF 1(1)]) (use 1 in \<open>simp_all add: kept_def\<close>)
    with 1 show ?case by (simp add: wp_simps)
  next
    case (2 w d r')
    show ?case
    proof (cases "so_state r' = FAILED")
      case True
      with 2 push_postI(3)[OF 2(1,3)] show ?thesis by (simp add: wp_simps)
    next
      case False
      have "wp (finish_create R A i de now) ?post w d"
        by (rule finish_create_wp[OF 2(1)]) (use 2 False in \<open>auto simp: kept_def\<close>)
      with 2 False show ?thesis by (simp add: wp_simps)
    qed
  next
    case (3 e w d r')
    then show ?case by (cases "is_api_error e") (simp_all add: push_postI(1,2)[OF 3(1,2)])
  qed
  show ?thesis
    unfolding created_job_def wp_then wp_set_offer sum.case
    by (intro wp_ifI fin res) (simp only: wp_then wp_set_offer sum.case fin')
qed

lemma adopt_conflict_wp:
  assumes "offer_at i d = Some r1" "kept r r1" "price_changes d = pcl"
  shows "wp (adopt_conflict R s A i de now e) (push_post (ad_code A) i r de pc sc ac pcl) w d"
proof -
  let ?post = "push_post (ad_code A) i r de pc sc ac pcl"
  let ?d1 = "put_offer i (\<lambda>r. r\<lparr>so_pending_job_id := None\<rparr>) d"
  have d1: "offer_at i ?d1 = Some (r1\<lparr>so_pending_job_id := None\<rparr>)" "price_changes ?d1 = pcl"
    using assms by simp_all
  have k: "kept r (r1\<lparr>so_pending_job_id := None\<rparr>)"
    using assms(2) kept_updates(1) by (rule kept_trans)
  have "case x of Inl e' \<Rightarrow> ?post (Inl e') w d
      | Inr ok \<Rightarrow> wp (if ok then update_offer_row R s A i de now True True True else wraise e) ?post w d"
    if "\<exists>r'. offer_at i d = Some r' \<and> kept r r' \<and> price_changes d = pcl
      \<and> (x = Inr True \<longrightarrow> so_offer_ext_id r' \<noteq> None)" for x w d
  proof -
    from that obtain r' where r': "offer_at i d = Some r'" "price_changes d = pcl" "kept r r'" by blast
    have "wp (update_offer_row R s A i de now True True True) ?post w d"
      unfolding r'(2)[symmetric]
      by (rule wp_mono[OF update_offer_row_wp[OF r'(1) refl refl]], simp)
        (erule update_push_post[OF _ r'(3)], simp)
    with push_postI(1)[OF r'] show ?thesis by (auto simp: wp_simps split: sum.split)
  qed
  then have "wp (resolve_remote A i) (\<lambda>x w d. case x of Inl e' \<Rightarrow> ?post (Inl e') w d
      | Inr ok \<Rightarrow> wp (if ok then update_offer_row R s A i de now True True True else wraise e) ?post w d)
      w ?d1"
    by (intro wp_mono[OF resolve_remote_keeps[OF d1(1) k d1(2)]]) blast
  then have "wp (wbind (resolve_offer_id A i) (\<lambda>ok.
      if ok then update_offer_row R s A i de now True True True else wraise e)) ?post w ?d1"
    unfolding wp_bind by - (rule wp_at, rule resolve_without_job[OF d1(1)], simp_all)
  moreover have "?post (Inl e) w d" using assms by (intro push_postI(1)) auto
  ultimately show ?thesis
    unfolding adopt_conflict_def by (simp add: wp_simps)
qed

lemma create_offer_row_wp:
  assumes "offer_at i d = Some r1" "kept r r1" "price_changes d = pcl"
  shows "wp (create_offer_row R s A i de now) (push_post (ad_code A) i r de pc sc ac pcl) w d"
proof -
  let ?post = "push_post (ad_code A) i r de pc sc ac pcl"
  obtain x w' where call: "ad_create_offer A (so_product_ext_id r1) (de_price de) (de_inventory de)
    (de_active de) w = (x, w')" by fastforce
  have stop: "?post (Inl e) w' d" for e by (rule push_postI(1)[OF assms(1,3,2)])
  have made: "wp (created_job R A i de now job) ?post w' d" for job
    by (rule created_job_wp[OF assms])
  have "case x of Inl e \<Rightarrow> ?post (Inl e) w d | Inr a \<Rightarrow> ?post (Inr a) w d" if "?post x w d" for x w d
    using that by (cases x) auto
  with adopt_conflict_wp[OF assms]
  have conflict: "wp (adopt_conflict R s A i de now e)
    (\<lambda>x w d. case x of Inl e \<Rightarrow> ?post (Inl e) w d | Inr a \<Rightarrow> ?post (Inr a) w d) w' d" for e
    by (rule wp_mono)
  show ?thesis
    by (cases x) (use assms(1) call stop made conflict in
        \<open>simp_all add: create_offer_row_def wp_simps cong: sum.case_cong\<close>)
qed

lemma push_offer_wp:
  assumes "offer_at i d = Some r" "price_changes d = pcl" "pc \<or> sc \<or> ac"
  shows "wp (push_offer R s A i de now pc sc ac) (push_post (ad_code A) i r de pc sc ac pcl) w d"
proof -
  let ?post = "push_post (ad_code A) i r de pc sc ac pcl"
  define go where "go = (\<lambda>ready. if \<not> ready then wret AwaitingJob
       else wbind (get_offer i) (\<lambda>r.
              if so_offer_ext_id r = None then create_offer_row R s A i de now
              else update_offer_row R s A i de now pc sc ac))"
  have ready: "wp (go True) ?post w d" if "offer_at i d = Some r1" "kept r r1" "price_changes d = pcl"
    for w d r1
  proof -
    have "wp (create_offer_row R s A i de now) ?post w d"
      by (rule create_offer_row_wp[OF that])
    moreover have "wp (update_offer_row R s A i de now pc sc ac) ?post w d"
      by (rule update_row_push_wp[OF that]) (use assms(3) in auto)
    ultimately show ?thesis using that(1) by (simp add: go_def wp_simps)
  qed
  have "wp (wbind (resolve_offer_id A i) go) ?post w d"
  proof (rule resolve_push_wp[OF assms(1) kept_refl assms(2)], goal_cases)
    case (1 w d r')
    show ?case by (rule ready[OF 1(1,2,4)])
  next
    case (2 w d r')
    then show ?case using push_postI(4)[OF 2(1,3,2)] by (simp add: go_def wp_simps)
  next
    case (3 e w d r')
    then show ?case by (cases "is_api_error e") (simp_all add: push_postI(1,2)[OF 3(1,2)])
  qed
  moreover have "wp (go True) ?post w d" by (rule ready[OF assms(1) kept_refl assms(2)])
  ultimately show ?thesis
    unfolding push_offer_def go_def[symmetric] using assms(1) by (simp add: wp_simps)
qed

section \<open>What one synchronisation does\<close>

definition agreed :: "store_offer \<Rightarrow> desired \<Rightarrow> bool" where
  "agreed r de \<longleftrightarrow> \<not> (changed_by_price r de \<or> changed_by_stock r de \<or> changed_by_active r de)"

lemmas changed_defs = changed_by_price_def changed_by_stock_def changed_by_active_def agreed_def

lemma sync_one_agreed:
  "offer_at i d = Some r \<Longrightarrow> agreed r de \<Longrightarrow>
    sync_one R s A i de dry now w d = (Inr SkippedUnchanged, w, d)"
  by (simp add: sync_one_def agreed_def get_offer_def wbind_def wret_def)

text \<open>The row after a failed push.\<close>

definition failed_row :: "exn \<Rightarrow> store_offer \<Rightarrow> store_offer" where
  "failed_row e r =
     (if is_rate_limited e then r\<lparr>so_last_error := Some (exn_str e)\<rparr>
      else r\<lparr>so_last_error := Some (take 2000 (exn_str e)),
             so_consecutive_failures := so_consecutive_failures r + 1,
             so_state := (if 5 \<le> so_consecutive_failures r + 1 then FAILED else so_state r)\<rparr>)"

lemma sync_failed_result:
  assumes "sync_failed i e w d = (x, w', d')" "offer_at i d = Some r"
  shows "w' = w \<and> price_changes d' = price_changes d \<and> offer_at i d' = Some (failed_row e r)
    \<and> x = (if database_ok d'
           then Inr (if is_rate_limited e then DeferredRateLimited else Errors)
           else Inl (IntegrityError ''constraint''))"
proof -
  have "wp (sync_failed i e) (\<lambda>x w' d'. w' = w \<and> price_changes d' = price_changes d
    \<and> offer_at i d' = Some (failed_row e r)
    \<and> x = (if database_ok d' then Inr (if is_rate_limited e then DeferredRateLimited else Errors)
           else Inl (IntegrityError ''constraint''))) w d"
    using assms(2) by (simp add: sync_failed_def wp_simps failed_row_def Let_def)
  from wpD[OF this assms(1)] show ?thesis by simp
qed

lemma sync_one_cases:
  assumes "sync_one R s A i de dry now w d = (x, w', d')" "offer_at i d = Some r"
  obtains (skipped) "agreed r de" "x = Inr SkippedUnchanged" "w' = w" "d' = d"
  | (dry) "\<not> agreed r de" "dry" "w' = w" "d' = d"
      "x = Inr (if so_offer_ext_id r = None then WouldCreate else WouldUpdate)"
  | (pushed) "\<not> agreed r de" "\<not> dry" "\<And>e. x = Inl e \<Longrightarrow> \<not> is_api_error e"
      "push_post (ad_code A) i r de (changed_by_price r de) (changed_by_stock r de)
         (changed_by_active r de) (price_changes d) x w' d'"
  | (failed) e r1 where "\<not> agreed r de" "\<not> dry" "is_api_error e" "kept r r1"
      "offer_at i d' = Some (failed_row e r1)" "price_changes d' = price_changes d"
      "x = (if database_ok d' then Inr (if is_rate_limited e then DeferredRateLimited else Errors)
            else Inl (IntegrityError ''constraint''))"
proof -
  let ?m = "push_offer R s A i de now (changed_by_price r de) (changed_by_stock r de)
      (changed_by_active r de)"
  consider "agreed r de" | "\<not> agreed r de" "dry" | "\<not> agreed r de" "\<not> dry" by blast
  then show ?thesis
  proof cases
    case 1
    from assms(1) sync_one_agreed[OF assms(2) 1, of R s A dry now w] skipped[OF 1]
    show ?thesis by simp
  next
    case 2
    with assms that(2) show ?thesis
      by (auto simp: sync_one_def agreed_def get_offer_def wbind_def wret_def)
  next
    case 3
    then have eq: "wtry ?m is_api_error (sync_failed i) w d = (x, w', d')"
      using assms by (auto simp: sync_one_def agreed_def get_offer_def wbind_def)
    obtain y w1 d1 where m: "?m w d = (y, w1, d1)" by (metis prod.collapse)
    have "wp ?m (push_post (ad_code A) i r de (changed_by_price r de) (changed_by_stock r de)
        (changed_by_active r de) (price_changes d)) w d"
      using 3 by (intro push_offer_wp[OF assms(2) refl]) (simp add: agreed_def)
    from wpD[OF this m] have post: "push_post (ad_code A) i r de (changed_by_price r de)
        (changed_by_stock r de) (changed_by_active r de) (price_changes d) y w1 d1" .
    show ?thesis
    proof (cases "\<exists>e. y = Inl e \<and> is_api_error e")
      case True
      then obtain e where e: "y = Inl e" "is_api_error e" by blast
      with post obtain r1 where r1: "offer_at i d1 = Some r1" "kept r r1"
        "price_changes d1 = price_changes d"
        by (auto simp: push_post_def logged_def)
      from eq m e have "sync_failed i e w1 d1 = (x, w', d')" by (simp add: wtry_def)
      from sync_failed_result[OF this r1(1)] failed[OF 3 e(2) r1(2)] r1(3) show ?thesis by simp
    next
      case False
      with eq m have "y = x" "w1 = w'" "d1 = d'"
        by (auto simp: wtry_def split: sum.splits if_splits)
      with post False pushed[OF 3] show ?thesis by simp
    qed
  qed
qed

text \<open>For an offer the store already has, the push is an update and its error handling.\<close>

lemma sync_one_existing:
  assumes "sync_one R s A i de dry now w d = (x, w', d')" "offer_at i d = Some r"
    and "so_offer_ext_id r \<noteq> None" "\<not> agreed r de" "\<not> dry"
  obtains (succeeded) "update_offer_row R s A i de now (changed_by_price r de) (changed_by_stock r de)
        (changed_by_active r de) w d = (x, w', d')" "\<And>e. x = Inl e \<Longrightarrow> \<not> is_api_error e"
  | (failed) e r1 d1 where "update_offer_row R s A i de now (changed_by_price r de)
        (changed_by_stock r de) (changed_by_active r de) w d = (Inl e, w', d1)" "is_api_error e"
      "kept r r1" "price_changes d' = price_changes d" "offer_at i d' = Some (failed_row e r1)"
      "x = (if database_ok d' then Inr (if is_rate_limited e then DeferredRateLimited else Errors)
            else Inl (IntegrityError ''constraint''))"
proof -
  let ?pc = "changed_by_price r de" and ?sc = "changed_by_stock r de" and ?ac = "changed_by_active r de"
  obtain y w1 d1 where u: "update_offer_row R s A i de now ?pc ?sc ?ac w d = (y, w1, d1)"
    by (metis prod.collapse)
  have "push_offer R s A i de now ?pc ?sc ?ac w d = (y, w1, d1)"
    using u assms(2,3) by (auto simp: push_offer_def get_offer_def wbind_def wret_def)
  with assms(1,2,4,5) have eq: "wtry (\<lambda>w d. (y, w1, d1)) is_api_error (sync_failed i) w d = (x, w', d')"
    by (auto simp: sync_one_def agreed_def get_offer_def wbind_def wtry_def)
  have ch: "?pc \<or> ?sc \<or> ?ac" using assms(4) by (simp add: agreed_def)
  note post = wpD[OF update_offer_row_wp[OF assms(2) refl refl ch] u]
  then obtain r1 where r1: "offer_at i d1 = Some r1" by (auto simp: update_post_def)
  have k: "kept r r1 \<and> price_changes d1 = price_changes d" if "y = Inl e" "is_api_error e" for e
    using post r1 that by (auto simp: update_post_def logged_def)
  show ?thesis
  proof (cases "\<exists>e. y = Inl e \<and> is_api_error e")
    case True
    then obtain e where e: "y = Inl e" "is_api_error e" by blast
    with eq have "sync_failed i e w1 d1 = (x, w', d')" by (simp add: wtry_def)
    from sync_failed_result[OF this r1] k[OF e] e u show ?thesis
      by (intro failed[of e d1 r1]) auto
  next
    case False
    with eq have "y = x" "w1 = w'" "d1 = d'" by (auto simp: wtry_def split: sum.splits if_splits)
    with u False show ?thesis by (intro succeeded) auto
  qed
qed

lemma sync_one_offer_exists:
  "sync_one R s A i de dry now w d = (Inr a, w', d') \<Longrightarrow> \<exists>r. offer_at i d = Some r"
  by (cases "offer_at i d") (auto simp: sync_one_def get_offer_def wbind_def)

lemma pushed_stock_agrees:
  "pushed_stock de r \<Longrightarrow> \<not> changed_by_stock r de \<and> \<not> changed_by_active r de"
  by (simp add: pushed_stock_def changed_defs)

section \<open>A sample store\<close>

text \<open>An adapter that answers every write with the same result, for the examples.\<close>

definition sample_adapter :: "job_result result \<Rightarrow> unit store_adapter" where
  "sample_adapter answer =
     \<lparr>ad_code = lit ''g2a'', ad_iter_catalog = (\<lambda>a b w. (([], None), w)),
      ad_list_offers = (\<lambda>w. (([], None), w)), ad_offers_for_product = (\<lambda>p w. (Inr [], w)),
      ad_create_offer = (\<lambda>p x n b w. (answer, w)), ad_update_offer = (\<lambda>e p n b w. (answer, w)),
      ad_get_job = (\<lambda>j w. (answer, w))\<rparr>"

definition done_job :: job_result where
  "done_job = \<lparr>jr_job_id = lit ''j1'', jr_status = lit ''complete'', jr_resource_id = Some (lit ''o1''),
     jr_errors = [], jr_raw = JNull\<rparr>"

definition limited_error :: exn where
  "limited_error = ApiErr RateLimitedError (lit ''g2a'') (Some 429) (lit ''slow down'') True"

definition sample_offer :: "ustr option \<Rightarrow> store_offer" where
  "sample_offer ext =
     \<lparr>so_id = 1, so_mapping_id = 1, so_store_code = lit ''g2a'', so_offer_ext_id = ext,
      so_product_ext_id = lit ''10'', so_state = LIVE, so_active = True, so_pushed_price = Some 5,
      so_pushed_inventory = Some 3, so_pushed_active = Some True, so_last_pushed_at = Some 0,
      so_pending_job_id = None, so_last_error = None, so_consecutive_failures = 0\<rparr>"

definition offer_db :: "price_change_log list \<Rightarrow> database" where
  "offer_db log_rows = empty_database\<lparr>store_offers := [sample_offer (Some (lit ''o1''))],
     price_changes := log_rows\<rparr>"

definition sample_change :: price_change_log where
  "sample_change = \<lparr>pc_store_code = lit ''g2a'', pc_product_ext_id = lit ''10'',
     pc_offer_ext_id = None, pc_old_price = None, pc_new_price = 5, pc_changed_at = 0\<rparr>"

definition wanted :: desired where
  "wanted = \<lparr>de_price = 6, de_inventory = 3, de_active = True\<rparr>"

lemma sample_runs:
  "fst (sync_one still_clock default_settings (sample_adapter (Inr done_job)) 1 wanted False 0 ()
     (offer_db [])) = Inr Updated"
  "fst (sync_one still_clock default_settings (sample_adapter (Inr done_job)) 1 wanted False 0 ()
     (offer_db (replicate 4 sample_change))) = Inr DeferredPriceBudget"
  "fst (sync_one still_clock default_settings (sample_adapter (Inl limited_error)) 1 wanted False 0 ()
     (offer_db [])) = Inr DeferredRateLimited"
  by code_simp+

abbreviation sample_sync ::
  "job_result result \<Rightarrow> price_change_log list \<Rightarrow> action result \<times> unit \<times> database" where
  "sample_sync answer log_rows \<equiv>
     sync_one still_clock default_settings (sample_adapter answer) 1 wanted False 0 () (offer_db log_rows)"

lemma sample_offer_at: "offer_at 1 (offer_db log_rows) = Some (sample_offer (Some (lit ''o1'')))"
  by (simp add: offer_at_def find_row_def offer_db_def sample_offer_def)

lemma sample_run: "fst (sample_sync answer log_rows) = x \<Longrightarrow>
  \<exists>d'. sample_sync answer log_rows = (x, (), d')"
  by (metis prod.collapse old.unit.exhaust)

section \<open>Properties of a push\<close>

text \<open>
  C1: A push leaves the row in agreement with what was wanted: when an offer was created,
  updated or found unchanged, its remembered price, stock and activity are the desired ones
  (live or out of stock accordingly, with no error and no failures counted, when it was pushed),
  and pushing the same again makes no call and changes nothing.
\<close>
theorem sync_converges:
  assumes "sync_one R s A i de dry now w d = (Inr a, w', d')"
    and "a = Created \<or> a = Updated \<or> a = SkippedUnchanged"
  shows "(\<exists>r. offer_at i d' = Some r \<and> agreed r de \<and> (a \<noteq> SkippedUnchanged \<longrightarrow> pushed_stock de r))
    \<and> sync_one R s A i de dry' now' w'' d' = (Inr SkippedUnchanged, w'', d')"
proof -
  from sync_one_offer_exists[OF assms(1)] obtain r0 where r0: "offer_at i d = Some r0" by blast
  from assms(1) r0 have "\<exists>r. offer_at i d' = Some r \<and> agreed r de \<and> (a \<noteq> SkippedUnchanged \<longrightarrow> pushed_stock de r)"
  proof (cases rule: sync_one_cases)
    case pushed
    with assms(2) obtain r' where r': "offer_at i d' = Some r'" "pushed_stock de r'"
      "so_pushed_price r' = Some (de_price de)
        \<or> \<not> changed_by_price r0 de \<and> so_pushed_price r' = so_pushed_price r0"
      by (auto simp: push_post_def)
    then have "agreed r' de"
      using pushed_stock_agrees[OF r'(2)] by (auto simp: agreed_def changed_by_price_def)
    with r' show ?thesis by blast
  qed (use assms(2) r0 in \<open>auto split: if_splits\<close>)
  then obtain r where r: "offer_at i d' = Some r" "agreed r de" "a \<noteq> SkippedUnchanged \<longrightarrow> pushed_stock de r"
    by blast
  with sync_one_agreed[OF r(1,2)] show ?thesis by simp
qed

theorem sync_converges_witness:
  "\<exists>d' r. sample_sync (Inr done_job) [] = (Inr Updated, (), d') \<and> offer_at 1 d' = Some r
    \<and> agreed r wanted"
proof -
  obtain d' where d': "sample_sync (Inr done_job) [] = (Inr Updated, (), d')"
    using sample_run[OF sample_runs(1)] by blast
  from sync_converges[OF d'] d' show ?thesis by blast
qed

text \<open>
  A price change that is deferred, for want of budget, is not forgotten: the row keeps the
  price last sent while stock and activity agree, no price change is logged, and the next
  synchronisation does not take the offer for unchanged if its price still differs.
\<close>
theorem deferred_price_is_kept:
  assumes "sync_one R s A i de dry now w d = (Inr DeferredPriceBudget, w', d')"
    and "offer_at i d = Some r"
  shows "\<exists>r'. offer_at i d' = Some r' \<and> so_pushed_price r' = so_pushed_price r
    \<and> \<not> changed_by_stock r' de \<and> \<not> changed_by_active r' de \<and> price_changes d' = price_changes d
    \<and> (changed_by_price r de \<longrightarrow>
         fst (sync_one R s A i de dry' now' w'' d') \<noteq> Inr SkippedUnchanged)"
proof -
  from assms have "\<exists>r'. offer_at i d' = Some r' \<and> so_pushed_price r' = so_pushed_price r
    \<and> \<not> changed_by_stock r' de \<and> \<not> changed_by_active r' de \<and> price_changes d' = price_changes d"
  proof (cases rule: sync_one_cases)
    case pushed
    then obtain r' where "offer_at i d' = Some r'" "price_changes d' = price_changes d"
      "so_pushed_price r' = so_pushed_price r"
      "\<not> changed_by_stock r de \<and> \<not> changed_by_active r de \<and> kept r r' \<or> pushed_stock de r'"
      by (auto simp: push_post_def logged_def)
    moreover from this(4) have "\<not> changed_by_stock r' de \<and> \<not> changed_by_active r' de"
      using pushed_stock_agrees[of de r'] by (auto simp: kept_def changed_defs)
    ultimately show ?thesis by blast
  qed (auto split: if_splits)
  then obtain r' where r': "offer_at i d' = Some r'" "so_pushed_price r' = so_pushed_price r"
    "\<not> changed_by_stock r' de" "\<not> changed_by_active r' de" "price_changes d' = price_changes d" by blast
  moreover have "fst (sync_one R s A i de dry' now' w'' d') \<noteq> Inr SkippedUnchanged"
    if "changed_by_price r de"
  proof -
    from that r' have n: "\<not> agreed r' de" by (simp add: changed_defs)
    obtain x w1 d1 where e: "sync_one R s A i de dry' now' w'' d' = (x, w1, d1)" by (metis prod.collapse)
    from e r'(1) n have "x \<noteq> Inr SkippedUnchanged"
      by (cases rule: sync_one_cases) (auto simp: push_post_def split: if_splits)
    with e show ?thesis by simp
  qed
  ultimately show ?thesis by blast
qed

theorem deferred_price_is_kept_witness:
  "\<exists>d' r'. sample_sync (Inr done_job) (replicate 4 sample_change) = (Inr DeferredPriceBudget, (), d')
    \<and> offer_at 1 d' = Some r' \<and> so_pushed_price r' = Some 5"
proof -
  obtain d' where d': "sample_sync (Inr done_job) (replicate 4 sample_change)
      = (Inr DeferredPriceBudget, (), d')"
    using sample_run[OF sample_runs(2)] by blast
  from deferred_price_is_kept[OF d' sample_offer_at] d' show ?thesis
    by (auto simp: sample_offer_def)
qed

text \<open>
  Being rate limited costs an offer nothing: its state, what was last pushed and its count
  of failures stay, only the error text is recorded, and no price change is logged.
\<close>
theorem rate_limit_leaves_offer:
  assumes "sync_one R s A i de dry now w d = (Inr DeferredRateLimited, w', d')"
    and "offer_at i d = Some r"
  shows "\<exists>r' m. offer_at i d' = Some r' \<and> kept r r' \<and> so_last_error r' = Some m
    \<and> price_changes d' = price_changes d"
  using assms
proof (cases rule: sync_one_cases)
  case pushed
  then show ?thesis by (auto simp: push_post_def)
next
  case (failed e r1)
  then have "is_rate_limited e" by (auto split: if_splits)
  with failed show ?thesis by (auto simp: failed_row_def kept_def offer_identity_def)
qed (auto split: if_splits)

theorem rate_limit_leaves_offer_witness:
  "\<exists>d' r'. sample_sync (Inl limited_error) [] = (Inr DeferredRateLimited, (), d')
    \<and> offer_at 1 d' = Some r' \<and> so_state r' = LIVE"
proof -
  obtain d' where d': "sample_sync (Inl limited_error) [] = (Inr DeferredRateLimited, (), d')"
    using sample_run[OF sample_runs(3)] by blast
  from rate_limit_leaves_offer[OF d' sample_offer_at] d' show ?thesis
    by (auto simp: kept_def sample_offer_def)
qed

text \<open>
  No failure of the store ends a run: whatever the adapter raises, \<open>_sync_one\<close> answers
  with an action; the only exceptions that leave it are those of the database.
\<close>
theorem store_errors_stay_inside:
  "\<not> (\<exists>e. fst (sync_one R s A i de dry now w d) = Inl e \<and> is_api_error e)"
proof -
  obtain x w' d' where eq: "sync_one R s A i de dry now w d = (x, w', d')" by (metis prod.collapse)
  show ?thesis
  proof (cases "offer_at i d")
    case None
    then show ?thesis by (simp add: sync_one_def get_offer_def wbind_def)
  next
    case (Some r)
    with eq have "\<not> (\<exists>e. x = Inl e \<and> is_api_error e)"
      by (cases rule: sync_one_cases) (auto split: if_splits)
    with eq show ?thesis by simp
  qed
qed

text \<open>
  C20: The price-change budget holds: if no product has more changes in the last hour than the
  budget allows, then pushing an offer the store already has, whatever happens on the way,
  leaves it so at that time and at all later times.
\<close>
theorem update_within_budget:
  assumes "offer_at i d = Some r" "so_offer_ext_id r \<noteq> None"
    and "\<And>p. int (budget_used (ad_code A) p (utcnow R w) d) \<le> effective_price_change_budget s"
    and "utcnow R w \<le> later"
    and "sync_one R s A i de dry now w d = (x, w', d')"
  shows "int (budget_used (ad_code A) p later d') \<le> effective_price_change_budget s"
proof -
  let ?used = "budget_used (ad_code A) p" and ?L = "effective_price_change_budget s"
    and ?now = "utcnow R w"
  have same: "int (?used later d1) \<le> ?L" if "price_changes d1 = price_changes d" for d1
    using assms(3)[of p] log.used_later[OF assms(4), of "ad_code A" p d] that
    by (simp add: budget_used_def)
  show ?thesis
  proof (cases "agreed r de \<or> dry")
    case True
    with assms(1,5) have "d' = d"
      by (auto simp: sync_one_def agreed_def get_offer_def wbind_def wret_def split: if_splits)
    then show ?thesis using same by simp
  next
    case False
    then have n: "\<not> agreed r de" "\<not> dry" by auto
    from assms(5,1,2) n show ?thesis
    proof (cases rule: sync_one_existing)
      case failed
      then show ?thesis by (intro same)
    next
      case succeeded
      from n have "changed_by_price r de \<or> changed_by_stock r de \<or> changed_by_active r de"
        by (simp add: agreed_def)
      from wpD[OF update_offer_row_wp[OF assms(1) refl refl this] succeeded(1)]
      obtain sent where u: "logged (ad_code A) r sent (price_changes d) d'"
        "sent \<longrightarrow> budget_allows (ad_code A) ?L (so_product_ext_id r) ?now d"
        unfolding update_post_def by blast
      show ?thesis
      proof (cases sent)
        case False
        with u same[of d'] show ?thesis by (simp add: logged_def)
      next
        case True
        with u(1) obtain c where c: "price_changes d' = price_changes d @ [c]"
          "pc_product_ext_id c = so_product_ext_id r" by (auto simp: logged_def)
        have "int (?used later d') \<le> int (?used later d) + (if p = so_product_ext_id r then 1 else 0)"
          using c by (simp add: budget_used_def)
        moreover have "int (?used later d) < ?L" if "p = so_product_ext_id r"
          using u(2) True that log.used_later[OF assms(4), of "ad_code A" p d]
          by (simp add: budget_allows_def)
        ultimately show ?thesis using same[of d] by (cases "p = so_product_ext_id r") auto
      qed
    qed
  qed
qed

theorem update_within_budget_witness:
  "\<forall>p. int (budget_used (lit ''g2a'') p 9 (snd (snd (sample_sync (Inr done_job) [])))) \<le> 4"
proof -
  obtain x w' d' where e: "sample_sync (Inr done_job) [] = (x, w', d')" by (metis prod.collapse)
  have ext: "so_offer_ext_id (sample_offer (Some (lit ''o1''))) \<noteq> None" by (simp add: sample_offer_def)
  have "int (budget_used (ad_code (sample_adapter (Inr done_job))) p (utcnow still_clock ()) (offer_db []))
      \<le> effective_price_change_budget default_settings" for p
    by (simp add: budget_used_def offer_db_def effective_price_change_budget_def default_settings_def)
  from update_within_budget[OF sample_offer_at ext this _ e, of 9] e show ?thesis
    by (simp add: still_clock_def sample_adapter_def effective_price_change_budget_def
        default_settings_def)
qed

end
