(* ===== verification/Offer_Run.thy ===== *)
theory Offer_Run
  imports Offer_Sync "HOL-Library.Sublist"
begin

text \<open>
  Whole runs of \<open>OfferSync\<close> and the calls a push makes: what a run can touch, that an offer with
  a creation in flight is not created twice, that the store ends up with the desired offer, how
  failures are counted, and what reconciling the asynchronous jobs does.
\<close>

section \<open>What a run can touch\<close>

text \<open>
  Offers are only added, under their identity; the price log only grows; of the rest only the
  exchange rates and the run log change.
\<close>

definition run_frame :: "database \<Rightarrow> database \<Rightarrow> bool" where
  "run_frame d d' \<longleftrightarrow>
     prefix (map offer_identity (store_offers d)) (map offer_identity (store_offers d'))
     \<and> prefix (price_changes d) (price_changes d')
     \<and> d' = d\<lparr>store_offers := store_offers d', price_changes := price_changes d',
              fx_rates := fx_rates d', sync_runs := sync_runs d'\<rparr>"

lemma run_frame_preorder: "preorder_on_db run_frame"
  unfolding preorder_on_db_def
proof
  show "reflp run_frame" by (simp add: reflp_def run_frame_def)
  show "transp run_frame"
  proof (rule transpI)
    fix d1 d2 d3
    assume a: "run_frame d1 d2" and b: "run_frame d2 d3"
    have p: "prefix (map offer_identity (store_offers d1)) (map offer_identity (store_offers d3))"
      "prefix (price_changes d1) (price_changes d3)"
      using a b prefix_order.trans unfolding run_frame_def by metis+
    have "d3 = d2\<lparr>store_offers := store_offers d3, price_changes := price_changes d3,
              fx_rates := fx_rates d3, sync_runs := sync_runs d3\<rparr>"
      "d2 = d1\<lparr>store_offers := store_offers d2, price_changes := price_changes d2,
              fx_rates := fx_rates d2, sync_runs := sync_runs d2\<rparr>"
      using a b by (simp_all add: run_frame_def)
    then have "d3 = d1\<lparr>store_offers := store_offers d3, price_changes := price_changes d3,
              fx_rates := fx_rates d3, sync_runs := sync_runs d3\<rparr>"
      by (cases d1; cases d2; cases d3) simp
    with p show "run_frame d1 d3" by (simp add: run_frame_def)
  qed
qed

lemma identity_map:
  "keeps_identity f \<Longrightarrow> map offer_identity (map (\<lambda>r. if so_id r = i then f r else r) rs)
    = map offer_identity rs"
  by (auto simp: keeps_identity_def)

lemma steps_get_offer [step_intros]: "preorder_on_db R \<Longrightarrow> steps R (get_offer i)"
  by (auto simp: steps_def get_offer_def preorder_on_db_def reflp_def split: option.split)

text \<open>
  The contract between a relation on databases and the push of offer \<open>i\<close>: the push assigns to
  attributes of that row, none of them part of its identity, and records changes of its price. A
  relation that allows this holds between the database before and after any push of the offer.
\<close>

locale offer_relation =
  fixes R :: "database \<Rightarrow> database \<Rightarrow> bool" and i :: nat
  assumes preorder: "preorder_on_db R"
    and assigned: "keeps_identity f \<Longrightarrow> R d (put_offer i f d)"
    and recorded: "R d (budget_record store p new old ext stamp d)"
begin

lemmas intros = step_intros[where R = R] preorder

lemma set_kept: "keeps_identity f \<Longrightarrow> steps R (set_offer i f)"
  unfolding set_offer_def by (intro steps_modify assigned)

lemma record_kept: "steps R (wmodify (budget_record store p new old ext stamp))"
  by (intro steps_modify recorded)

lemma resolve_kept: "steps R (resolve_remote A i)" "steps R (resolve_offer_id A i)"
proof -
  show r: "steps R (resolve_remote A i)"
    unfolding resolve_remote_def
    by (intro intros allI) (auto split: list.split intro!: intros set_kept)
  show "steps R (resolve_offer_id A i)"
    unfolding resolve_offer_id_def by (intro intros r set_kept keeps_identity_updates)
qed

lemma update_kept: "steps R (update_offer_row T s A i de now pc sc ac)"
  unfolding update_offer_row_def send_update_def remember_def record_change_def
  by (intro intros set_kept record_kept keeps_identity_updates)

lemma create_kept: "steps R (create_offer_row T s A i de now)"
proof -
  have f: "steps R (finish_create T A i de now)"
    unfolding finish_create_def remember_def record_change_def
    by (intro intros set_kept record_kept keeps_identity_updates)
  have c: "steps R (created_job T A i de now job)" for job
    unfolding created_job_def by (intro intros set_kept resolve_kept f keeps_identity_updates)
  have "steps R (adopt_conflict T s A i de now e)" for e
    unfolding adopt_conflict_def by (intro intros set_kept resolve_kept update_kept keeps_identity_updates)
  with c show ?thesis
    unfolding create_offer_row_def by (intro intros) (auto split: sum.split intro!: intros)
qed

lemma sync_one_kept: "steps R (sync_one T s A i de dry now)"
  unfolding sync_one_def push_offer_def sync_failed_def Let_def
  by (intro intros set_kept resolve_kept update_kept create_kept keeps_identity_updates)

lemma reconcile_row_kept:
  assumes "so_id x = i"
  shows "steps R (reconcile_row A x st)"
  unfolding reconcile_row_def Let_def assms
  by (intro intros set_kept)
    (auto simp: keeps_identity_def offer_identity_def rejected_offer_def forget_push_def split: option.split
      intro!: intros set_kept)

end

text \<open>
  A relation that also allows new offers under a fresh key, new exchange rates and the log of runs
  holds between the database before and after a whole run, and after the jobs were reconciled.
\<close>

locale run_relation =
  fixes R :: "database \<Rightarrow> database \<Rightarrow> bool"
  assumes whole: "preorder_on_db R"
    and row_assigned: "keeps_identity f \<Longrightarrow> R d (put_offer i f d)"
    and change_recorded: "R d (budget_record store p new old ext stamp d)"
    and offer_added: "j \<notin> so_id ` set (store_offers d)
      \<Longrightarrow> R d (d\<lparr>store_offers := store_offers d @ [new_offer j store m st]\<rparr>)"
    and rate_stored: "d' = d\<lparr>fx_rates := fx_rates d'\<rparr> \<Longrightarrow> R d d'"
    and run_logged: "ignores_runs R"

sublocale run_relation \<subseteq> each: offer_relation R i for i
  by unfold_locales (fact whole row_assigned change_recorded)+

context run_relation
begin

lemma offer_row_kept: "steps R (offer_row store m st)"
proof -
  have "fresh_id so_id (store_offers d) \<notin> so_id ` set (store_offers d)" for d :: database
    using fresh_id_fresh[of _ "store_offers d" so_id] by (metis imageE)
  then have added: "steps R (wbind (wread (\<lambda>d. fresh_id so_id (store_offers d))) (\<lambda>i.
     wthen (wmodify (\<lambda>d. d\<lparr>store_offers := store_offers d @ [new_offer i store m st]\<rparr>)) (wthen wflush (wret i))))"
    by (auto simp: steps_def wbind_def wthen_def wread_def wmodify_def wflush_def wret_def flush_def
        intro: offer_added)
  show ?thesis
    unfolding offer_row_def
    by (rule steps_bind[OF whole steps_pure(3)[OF whole]], rule steps_option)
      (simp_all add: added steps_pure(1)[OF whole])
qed

lemma compute_kept: "steps R (compute s (fx_rate_now T s False) sp m st)"
  by (intro stepsI) (erule live.compute_frame[THEN rate_stored])

lemma sync_row_kept: "steps R (sync_row T s (fx_rate_now T s False) A dry now row u)"
proof -
  obtain m sp st where row: "row = (m, sp, st)" by (cases row)
  show ?thesis
    unfolding sync_row_def row prod.case desired_offer_def
    by (intro each.intros offer_row_kept each.sync_one_kept compute_kept)
qed

lemma whole_run_kept: "steps R (run_offers T s (fx_rate_now T s False) A limit dry)"
proof -
  have "steps R (\<lambda>ws d. (Inr (snd ws), ws, d))"
    using whole by (auto simp: steps_def preorder_on_db_def reflp_def)
  then show ?thesis
    unfolding run_offers_def by (intro each.intros steps_with_run run_logged sync_row_kept)
qed

lemma reconcile_kept: "steps R (reconcile_jobs A n)"
  unfolding reconcile_jobs_def by (intro each.intros each.reconcile_row_kept[OF refl])

end

interpretation frame: run_relation run_frame
proof
  show "preorder_on_db run_frame" by (rule run_frame_preorder)
  show "run_frame d (put_offer i f d)" if "keeps_identity f" for d i f
    using that by (auto simp: run_frame_def put_offer_def identity_map simp del: map_map)
  show "run_frame d d'" if "d' = d\<lparr>fx_rates := fx_rates d'\<rparr>" for d d'
    using that by (cases d; cases d') (simp add: run_frame_def)
qed (auto simp: run_frame_def budget_record_def new_offer_def ignores_runs_def)

lemma frame_run: "steps run_frame (run_offers R s (fx_rate_now R s False) A limit dry)"
  by (rule frame.whole_run_kept)

text \<open>
  A run never deletes an offer or changes which mapping and product it belongs to, never
  rewrites the log of price changes, and touches neither catalogue nor mappings: out of stock
  or failing offers stay, whether the run completes or raises.
\<close>
theorem run_never_deletes:
  assumes "run_offers R s (fx_rate_now R s False) A limit dry w d = (x, w', d')"
  shows "prefix (map offer_identity (store_offers d)) (map offer_identity (store_offers d'))
    \<and> prefix (price_changes d) (price_changes d')
    \<and> product_mappings d' = product_mappings d \<and> supplier_products d' = supplier_products d
    \<and> store_products d' = store_products d \<and> idempotency_keys d' = idempotency_keys d"
proof -
  from frame_run assms have "run_frame d d'" by (rule stepsD)
  then show ?thesis unfolding run_frame_def by (metis (no_types) database.select_convs(2-4,10)
      database.surjective database.update_convs(5,6,11,13))
qed

theorem run_never_deletes_witness:
  "\<exists>x w' d'. run_offers still_clock default_settings (fx_rate_now still_clock default_settings False)
      (sample_adapter (Inr done_job)) None False () (offer_db []) = (x, w', d')
    \<and> prefix [offer_identity (sample_offer (Some (lit ''o1'')))] (map offer_identity (store_offers d'))"
proof -
  obtain x w' d' where r: "run_offers still_clock default_settings
      (fx_rate_now still_clock default_settings False) (sample_adapter (Inr done_job)) None False ()
      (offer_db []) = (x, w', d')" by (metis prod.collapse)
  from run_never_deletes[OF r] r show ?thesis by (simp add: offer_db_def)
qed

section \<open>A creation in flight\<close>

text \<open>
  An offer whose creation is still in flight is never created again: while its job is
  unfinished, or cannot be looked up, the push makes no call but that lookup, changes nothing
  and reports the offer as awaiting its job.
\<close>
theorem no_second_create:
  assumes "offer_at i d = Some r" "so_offer_ext_id r = None" "so_pending_job_id r = Some j" "j \<noteq> []"
    and "\<not> agreed r de"
    and "ad_get_job A j w = (answer, w')"
    and "case answer of Inl e \<Rightarrow> is_api_error e | Inr job \<Rightarrow> \<not> job_is_finished job"
  shows "sync_one R s A i de False now w d = (Inr AwaitingJob, w', d)"
proof -
  have "resolve_offer_id A i w d = (Inr False, w', d)"
    using assms(1,3,4,6,7)
    by (cases answer) (simp_all add: resolve_offer_id_def get_offer_def wbind_def wtry_def wcall_def
        wret_def)
  then have "push_offer R s A i de now pc sc ac w d = (Inr AwaitingJob, w', d)" for pc sc ac
    using assms(1-4) by (simp add: push_offer_def get_offer_def wbind_def wret_def)
  with assms(1,5) show ?thesis
    by (auto simp: sync_one_def agreed_def get_offer_def wbind_def wtry_def)
qed

definition pending_db :: database where
  "pending_db = empty_database\<lparr>store_offers :=
     [(sample_offer None)\<lparr>so_pending_job_id := Some (lit ''j1'')\<rparr>]\<rparr>"

theorem no_second_create_witness:
  "sync_one still_clock default_settings (sample_adapter (Inl limited_error)) 1 wanted False 0 ()
     pending_db = (Inr AwaitingJob, (), pending_db)"
  by (rule no_second_create[where r = "(sample_offer None)\<lparr>so_pending_job_id := Some (lit ''j1'')\<rparr>"
        and j = "lit ''j1''" and answer = "Inl limited_error"])
    (simp_all add: pending_db_def offer_at_def find_row_def sample_offer_def wanted_def
      changed_defs sample_adapter_def limited_error_def)

section \<open>The store agrees with the database\<close>

text \<open>
  \<open>patches A view\<close> is what the store documents of an update: the offer named by the id gets the
  fields that were sent and keeps the others, and no other offer changes. \<open>view\<close> is the store's
  side: price, inventory and activity by offer id.
\<close>

type_synonym remote_offer = "rat \<times> int \<times> bool"

definition patched :: "rat option \<Rightarrow> int option \<Rightarrow> bool option \<Rightarrow> remote_offer \<Rightarrow> remote_offer" where
  "patched p n b v = (case v of (p0, n0, b0) \<Rightarrow>
     ((case p of None \<Rightarrow> p0 | Some x \<Rightarrow> x), (case n of None \<Rightarrow> n0 | Some x \<Rightarrow> x),
      (case b of None \<Rightarrow> b0 | Some x \<Rightarrow> x)))"

definition patches :: "'w store_adapter \<Rightarrow> ('w \<Rightarrow> ustr \<Rightarrow> remote_offer option) \<Rightarrow> bool" where
  "patches A view \<longleftrightarrow>
     (\<forall>ext p n b w job w'. ad_update_offer A ext p n b w = (Inr job, w') \<longrightarrow>
        view w' = (view w)(ext := map_option (patched p n b) (view w ext)))"

text \<open>The row remembers the store's offer, in the fields it has pushed.\<close>

definition mirrors :: "store_offer \<Rightarrow> remote_offer \<Rightarrow> bool" where
  "mirrors r v \<longleftrightarrow> (case v of (p, n, b) \<Rightarrow>
     so_pushed_price r \<in> {None, Some p} \<and> so_pushed_inventory r \<in> {None, Some n}
     \<and> so_pushed_active r \<in> {None, Some b})"

lemma send_update_world:
  assumes "offer_at i d = Some r" "send_update R A i de now pc sc ac send w d = (Inr a, w', d')"
  shows "\<exists>job. ad_update_offer A (the (so_offer_ext_id r)) (if send then Some (de_price de) else None)
      (if sc then Some (de_inventory de) else None) (if ac then Some (de_active de) else None) w
      = (Inr job, w') \<and> a = (if pc \<and> \<not> send then DeferredPriceBudget else Updated)"
proof -
  obtain y w1 where call: "ad_update_offer A (the (so_offer_ext_id r))
      (if send then Some (de_price de) else None) (if sc then Some (de_inventory de) else None)
      (if ac then Some (de_active de) else None) w = (y, w1)" by fastforce
  have rec: "wp (record_change R A i p q) (\<lambda>x w' d'. w' = w) w d" for p q w d
    unfolding record_change_def by (simp add: wp_simps split: option.split cong: sum.case_cong)
  have "wp (send_update R A i de now pc sc ac send) (\<lambda>x w' d'. \<forall>a. x = Inr a \<longrightarrow>
      (\<exists>job. y = Inr job) \<and> w' = w1 \<and> a = (if pc \<and> \<not> send then DeferredPriceBudget else Updated)) w d"
  proof (cases y)
    case (Inl e)
    with assms(1) call show ?thesis by (simp add: send_update_def wp_simps)
  next
    case (Inr job)
    have "wp (record_change R A i p q) (\<lambda>x w d. case x of Inl e \<Rightarrow> True | Inr u \<Rightarrow> w = w1) w1 d" for p q d
      by (rule wp_mono[OF rec]) (auto split: sum.split)
    with assms(1) call Inr show ?thesis
      by (cases send) (simp_all add: send_update_def wp_simps remember_def cong: sum.case_cong)
  qed
  from wpD[OF this assms(2)] call show ?thesis by auto
qed


definition map_store :: "(ustr \<Rightarrow> remote_offer option) store_adapter" where
  "map_store =
     \<lparr>ad_code = lit ''g2a'', ad_iter_catalog = (\<lambda>a b w. (([], None), w)),
      ad_list_offers = (\<lambda>w. (([], None), w)), ad_offers_for_product = (\<lambda>p w. (Inr [], w)),
      ad_create_offer = (\<lambda>p x n b w. (Inr done_job, w)),
      ad_update_offer = (\<lambda>e p n b w. (Inr done_job, w(e := map_option (patched p n b) (w e)))),
      ad_get_job = (\<lambda>j w. (Inr done_job, w))\<rparr>"

definition remote_start :: "ustr \<Rightarrow> remote_offer option" where
  "remote_start = (\<lambda>e. if e = lit ''o1'' then Some (5, 3, True) else None)"

lemma map_store_run:
  "fst (sync_one still_clock default_settings map_store 1 wanted False 0 remote_start (offer_db []))
    = Inr Updated"
  by code_simp


section \<open>Failures and asynchronous jobs\<close>

text \<open>
  A failed update is counted: when the store refuses an update for any reason but rate
  limiting, the row's count of failures goes up by one and the offer is marked failed from the
  fifth on, the error is kept to 2000 characters, and what was last pushed is remembered.
\<close>
theorem failures_are_counted:
  assumes "offer_at i d = Some r" "so_offer_ext_id r \<noteq> None"
    and "sync_one R s A i de dry now w d = (Inr Errors, w', d')"
  shows "\<exists>r' m. offer_at i d' = Some r' \<and> so_last_error r' = Some m \<and> length m \<le> 2000
    \<and> so_consecutive_failures r' = so_consecutive_failures r + 1
    \<and> so_state r' = (if 4 \<le> so_consecutive_failures r then FAILED else so_state r)
    \<and> so_pushed_price r' = so_pushed_price r \<and> so_pushed_inventory r' = so_pushed_inventory r
    \<and> so_pushed_active r' = so_pushed_active r"
proof -
  have n: "\<not> agreed r de"
    using assms(3) sync_one_agreed[OF assms(1), of de R s A dry now w] by auto
  have "\<not> dry"
    using assms(1,3) n by (auto simp: sync_one_def agreed_def get_offer_def wbind_def wret_def
        split: if_splits)
  from assms(3,1,2) n this show ?thesis
  proof (cases rule: sync_one_existing)
    case succeeded
    have "changed_by_price r de \<or> changed_by_stock r de \<or> changed_by_active r de"
      using n by (simp add: agreed_def)
    from wpD[OF update_offer_row_wp[OF assms(1) refl refl this] succeeded(1)] show ?thesis
      by (auto simp: update_post_def)
  next
    case (failed e r1 d1)
    then have "\<not> is_rate_limited e" by (auto split: if_splits)
    with failed show ?thesis by (simp add: failed_row_def kept_def)
  qed
qed

definition refused_error :: exn where
  "refused_error = ApiErr PlainApiError (lit ''g2a'') (Some 400) (lit ''bad price'') False"

lemma refused_run:
  "fst (sync_one still_clock default_settings (sample_adapter (Inl refused_error)) 1 wanted False 0 ()
     (offer_db [])) = Inr Errors"
  by code_simp

theorem failures_are_counted_witness:
  "\<exists>d' r'. sample_sync (Inl refused_error) [] = (Inr Errors, (), d') \<and> offer_at 1 d' = Some r'
    \<and> so_consecutive_failures r' = 1 \<and> so_state r' = LIVE"
proof -
  obtain d' where d': "sample_sync (Inl refused_error) [] = (Inr Errors, (), d')"
    using sample_run[OF refused_run] by blast
  have "so_offer_ext_id (sample_offer (Some (lit ''o1''))) \<noteq> None" by (simp add: sample_offer_def)
  from failures_are_counted[OF sample_offer_at this d'] d' show ?thesis
    by (auto simp: sample_offer_def)
qed

text \<open>
  Reconciling a job settles the offer: an unfinished or unreadable job changes nothing; a
  completed one clears the pending job and the error, keeps what was pushed, and supplies the
  offer id only if it was missing; a rejected one marks the offer failed and forgets the push,
  so that the next run pushes it again whatever is wanted.
\<close>
theorem reconcile_settles_offer:
  assumes "offer_at (so_id r) d = Some r" "so_pending_job_id r = Some j"
    and "ad_get_job A j w = (answer, w')" "\<And>e. answer = Inl e \<Longrightarrow> is_api_error e"
  shows "\<exists>st' d' r'. reconcile_row A r st w d = (Inr st', w', d') \<and> offer_at (so_id r) d' = Some r'
    \<and> stat st' ''checked'' = stat st ''checked'' + 1
    \<and> (case answer of
         Inl e \<Rightarrow> d' = d
       | Inr job \<Rightarrow>
           if \<not> job_is_finished job then d' = d
           else if job_succeeded job
           then so_pending_job_id r' = None \<and> so_last_error r' = None
              \<and> so_offer_ext_id r' = (if truthy (so_offer_ext_id r) \<or> \<not> truthy (jr_resource_id job)
                                    then so_offer_ext_id r else jr_resource_id job)
              \<and> so_pushed_price r' = so_pushed_price r \<and> so_state r' = so_state r
           else so_pending_job_id r' = None \<and> so_state r' = FAILED
              \<and> so_consecutive_failures r' = so_consecutive_failures r + 1
              \<and> (\<forall>de. \<not> agreed r' de))"
proof (cases answer)
  case (Inl e)
  with assms show ?thesis
    by (simp add: reconcile_row_def wbind_def wtry_def wcall_def wret_def Let_def)
next
  case (Inr job)
  have forgot: "\<not> agreed (rejected_offer job x) de" for x de
    by (simp add: rejected_offer_def forget_push_def changed_defs)
  have fields: "so_pending_job_id (rejected_offer job x) = so_pending_job_id x"
    "so_state (rejected_offer job x) = FAILED"
    "so_consecutive_failures (rejected_offer job x) = so_consecutive_failures x" for x
    by (simp_all add: rejected_offer_def forget_push_def)
  from Inr assms show ?thesis
    by (auto simp: reconcile_row_def wbind_def wthen_def wtry_def wcall_def wret_def Let_def
        set_offer_def wmodify_def forgot fields)
qed

definition failed_job :: job_result where
  "failed_job = done_job\<lparr>jr_status := lit ''failed'', jr_errors := [lit ''price out of range'']\<rparr>"

definition waiting_offer :: store_offer where
  "waiting_offer = (sample_offer None)\<lparr>so_pending_job_id := Some (lit ''j1'')\<rparr>"

theorem reconcile_settles_offer_witness:
  "\<exists>st' d' r'. reconcile_row (sample_adapter (Inr failed_job)) waiting_offer [] () pending_db
      = (Inr st', (), d') \<and> offer_at 1 d' = Some r' \<and> so_state r' = FAILED"
proof -
  have r: "offer_at (so_id waiting_offer) pending_db = Some waiting_offer"
    and j: "so_pending_job_id waiting_offer = Some (lit ''j1'')"
    by (simp_all add: waiting_offer_def pending_db_def offer_at_def find_row_def sample_offer_def)
  have g: "ad_get_job (sample_adapter (Inr failed_job)) (lit ''j1'') () = (Inr failed_job, ())"
    by (simp add: sample_adapter_def)
  have "job_is_finished failed_job" "\<not> job_succeeded failed_job"
    by (simp_all add: job_defs failed_job_def done_job_def)
  with reconcile_settles_offer[OF r j g, of "[]"] show ?thesis
    by (auto simp: waiting_offer_def sample_offer_def)
qed

section \<open>Counting a run\<close>

definition all_actions :: "action list" where
  "all_actions = [SkippedUnchanged, WouldCreate, WouldUpdate, AwaitingJob, Created, Updated,
     DeferredPriceBudget, DeferredRateLimited, Errors]"

definition actions_total :: "stats \<Rightarrow> int" where
  "actions_total st = sum_list (map (\<lambda>a. stat st (action_name a)) all_actions)"

lemma actions_total_add:
  "actions_total (stat_add (action_name a) 1 st) = actions_total st + 1"
  "actions_total (stat_add ''examined'' 1 st) = actions_total st"
  by (cases a; simp add: actions_total_def all_actions_def)+

lemma sync_row_counts:
  assumes "sync_row R s fx A dry now row u ws d = (Inr v, ws', d')"
  shows "\<exists>a. snd ws' = stat_add (action_name a) 1 (stat_add ''examined'' 1 (snd ws))"
proof -
  have "wp (sync_row R s fx A dry now row u) (\<lambda>x ws' d'. x = Inr v \<longrightarrow>
     (\<exists>a. snd ws' = stat_add (action_name a) 1 (stat_add ''examined'' 1 (snd ws)))) ws d"
    by (cases row) (auto simp: sync_row_def wp_simps intro!: wpI split: sum.split)
  from wpD[OF this assms] show ?thesis by simp
qed

lemma sync_rows_count:
  "wfold (sync_row R s fx A dry now) rows u ws d = (Inr v, ws', d') \<Longrightarrow>
    stat (snd ws') ''examined'' = stat (snd ws) ''examined'' + int (length rows)
    \<and> actions_total (snd ws') = actions_total (snd ws) + int (length rows)"
proof (induction rows arbitrary: u ws d)
  case (Cons row rows)
  from Cons.prems obtain v1 ws1 d1 where
    1: "sync_row R s fx A dry now row u ws d = (Inr v1, ws1, d1)"
    "wfold (sync_row R s fx A dry now) rows v1 ws1 d1 = (Inr v, ws', d')"
    by (auto simp: wbind_def split: prod.splits sum.splits)
  from sync_row_counts[OF 1(1)] obtain a where
    "snd ws1 = stat_add (action_name a) 1 (stat_add ''examined'' 1 (snd ws))" by blast
  moreover have "action_name a \<noteq> ''examined''" by (cases a) auto
  ultimately show ?case using Cons.IH[OF 1(2)] by (simp add: actions_total_add)
qed (simp add: wret_def)

text \<open>
  A completed run accounts for every mapping it selected: it counts each as examined once
  and under exactly one action, so the counters of the actions add up to the number of mappings
  of this store that are approved or automatic, enabled and backed by an active product.
\<close>
theorem run_accounts_for_every_offer:
  assumes "run_offers R s fx A limit dry w d = (Inr st, w', d')"
  shows "stat st ''examined'' = int (length (syncable (ad_code A) limit d))
    \<and> actions_total st = int (length (syncable (ad_code A) limit d))"
proof -
  let ?kind = "lit ''offers:'' @ ad_code A" and ?now = "utcnow R w"
  let ?row = "sync_row R s fx A dry ?now"
  let ?body = "wbind (wread (syncable (ad_code A) limit)) (\<lambda>rows. wthen (wfold ?row rows ())
      (wthen wflush (\<lambda>ws d. (Inr (snd ws), ws, d))))"
  from assms have "with_run R ?kind ?body w d = (Inr st, w', d')"
    by (simp add: run_offers_def wbind_def wtime_def)
  from with_run_success[OF this] obtain st' d2 where
    "?body (w, []) (opened R ?kind w d) = (Inr st, (w', st'), d2)" by blast
  moreover have "syncable (ad_code A) limit (opened R ?kind w d) = syncable (ad_code A) limit d"
  proof -
    have "product_mappings (opened R ?kind w d) = product_mappings d"
      "supplier_products (opened R ?kind w d) = supplier_products d"
      "store_products (opened R ?kind w d) = store_products d" by (simp_all add: opened_def)
    then show ?thesis unfolding syncable_def by (simp only:)
  qed
  ultimately have body: "wthen (wfold ?row (syncable (ad_code A) limit d) ())
      (wthen wflush (\<lambda>ws d. (Inr (snd ws), ws, d))) (w, []) (opened R ?kind w d)
      = (Inr st, (w', st'), d2)"
    by (simp add: wbind_def[of "wread _"] wread_def)
  obtain x ws d1 where f: "wfold ?row (syncable (ad_code A) limit d) () (w, []) (opened R ?kind w d)
      = (x, ws, d1)" by (metis prod.collapse)
  have "\<exists>v. x = Inr v" "snd ws = st"
    using body f by (cases x; cases "database_ok d1"; simp add: wthen_def wbind_def wflush_def flush_def)+
  then obtain v where "wfold ?row (syncable (ad_code A) limit d) () (w, []) (opened R ?kind w d)
      = (Inr v, ws, d1)" "snd ws = st" using f by blast
  with sync_rows_count[OF this(1)] show ?thesis
    by (simp add: actions_total_def all_actions_def)
qed

lemma empty_run: "fst (run_offers still_clock default_settings (wret 1) (sample_adapter (Inr done_job))
   None False () (offer_db [])) = Inr []"
  by code_simp

theorem run_accounts_for_every_offer_witness:
  "\<exists>st w' d'. run_offers still_clock default_settings (wret 1) (sample_adapter (Inr done_job))
      None False () (offer_db []) = (Inr st, w', d') \<and> stat st ''examined'' = 0"
proof -
  obtain w' d' where r: "run_offers still_clock default_settings (wret 1)
      (sample_adapter (Inr done_job)) None False () (offer_db []) = (Inr [], w', d')"
    using empty_run by (metis prod.collapse)
  from run_accounts_for_every_offer[OF r] r show ?thesis
    by (auto simp: syncable_def offer_db_def empty_database_def)
qed

end
