(* ===== verification/Store_Wire.thy ===== *)
theory Store_Wire
  imports G2a_Safety Offer_Run
begin

text \<open>
  The offer synchronisation over the real adapter: what pushing offers puts on the wire when the
  store of \<open>Offer_Sync\<close> is the adapter of \<open>G2a\<close>, down to the requests of \<open>Http_Client\<close>. A counter
  of the world bounds what a unit of work adds to it; the locale states what the synchronisation
  needs of a store to create each offer once, and the adapter provides it.
\<close>

section \<open>What a unit of work adds to a counter of the world\<close>

named_theorems cost_intros \<open>what a statement adds to a counter\<close>

definition costs :: "('w \<Rightarrow> nat) \<Rightarrow> nat \<Rightarrow> ('w, 'a) work \<Rightarrow> bool" where
  "costs f n m \<longleftrightarrow> (\<forall>w d. f (fst (snd (m w d))) \<le> f w + n)"

lemma costsD: "costs f n m \<Longrightarrow> m w d = (x, w', d') \<Longrightarrow> f w' \<le> f w + n"
  unfolding costs_def by (metis fst_conv snd_conv)

lemma costsI: "(\<And>w d x w' d'. m w d = (x, w', d') \<Longrightarrow> f w' \<le> f w + n) \<Longrightarrow> costs f n m"
  unfolding costs_def by (metis prod.collapse)

lemma costs_pure [cost_intros]:
  "costs f n (wret x)" "costs f n (wraise e)" "costs f n (wread g)" "costs f n (wmodify h)"
  "costs f n wflush" "costs f n (wtime c)" "costs f n (wlift r)" "costs f n (get_offer i)"
  "costs f n (set_offer i h')"
  by (auto simp: costs_def wret_def wraise_def wread_def wmodify_def wflush_def wtime_def wlift_def
      get_offer_def set_offer_def split: sum.split option.split)

lemma costs_call:
  "(\<And>w. f (snd (c w)) \<le> f w + n) \<Longrightarrow> costs f n (wcall c)"
  by (auto simp: costs_def wcall_def split: prod.split) (metis snd_conv)

lemma costs_bind:
  assumes "costs f a m" "\<And>x. costs f b (g x)"
  shows "costs f (a + b) (wbind m g)"
proof (rule costsI)
  fix w d x w' d'
  assume r: "wbind m g w d = (x, w', d')"
  obtain y w1 d1 where m: "m w d = (y, w1, d1)" by (metis prod.collapse)
  note 1 = costsD[OF assms(1) m]
  show "f w' \<le> f w + (a + b)"
  proof (cases y)
    case (Inl e)
    with r m 1 show ?thesis by (simp add: wbind_def)
  next
    case (Inr v)
    with r m have "g v w1 d1 = (x, w', d')" by (simp add: wbind_def)
    with costsD[OF assms(2) this] 1 show ?thesis by simp
  qed
qed

lemma costs_try:
  assumes "costs f a m" "\<And>e. costs f b (h e)"
  shows "costs f (a + b) (wtry m c h)"
proof (rule costsI)
  fix w d x w' d'
  assume r: "wtry m c h w d = (x, w', d')"
  obtain y w1 d1 where m: "m w d = (y, w1, d1)" by (metis prod.collapse)
  note 1 = costsD[OF assms(1) m]
  show "f w' \<le> f w + (a + b)"
  proof (cases "\<exists>e. y = Inl e \<and> c e")
    case True
    then obtain e where "y = Inl e" "c e" by blast
    with r m have "h e w1 d1 = (x, w', d')" by (simp add: wtry_def)
    with costsD[OF assms(2) this] 1 show ?thesis by simp
  next
    case False
    with r m 1 show ?thesis by (cases y) (simp_all add: wtry_def)
  qed
qed

text \<open>The forms the rules are used in: the cost is in the first statement or in the rest.\<close>

lemmas costs_bind_rest [cost_intros] = costs_bind[where a = 0, simplified]
lemmas costs_bind_first = costs_bind[where b = 0, simplified]
lemmas costs_try_rest [cost_intros] = costs_try[where a = 0, simplified]
lemmas costs_try_first = costs_try[where b = 0, simplified]

lemma costs_then [cost_intros]: "costs f 0 m \<Longrightarrow> costs f n k \<Longrightarrow> costs f n (wthen m k)"
  unfolding wthen_def by (rule costs_bind_rest)

lemma costs_if [cost_intros]:
  "(b \<Longrightarrow> costs f n m) \<Longrightarrow> (\<not> b \<Longrightarrow> costs f n k) \<Longrightarrow> costs f n (if b then m else k)"
  by simp

lemma costs_option [cost_intros]:
  "costs f n m \<Longrightarrow> (\<And>x. costs f n (g x)) \<Longrightarrow> costs f n (case v of None \<Rightarrow> m | Some x \<Rightarrow> g x)"
  by (cases v) auto

lemma costs_sum [cost_intros]:
  "(\<And>x. costs f n (g x)) \<Longrightarrow> (\<And>x. costs f n (h x)) \<Longrightarrow>
     costs f n (case v of Inl x \<Rightarrow> g x | Inr x \<Rightarrow> h x)"
  by (cases v) auto

lemma costs_list [cost_intros]:
  "costs f n m \<Longrightarrow> (\<And>x xs. costs f n (g x xs)) \<Longrightarrow> costs f n (case v of [] \<Rightarrow> m | x # xs \<Rightarrow> g x xs)"
  by (cases v) auto

lemma costs_mono: "costs f a m \<Longrightarrow> a \<le> b \<Longrightarrow> costs f b m"
  unfolding costs_def by (meson add_left_mono order_trans)

lemma costs_fold: "(\<And>x s. costs f n (g x s)) \<Longrightarrow> costs f (n * length xs) (wfold g xs s)"
proof (induction xs arbitrary: s)
  case (Cons x xs)
  have "costs f (n + n * length xs) (wbind (g x s) (wfold g xs))"
    using Cons by (intro costs_bind) auto
  then show ?case by simp
qed (simp add: costs_pure)

lemma costs_bump [cost_intros]: "costs (f \<circ> fst) n (bump k i)"
  by (simp add: costs_def bump_def)

lemma costs_in_run [cost_intros]: "costs f n m \<Longrightarrow> costs (f \<circ> fst) n (in_run m)"
  by (auto simp: costs_def in_run_def split: prod.split) (metis fst_conv snd_conv)

lemma costs_with_run:
  fixes body :: "('w, 'a) counted"
  assumes "costs (f \<circ> fst) n body"
  shows "costs f n (with_run R kind body)"
proof -
  have o: "costs f 0 (open_run R kind)" unfolding open_run_def by (intro cost_intros)
  have c: "costs f 0 (wthen (close_run R i st e) (wlift r))" for i st e and r :: "'a result"
  proof (rule costs_then)
    show "costs f 0 (close_run R i st e)"
      by (auto simp: costs_def close_run_def wthen_def wbind_def wmodify_def wflush_def split: sum.split)
  qed (rule costs_pure)
  have "costs f n (\<lambda>w d. case body (w, []) d of (r, ws, d') \<Rightarrow>
      wthen (close_run R i (snd ws) (case r of Inl e \<Rightarrow> Some e | Inr _ \<Rightarrow> None)) (wlift r) (fst ws) d')" for i
  proof (rule costsI)
    fix w d x w' d'
    assume a: "(case body (w, []) d of (r, ws, d') \<Rightarrow>
      wthen (close_run R i (snd ws) (case r of Inl e \<Rightarrow> Some e | Inr _ \<Rightarrow> None)) (wlift r) (fst ws) d')
      = (x, w', d')"
    obtain r ws d1 where b: "body (w, []) d = (r, ws, d1)" by (metis prod.collapse)
    from a b have "wthen (close_run R i (snd ws) (case r of Inl e \<Rightarrow> Some e | Inr _ \<Rightarrow> None))
      (wlift r) (fst ws) d1 = (x, w', d')" by simp
    from costsD[OF c this] costsD[OF assms b] show "f w' \<le> f w + n" by simp
  qed
  then show ?thesis unfolding with_run_def by (rule costs_bind_rest[OF o])
qed

section \<open>What the synchronisation needs of a store\<close>

locale create_counter =
  fixes posts :: "'w \<Rightarrow> nat" and A :: "'w store_adapter"
  assumes create_once: "posts (snd (ad_create_offer A p price n b w)) \<le> posts w + 1"
    and job_quiet: "posts (snd (ad_get_job A j w)) \<le> posts w"
    and lookup_quiet: "posts (snd (ad_offers_for_product A p w)) \<le> posts w"
    and update_quiet: "posts (snd (ad_update_offer A ext pr k ac w)) \<le> posts w"
begin

lemma costs_calls [cost_intros]:
  "costs posts 0 (wcall (ad_get_job A j))" "costs posts 0 (wcall (ad_offers_for_product A p))"
  "costs posts 0 (wcall (ad_update_offer A ext pr k ac))"
  by (auto intro!: costs_call simp: job_quiet lookup_quiet update_quiet)

lemma costs_resolve [cost_intros]:
  "costs posts 0 (resolve_remote A i)" "costs posts 0 (resolve_offer_id A i)"
proof -
  show r: "costs posts 0 (resolve_remote A i)" for i
    unfolding resolve_remote_def by (intro cost_intros)
  show "costs posts 0 (resolve_offer_id A i)"
    unfolding resolve_offer_id_def by (intro cost_intros r)
qed

lemma costs_update [cost_intros]: "costs posts 0 (update_offer_row R s A i de now pc sc ac)"
  unfolding update_offer_row_def send_update_def remember_def record_change_def
  by (intro cost_intros)

lemma costs_create: "costs posts 1 (create_offer_row R s A i de now)"
proof -
  have f: "costs posts 0 (finish_create R A i de now)"
    unfolding finish_create_def remember_def record_change_def by (intro cost_intros)
  have j: "costs posts 0 (created_job R A i de now job)" for job
    unfolding created_job_def by (intro cost_intros f)
  have a: "costs posts 0 (adopt_conflict R s A i de now e)" for e
    unfolding adopt_conflict_def by (intro cost_intros)
  have c: "costs posts 1 (wcall (ad_create_offer A p pr n b))" for p pr n b
    by (rule costs_call) (rule create_once)
  show ?thesis
    unfolding create_offer_row_def
    by (rule costs_bind_rest[OF costs_pure(8)], rule costs_bind_first, rule costs_try_first,
        rule costs_bind_first[OF c]) (auto split: sum.split intro!: cost_intros a j)
qed

lemma costs_push: "costs posts 1 (push_offer R s A i de now pc sc ac)"
proof -
  have u: "costs posts 1 (update_offer_row R s A i de now pc sc ac)"
    by (rule costs_mono[OF costs_update]) simp
  show ?thesis unfolding push_offer_def by (intro cost_intros costs_create u)
qed

lemma costs_sync_one: "costs posts 1 (sync_one R s A i de dry now)"
proof -
  have f: "costs posts 0 (sync_failed i e)" for e
    unfolding sync_failed_def Let_def by (intro cost_intros)
  show ?thesis
    unfolding sync_one_def
    by (intro cost_intros costs_try_first[OF costs_push f])
qed

lemma costs_row:
  assumes "costs posts 0 fx"
  shows "costs (posts \<circ> fst) 1 (sync_row R s fx A dry now row u)"
proof -
  obtain m sp st where row: "row = (m, sp, st)" by (cases row)
  have c: "costs posts 0 (desired_offer s fx m sp st)"
  proof -
    have "costs posts 0 (compute s fx sp (Some m) (Some st))"
      using assms unfolding costs_def compute_def
      by (auto split: option.split prod.split sum.split) (metis fst_conv snd_conv)+
    then show ?thesis unfolding desired_offer_def by (intro cost_intros)
  qed
  have o: "costs posts 0 (offer_row (ad_code A) m st)"
    unfolding offer_row_def by (intro cost_intros)
  show ?thesis
    unfolding sync_row_def row prod.case
    by (intro cost_intros c o costs_bind_first[OF costs_in_run[OF costs_sync_one]])
qed

lemma costs_run:
  assumes "costs posts 0 fx" "0 < n"
  shows "costs posts n (run_offers R s fx A (Some n) dry)"
proof -
  have rows: "length (syncable store (Some n) d) \<le> n" for store d
    using assms(2) by (simp add: syncable_def Let_def)
  have "costs (posts \<circ> fst) n (\<lambda>ws d. wthen (wfold (sync_row R s fx A dry now) (syncable store (Some n) d) ())
      (wthen wflush (\<lambda>ws d. (Inr (snd ws), ws, d))) ws d)" for store now
  proof (rule costsI)
    fix ws d x ws' d'
    let ?rows = "syncable store (Some n) d"
    assume r: "wthen (wfold (sync_row R s fx A dry now) ?rows ())
      (wthen wflush (\<lambda>ws d. (Inr (snd ws), ws, d))) ws d = (x, ws', d')"
    have "costs (posts \<circ> fst) (1 * length ?rows) (wfold (sync_row R s fx A dry now) ?rows ())"
      by (intro costs_fold costs_row assms(1))
    then have "costs (posts \<circ> fst) (length ?rows) (wthen (wfold (sync_row R s fx A dry now) ?rows ())
      (wthen wflush (\<lambda>ws d. (Inr (snd ws), ws, d))))"
      unfolding wthen_def
      by (intro costs_bind_first costs_bind_rest costs_pure) (auto simp: costs_def)
    from costsD[OF this r] rows[of store d]
    show "(posts \<circ> fst) ws' \<le> (posts \<circ> fst) ws + n" by simp
  qed
  then have "costs (posts \<circ> fst) n (wbind (wread (syncable store (Some n))) (\<lambda>rows.
      wthen (wfold (sync_row R s fx A dry now) rows ()) (wthen wflush (\<lambda>ws d. (Inr (snd ws), ws, d)))))"
    for store now
    by (simp add: costs_def wbind_def wread_def)
  then show ?thesis
    unfolding run_offers_def by (intro costs_bind_rest[OF costs_pure(6)] costs_with_run)
qed

end

section \<open>The adapter provides it\<close>

definition creations :: "sent list \<Rightarrow> nat" where
  "creations ss = length (filter (\<lambda>s. sn_method s = lit ''POST'' \<and> sn_path s = lit ''/v1/offers'') ss)"

lemma creations_append: "creations (ss @ ts) = creations ss + creations ts"
  by (simp add: creations_def)

lemma creations_of_others:
  "\<forall>s \<in> set ss. sn_method s = m \<Longrightarrow> m \<noteq> lit ''POST'' \<Longrightarrow> creations ss = 0"
  by (auto simp: creations_def filter_empty_conv)

lemma creations_le: "creations ss \<le> length ss"
  by (simp add: creations_def)

text \<open>What is assumed of the world the client lives in.\<close>

definition wired ::
  "('w \<Rightarrow> sent list) \<Rightarrow> ('w \<Rightarrow> api_call_record list) \<Rightarrow> 'w token_endpoint \<Rightarrow> 'w client \<Rightarrow> bool" where
  "wired tr lg E base \<longleftrightarrow>
     observed tr lg base \<and> unseen_tokens tr lg E \<and> ascii_laws (cl_unicode base)"

lemma upper_verbs:
  assumes "ascii_laws U"
  shows "upper U (lit ''GET'') = lit ''GET''" "upper U (lit ''POST'') = lit ''POST''"
    "upper U (lit ''PATCH'') = lit ''PATCH''"
  using assms by (simp_all add: ascii_laws_def ascii_def lit_def) (simp_all add: ascii_db_def)

lemma get_is_quiet:
  assumes "wired tr lg E base" "C = g2a_client S repr E base"
  shows "creations (tr (fst (snd (adapter_get C path params x)))) = creations (tr (fst x))"
proof -
  let ?rq = "plain_request\<lparr>rq_params := params\<rparr>"
  obtain y x' where r: "api_request C (lit ''GET'') path ?rq x = (y, x')" by (metis prod.collapse)
  have obs: "observed (tr \<circ> fst) (lg \<circ> fst) C"
    using g2a_observed[of tr lg base E S repr] assms by (simp add: wired_def)
  have up: "upper (cl_unicode C) (lit ''GET'') = lit ''GET''"
    using upper_verbs assms by (simp add: wired_def)
  obtain cid ss rs where "traffic (tr \<circ> fst) (lg \<circ> fst) C (lit ''GET'') path ?rq cid 0 x x' ss rs"
    by (rule request_traffic[OF obs r, unfolded up]) blast
  then have "tr (fst x') = tr (fst x) @ ss" "\<forall>s \<in> set ss. sn_method s = lit ''GET''"
    by (auto simp: traffic_def carries_def)
  moreover have "snd (adapter_get C path params x) = x'"
    using r by (auto simp: adapter_get_def api_get_def cbind_def clift_def split: sum.splits)
  ultimately show ?thesis using creations_of_others[of ss "lit ''GET''"]
    by (simp add: creations_append lit_def)
qed

lemma get_job_quiet:
  assumes "wired tr lg E base" "C = g2a_client S repr E base"
  shows "creations (tr (fst (snd (get_job C repr j x)))) = creations (tr (fst x))"
  using get_is_quiet[OF assms, of "lit ''/v1/jobs/'' @ j" "[]" x]
  by (auto simp: get_job_def cbind_def clift_def split: prod.splits sum.splits)

lemma lookup_quiet:
  assumes "wired tr lg E base" "C = g2a_client S repr E base"
  shows "creations (tr (fst (snd (offers_for_product C repr p x)))) = creations (tr (fst x))"
  using get_is_quiet[OF assms, of "lit ''/v1/products/'' @ p @ lit ''/offers''" "[]" x]
  by (auto simp: offers_for_product_def cbind_def ctry_def cret_def clift_def
      split: prod.splits sum.splits option.splits if_splits)

lemma write_creations:
  assumes "wired tr lg E base" "C = g2a_client S repr E base" "upper (cl_unicode base) meth = meth"
  shows "creations (tr (fst (snd (write_offer C meth path rq repr x))))
    \<le> creations (tr (fst x)) + (if meth = lit ''POST'' \<and> \<not> may_retry meth rq then 1
        else if meth = lit ''POST'' then nat (max 1 (retry_max_attempts S)) + 1 else 0)"
proof -
  have "observed tr lg base" "unseen_tokens tr lg E" using assms(1) by (simp_all add: wired_def)
  from write_offer_traffic[OF this assms(2,3) prod.collapse[symmetric]]
  obtain ss where ss: "tr (fst (snd (write_offer C meth path rq repr x))) = tr (fst x) @ ss"
    "length ss \<le> (if may_retry meth rq then nat (max 1 (retry_max_attempts S)) + 1 else 1)"
    "\<forall>s \<in> set ss. sn_method s = meth"
    unfolding at_most_def by blast
  show ?thesis
  proof (cases "meth = lit ''POST''")
    case True
    with ss(1,2) creations_le[of ss] show ?thesis by (auto simp: creations_append split: if_splits)
  next
    case False
    with ss creations_of_others[of ss meth] show ?thesis by (simp add: creations_append)
  qed
qed

definition wire_posts ::
  "('w \<Rightarrow> sent list) \<Rightarrow> ('w \<Rightarrow> api_call_record list) \<Rightarrow> 'w token_endpoint \<Rightarrow> 'w client
    \<Rightarrow> 'w \<times> token_state \<Rightarrow> nat" where
  "wire_posts tr lg E base x = (if wired tr lg E base then creations (tr (fst x)) else 0)"

interpretation wire: create_counter "wire_posts tr lg E base"
  "g2a_store (g2a_client S repr E base) repr parsers fmt" for tr lg E base S repr parsers fmt
proof
  fix p price n b and w :: "'a \<times> token_state"
  let ?C = "g2a_client S repr E base"
  have "\<not> may_retry (lit ''POST'') (plain_request\<lparr>rq_json := j, rq_expected := e\<rparr>)" for j e
    by (simp add: may_retry_def plain_request_def)
  then show "wire_posts tr lg E base (snd (ad_create_offer (g2a_store ?C repr parsers fmt) p price n b w))
      \<le> wire_posts tr lg E base w + 1"
    using write_creations[of tr lg E base ?C S repr "lit ''POST''" "lit ''/v1/offers''"
        "plain_request\<lparr>rq_json := Some (create_body p price n b (lit ''all'')),
                       rq_expected := [200, 201, 202]\<rparr>" w] upper_verbs(2)[of "cl_unicode base"]
    by (auto simp: wire_posts_def g2a_store_def create_offer_def wired_def)
next
  fix j and w :: "'a \<times> token_state"
  show "wire_posts tr lg E base (snd (ad_get_job (g2a_store (g2a_client S repr E base) repr parsers fmt) j w))
      \<le> wire_posts tr lg E base w"
    using get_job_quiet[of tr lg E base _ S repr] by (simp add: wire_posts_def g2a_store_def)
next
  fix p and w :: "'a \<times> token_state"
  show "wire_posts tr lg E base (snd (ad_offers_for_product
      (g2a_store (g2a_client S repr E base) repr parsers fmt) p w)) \<le> wire_posts tr lg E base w"
    using lookup_quiet[of tr lg E base _ S repr] by (simp add: wire_posts_def g2a_store_def)
next
  fix ext pr k ac and w :: "'a \<times> token_state"
  let ?C = "g2a_client S repr E base"
  show "wire_posts tr lg E base (snd (ad_update_offer (g2a_store ?C repr parsers fmt) ext pr k ac w))
      \<le> wire_posts tr lg E base w"
    using write_creations[of tr lg E base ?C S repr "lit ''PATCH''"] upper_verbs(3)[of "cl_unicode base"]
    by (auto simp: wire_posts_def g2a_store_def update_offer_def Let_def craise_def wired_def)
qed

section \<open>What a push and a run put on the wire\<close>

text \<open>
  C10: From the service down to the wire: pushing an offer asks the store for at most one creation,
  whatever the store, the token endpoint and the network answer, an adopted conflict and a job that is
  looked up included.
\<close>
theorem one_creation_per_push:
  assumes "wired tr lg E base" "A = g2a_store (g2a_client S repr E base) repr parsers fmt"
    and "sync_one R s A i de dry now x d = (r, x', d')"
  shows "creations (tr (fst x')) \<le> creations (tr (fst x)) + 1"
  using costsD[OF wire.costs_sync_one[where tr = tr and lg = lg and E = E and base = base]
      assms(3)[unfolded assms(2)]] assms(1)
  by (simp add: wire_posts_def)

lemma costs_fx:
  assumes "\<And>u w. f (snd (http_get R u w)) \<le> f w"
  shows "costs f 0 (fx_rate_now R s force)"
  unfolding costs_def fx_rate_now_def fx_fetch_def
  using assms by (auto simp: Let_def split: option.split prod.split sum.split) (metis snd_conv)+

text \<open>
  A run with a limit asks for at most that many creations.
\<close>
theorem limited_run_creates_at_most:
  assumes "wired tr lg E base" "A = g2a_store (g2a_client S repr E base) repr parsers fmt" "0 < n"
    and "\<forall>u x. tr (fst (snd (http_get R u x))) = tr (fst x)"
    and "run_offers R s (fx_rate_now R s False) A (Some n) dry x d = (r, x', d')"
  shows "creations (tr (fst x')) \<le> creations (tr (fst x)) + n"
proof -
  have "costs (wire_posts tr lg E base) 0 (fx_rate_now R s False)"
    using assms(4) by (intro costs_fx) (simp add: wire_posts_def del: split_paired_All)
  from costsD[OF wire.costs_run[OF this assms(3)] assms(5)[unfolded assms(2)]] assms(1)
  show ?thesis by (simp add: wire_posts_def)
qed

lemma costs_dry_row:
  assumes "costs f 0 fx"
  shows "costs (f \<circ> fst) 0 (sync_row R s fx A True now row u)"
proof -
  obtain m sp st where row: "row = (m, sp, st)" by (cases row)
  have "costs f 0 (compute s fx sp (Some m) (Some st))"
    using assms unfolding costs_def compute_def
    by (auto split: option.split prod.split sum.split) (metis fst_conv snd_conv)+
  then have c: "costs f 0 (desired_offer s fx m sp st)" unfolding desired_offer_def by (intro cost_intros)
  have o: "costs f 0 (offer_row (ad_code A) m st)" "costs f 0 (sync_one R s A i de True now)" for i de
    unfolding offer_row_def sync_one_def by (auto intro!: cost_intros)
  show ?thesis unfolding sync_row_def row prod.case by (intro cost_intros c o)
qed

lemma costs_dry_run:
  assumes "costs f 0 fx"
  shows "costs f 0 (run_offers R s fx A limit True)"
proof -
  have e: "costs (f \<circ> fst) 0 (\<lambda>ws d. (Inr (snd ws), ws, d))" by (simp add: costs_def)
  have "costs (f \<circ> fst) (0 * length rows) (wfold (sync_row R s fx A True now) rows ())" for rows now
    by (intro costs_fold costs_dry_row assms)
  then show ?thesis
    unfolding run_offers_def by (intro cost_intros costs_with_run e) simp
qed

text \<open>
  A dry run calls the store for nothing: whatever of the world the exchange rate provider does not
  touch is as it was, whatever the adapter would do.
\<close>
theorem dry_run_is_silent:
  assumes "\<forall>u w. g (snd (http_get R u w)) = g w"
    and "run_offers R s (fx_rate_now R s False) A limit True w d = (x, w', d')"
  shows "g w' = g w"
proof -
  let ?f = "\<lambda>v. if g v = g w then 0 else 1 :: nat"
  have "costs ?f 0 (fx_rate_now R s False)" using assms(1) by (intro costs_fx) simp
  from costsD[OF costs_dry_run[OF this] assms(2)] show ?thesis by (simp split: if_splits)
qed

section \<open>An outage of the token endpoint\<close>

lemma no_headers_no_request:
  assumes "C = g2a_client S repr E base" "require_g2a_credentials S = Inr c" "tk_token ts = None"
    and "\<forall>w. fst (te_post E (token_form c) w) = Lost e m" "rq_correlation rq = None"
  shows "\<exists>w'. api_request C meth path rq (w, ts) = (Inl (OtherError (httpx_class e @ lit '': '' @ m)), w', ts)"
proof -
  obtain cid w1 where u: "cl_uuid base w = (cid, w1)" by (metis prod.collapse)
  obtain w2 where p: "te_post E (token_form c) (cl_acquire base w1) = (Lost e m, w2)"
    using assms(4) by (metis prod.collapse)
  have "cl_auth_headers C (cl_acquire C (w1, ts)) = (Inl (OtherError (httpx_class e @ lit '': '' @ m)), w2, ts)"
    using assms(1-3) p by (simp add: g2a_send g2a_auth_headers_def token_def fetch_token_def cbind_def)
  then have "attempt_once C m' path rq cid' n b (w1, ts)
      = (Raise (OtherError (httpx_class e @ lit '': '' @ m)), w2, ts)" for m' cid' n b
    by (simp add: attempt_once_def)
  then have "request_loop C m' path rq cid' 0 False (w1, ts)
      = (Inl (OtherError (httpx_class e @ lit '': '' @ m)), w2, ts)" for m' cid'
    by (subst request_loop.simps) simp
  moreover have "cl_uuid C (w, ts) = (cid, w1, ts)" using assms(1) u by (simp add: g2a_client_def)
  ultimately show ?thesis using assms(5) by (simp add: api_request_def)
qed


section \<open>A store that answers one creation\<close>

definition sample_store :: "(script \<times> token_state) store_adapter" where
  "sample_store = g2a_store scripted_store json_dumps [] (\<lambda>t. [])"

lemmas sample_store_is = sample_store_def[unfolded scripted_store_def]

lemma scripted_wired: "wired sc_sent sc_log scripted_tokens scripted"
  using scripted_observed scripted_store_facts by (simp add: wired_def)

definition new_offer_db :: database where
  "new_offer_db = empty_database\<lparr>store_offers := [sample_offer None]\<rparr>"

lemma creations_none: "creations (sc_sent (script_of as)) = 0"
  by (simp add: script_of_def creations_def)

theorem one_creation_per_push_witness:
  "\<exists>r x' d'. sync_one still_clock store_settings sample_store 1 wanted False 0
       (script_of [Answer (answer 500 ''oops'' None)], no_token) new_offer_db = (r, x', d')
     \<and> creations (sc_sent (fst x')) \<le> 1"
proof -
  obtain r x' d' where r: "sync_one still_clock store_settings sample_store 1 wanted False 0
       (script_of [Answer (answer 500 ''oops'' None)], no_token) new_offer_db = (r, x', d')"
    by (metis prod.collapse)
  with one_creation_per_push[OF scripted_wired sample_store_is r] creations_none show ?thesis by simp
qed

theorem limited_run_creates_at_most_witness:
  "\<exists>r x' d'. run_offers still_clock store_settings (fx_rate_now still_clock store_settings False)
       sample_store (Some 3) False (script_of [], no_token) new_offer_db = (r, x', d')
     \<and> creations (sc_sent (fst x')) \<le> 3"
proof -
  obtain r x' d' where r: "run_offers still_clock store_settings
       (fx_rate_now still_clock store_settings False)
       sample_store (Some 3) False (script_of [], no_token) new_offer_db = (r, x', d')"
    by (metis prod.collapse)
  have q: "\<forall>u (x :: script \<times> token_state). sc_sent (fst (snd (http_get still_clock u x))) = sc_sent (fst x)"
    by (simp add: still_clock_def)
  from limited_run_creates_at_most[OF scripted_wired sample_store_is _ q r] r creations_none
  show ?thesis by simp
qed

theorem dry_run_is_silent_witness:
  "\<exists>r x' d'. run_offers still_clock store_settings (fx_rate_now still_clock store_settings False)
       sample_store None True (script_of [], no_token) new_offer_db = (r, x', d')
     \<and> sc_sent (fst x') = []"
proof -
  obtain r x' d' where r: "run_offers still_clock store_settings
       (fx_rate_now still_clock store_settings False)
       sample_store None True (script_of [], no_token) new_offer_db = (r, x', d')"
    by (metis prod.collapse)
  have q: "\<forall>u (x :: script \<times> token_state). sc_sent (fst (snd (http_get still_clock u x))) = sc_sent (fst x)"
    by (simp add: still_clock_def)
  from dry_run_is_silent[where g = "\<lambda>x. sc_sent (fst x)", OF q r] r show ?thesis
    by (simp add: script_of_def)
qed

definition no_tokens :: "script token_endpoint" where
  "no_tokens = \<lparr>te_post = (\<lambda>form w. (Lost ConnectError (lit ''down''), w)), te_time = (\<lambda>w. 0)\<rparr>"


end
