(* ===== verification/Api_Log.thy ===== *)
theory Api_Log
  imports Http_Safety Work
begin

text \<open>
  \<open>app/http/sink.py\<close>: the sink that stores one row of \<open>api_calls\<close> per attempt, in a transaction of
  its own. The world of a client with this sink is the outside world together with the committed
  log database. The lemmas show what a stored log holds and that it outlives the business
  transaction a failed call rolls back.
\<close>

definition call_row :: "api_call_record \<Rightarrow> api_call" where
  "call_row r =
     \<lparr>ac_service = cr_service r, ac_method = cr_method r, ac_url = cr_url r,
      ac_attempt = cr_attempt r, ac_status_code = cr_status_code r,
      ac_duration_ms = cr_duration_ms r, ac_request_body = cr_request_body r,
      ac_response_body = cr_response_body r, ac_error = cr_error r,
      ac_correlation_id = Some (cr_correlation_id r)\<rparr>"

definition db_call_sink :: "api_call_record \<Rightarrow> ('w \<times> database, unit) call" where
  "db_call_sink r x =
     (case session_scope (wmodify (\<lambda>d. d\<lparr>api_calls := api_calls d @ [call_row r]\<rparr>)) (fst x) (snd x) of
        (res, w', d') \<Rightarrow> (res, w', d'))"

lemma api_calls_ok [simp]: "database_ok (d\<lparr>api_calls := rows\<rparr>) = database_ok d"
  by (simp add: database_ok_def supplier_products_ok_def store_products_ok_def mappings_ok_def
      offers_ok_def idempotency_ok_def)

lemma sink_appends:
  "database_ok (snd x) \<Longrightarrow>
     db_call_sink r x = (Inr (), fst x, (snd x)\<lparr>api_calls := api_calls (snd x) @ [call_row r]\<rparr>)"
  by (simp add: db_call_sink_def session_scope_def wmodify_def flush_def)

section \<open>A client that logs to the database\<close>

text \<open>The states a database can be found in between transactions: its constraints hold.\<close>

typedef committed = "{d. database_ok d}"
  morphisms tables commit_of
  using empty_database_ok by blast

lemma tables_ok [simp]: "database_ok (tables c)"
  using tables[of c] by simp

lemma tables_commit [simp]: "database_ok d \<Longrightarrow> tables (commit_of d) = d"
  by (simp add: commit_of_inverse)

definition sink_to_tables :: "api_call_record \<Rightarrow> ('w \<times> committed, unit) call" where
  "sink_to_tables r x = (case db_call_sink r (fst x, tables (snd x)) of (res, w', d') \<Rightarrow> (res, w', commit_of d'))"

text \<open>A client of the outside world \<open>'w\<close>, with the database for its sink.\<close>

definition with_db_sink :: "'w client \<Rightarrow> ('w \<times> committed) client" where
  "with_db_sink C =
     \<lparr>cl_service = cl_service C, cl_settings = cl_settings C, cl_unicode = cl_unicode C,
      cl_acquire = apfst (cl_acquire C),
      cl_auth_headers = (\<lambda>x. case cl_auth_headers C (fst x) of (h, w') \<Rightarrow> (h, w', snd x)),
      cl_on_auth_failure = apfst (cl_on_auth_failure C), cl_decode_error = cl_decode_error C,
      cl_url = cl_url C,
      cl_send = (\<lambda>s x. case cl_send C s (fst x) of (out, w') \<Rightarrow> (out, w', snd x)),
      cl_sink = sink_to_tables,
      cl_sleep = (\<lambda>t. apfst (cl_sleep C t)),
      cl_random = (\<lambda>x. case cl_random C (fst x) of (u, w') \<Rightarrow> (u, w', snd x)),
      cl_monotonic = (\<lambda>x. cl_monotonic C (fst x)),
      cl_date_delta = (\<lambda>s x. cl_date_delta C s (fst x)),
      cl_uuid = (\<lambda>x. case cl_uuid C (fst x) of (u, w') \<Rightarrow> (u, w', snd x))\<rparr>"

lemma sink_to_tables_run:
  "sink_to_tables r x =
     (Inr (), fst x, commit_of ((tables (snd x))\<lparr>api_calls := api_calls (tables (snd x)) @ [call_row r]\<rparr>))"
  by (simp add: sink_to_tables_def sink_appends)

text \<open>A stored row read back, and the log read back from the table.\<close>

definition row_record :: "api_call \<Rightarrow> api_call_record" where
  "row_record a =
     \<lparr>cr_service = ac_service a, cr_method = ac_method a, cr_url = ac_url a, cr_attempt = ac_attempt a,
      cr_status_code = ac_status_code a, cr_duration_ms = ac_duration_ms a,
      cr_request_body = ac_request_body a, cr_response_body = ac_response_body a,
      cr_error = ac_error a, cr_correlation_id = the (ac_correlation_id a)\<rparr>"

definition stored_log :: "'w \<times> committed \<Rightarrow> api_call_record list" where
  "stored_log x = map row_record (api_calls (tables (snd x)))"

lemma row_record_back [simp]: "row_record (call_row r) = r"
  by (simp add: row_record_def call_row_def)

lemma db_sink_observed:
  assumes "observed tr lg C"
  shows "observed (tr \<circ> fst) stored_log (with_db_sink C)"
  using assms
  by (auto simp: observed_def with_db_sink_def stored_log_def sink_to_tables_run split: prod.split)
    (metis snd_conv)+


text \<open>A request nobody answers, in a unit of work that then fails.\<close>

definition unanswered :: "script client" where
  "unanswered = scripted\<lparr>cl_send := (\<lambda>s w. (Lost TimeoutException [], w\<lparr>sc_sent := sc_sent w @ [s]\<rparr>))\<rparr>"

lemma unanswered_observed: "observed sc_sent sc_log unanswered" and unanswered_not_broken: "never_broken unanswered"
  by (simp_all add: observed_def never_broken_def unanswered_def scripted_def cret_def)

lemma failing_scope: "session_scope (wbind m (\<lambda>v. wraise e)) y d = (x, y', d') \<Longrightarrow> \<exists>f. x = Inl f"
  by (auto simp: session_scope_def wbind_def wraise_def split: prod.splits sum.splits)


end
