(* ===== verification/Difflib.thy ===== *)
theory Difflib
  imports Numerics "HOL-Library.Sublist"
begin

text \<open>
  \<open>difflib.SequenceMatcher(None, a, b).ratio()\<close> of the Python library, as the scorer of
  \<open>app/services/matching.py\<close> uses it: the longest common block found by dynamic programming,
  the recursion on both sides of it, and the ratio in double arithmetic. Characters that
  occur in more than one per cent of a text of 200 or more are not used to seed a block
  (\<open>autojunk\<close>). The lemmas show that the blocks are real, that together they spell a common
  subsequence of the two texts, and what follows for the ratio.
\<close>

section \<open>The longest block\<close>

text \<open>
  \<open>j2len\<close> as a list: entry \<open>j\<close> is the length of the common block that ends at the current
  character of \<open>a\<close> and at \<open>b ! j\<close>, 0 where the dictionary has no entry.
\<close>

definition next_row :: "(nat \<Rightarrow> bool) \<Rightarrow> ustr \<Rightarrow> nat \<Rightarrow> nat list \<Rightarrow> nat list" where
  "next_row popular b x row =
     map2 (\<lambda>p y. if y = x \<and> \<not> popular y then Suc p else 0) (0 # row) b"

type_synonym block = "nat \<times> nat \<times> nat"

fun best_of_row :: "nat \<Rightarrow> nat \<Rightarrow> block \<Rightarrow> nat list \<Rightarrow> block" where
  "best_of_row i j best [] = best"
| "best_of_row i j best (k # ks) =
     best_of_row i (Suc j)
       (if snd (snd best) < k then (Suc i - k, Suc j - k, k) else best) ks"

fun scan :: "(nat \<Rightarrow> bool) \<Rightarrow> ustr \<Rightarrow> nat \<Rightarrow> nat list \<Rightarrow> block \<Rightarrow> ustr \<Rightarrow> block" where
  "scan popular b i row best [] = best"
| "scan popular b i row best (x # xs) =
     (let row' = next_row popular b x row
      in scan popular b (Suc i) row' (best_of_row i 0 best row') xs)"

fun widen_left :: "ustr \<Rightarrow> ustr \<Rightarrow> nat \<Rightarrow> nat \<Rightarrow> nat \<Rightarrow> block" where
  "widen_left a b (Suc i) (Suc j) k =
     (if a ! i = b ! j then widen_left a b i j (Suc k) else (Suc i, Suc j, k))"
| "widen_left a b i j k = (i, j, k)"

fun common_prefix :: "ustr \<Rightarrow> ustr \<Rightarrow> nat" where
  "common_prefix (x # xs) (y # ys) = (if x = y then Suc (common_prefix xs ys) else 0)"
| "common_prefix xs ys = 0"

definition find_longest_match :: "(nat \<Rightarrow> bool) \<Rightarrow> ustr \<Rightarrow> ustr \<Rightarrow> block" where
  "find_longest_match popular a b =
     (case scan popular b 0 (replicate (length b) 0) (0, 0, 0) a of
        (i, j, k) \<Rightarrow>
          (case widen_left a b i j k of
             (i, j, k) \<Rightarrow> (i, j, k + common_prefix (drop (i + k) a) (drop (j + k) b))))"

text \<open>A block of two texts: within both, and the same characters in both.\<close>

definition is_block :: "ustr \<Rightarrow> ustr \<Rightarrow> block \<Rightarrow> bool" where
  "is_block a b blk =
     (case blk of (i, j, k) \<Rightarrow>
        i + k \<le> length a \<and> j + k \<le> length b \<and> take k (drop i a) = take k (drop j b))"

lemma is_block_empty [simp]: "is_block a b (0, 0, 0)"
  by (simp add: is_block_def)

text \<open>A row is right at \<open>i\<close> when each entry is the length of a block that ends there.\<close>

definition row_ok :: "ustr \<Rightarrow> ustr \<Rightarrow> nat \<Rightarrow> nat list \<Rightarrow> bool" where
  "row_ok a b i row \<longleftrightarrow> length row = length b
     \<and> (\<forall>j < length b. row ! j \<le> i \<and> row ! j \<le> Suc j
          \<and> is_block a b (i - row ! j, Suc j - row ! j, row ! j))"

lemma row_ok_start: "row_ok a b 0 (replicate (length b) 0)"
  by (auto simp: row_ok_def is_block_def)

lemma next_row_nth:
  assumes "length row = length b" "j < length b"
  shows "next_row popular b x row ! j =
    (if b ! j = x \<and> \<not> popular (b ! j) then Suc (if j = 0 then 0 else row ! (j - 1)) else 0)"
  using assms by (cases j) (auto simp: next_row_def)

lemma length_next_row [simp]: "length row = length b \<Longrightarrow> length (next_row popular b x row) = length b"
  by (simp add: next_row_def)

lemma is_block_extend:
  assumes "is_block a b (i - k, j - k, k)" "k \<le> i" "k \<le> j" "i < length a" "j < length b"
    and "a ! i = b ! j"
  shows "is_block a b (i - k, j - k, Suc k)"
proof -
  have "take (Suc k) (drop (i - k) a) = take k (drop (i - k) a) @ [a ! i]"
    using assms by (simp add: take_Suc_conv_app_nth)
  moreover have "take (Suc k) (drop (j - k) b) = take k (drop (j - k) b) @ [b ! j]"
    using assms by (simp add: take_Suc_conv_app_nth)
  ultimately show ?thesis using assms by (simp add: is_block_def)
qed

lemma row_ok_next:
  assumes "row_ok a b i row" "i < length a"
  shows "row_ok a b (Suc i) (next_row popular b (a ! i) row)"
  unfolding row_ok_def
proof (intro conjI allI impI)
  have len: "length row = length b" using assms by (simp add: row_ok_def)
  then show "length (next_row popular b (a ! i) row) = length b" by simp
  fix j
  assume j: "j < length b"
  let ?k = "if j = 0 then 0 else row ! (j - 1)"
  let ?e = "next_row popular b (a ! i) row ! j"
  have e: "?e = Suc ?k \<and> b ! j = a ! i \<or> ?e = 0"
    using next_row_nth[OF len j] by simp
  have k: "?k \<le> i" "?k \<le> j" "is_block a b (i - ?k, j - ?k, ?k)"
    using assms j by (auto simp: row_ok_def is_block_def)
      (metis Suc_pred j less_imp_diff_less One_nat_def bot_nat_0.not_eq_extremum)+
  show "?e \<le> Suc i" "?e \<le> Suc j" using e k by auto
  show "is_block a b (Suc i - ?e, Suc j - ?e, ?e)"
  proof (cases "?e = 0")
    case True
    then show ?thesis using assms(2) j by (simp add: is_block_def)
  next
    case False
    with e have s: "?e = Suc ?k" and eq: "a ! i = b ! j" by auto
    from is_block_extend[OF k(3) k(1) k(2) assms(2) j eq] s show ?thesis by simp
  qed
qed

lemma best_of_row_block:
  assumes "is_block a b best"
    and "\<And>m. m < length ks \<Longrightarrow> is_block a b (Suc i - ks ! m, Suc (j + m) - ks ! m, ks ! m)"
  shows "is_block a b (best_of_row i j best ks)"
  using assms
proof (induction ks arbitrary: j best)
  case (Cons k ks)
  have "is_block a b (if snd (snd best) < k then (Suc i - k, Suc j - k, k) else best)"
    using Cons.prems(1) Cons.prems(2)[of 0] by simp
  moreover have "is_block a b (Suc i - ks ! m, Suc (Suc j + m) - ks ! m, ks ! m)"
    if "m < length ks" for m
    using Cons.prems(2)[of "Suc m"] that by simp
  ultimately show ?case using Cons.IH by simp
qed simp

lemma scan_block:
  assumes "is_block a b best" "row_ok a b i row" "xs = drop i a"
  shows "is_block a b (scan popular b i row best xs)"
  using assms
proof (induction xs arbitrary: i row best)
  case (Cons x xs)
  have i: "i < length a" "x = a ! i" "xs = drop (Suc i) a"
    using Cons.prems(3) by (metis drop_eq_Nil list.distinct(1) not_le,
        metis nth_via_drop, metis drop_Suc list.sel(3) tl_drop)
  let ?row = "next_row popular b x row"
  have ok: "row_ok a b (Suc i) ?row" using row_ok_next[OF Cons.prems(2) i(1)] i(2) by simp
  then have "is_block a b (best_of_row i 0 best ?row)"
    by (intro best_of_row_block Cons.prems(1)) (auto simp: row_ok_def)
  with Cons.IH[OF _ ok i(3)] show ?case by (simp add: Let_def)
qed simp

lemma widen_left_block:
  "is_block a b (i, j, k) \<Longrightarrow> is_block a b (widen_left a b i j k)"
proof (induction a b i j k rule: widen_left.induct)
  case (1 a b i j k)
  have "is_block a b (i, j, Suc k)" if "a ! i = b ! j"
  proof -
    have "drop i a = a ! i # drop (Suc i) a" "drop j b = b ! j # drop (Suc j) b"
      using 1(2) by (auto simp: is_block_def Cons_nth_drop_Suc)
    then show ?thesis using 1(2) that by (simp add: is_block_def)
  qed
  then show ?case using 1 by simp
qed simp_all

lemma common_prefix_take:
  "common_prefix xs ys \<le> length xs \<and> common_prefix xs ys \<le> length ys
   \<and> take (common_prefix xs ys) xs = take (common_prefix xs ys) ys"
  by (induction xs ys rule: common_prefix.induct) auto

lemma longest_is_block: "is_block a b (find_longest_match popular a b)"
proof -
  obtain i j k where s: "scan popular b 0 (replicate (length b) 0) (0, 0, 0) a = (i, j, k)"
    by (metis prod.collapse)
  have "is_block a b (i, j, k)"
    using scan_block[OF is_block_empty[of a b] row_ok_start, of a popular] s by simp
  then have w: "is_block a b (widen_left a b i j k)" by (rule widen_left_block)
  obtain i' j' k' where w': "widen_left a b i j k = (i', j', k')" by (metis prod.collapse)
  have "take (common_prefix (drop (i' + k') a) (drop (j' + k') b)) (drop (i' + k') a)
    = take (common_prefix (drop (i' + k') a) (drop (j' + k') b)) (drop (j' + k') b)"
    using common_prefix_take by blast
  moreover have "common_prefix (drop (i' + k') a) (drop (j' + k') b) \<le> length a - (i' + k')"
    "common_prefix (drop (i' + k') a) (drop (j' + k') b) \<le> length b - (j' + k')"
    using common_prefix_take[of "drop (i' + k') a" "drop (j' + k') b"] by auto
  ultimately show ?thesis
    using w by (auto simp: find_longest_match_def s w' is_block_def take_add add.commute)
qed

lemma longest_bounds:
  "(i, jk) = find_longest_match popular a b \<Longrightarrow> (j, k) = jk \<Longrightarrow> i + k \<le> length a \<and> j + k \<le> length b"
  using longest_is_block[of a b popular] by (auto simp: is_block_def split: prod.splits)

section \<open>All the blocks\<close>

text \<open>
  \<open>get_matching_blocks\<close> without its bookkeeping: the total length of the blocks. The stack of
  the source visits the two sides in another order, which the sum does not see.
\<close>

function matched :: "(nat \<Rightarrow> bool) \<Rightarrow> ustr \<Rightarrow> ustr \<Rightarrow> nat" where
  "matched popular a b =
     (case find_longest_match popular a b of
        (i, j, k) \<Rightarrow>
          if k = 0 then 0
          else k + matched popular (take i a) (take j b)
                 + matched popular (drop (i + k) a) (drop (j + k) b))"
  by pat_completeness auto
termination
  by (relation "measure (\<lambda>(popular, a, b). length a)") (auto dest!: longest_bounds)

declare matched.simps [simp del]

text \<open>\<open>b2j\<close> keeps no character that makes up more than one per cent of a long text.\<close>

definition popular_in :: "ustr \<Rightarrow> nat \<Rightarrow> bool" where
  "popular_in b c \<longleftrightarrow> 200 \<le> length b \<and> length b div 100 + 1 < count_list b c"

definition ratio :: "ustr \<Rightarrow> ustr \<Rightarrow> rat" where
  "ratio a b =
     (if length a + length b = 0 then 1
      else fl (of_nat (2 * matched (popular_in b) a b) / of_nat (length a + length b)))"

section \<open>What the blocks spell\<close>

lemma subseq_around_block:
  assumes "is_block a b (i, j, k)"
    and "subseq l (take i a)" "subseq l (take j b)"
    and "subseq r (drop (i + k) a)" "subseq r (drop (j + k) b)"
  shows "subseq (l @ take k (drop i a) @ r) a \<and> subseq (l @ take k (drop i a) @ r) b"
proof -
  have split: "take m s @ take k (drop m s) @ drop (m + k) s = s" for m and s :: ustr
    by (metis append_take_drop_id drop_drop add.commute)
  have mid: "take k (drop i a) = take k (drop j b)" using assms(1) by (simp add: is_block_def)
  have "subseq (l @ take k (drop i a) @ r) (take i a @ take k (drop i a) @ drop (i + k) a)"
    by (intro list_emb_append_mono assms subseq_order.refl)
  moreover have "subseq (l @ take k (drop j b) @ r) (take j b @ take k (drop j b) @ drop (j + k) b)"
    by (intro list_emb_append_mono assms subseq_order.refl)
  ultimately show ?thesis unfolding split by (simp add: mid)
qed

lemma matched_subseq:
  "\<exists>c. subseq c a \<and> subseq c b \<and> length c = matched popular a b"
proof (induction popular a b rule: matched.induct)
  case (1 popular a b)
  obtain i j k where f: "find_longest_match popular a b = (i, j, k)" by (metis prod.collapse)
  have blk: "is_block a b (i, j, k)" using longest_is_block[of a b popular] f by simp
  show ?case
  proof (cases "k = 0")
    case True
    then show ?thesis using f by (intro exI[of _ "[]"]) (simp add: matched.simps[of popular a b])
  next
    case False
    obtain l where l: "subseq l (take i a)" "subseq l (take j b)"
        "length l = matched popular (take i a) (take j b)"
      using 1(1)[OF f[symmetric] refl False] by blast
    obtain r where r: "subseq r (drop (i + k) a)" "subseq r (drop (j + k) b)"
        "length r = matched popular (drop (i + k) a) (drop (j + k) b)"
      using 1(2)[OF f[symmetric] refl False] by blast
    from blk have "length (take k (drop i a)) = k" by (auto simp: is_block_def)
    with subseq_around_block[OF blk l(1,2) r(1,2)] l(3) r(3) False f show ?thesis
      by (intro exI[of _ "l @ take k (drop i a) @ r"]) (simp add: matched.simps[of popular a b])
  qed
qed

lemma matched_le: "matched popular a b \<le> length a" "matched popular a b \<le> length b"
  using matched_subseq[of a b popular] by (metis list_emb_length)+

lemma ratio_bounds: "0 \<le> ratio a b \<and> ratio a b \<le> 1"
proof -
  have "2 * matched (popular_in b) a b \<le> length a + length b"
    using matched_le[of "popular_in b" a b] by simp
  then have "of_nat (2 * matched (popular_in b) a b) \<le> (of_nat (length a + length b) :: rat)"
    by (simp only: of_nat_le_iff)
  then have "0 \<le> (of_nat (2 * matched (popular_in b) a b) / of_nat (length a + length b) :: rat)
    \<and> of_nat (2 * matched (popular_in b) a b) / of_nat (length a + length b) \<le> (1 :: rat)"
    by (cases "length a + length b = 0") (simp_all add: divide_le_eq del: of_nat_add of_nat_mult)
  then show ?thesis unfolding ratio_def using dbl.rnd_unit by simp
qed


section \<open>A text against itself\<close>

lemma best_of_row_ge:
  "snd (snd best) \<le> snd (snd (best_of_row i j best ks))
   \<and> (\<forall>k \<in> set ks. k \<le> snd (snd (best_of_row i j best ks)))"
proof (induction ks arbitrary: j best)
  case (Cons k ks)
  from Cons.IH[of "if snd (snd best) < k then (Suc i - k, Suc j - k, k) else best" "Suc j"]
  show ?case by (auto split: if_splits)
qed simp

lemma scan_self_ge:
  assumes "\<And>c. \<not> popular c" "xs = drop i a" "length row = length a"
    and "0 < i \<Longrightarrow> row ! (i - 1) = i" "xs \<noteq> [] \<or> length a \<le> snd (snd best)"
  shows "length a \<le> snd (snd (scan popular a i row best xs))"
  using assms(2-)
proof (induction xs arbitrary: i row best)
  case (Cons x xs)
  have i: "i < length a" "x = a ! i" "xs = drop (Suc i) a"
    using Cons.prems(1) by (metis drop_eq_Nil list.distinct(1) not_le,
        metis nth_via_drop, metis drop_Suc list.sel(3) tl_drop)
  let ?row = "next_row popular a x row"
  have r: "?row ! i = Suc i" "length ?row = length a"
    using next_row_nth[OF Cons.prems(2) i(1), of popular x] i(2) assms(1) Cons.prems(2,3)
    by (auto simp: gr0_conv_Suc)
  have "Suc i \<le> snd (snd (best_of_row i 0 best ?row))"
    using best_of_row_ge[of best i 0 ?row] r i(1) by (metis nth_mem)
  then have "xs \<noteq> [] \<or> length a \<le> snd (snd (best_of_row i 0 best ?row))"
    using i by auto
  with Cons.IH[OF i(3) r(2)] r(1) show ?case by (simp add: Let_def)
qed simp

lemma longest_self: "(\<And>c. \<not> popular c) \<Longrightarrow> find_longest_match popular a a = (0, 0, length a)"
proof -
  assume np: "\<And>c. \<not> popular c"
  let ?s = "scan popular a 0 (replicate (length a) 0) (0, 0, 0) a"
  have "is_block a a ?s" using scan_block[OF is_block_empty[of a a] row_ok_start, of a popular] by simp
  moreover have "length a \<le> snd (snd ?s)"
    using scan_self_ge[OF np, of a 0 a "replicate (length a) 0" "(0, 0, 0)"] by auto
  ultimately have "?s = (0, 0, length a)" by (cases ?s) (simp add: is_block_def)
  then show ?thesis by (simp add: find_longest_match_def)
qed

lemma matched_self: "(\<And>c. \<not> popular c) \<Longrightarrow> matched popular a a = length a"
  using longest_self[of popular a] longest_self[of popular "[]"]
  by (subst matched.simps) (simp add: matched.simps[of popular "[]" "[]"])

lemma ratio_self: "length a < 200 \<Longrightarrow> ratio a a = 1"
  using matched_self[of "popular_in a" a] by (simp add: ratio_def popular_in_def flip: mult_2)

end
