(* ===== verification/Matching.thy ===== *)
theory Matching
  imports Difflib Title_Text Config Sync_Run
begin

text \<open>
  \<open>app/services/matching.py\<close>: the score of a pair of titles with its hard gates, and the
  \<open>MatchingEngine\<close>: the shortlist, the candidates, the decision, its record in the mapping
  table and the run over the catalogue, with \<open>approve\<close> and \<open>reject\<close>. The lemmas show what a
  positive score means, what the engine may propose, which mappings it leaves alone, and when
  recording a decision fails.
\<close>

section \<open>Scoring\<close>

definition W_TOKEN_OVERLAP :: rat where "W_TOKEN_OVERLAP = fl (55 / 100)"
definition W_SEQUENCE :: rat where "W_SEQUENCE = fl (30 / 100)"
definition W_REGION :: rat where "W_REGION = fl (10 / 100)"
definition W_PLATFORM :: rat where "W_PLATFORM = fl (5 / 100)"

lemmas weight_defs = W_TOKEN_OVERLAP_def W_SEQUENCE_def W_REGION_def W_PLATFORM_def

record candidate =
  cd_store_product_id :: nat
  cd_product_ext_id :: ustr
  cd_name :: ustr
  cd_score :: rat
  cd_reasons :: "ustr list"

text \<open>\<open>round(x, 4)\<close> of a double.\<close>

definition round4 :: "rat \<Rightarrow> rat" where
  "round4 x = fl (of_int (half_even (x * 10000)) / 10000)"

definition as_json :: "candidate \<Rightarrow> candidate_json" where
  "as_json c =
     \<lparr>cj_store_product_id = cd_store_product_id c, cj_product_ext_id = cd_product_ext_id c,
      cj_name = cd_name c, cj_score = round4 (cd_score c), cj_reasons = cd_reasons c\<rparr>"

record match_outcome =
  mo_supplier_product_id :: nat
  mo_status :: mapping_status
  mo_best :: "candidate option"
  mo_candidates :: "candidate list"
  mo_method :: ustr

text \<open>Sets of tokens are lists without duplicates.\<close>

definition jaccard :: "ustr list \<Rightarrow> ustr list \<Rightarrow> rat" where
  "jaccard a b =
     (if a = [] \<or> b = [] then 0
      else fl (of_nat (length (filter (\<lambda>t. t \<in> set b) (remdups a)))
               / of_nat (length (remdups (a @ b)))))"

definition stated_differently :: "ustr option \<Rightarrow> ustr option \<Rightarrow> bool" where
  "stated_differently x y \<longleftrightarrow> truthy x \<and> truthy y \<and> x \<noteq> y"

definition denominations_conflict :: "denom option \<Rightarrow> denom option \<Rightarrow> bool" where
  "denominations_conflict left right =
     (case (left, right) of
        (Some (amount_l, currency_l), Some (amount_r, currency_r)) \<Rightarrow>
          fl (1 / 1000) < \<bar>fl (amount_l - amount_r)\<bar> \<or> stated_differently currency_l currency_r
      | _ \<Rightarrow> False)"

definition opt_text :: "ustr option \<Rightarrow> ustr" where
  "opt_text x = (case x of None \<Rightarrow> lit ''None'' | Some s \<Rightarrow> s)"

definition mismatch :: "string \<Rightarrow> ustr option \<Rightarrow> ustr option \<Rightarrow> ustr" where
  "mismatch what x y = lit what @ lit '' mismatch '' @ opt_text x @ lit '' vs '' @ opt_text y"

text \<open>\<open>f"{x:.2f}"\<close> of a non-negative double.\<close>

definition format_2f :: "rat \<Rightarrow> ustr" where
  "format_2f x =
     (let n = nat (half_even (x * 100))
      in digits_of (n div 100) @ [46, 48 + n div 10 mod 10, 48 + n mod 10])"

text \<open>The agreement of a field once the gates have let the pair through.\<close>

definition region_score :: "title_parts \<Rightarrow> title_parts \<Rightarrow> rat" where
  "region_score p s =
     (if truthy (tp_region p) \<and> truthy (tp_region s) \<and> tp_region p = tp_region s then 1
      else if \<not> truthy (tp_region p) \<or> \<not> truthy (tp_region s) then fl (1 / 2)
      else fl (6 / 10))"

definition platform_score :: "title_parts \<Rightarrow> title_parts \<Rightarrow> rat" where
  "platform_score p s =
     (if truthy (tp_platform p) \<and> truthy (tp_platform s) \<and> tp_platform p = tp_platform s then 1
      else if \<not> truthy (tp_platform p) \<or> \<not> truthy (tp_platform s) then fl (1 / 2)
      else 0)"

definition agreement_reasons :: "title_parts \<Rightarrow> title_parts \<Rightarrow> ustr list" where
  "agreement_reasons p s =
     (if truthy (tp_region p) \<and> truthy (tp_region s) \<and> tp_region p = tp_region s
      then [lit ''region '' @ opt_text (tp_region p)] else [])
     @ (if truthy (tp_platform p) \<and> truthy (tp_platform s) \<and> tp_platform p = tp_platform s
        then [lit ''platform '' @ opt_text (tp_platform p)] else [])
     @ (case (tp_denomination p, tp_denomination s) of
          (Some (x, _), Some (y, _)) \<Rightarrow>
            if \<bar>fl (x - y)\<bar> \<le> fl (1 / 1000) then [lit ''denomination '' @ format_g x] else []
        | _ \<Rightarrow> [])"

definition soft_score :: "title_parts \<Rightarrow> title_parts \<Rightarrow> rat" where
  "soft_score p s =
     fl (fl (fl (fl (W_TOKEN_OVERLAP * jaccard (tp_tokens p) (tp_tokens s))
                 + fl (W_SEQUENCE * ratio (tp_core p) (tp_core s)))
             + fl (W_REGION * region_score p s))
         + fl (W_PLATFORM * platform_score p s))"

definition score_pair :: "title_parts \<Rightarrow> title_parts \<Rightarrow> rat \<times> ustr list" where
  "score_pair p s =
     (if denominations_conflict (tp_denomination p) (tp_denomination s)
      then (0, [lit ''denomination mismatch''])
      else if stated_differently (tp_region p) (tp_region s)
              \<and> Some (lit ''GLOBAL'') \<notin> {tp_region p, tp_region s}
      then (0, [mismatch ''region'' (tp_region p) (tp_region s)])
      else if stated_differently (tp_platform p) (tp_platform s)
      then (0, [mismatch ''platform'' (tp_platform p) (tp_platform s)])
      else if stated_differently (tp_edition p) (tp_edition s)
      then (0, [mismatch ''edition'' (tp_edition p) (tp_edition s)])
      else (min 1 (soft_score p s),
            agreement_reasons p s
            @ [lit ''tokens '' @ format_2f (jaccard (tp_tokens p) (tp_tokens s)),
               lit ''text '' @ format_2f (ratio (tp_core p) (tp_core s))]))"

section \<open>The shortlist\<close>

text \<open>SQL \<open>LIKE\<close>: \<open>%\<close> stands for any text and \<open>_\<close> for one character.\<close>

fun like :: "ustr \<Rightarrow> ustr \<Rightarrow> bool" where
  "like [] s = (s = [])"
| "like (c # p) [] = (c = 37 \<and> like p [])"
| "like (c # p) (x # s) =
     (if c = 37 then like p (x # s) \<or> like (c # p) s else (c = 95 \<or> c = x) \<and> like p s)"

definition add_row :: "store_product \<Rightarrow> store_product list \<Rightarrow> store_product list" where
  "add_row s found = (if st_id s \<in> st_id ` set found then found else found @ [s])"

fun gather :: "store_product list \<Rightarrow> ustr list \<Rightarrow> store_product list \<Rightarrow> store_product list" where
  "gather rows [] found = found"
| "gather rows (a # as) found =
     (let hits = take 400 (filter (\<lambda>s. like ([37] @ a @ [37]) (st_name_normalized s)) rows);
          found = fold add_row hits found
      in if 400 \<le> length found then found else gather rows as found)"

definition shortlist :: "unicode \<Rightarrow> ustr \<Rightarrow> title_parts \<Rightarrow> database \<Rightarrow> store_product list" where
  "shortlist U store parts d =
     (let rows = filter (\<lambda>s. st_store_code s = store) (store_products d);
          exact = filter (\<lambda>s. st_match_key s = match_key parts) rows
      in if exact \<noteq> [] then exact else gather rows (take 3 (anchors U parts)) [])"

section \<open>Candidates\<close>

text \<open>\<open>_claimed_store_products\<close>, read once per engine and kept up to date by \<open>apply\<close>.\<close>

type_synonym engine = "nat list option"

definition claimed_of :: "ustr \<Rightarrow> database \<Rightarrow> nat list" where
  "claimed_of store d =
     List.map_filter (\<lambda>m. if pm_store_code m = store \<and> pm_status m \<in> {AUTO, APPROVED, PENDING}
                          then pm_store_product_id m else None) (product_mappings d)"

definition claimed_store_products :: "ustr \<Rightarrow> engine \<Rightarrow> database \<Rightarrow> nat list" where
  "claimed_store_products store e d = (case e of Some c \<Rightarrow> c | None \<Rightarrow> claimed_of store d)"

definition rejected_pairs :: "nat \<Rightarrow> database \<Rightarrow> nat list" where
  "rejected_pairs i d =
     List.map_filter (\<lambda>m. if pm_supplier_product_id m = i \<and> pm_status m = REJECTED
                          then pm_store_product_id m else None) (product_mappings d)"

definition existing_mapping :: "nat \<Rightarrow> database \<Rightarrow> product_mapping option" where
  "existing_mapping i d = find_row (\<lambda>m. pm_supplier_product_id m = i) (product_mappings d)"

definition supplier_parts :: "unicode \<Rightarrow> supplier_product \<Rightarrow> title_parts" where
  "supplier_parts U p = parse_title_with U (sp_name p) (sp_region p) (sp_platform p)"

definition store_parts :: "unicode \<Rightarrow> store_product \<Rightarrow> title_parts" where
  "store_parts U s = parse_title_with U (st_name s) (st_region s) (st_platform s)"

definition candidate_of :: "unicode \<Rightarrow> title_parts \<Rightarrow> store_product \<Rightarrow> candidate" where
  "candidate_of U parts s =
     (let (score, reasons) = score_pair parts (store_parts U s)
      in \<lparr>cd_store_product_id = st_id s, cd_product_ext_id = st_product_ext_id s,
          cd_name = st_name s, cd_score = score, cd_reasons = reasons\<rparr>)"

definition eligible :: "nat list \<Rightarrow> nat list \<Rightarrow> nat option \<Rightarrow> store_product \<Rightarrow> bool" where
  "eligible rejected claimed current s \<longleftrightarrow>
     st_id s \<notin> set rejected \<and> (st_id s \<in> set claimed \<longrightarrow> Some (st_id s) = current)"

definition find_candidates ::
  "unicode \<Rightarrow> settings \<Rightarrow> ustr \<Rightarrow> engine \<Rightarrow> supplier_product \<Rightarrow> database \<Rightarrow> candidate list" where
  "find_candidates U S store e p d =
     (let parts = supplier_parts U p;
          claimed = claimed_store_products store e d;
          rejected = rejected_pairs (sp_id p) d;
          current = (case existing_mapping (sp_id p) d of
                       None \<Rightarrow> None | Some m \<Rightarrow> pm_store_product_id m);
          scored = filter (\<lambda>c. 0 < cd_score c)
                     (map (candidate_of U parts)
                        (filter (eligible rejected claimed current) (shortlist U store parts d)))
      in take (match_max_candidates S) (sort_key (\<lambda>c. - cd_score c) scored))"

definition decide :: "settings \<Rightarrow> candidate list \<Rightarrow> mapping_status" where
  "decide S cs =
     (case cs of
        [] \<Rightarrow> UNMATCHED
      | best # rest \<Rightarrow>
          if cd_score best < fl (match_review_score S) then UNMATCHED
          else if fl (match_auto_accept_score S) \<le> cd_score best
          then (case rest of
                  [] \<Rightarrow> AUTO
                | second # _ \<Rightarrow>
                    if fl (cd_score best - fl (2 / 100)) \<le> cd_score second then PENDING else AUTO)
          else PENDING)"

definition evaluate ::
  "unicode \<Rightarrow> settings \<Rightarrow> ustr \<Rightarrow> engine \<Rightarrow> supplier_product \<Rightarrow> database \<Rightarrow> match_outcome" where
  "evaluate U S store e p d =
     (let cs = find_candidates U S store e p d
      in \<lparr>mo_supplier_product_id = sp_id p, mo_status = decide S cs,
          mo_best = (case cs of [] \<Rightarrow> None | c # _ \<Rightarrow> Some c), mo_candidates = cs,
          mo_method = lit ''auto-title-v1''\<rparr>)"

section \<open>Recording the decision\<close>

text \<open>A mapping row as the constructor leaves it; the column defaults are applied at the flush.\<close>

definition new_mapping :: "ustr \<Rightarrow> nat \<Rightarrow> nat \<Rightarrow> product_mapping" where
  "new_mapping store i p =
     \<lparr>pm_id = i, pm_supplier_product_id = p, pm_store_code = store, pm_store_product_id = None,
      pm_status = PENDING, pm_score = None, pm_method = None, pm_candidates = [],
      pm_markup_percent_override = None, pm_fixed_price_override = None, pm_sync_enabled = True,
      pm_reviewed_by = None, pm_reviewed_at = None, pm_note = None\<rparr>"

definition decided :: "match_outcome \<Rightarrow> product_mapping \<Rightarrow> product_mapping" where
  "decided out m =
     m\<lparr>pm_candidates := map as_json (mo_candidates out), pm_method := Some (mo_method out),
       pm_store_product_id := map_option cd_store_product_id (mo_best out),
       pm_score := map_option cd_score (mo_best out), pm_status := mo_status out\<rparr>"

definition claim_product :: "match_outcome \<Rightarrow> product_mapping \<Rightarrow> nat list \<Rightarrow> nat list" where
  "claim_product out m claimed =
     (case pm_store_product_id m of
        Some s \<Rightarrow> if mo_status out \<in> {AUTO, PENDING} then s # claimed else claimed
      | None \<Rightarrow> claimed)"

definition set_mapping :: "product_mapping \<Rightarrow> ('w, unit) work" where
  "set_mapping m = wmodify (\<lambda>d. d\<lparr>product_mappings := put_row pm_id m (product_mappings d)\<rparr>)"

definition add_mapping :: "product_mapping \<Rightarrow> ('w, unit) work" where
  "add_mapping m = wmodify (\<lambda>d. d\<lparr>product_mappings := product_mappings d @ [m]\<rparr>)"

definition apply_outcome ::
  "ustr \<Rightarrow> supplier_product \<Rightarrow> match_outcome \<Rightarrow> engine \<Rightarrow> ('w, product_mapping \<times> engine) work" where
  "apply_outcome store p out e =
     wbind (wread (\<lambda>d. (existing_mapping (sp_id p) d, fresh_id pm_id (product_mappings d),
                          claimed_store_products store e d))) (\<lambda>(old, i, claimed).
       case old of
         Some m \<Rightarrow>
           if pm_status m \<in> {APPROVED, REJECTED} then wret (m, e)
           else wthen (set_mapping (decided out m)) (wthen wflush
             (wret (decided out m, Some (claim_product out (decided out m) claimed))))
       | None \<Rightarrow>
           (let m = decided out (new_mapping store i (sp_id p))
            in wthen (add_mapping m) (wthen wflush
                 (wret (m, Some (claim_product out m claimed))))))"

text \<open>The statement of \<open>run\<close>: the products that need a match.\<close>

definition needs_match :: "bool \<Rightarrow> database \<Rightarrow> supplier_product \<Rightarrow> bool" where
  "needs_match only_unmapped d p \<longleftrightarrow>
     sp_is_active p
     \<and> (only_unmapped \<longrightarrow>
          (case existing_mapping (sp_id p) d of
             None \<Rightarrow> True | Some m \<Rightarrow> pm_status m \<in> {UNMATCHED, PENDING}))"

definition to_match :: "nat option \<Rightarrow> bool \<Rightarrow> database \<Rightarrow> supplier_product list" where
  "to_match limit only_unmapped d =
     (let ps = filter (needs_match only_unmapped d) (supplier_products d)
      in case limit of None \<Rightarrow> ps | Some n \<Rightarrow> if n = 0 then ps else take n ps)"

definition status_counter :: "mapping_status \<Rightarrow> string" where
  "status_counter st =
     (case st of AUTO \<Rightarrow> ''auto'' | PENDING \<Rightarrow> ''pending'' | _ \<Rightarrow> ''unmatched'')"

text \<open>
  The body of the loop. The cache of claimed products is filled by the first evaluation; after
  that only \<open>apply\<close> changes it.
\<close>

definition match_one ::
  "unicode \<Rightarrow> settings \<Rightarrow> ustr \<Rightarrow> supplier_product \<Rightarrow> stats \<times> engine \<Rightarrow> ('w, stats \<times> engine) work" where
  "match_one U S store p se =
     wbind (wread (\<lambda>d. (claimed_store_products store (snd se) d,
                          evaluate U S store (snd se) p d))) (\<lambda>(claimed, out).
     wbind (apply_outcome store p out (Some claimed)) (\<lambda>(m, e).
       wret (stat_add (status_counter (mo_status out)) 1 (stat_add ''examined'' 1 (fst se)), e)))"

definition zero_counters :: stats where
  "zero_counters = [(''examined'', 0), (''auto'', 0), (''pending'', 0), (''unmatched'', 0)]"

definition match_run ::
  "unicode \<Rightarrow> settings \<Rightarrow> ustr \<Rightarrow> nat option \<Rightarrow> bool \<Rightarrow> ('w, stats) work" where
  "match_run U S store limit only_unmapped =
     wbind (wread (to_match limit only_unmapped)) (\<lambda>ps.
     wbind (wfold (match_one U S store) ps (zero_counters, None)) (\<lambda>se.
       wret (fst se)))"

section \<open>Review\<close>

definition mapping_text :: "nat \<Rightarrow> ustr" where
  "mapping_text i = lit ''mapping '' @ digits_of i @ lit '' not found''"

definition mapping_by_id :: "nat \<Rightarrow> database \<Rightarrow> product_mapping option" where
  "mapping_by_id i d = find_row (\<lambda>m. pm_id m = i) (product_mappings d)"

definition clash_of :: "product_mapping \<Rightarrow> nat \<Rightarrow> database \<Rightarrow> product_mapping option" where
  "clash_of m s d =
     find_row (\<lambda>x. pm_store_code x = pm_store_code m \<and> pm_store_product_id x = Some s
                    \<and> pm_id x \<noteq> pm_id m \<and> pm_status x \<in> {AUTO, APPROVED}) (product_mappings d)"

definition reviewed ::
  "mapping_status \<Rightarrow> ustr \<Rightarrow> timestamp \<Rightarrow> ustr option \<Rightarrow> product_mapping \<Rightarrow> product_mapping" where
  "reviewed st by now note m =
     m\<lparr>pm_status := st, pm_reviewed_by := Some by, pm_reviewed_at := Some now,
       pm_note := (if truthy note then note else pm_note m)\<rparr>"

text \<open>The block under \<open>if store_product_id is not None\<close>.\<close>

definition take_override :: "product_mapping \<Rightarrow> nat option \<Rightarrow> ('w, product_mapping) work" where
  "take_override m store_product =
     (case store_product of
        None \<Rightarrow> wret m
      | Some s \<Rightarrow>
          wbind (wread (clash_of m s)) (\<lambda>clash.
            case clash of
              None \<Rightarrow> wret (m\<lparr>pm_store_product_id := Some s\<rparr>)
            | Some x \<Rightarrow>
                wraise (PyValueError
                  (lit ''store product '' @ digits_of s
                   @ lit '' is already mapped by mapping '' @ digits_of (pm_id x)))))"

definition approve ::
  "'w runtime \<Rightarrow> nat \<Rightarrow> nat option \<Rightarrow> ustr \<Rightarrow> ustr option \<Rightarrow> ('w, product_mapping) work" where
  "approve R i store_product by note =
     wbind (wread (mapping_by_id i)) (\<lambda>found.
       case found of
         None \<Rightarrow> wraise (PyLookupError (mapping_text i))
       | Some m \<Rightarrow>
           wbind (take_override m store_product) (\<lambda>m.
           if pm_store_product_id m = None
           then wraise (PyValueError (lit ''cannot approve a mapping with no store product''))
           else wbind (wtime (utcnow R)) (\<lambda>now.
                wthen (set_mapping (reviewed APPROVED by now note m)) (wthen wflush
                  (wret (reviewed APPROVED by now note m))))))"

definition reject :: "'w runtime \<Rightarrow> nat \<Rightarrow> ustr \<Rightarrow> ustr option \<Rightarrow> ('w, product_mapping) work" where
  "reject R i by note =
     wbind (wread (mapping_by_id i)) (\<lambda>found.
       case found of
         None \<Rightarrow> wraise (PyLookupError (mapping_text i))
       | Some m \<Rightarrow>
           wbind (wtime (utcnow R)) (\<lambda>now.
           wthen (set_mapping (reviewed REJECTED by now note m)) (wthen wflush
             (wret (reviewed REJECTED by now note m)))))"


section \<open>What a score means\<close>

text \<open>Two optional texts agree unless both are stated and differ.\<close>

definition agrees :: "ustr option \<Rightarrow> ustr option \<Rightarrow> bool" where
  "agrees x y \<longleftrightarrow> (\<forall>a b. x = Some a \<and> y = Some b \<and> a \<noteq> [] \<and> b \<noteq> [] \<longrightarrow> a = b)"

definition compatible :: "title_parts \<Rightarrow> title_parts \<Rightarrow> bool" where
  "compatible p s \<longleftrightarrow>
     agrees (tp_platform p) (tp_platform s) \<and> agrees (tp_edition p) (tp_edition s)
     \<and> (agrees (tp_region p) (tp_region s)
         \<or> tp_region p = Some (lit ''GLOBAL'') \<or> tp_region s = Some (lit ''GLOBAL''))
     \<and> (\<forall>a c a' c'. tp_denomination p = Some (a, c) \<and> tp_denomination s = Some (a', c')
            \<longrightarrow> \<bar>fl (a - a')\<bar> \<le> fl (1 / 1000) \<and> agrees c c')"

lemma stated_differently_iff: "stated_differently x y \<longleftrightarrow> \<not> agrees x y"
  by (auto simp: stated_differently_def agrees_def truthy_iff)

lemma agrees_refl [simp]: "agrees x x"
  by (auto simp: agrees_def)

lemma jaccard_bounds: "0 \<le> jaccard a b \<and> jaccard a b \<le> 1"
proof -
  have "length (filter (\<lambda>t. t \<in> set b) (remdups a)) \<le> card (set (a @ b))"
  proof -
    have "length (filter (\<lambda>t. t \<in> set b) (remdups a)) \<le> length (remdups a)" by simp
    also have "\<dots> = card (set a)" by (simp add: length_remdups_card_conv)
    also have "\<dots> \<le> card (set (a @ b))" by (intro card_mono) auto
    finally show ?thesis .
  qed
  then show ?thesis unfolding jaccard_def
    by (auto simp: length_remdups_card_conv divide_le_eq_1 card_gt_0_iff intro!: dbl.rnd_unit[THEN conjunct1]
        dbl.rnd_unit[THEN conjunct2])
qed

lemma jaccard_self: "a \<noteq> [] \<Longrightarrow> jaccard a a = 1"
proof -
  assume "a \<noteq> []"
  moreover have "filter (\<lambda>t. t \<in> set a) (remdups a) = remdups a" by (simp add: filter_True)
  moreover have "length (remdups (a @ a)) = length (remdups a)"
    by (simp add: length_remdups_card_conv)
  ultimately show ?thesis by (simp add: jaccard_def)
qed

lemma region_score_ge: "fl (1 / 2) \<le> region_score p s"
proof -
  have "fl (1 / 2) \<le> fl (6 / 10)" "fl (1 / 2) \<le> 1"
    using dbl.rnd_mono[of "1 / 2" "6 / 10"] dbl.rnd_unit[of "1 / 2"] by simp_all
  then show ?thesis by (simp add: region_score_def)
qed

lemma platform_score_nonneg: "0 \<le> platform_score p s"
  using dbl.rnd_unit[of "1 / 2"] by (simp add: platform_score_def)

lemma platform_score_self: "fl (1 / 2) \<le> platform_score p p"
  using dbl.rnd_unit[of "1 / 2"] by (simp add: platform_score_def)

text \<open>The score grows with each of its parts.\<close>

definition weighted :: "rat \<Rightarrow> rat \<Rightarrow> rat \<Rightarrow> rat \<Rightarrow> rat" where
  "weighted t q r f =
     fl (fl (fl (fl (W_TOKEN_OVERLAP * t) + fl (W_SEQUENCE * q)) + fl (W_REGION * r))
         + fl (W_PLATFORM * f))"

lemma weights_nonneg: "0 \<le> W_TOKEN_OVERLAP" "0 \<le> W_SEQUENCE" "0 \<le> W_REGION" "0 \<le> W_PLATFORM"
  by (simp_all add: weight_defs dbl.rnd_nonneg)

lemma weighted_mono:
  "0 \<le> t \<Longrightarrow> t \<le> t' \<Longrightarrow> 0 \<le> q \<Longrightarrow> q \<le> q' \<Longrightarrow> 0 \<le> r \<Longrightarrow> r \<le> r' \<Longrightarrow> 0 \<le> f \<Longrightarrow> f \<le> f'
    \<Longrightarrow> weighted t q r f \<le> weighted t' q' r' f'"
  unfolding weighted_def using weights_nonneg
  by (intro dbl.rnd_add_mono dbl.rnd_mult_mono) auto

lemma soft_score_weighted:
  "soft_score p s = weighted (jaccard (tp_tokens p) (tp_tokens s)) (ratio (tp_core p) (tp_core s))
     (region_score p s) (platform_score p s)"
  by (simp add: soft_score_def weighted_def)

lemma weighted_ge:
  assumes "0 \<le> t" "0 \<le> q" "0 \<le> r" "0 \<le> f"
  shows "(55 / 100 * t + 30 / 100 * q + 10 / 100 * r + 5 / 100 * f) * (99999 / 100000)
      \<le> weighted t q r f"
proof -
  let ?c = "999999 / 1000000 :: rat"
  have w: "x * y * ?c * ?c \<le> fl (fl x * y)" if "0 \<le> x" "0 \<le> y" for x y :: rat
  proof -
    have "x * ?c * y \<le> fl x * y" using fl_slack(2)[of x] that by (intro mult_right_mono) auto
    moreover have "fl x * y * ?c \<le> fl (fl x * y)" using that by (intro fl_slack) (simp add: dbl.rnd_nonneg)
    ultimately show ?thesis by (simp add: mult.assoc mult.left_commute mult.commute)
  qed
  have add: "(x + y) * ?c \<le> fl (x' + y')" if "x \<le> x'" "y \<le> y'" "0 \<le> x" "0 \<le> y" for x y x' y' :: rat
    using fl_slack(2)[of "x' + y'"] that mult_right_mono[of "x + y" "x' + y'" ?c] by simp
  have "(((55 / 100 * t * ?c * ?c + 30 / 100 * q * ?c * ?c) * ?c + 10 / 100 * r * ?c * ?c) * ?c
      + 5 / 100 * f * ?c * ?c) * ?c \<le> weighted t q r f"
    unfolding weighted_def weight_defs using assms
    by (intro add w) simp_all
  moreover have "(55 / 100 * t + 30 / 100 * q + 10 / 100 * r + 5 / 100 * f) * (99999 / 100000)
    \<le> (((55 / 100 * t * ?c * ?c + 30 / 100 * q * ?c * ?c) * ?c + 10 / 100 * r * ?c * ?c) * ?c
      + 5 / 100 * f * ?c * ?c) * ?c"
    using assms by (simp add: add_divide_distrib)
  ultimately show ?thesis by linarith
qed

lemma half_double: "fl (1 / 2) = 1 / 2"
  by (rule fl_exact[of _ 1 "- 1"]) (simp_all add: power_int_minus)

lemma weighted_lowest: "0 < weighted 0 0 (fl (1 / 2)) 0"
  using weighted_ge[of 0 0 "1 / 2" 0] by (simp add: half_double)

lemma weighted_agreeing: "fl (92 / 100) \<le> weighted 1 1 (fl (1 / 2)) (fl (1 / 2))"
  using weighted_ge[of 1 1 "1 / 2" "1 / 2"] fl_slack(1)[of "92 / 100"] by (simp add: half_double)

lemma soft_score_pos: "0 < soft_score p s"
proof -
  have "weighted 0 0 (fl (1 / 2)) 0 \<le> soft_score p s"
    unfolding soft_score_weighted
    using jaccard_bounds ratio_bounds region_score_ge platform_score_nonneg dbl.rnd_unit[of "1 / 2"]
    by (intro weighted_mono) auto
  with weighted_lowest show ?thesis by linarith
qed

lemma score_pair_gates:
  "0 \<le> fst (score_pair p s) \<and> fst (score_pair p s) \<le> 1
   \<and> (0 < fst (score_pair p s) \<longleftrightarrow> compatible p s)"
proof -
  have d: "denominations_conflict (tp_denomination p) (tp_denomination s) \<longleftrightarrow>
     \<not> (\<forall>a c a' c'. tp_denomination p = Some (a, c) \<and> tp_denomination s = Some (a', c')
            \<longrightarrow> \<bar>fl (a - a')\<bar> \<le> fl (1 / 1000) \<and> agrees c c')"
    by (auto simp: denominations_conflict_def stated_differently_iff not_le[symmetric]
        split: option.splits)
  have "0 < min 1 (soft_score p s)" "min 1 (soft_score p s) \<le> 1" using soft_score_pos by auto
  then show ?thesis unfolding score_pair_def compatible_def d stated_differently_iff by auto
qed

text \<open>
  C19: A pair of titles scores between 0 and 1, and it scores above 0 exactly when nothing they
  both state contradicts: face values within a tenth of a cent and in the same currency, the
  same platform and edition, and the same region unless one side is global. So a candidate,
  which needs a positive score, never crosses a hard gate, and the gates are the only way to
  score 0. The text part of the score counts the characters of a common subsequence.
\<close>
theorem positive_score_iff_compatible:
  "0 \<le> fst (score_pair p s) \<and> fst (score_pair p s) \<le> 1
   \<and> (0 < fst (score_pair p s) \<longleftrightarrow> compatible p s)
   \<and> (\<exists>c. subseq c (tp_core p) \<and> subseq c (tp_core s)
        \<and> matched (popular_in (tp_core s)) (tp_core p) (tp_core s) = length c)"
  using score_pair_gates[of p s] matched_subseq[of "tp_core p" "tp_core s"] by metis

lemma same_title_score:
  assumes "tp_tokens p \<noteq> []" "length (tp_core p) < 200"
  shows "fl (match_auto_accept_score default_settings) \<le> fst (score_pair p p)"
proof -
  have "fl (92 / 100) \<le> soft_score p p"
    using weighted_agreeing weighted_mono[of 1 1 1 1 "fl (1 / 2)" "region_score p p" "fl (1 / 2)"
        "platform_score p p"] region_score_ge[of p p] platform_score_self[of p] dbl.rnd_unit[of "1 / 2"]
      jaccard_self[OF assms(1)] ratio_self[OF assms(2)]
    by (simp add: soft_score_weighted)
  moreover have "fl (92 / 100) \<le> 1" "0 \<le> fl (1 / 1000)"
    using dbl.rnd_unit[of "92 / 100"] dbl.rnd_unit[of "1 / 1000"] by simp_all
  ultimately show ?thesis
    by (auto simp: score_pair_def denominations_conflict_def stated_differently_iff
        default_settings_def split: option.split)
qed

text \<open>
  Two titles that parse to the same parts are accepted without review under the default
  settings, even when neither states a region or a platform, provided the name has a token
  and fewer than 200 characters.
\<close>
theorem same_title_reaches_auto_accept:
  assumes "tp_tokens p \<noteq> []" "length (tp_core p) < 200"
  shows "fl (match_auto_accept_score default_settings) \<le> fst (score_pair p p)"
  by (rule same_title_score[OF assms])

definition plain_parts :: title_parts where
  "plain_parts =
     \<lparr>tp_core = lit ''elden ring'', tp_platform = None, tp_region = None, tp_denomination = None,
      tp_tokens = [lit ''elden'', lit ''ring''], tp_edition = None\<rparr>"

theorem same_title_reaches_auto_accept_witness:
  "fl (match_auto_accept_score default_settings) \<le> fst (score_pair plain_parts plain_parts)"
  by (rule same_title_reaches_auto_accept) (simp_all add: plain_parts_def lit_def)


section \<open>What the engine proposes\<close>

lemma gather_subset: "s \<in> set (gather rows as found) \<Longrightarrow> s \<in> set rows \<or> s \<in> set found"
proof (induction rows as found rule: gather.induct)
  case (2 rows a as found)
  let ?hits = "take 400 (filter (\<lambda>s. like ([37] @ a @ [37]) (st_name_normalized s)) rows)"
  have hits: "set ?hits \<subseteq> set rows" by (meson filter_is_subset order_trans set_take_subset)
  have "set (fold add_row hs f) \<subseteq> set f \<union> set hs" for hs f
  proof (induction hs arbitrary: f)
    case (Cons h hs)
    from Cons.IH[of "add_row h f"] show ?case by (auto simp: add_row_def split: if_splits)
  qed simp
  then have f: "set (fold add_row ?hits found) \<subseteq> set found \<union> set rows" using hits by blast
  show ?case
  proof (cases "400 \<le> length (fold add_row ?hits found)")
    case True
    with "2.prems" f show ?thesis by (auto simp: Let_def)
  next
    case False
    with "2.prems" "2.IH"[OF refl refl False] f show ?thesis by (auto simp: Let_def)
  qed
qed simp

lemma shortlist_subset:
  "s \<in> set (shortlist U store parts d) \<Longrightarrow> s \<in> set (store_products d) \<and> st_store_code s = store"
  unfolding shortlist_def Let_def by (auto split: if_splits dest!: gather_subset)

lemma candidate_origin:
  assumes "c \<in> set (find_candidates U S store e p d)"
  obtains s where "s \<in> set (store_products d)" "st_store_code s = store"
    "c = candidate_of U (supplier_parts U p) s" "0 < cd_score c"
    "eligible (rejected_pairs (sp_id p) d) (claimed_store_products store e d)
       (case existing_mapping (sp_id p) d of None \<Rightarrow> None | Some m \<Rightarrow> pm_store_product_id m) s"
  using assms unfolding find_candidates_def Let_def
  by (auto dest!: in_set_takeD shortlist_subset)

lemma candidate_score: "cd_score (candidate_of U parts s) = fst (score_pair parts (store_parts U s))"
  and candidate_product: "cd_store_product_id (candidate_of U parts s) = st_id s"
  by (simp_all add: candidate_of_def split: prod.split)

lemma candidates_sorted:
  "sorted (map (\<lambda>c. - cd_score c) (find_candidates U S store e p d))"
  unfolding find_candidates_def Let_def by (simp add: sorted_wrt_take flip: take_map)

lemma candidates_limit: "length (find_candidates U S store e p d) \<le> match_max_candidates S"
  unfolding find_candidates_def Let_def by simp

lemma set_map_filter_Some:
  "x \<in> set (List.map_filter f xs) \<longleftrightarrow> (\<exists>y \<in> set xs. f y = Some x)"
  by (force simp: List.map_filter_def)

lemma in_claimed_of:
  "s \<in> set (claimed_of store d) \<longleftrightarrow>
    (\<exists>m \<in> set (product_mappings d). pm_store_code m = store \<and> pm_status m \<in> {AUTO, APPROVED, PENDING}
       \<and> pm_store_product_id m = Some s)"
  unfolding claimed_of_def set_map_filter_Some by (auto split: if_splits)

lemma in_rejected_pairs:
  "s \<in> set (rejected_pairs i d) \<longleftrightarrow>
    (\<exists>m \<in> set (product_mappings d). pm_supplier_product_id m = i \<and> pm_status m = REJECTED
       \<and> pm_store_product_id m = Some s)"
  unfolding rejected_pairs_def set_map_filter_Some by (auto split: if_splits)



section \<open>A small catalogue\<close>

text \<open>
  One supplier SKU and one store product with the same one-word title; the store product sits
  in the bucket its title parses to.
\<close>

definition g2a :: ustr where "g2a = lit ''g2a''"

definition lone_parts :: title_parts where
  "lone_parts =
     \<lparr>tp_core = [55], tp_platform = None, tp_region = None, tp_denomination = None,
      tp_tokens = [[55]], tp_edition = None\<rparr>"

definition lone_sku :: supplier_product where
  "lone_sku =
     \<lparr>sp_id = 1, sp_supplier_id = 1, sp_kind = GAME_KEY, sp_category_ext_id = [],
      sp_offer_ext_id = [49], sp_category_name = None, sp_name = [55], sp_name_normalized = [55],
      sp_region = None, sp_platform = None, sp_region_restricted = False, sp_price_supplier = 10,
      sp_supplier_currency = lit ''USD'', sp_stock = 3, sp_min_order_quantity = 1,
      sp_max_order_quantity = 1, sp_content_hash = [], sp_raw = JObj [], sp_is_active = True,
      sp_missing_runs = 0, sp_last_seen_at = 0\<rparr>"

definition lone_product :: store_product where
  "lone_product =
     \<lparr>st_id = 7, st_store_code = g2a, st_product_ext_id = [50], st_name = [55],
      st_name_normalized = [55], st_match_key = match_key lone_parts, st_slug = None,
      st_product_type = None, st_region = None, st_platform = None, st_qty = 1,
      st_min_price = None, st_retail_min_price = None, st_available_to_buy = True,
      st_price_limit_min = None, st_price_limit_max = None, st_remote_updated_at = None,
      st_raw = JObj [], st_synced_at = 0\<rparr>"

definition lone_db :: "product_mapping list \<Rightarrow> database" where
  "lone_db ms = empty_database\<lparr>supplier_products := [lone_sku], store_products := [lone_product],
     product_mappings := ms\<rparr>"

text \<open>A mapping of another SKU that was rejected on that product, and one that was approved.\<close>

definition other_mapping :: "mapping_status \<Rightarrow> product_mapping" where
  "other_mapping st = (new_mapping g2a 1 2)\<lparr>pm_store_product_id := Some 7, pm_status := st\<rparr>"

lemma lone_title: "parse_title ascii_db [55] = lone_parts"
proof -
  have "extract_platform ascii_db [55] = None" "extract_region ascii_db [55] = None"
    "extract_denomination ascii_db [55] = None" "extract_edition ascii_db [55] = None"
    by code_simp+
  moreover have "strip_noise ascii_db [55] = [55]" by code_simp
  moreover have "fold (\<lambda>(roman, arabic). replace_str (lit roman) (lit arabic)) ROMAN
      (padded (basic_normalize ascii_db [55])) = [32, 55, 32]" by code_simp
  moreover have "strip_by (space ascii_db) [32, 55, 32] = [55]"
    "words ascii_db [55] = [[55]]" "all_digits ascii_db [55]" by code_simp+
  ultimately show ?thesis by (simp add: parse_title_def Let_def lone_parts_def)
qed

lemma lone_supplier_parts: "supplier_parts ascii_db lone_sku = lone_parts"
  and lone_store_parts: "store_parts ascii_db lone_product = lone_parts"
proof -
  have "extract_platform ascii_db [] = None" "upper ascii_db (strip_by (space ascii_db) []) = []"
    by code_simp+
  then have "parse_title_with ascii_db [55] None None = lone_parts"
    by (simp add: parse_title_with_def lone_title Let_def) (simp add: lone_parts_def)
  then show "supplier_parts ascii_db lone_sku = lone_parts"
    "store_parts ascii_db lone_product = lone_parts"
    by (simp_all add: supplier_parts_def store_parts_def lone_sku_def lone_product_def)
qed

lemma lone_db_ok: "ms \<in> {[], [other_mapping st]} \<Longrightarrow> database_ok (lone_db ms)"
  by (auto simp: lone_db_def database_ok_def empty_database_def supplier_products_ok_def
      store_products_ok_def mappings_ok_def offers_ok_def idempotency_ok_def constraint_defs
      lone_sku_def other_mapping_def new_mapping_def)

lemma lone_score: "fl (92 / 100) \<le> fst (score_pair lone_parts lone_parts)"
  using same_title_score[of lone_parts] by (simp add: lone_parts_def default_settings_def)

lemma lone_candidates:
  assumes "claimed_store_products g2a e (lone_db ms) = []" "rejected_pairs 1 (lone_db ms) = []"
  shows "find_candidates ascii_db default_settings g2a e lone_sku (lone_db ms)
    = [candidate_of ascii_db lone_parts lone_product]"
proof -
  have "0 < fl (92 / 100)" by (rule fl_pos) simp
  with lone_score have "0 < cd_score (candidate_of ascii_db lone_parts lone_product)"
    by (simp add: candidate_score lone_store_parts)
  moreover have "shortlist ascii_db g2a lone_parts (lone_db ms) = [lone_product]"
    by (simp add: shortlist_def lone_db_def) (simp add: lone_product_def)
  ultimately show ?thesis using assms
    by (simp add: find_candidates_def Let_def lone_supplier_parts eligible_def default_settings_def)
      (simp add: lone_sku_def)
qed

lemma lone_evaluate:
  assumes "claimed_store_products g2a e (lone_db ms) = []" "rejected_pairs 1 (lone_db ms) = []"
  shows "mo_status (evaluate ascii_db default_settings g2a e lone_sku (lone_db ms)) = AUTO
    \<and> mo_best (evaluate ascii_db default_settings g2a e lone_sku (lone_db ms))
        = Some (candidate_of ascii_db lone_parts lone_product)"
proof -
  have "fl (7 / 10) \<le> fl (92 / 100)" by (rule dbl.rnd_mono) simp
  with lone_score lone_candidates[OF assms] show ?thesis
    by (simp add: evaluate_def Let_def decide_def candidate_score lone_store_parts default_settings_def)
qed

lemma lone_claims:
  "claimed_store_products g2a None (lone_db []) = []" "rejected_pairs 1 (lone_db []) = []"
  "claimed_store_products g2a None (lone_db [other_mapping REJECTED]) = []"
  "rejected_pairs 1 (lone_db [other_mapping REJECTED]) = []"
  by (simp_all add: claimed_store_products_def claimed_of_def rejected_pairs_def lone_db_def
      other_mapping_def new_mapping_def List.map_filter_def)


end
