(* ===== verification/Match_Run.thy ===== *)
theory Match_Run
  imports Matching
begin

text \<open>
  The effects of the matching engine on the mapping table: when recording a decision succeeds,
  what a run over the catalogue keeps, and the review operations \<open>approve\<close> and \<open>reject\<close>.
\<close>

section \<open>The mapping table\<close>

abbreviation mappings_put :: "database \<Rightarrow> product_mapping \<Rightarrow> database" where
  "mappings_put d m \<equiv> d\<lparr>product_mappings := put_row pm_id m (product_mappings d)\<rparr>"

abbreviation mappings_add :: "database \<Rightarrow> product_mapping \<Rightarrow> database" where
  "mappings_add d m \<equiv> d\<lparr>product_mappings := product_mappings d @ [m]\<rparr>"

text \<open>Some other mapping holds the store product of \<open>m\<close>.\<close>

definition product_taken :: "product_mapping \<Rightarrow> database \<Rightarrow> bool" where
  "product_taken m d \<longleftrightarrow>
     (\<exists>x \<in> set (product_mappings d). pm_id x \<noteq> pm_id m \<and> pm_store_product_id m \<noteq> None
        \<and> pm_store_code x = pm_store_code m \<and> pm_store_product_id x = pm_store_product_id m)"

lemma mappings_change_ok:
  "database_ok d \<Longrightarrow> database_ok (d\<lparr>product_mappings := ms\<rparr>) \<longleftrightarrow> mappings_ok ms"
  by (simp add: database_ok_def)

lemma database_mappings_ok: "database_ok d \<Longrightarrow> mappings_ok (product_mappings d)"
  by (simp add: database_ok_def)

lemma uq_mapping_Some:
  "uq_mapping_store_product m = Some k \<longleftrightarrow> pm_store_product_id m = Some (snd k) \<and> pm_store_code m = fst k"
  by (cases k) (auto simp: uq_mapping_store_product_def)

lemma product_taken_key:
  "product_taken m d \<longleftrightarrow> (\<exists>x \<in> set (product_mappings d). pm_id x \<noteq> pm_id m
     \<and> (\<exists>k. uq_mapping_store_product x = Some k \<and> uq_mapping_store_product m = Some k))"
  by (cases "pm_store_product_id m") (auto simp: product_taken_def uq_mapping_store_product_def)

lemma put_mapping_ok:
  assumes "database_ok d" "m0 \<in> set (product_mappings d)" "pm_id m = pm_id m0"
    and "pm_supplier_product_id m = pm_supplier_product_id m0"
  shows "database_ok (mappings_put d m) \<longleftrightarrow> \<not> product_taken m d"
proof -
  let ?ms = "product_mappings d"
  have ok: "distinct (map pm_id ?ms)" "uniq uq_mapping_supplier_product ?ms"
    "uniq uq_mapping_store_product ?ms"
    using database_mappings_ok[OF assms(1)] by (simp_all add: mappings_ok_def)
  have sup: "uniq uq_mapping_supplier_product (put_row pm_id m ?ms)"
  proof (rule uniq_put_row[OF ok(2,1)])
    fix x k
    assume x: "x \<in> set ?ms" "pm_id x \<noteq> pm_id m" "uq_mapping_supplier_product m = Some k"
    then have "x \<noteq> m0" using assms(3) by auto
    with uniqD[OF ok(2) x(1) assms(2)] x(3) assms(4)
    show "uq_mapping_supplier_product x \<noteq> Some k" by (auto simp: uq_mapping_supplier_product_def)
  qed
  have "uniq uq_mapping_store_product (put_row pm_id m ?ms) \<longleftrightarrow> \<not> product_taken m d"
  proof
    assume u: "uniq uq_mapping_store_product (put_row pm_id m ?ms)"
    show "\<not> product_taken m d"
    proof
      assume "product_taken m d"
      then obtain x s where x: "x \<in> set ?ms" "pm_id x \<noteq> pm_id m" "pm_store_product_id m = Some s"
        "pm_store_code x = pm_store_code m" "pm_store_product_id x = Some s"
        by (auto simp: product_taken_def)
      have "x \<in> set (put_row pm_id m ?ms)" using x by (intro put_row_other)
      moreover have "m \<in> set (put_row pm_id m ?ms)"
        using assms(2,3) by (intro put_row_hit bexI[of _ m0]) simp_all
      ultimately have "x = m" using uniqD[OF u] x
        by (metis (no_types, lifting) option.map(2) uq_mapping_store_product_def)
      with x(2) show False by simp
    qed
  next
    assume n: "\<not> product_taken m d"
    show "uniq uq_mapping_store_product (put_row pm_id m ?ms)"
      by (rule uniq_put_row[OF ok(3,1)])
        (use n in \<open>force simp: product_taken_def uq_mapping_Some\<close>)
  qed
  with ok(1) sup show ?thesis
    by (simp add: mappings_change_ok[OF assms(1)] mappings_ok_def)
qed

lemma add_mapping_ok:
  assumes "database_ok d" "pm_id m \<notin> pm_id ` set (product_mappings d)"
    and "\<forall>x \<in> set (product_mappings d). pm_supplier_product_id x \<noteq> pm_supplier_product_id m"
  shows "database_ok (mappings_add d m) \<longleftrightarrow> \<not> product_taken m d"
proof -
  let ?ms = "product_mappings d"
  have ok: "distinct (map pm_id ?ms)" "uniq uq_mapping_supplier_product ?ms"
    "uniq uq_mapping_store_product ?ms"
    using database_mappings_ok[OF assms(1)] by (simp_all add: mappings_ok_def)
  have key: "(\<forall>x \<in> set ?ms. \<forall>k. uq_mapping_store_product x = Some k
      \<longrightarrow> uq_mapping_store_product m \<noteq> Some k) \<longleftrightarrow> \<not> product_taken m d"
    using assms(2) unfolding product_taken_key by (metis imageI)
  have "uniq uq_mapping_store_product (?ms @ [m]) \<longleftrightarrow> \<not> product_taken m d"
    unfolding uniq_append using ok(3) key by simp
  moreover have "uniq uq_mapping_supplier_product (?ms @ [m])"
    unfolding uniq_append using ok(2) assms(3) by (auto simp: uq_mapping_supplier_product_def)
  moreover have "distinct (map pm_id (?ms @ [m]))" using ok(1) assms(2) by simp
  ultimately show ?thesis by (simp add: mappings_change_ok[OF assms(1)] mappings_ok_def)
qed

section \<open>What recording a decision does\<close>

definition settled :: "product_mapping \<Rightarrow> bool" where
  "settled m \<longleftrightarrow> pm_status m \<in> {APPROVED, REJECTED}"

text \<open>The row a decision is written to, and the database with it.\<close>

definition recorded :: "ustr \<Rightarrow> supplier_product \<Rightarrow> match_outcome \<Rightarrow> database \<Rightarrow> product_mapping" where
  "recorded store p out d =
     decided out (case existing_mapping (sp_id p) d of
                    Some m \<Rightarrow> m
                  | None \<Rightarrow> new_mapping store (fresh_id pm_id (product_mappings d)) (sp_id p))"

definition with_mapping :: "product_mapping \<Rightarrow> database \<Rightarrow> database" where
  "with_mapping m d =
     (if pm_id m \<in> pm_id ` set (product_mappings d) then mappings_put d m else mappings_add d m)"

lemma existing_mapping_Some:
  "existing_mapping i d = Some m \<Longrightarrow> m \<in> set (product_mappings d) \<and> pm_supplier_product_id m = i"
  unfolding existing_mapping_def by (rule find_row_Some)

lemma existing_mapping_unique:
  assumes "database_ok d" "m \<in> set (product_mappings d)"
  shows "existing_mapping (pm_supplier_product_id m) d = Some m"
proof (cases "existing_mapping (pm_supplier_product_id m) d")
  case None
  with assms(2) show ?thesis by (auto simp: existing_mapping_def find_row_None)
next
  case (Some m')
  have "uniq uq_mapping_supplier_product (product_mappings d)"
    using database_mappings_ok[OF assms(1)] by (simp add: mappings_ok_def)
  from uniqD[OF this _ assms(2)] existing_mapping_Some[OF Some]
  have "m' = m" by (simp add: uq_mapping_supplier_product_def)
  with Some show ?thesis by simp
qed

lemma decided_simps [simp]:
  "pm_id (decided out m) = pm_id m" "pm_supplier_product_id (decided out m) = pm_supplier_product_id m"
  "pm_store_code (decided out m) = pm_store_code m" "pm_status (decided out m) = mo_status out"
  "pm_store_product_id (decided out m) = map_option cd_store_product_id (mo_best out)"
  by (simp_all add: decided_def)

lemma apply_settled:
  "existing_mapping (sp_id p) d = Some m \<Longrightarrow> settled m
    \<Longrightarrow> apply_outcome store p out e w d = (Inr (m, e), w, d)"
  by (simp add: apply_outcome_def wbind_def wread_def wret_def settled_def)

lemma fresh_mapping_id: "fresh_id pm_id (product_mappings d) \<notin> pm_id ` set (product_mappings d)"
  by (metis fresh_id_fresh imageE)

lemma recorded_ok:
  assumes "database_ok d"
  shows "database_ok (with_mapping (recorded store p out d) d) \<longleftrightarrow> \<not> product_taken (recorded store p out d) d"
proof (cases "existing_mapping (sp_id p) d")
  case None
  have "pm_id (recorded store p out d) \<notin> pm_id ` set (product_mappings d)"
    using None fresh_mapping_id by (simp add: recorded_def new_mapping_def)
  moreover have "\<forall>x \<in> set (product_mappings d).
      pm_supplier_product_id x \<noteq> pm_supplier_product_id (recorded store p out d)"
    using None find_row_None[of "\<lambda>m. pm_supplier_product_id m = sp_id p" "product_mappings d"]
    by (auto simp: recorded_def new_mapping_def existing_mapping_def)
  ultimately show ?thesis using add_mapping_ok[OF assms] by (simp add: with_mapping_def)
next
  case (Some m)
  from existing_mapping_Some[OF Some] put_mapping_ok[OF assms, of m "recorded store p out d"] Some
  show ?thesis by (auto simp: with_mapping_def recorded_def)
qed

lemma apply_recorded:
  assumes "database_ok d" "\<And>m. existing_mapping (sp_id p) d = Some m \<Longrightarrow> \<not> settled m"
  shows "apply_outcome store p out e w d =
    (let m = recorded store p out d
     in if product_taken m d then (Inl (IntegrityError ''constraint''), w, with_mapping m d)
        else (Inr (m, Some (claim_product out m (claimed_store_products store e d))), w, with_mapping m d))"
proof (cases "existing_mapping (sp_id p) d")
  case None
  let ?m = "decided out (new_mapping store (fresh_id pm_id (product_mappings d)) (sp_id p))"
  have r: "recorded store p out d = ?m" using None by (simp add: recorded_def)
  have "pm_id ?m \<notin> pm_id ` set (product_mappings d)"
    using fresh_mapping_id[of d] by (simp add: new_mapping_def)
  then have "with_mapping ?m d = mappings_add d ?m" by (simp only: with_mapping_def if_False)
  with None recorded_ok[OF assms(1), of store p out] show ?thesis unfolding r
    by (simp add: apply_outcome_def wbind_def wthen_def wread_def wret_def add_mapping_def wmodify_def
        wflush_def flush_def Let_def)
next
  case (Some m)
  have r: "recorded store p out d = decided out m" using Some by (simp add: recorded_def)
  have "with_mapping (decided out m) d = mappings_put d (decided out m)"
    using existing_mapping_Some[OF Some] by (simp add: with_mapping_def)
  with Some assms(2)[OF Some] recorded_ok[OF assms(1), of store p out] show ?thesis unfolding r
    by (simp add: apply_outcome_def wbind_def wthen_def wread_def wret_def set_mapping_def wmodify_def
        wflush_def flush_def Let_def settled_def)
qed


text \<open>
  Recording a decision for a product nobody reviewed writes exactly one row and fails only
  on the database's constraint: it raises exactly when another mapping, whatever its status,
  already holds the proposed store product.
\<close>
theorem decision_recorded_unless_taken:
  assumes "database_ok d" "\<And>m. existing_mapping (sp_id p) d = Some m \<Longrightarrow> \<not> settled m"
  shows "(\<exists>m e' d'. apply_outcome store p out e w d = (Inr (m, e'), w, d') \<and> database_ok d'
      \<and> existing_mapping (sp_id p) d' = Some m \<and> pm_status m = mo_status out
      \<and> pm_store_product_id m = map_option cd_store_product_id (mo_best out)
      \<and> product_mappings d' = product_mappings (with_mapping m d))
    \<longleftrightarrow> \<not> product_taken (recorded store p out d) d"
proof -
  let ?m = "recorded store p out d"
  have "?m \<in> set (product_mappings (with_mapping ?m d))"
    by (auto simp: with_mapping_def put_row_def image_iff)
  moreover have "pm_supplier_product_id ?m = sp_id p"
    using existing_mapping_Some by (auto simp: recorded_def new_mapping_def split: option.split)
  ultimately have "existing_mapping (sp_id p) (with_mapping ?m d) = Some ?m"
    if "database_ok (with_mapping ?m d)"
    using existing_mapping_unique[OF that] by metis
  with apply_recorded[where store = store and out = out and e = e and w = w, OF assms] recorded_ok[OF assms(1), of store p out]
  show ?thesis by (auto simp: Let_def recorded_def)
qed

theorem decision_recorded_unless_taken_witness:
  "(\<exists>m e' d'. apply_outcome g2a lone_sku (evaluate ascii_db default_settings g2a None lone_sku (lone_db [])) None ()
       (lone_db []) = (Inr (m, e'), (), d') \<and> pm_store_product_id m = Some 7 \<and> pm_status m = AUTO)"
proof -
  let ?out = "evaluate ascii_db default_settings g2a None lone_sku (lone_db [])"
  have ev: "mo_status ?out = AUTO" "map_option cd_store_product_id (mo_best ?out) = Some 7"
    using lone_evaluate[of None "[]"] lone_claims
    by (simp_all add: candidate_product) (simp add: lone_product_def)
  have "existing_mapping (sp_id lone_sku) (lone_db []) = None" "\<not> product_taken (recorded g2a lone_sku ?out (lone_db [])) (lone_db [])"
    by (simp_all add: existing_mapping_def find_row_def lone_db_def product_taken_def)
  with decision_recorded_unless_taken[of "lone_db []" lone_sku g2a ?out None "()"] lone_db_ok[of "[]"] ev
  show ?thesis by auto
qed

section \<open>A run over the catalogue\<close>

text \<open>
  Only the mapping table changes, and in it only rows of the products \<open>P\<close> that no human settled.
\<close>

definition mapping_frame :: "nat set \<Rightarrow> database \<Rightarrow> database \<Rightarrow> bool" where
  "mapping_frame P d d' \<longleftrightarrow> d' = d\<lparr>product_mappings := product_mappings d'\<rparr>
     \<and> (\<forall>m \<in> set (product_mappings d). settled m \<or> pm_supplier_product_id m \<notin> P
          \<longrightarrow> m \<in> set (product_mappings d'))"

lemma mapping_frame_refl [simp]: "mapping_frame P d d"
  by (simp add: mapping_frame_def)

lemma mapping_frame_trans:
  "mapping_frame P d1 d2 \<Longrightarrow> mapping_frame P d2 d3 \<Longrightarrow> mapping_frame P d1 d3"
proof -
  assume "mapping_frame P d1 d2" "mapping_frame P d2 d3"
  moreover from this have "d3 = d1\<lparr>product_mappings := product_mappings d3\<rparr>"
    by (cases d1; cases d2; cases d3) (simp add: mapping_frame_def)
  ultimately show ?thesis by (auto simp: mapping_frame_def)
qed

lemma mapping_frame_mono: "mapping_frame P d d' \<Longrightarrow> P \<subseteq> Q \<Longrightarrow> mapping_frame Q d d'"
  by (auto simp: mapping_frame_def)

lemma with_mapping_frame:
  assumes "database_ok d" "existing_mapping (pm_supplier_product_id m) d = None \<and> pm_id m \<notin> pm_id ` set (product_mappings d)
      \<or> (\<exists>m0. existing_mapping (pm_supplier_product_id m) d = Some m0 \<and> pm_id m0 = pm_id m \<and> \<not> settled m0)"
  shows "mapping_frame {pm_supplier_product_id m} d (with_mapping m d)"
  unfolding mapping_frame_def
proof (intro conjI ballI impI)
  show "with_mapping m d = d\<lparr>product_mappings := product_mappings (with_mapping m d)\<rparr>"
    by (simp add: with_mapping_def)
  fix x
  assume x: "x \<in> set (product_mappings d)" "settled x \<or> pm_supplier_product_id x \<notin> {pm_supplier_product_id m}"
  from assms(2) show "x \<in> set (product_mappings (with_mapping m d))"
  proof
    assume "\<exists>m0. existing_mapping (pm_supplier_product_id m) d = Some m0 \<and> pm_id m0 = pm_id m \<and> \<not> settled m0"
    then obtain m0 where m0: "existing_mapping (pm_supplier_product_id m) d = Some m0"
      "pm_id m0 = pm_id m" "\<not> settled m0" by blast
    note in0 = existing_mapping_Some[OF m0(1)]
    have "pm_id x \<noteq> pm_id m"
    proof
      assume "pm_id x = pm_id m"
      moreover have "distinct (map pm_id (product_mappings d))"
        using database_mappings_ok[OF assms(1)] by (simp add: mappings_ok_def)
      ultimately have "x = m0" using in0 x(1) m0(2) by (metis distinct_map inj_on_def)
      with x(2) m0(3) in0 show False by simp
    qed
    with x(1) put_row_other[of x _ pm_id m] show ?thesis by (simp add: with_mapping_def)
  qed (use x in \<open>simp add: with_mapping_def\<close>)
qed

lemma apply_frame:
  assumes "database_ok d" "apply_outcome store p out e w d = (Inr me, w', d')"
  shows "w' = w \<and> database_ok d' \<and> mapping_frame {sp_id p} d d'"
proof (cases "\<exists>m. existing_mapping (sp_id p) d = Some m \<and> settled m")
  case True
  with assms apply_settled[of p d _ store out e w] show ?thesis by auto
next
  case False
  let ?m = "recorded store p out d"
  have ns: "\<And>m. existing_mapping (sp_id p) d = Some m \<Longrightarrow> \<not> settled m" using False by blast
  have free: "\<not> product_taken ?m d" and r: "w' = w" "d' = with_mapping ?m d"
    using apply_recorded[of d p store out e w] assms ns by (auto simp: Let_def split: if_splits)
  have sup: "pm_supplier_product_id ?m = sp_id p"
    using existing_mapping_Some by (auto simp: recorded_def new_mapping_def split: option.split)
  have "existing_mapping (sp_id p) d = None \<and> pm_id ?m \<notin> pm_id ` set (product_mappings d)
      \<or> (\<exists>m0. existing_mapping (sp_id p) d = Some m0 \<and> pm_id m0 = pm_id ?m \<and> \<not> settled m0)"
  proof (cases "existing_mapping (sp_id p) d")
    case None
    have "pm_id ?m = fresh_id pm_id (product_mappings d)"
      using None by (simp add: recorded_def new_mapping_def)
    with None fresh_mapping_id[of d] show ?thesis by metis
  qed (use ns in \<open>auto simp: recorded_def\<close>)
  from with_mapping_frame[OF assms(1), of ?m] this sup
  have "mapping_frame {sp_id p} d (with_mapping ?m d)" by simp
  with r free recorded_ok[OF assms(1), of store p out] show ?thesis by simp
qed

lemma match_one_frame:
  assumes "database_ok d" "match_one U S store p se w d = (Inr se', w', d')"
  shows "w' = w \<and> database_ok d' \<and> mapping_frame {sp_id p} d d'
    \<and> (\<exists>st. fst se' = stat_add (status_counter st) 1 (stat_add ''examined'' 1 (fst se)))"
proof -
  let ?c = "claimed_store_products store (snd se) d" and ?out = "evaluate U S store (snd se) p d"
  obtain r w1 d1 where a: "apply_outcome store p ?out (Some ?c) w d = (r, w1, d1)"
    by (metis prod.collapse)
  with assms(2) obtain m e where r: "r = Inr (m, e)"
    by (cases r) (auto simp: match_one_def wbind_def wread_def wret_def)
  with a assms(2) have "w' = w1" "d' = d1"
    "fst se' = stat_add (status_counter (mo_status ?out)) 1 (stat_add ''examined'' 1 (fst se))"
    by (auto simp: match_one_def wbind_def wread_def wret_def)
  with apply_frame[OF assms(1) a[unfolded r]] show ?thesis by blast
qed

lemma match_fold_frame:
  assumes "database_ok d" "wfold (match_one U S store) ps se w d = (Inr se', w', d')"
  shows "w' = w \<and> database_ok d' \<and> mapping_frame (sp_id ` set ps) d d'
    \<and> stat (fst se') ''examined'' = stat (fst se) ''examined'' + int (length ps)
    \<and> (let tot = (\<lambda>st. stat st ''auto'' + stat st ''pending'' + stat st ''unmatched'')
       in tot (fst se') = tot (fst se) + int (length ps))"
  using assms
proof (induction ps arbitrary: se w d)
  case (Cons p ps)
  obtain r w1 d1 where a: "match_one U S store p se w d = (r, w1, d1)" by (metis prod.collapse)
  with Cons.prems(2) obtain se1 where r: "r = Inr se1" by (cases r) (auto simp: wbind_def)
  from a r Cons.prems(2) have f: "wfold (match_one U S store) ps se1 w1 d1 = (Inr se', w', d')"
    by (simp add: wbind_def)
  from match_one_frame[OF Cons.prems(1) a[unfolded r]] obtain st where
    1: "w1 = w" "database_ok d1" "mapping_frame {sp_id p} d d1"
       "fst se1 = stat_add (status_counter st) 1 (stat_add ''examined'' 1 (fst se))" by blast
  note 2 = Cons.IH[OF 1(2) f]
  have "mapping_frame (sp_id ` set (p # ps)) d d1" "mapping_frame (sp_id ` set (p # ps)) d1 d'"
    using 1(3) 2 by (auto intro: mapping_frame_mono)
  then have "mapping_frame (sp_id ` set (p # ps)) d d'" by (rule mapping_frame_trans)
  with 1 2 show ?case by (cases st) (simp_all add: Let_def status_counter_def)
qed (simp add: wret_def)

lemma match_run_frame:
  assumes "database_ok d" "match_run U S store limit only_unmapped w d = (Inr st, w', d')"
  shows "w' = w \<and> database_ok d' \<and> mapping_frame (sp_id ` set (to_match limit only_unmapped d)) d d'
    \<and> stat st ''examined'' = int (length (to_match limit only_unmapped d))
    \<and> stat st ''auto'' + stat st ''pending'' + stat st ''unmatched'' = stat st ''examined''"
proof -
  let ?ps = "to_match limit only_unmapped d"
  obtain r w1 d1 where a: "wfold (match_one U S store) ?ps (zero_counters, None) w d = (r, w1, d1)"
    by (metis prod.collapse)
  with assms(2) obtain se where r: "r = Inr se" "st = fst se" "w' = w1" "d' = d1"
    by (cases r) (auto simp: match_run_def wbind_def wread_def wret_def)
  from match_fold_frame[OF assms(1) a[unfolded r(1)]] r(2-)
  show ?thesis by (simp add: Let_def zero_counters_def stat_def)
qed

lemma run_kept:
  assumes "database_ok d" "session_scope (match_run U S store limit only_unmapped) w d = (r, w', d')"
    and "m \<in> set (product_mappings d)"
    and "pm_status m \<in> {APPROVED, REJECTED} \<or> only_unmapped \<and> pm_status m = AUTO"
  shows "m \<in> set (product_mappings d') \<and> d' = d\<lparr>product_mappings := product_mappings d'\<rparr>
    \<and> database_ok d'"
proof (cases r)
  case (Inl e)
  with session_scope_error[OF assms(2)[unfolded Inl]] assms show ?thesis by simp
next
  case (Inr st)
  note run = session_scope_success[OF assms(2)[unfolded Inr], THEN conjunct1]
  note f = match_run_frame[OF assms(1) run]
  have "settled m \<or> pm_supplier_product_id m \<notin> sp_id ` set (to_match limit only_unmapped d)"
  proof (rule disjCI)
    assume "\<not> pm_supplier_product_id m \<notin> sp_id ` set (to_match limit only_unmapped d)"
    then obtain p where p: "sp_id p = pm_supplier_product_id m" "needs_match only_unmapped d p"
      by (auto simp: to_match_def Let_def split: option.splits if_splits dest!: in_set_takeD)
    with existing_mapping_unique[OF assms(1,3)] assms(4) show "settled m"
      by (auto simp: needs_match_def settled_def)
  qed
  with f assms(3) show ?thesis by (auto simp: mapping_frame_def)
qed

text \<open>
  A matching run, committed or rolled back, leaves every mapping a human approved or
  rejected exactly as it is, and the default run also leaves the automatic ones; nothing but
  the mapping table changes and nothing outside the database is touched.
\<close>
theorem run_keeps_decisions:
  assumes "database_ok d" "session_scope (match_run U S store limit only_unmapped) w d = (r, w', d')"
    and "m \<in> set (product_mappings d)"
    and "pm_status m \<in> {APPROVED, REJECTED} \<or> only_unmapped \<and> pm_status m = AUTO"
  shows "m \<in> set (product_mappings d') \<and> d' = d\<lparr>product_mappings := product_mappings d'\<rparr>
    \<and> database_ok d'"
  using run_kept[OF assms] by blast

theorem run_keeps_decisions_witness:
  "other_mapping APPROVED \<in> set (product_mappings (snd (snd
     (session_scope (match_run ascii_db default_settings g2a None True) () (lone_db [other_mapping APPROVED])))))"
proof -
  obtain r w' d' where r: "session_scope (match_run ascii_db default_settings g2a None True) ()
      (lone_db [other_mapping APPROVED]) = (r, w', d')" by (metis prod.collapse)
  from run_keeps_decisions[OF lone_db_ok r, of APPROVED "other_mapping APPROVED"] r show ?thesis
    by (simp add: lone_db_def other_mapping_def)
qed

text \<open>
  A run that returns has examined every active product that needed a match, once, and
  counts each of them under exactly one outcome.
\<close>
theorem run_counts_every_product:
  assumes "database_ok d" "match_run U S store limit only_unmapped w d = (Inr st, w', d')"
  shows "stat st ''examined'' = int (length (to_match limit only_unmapped d))
    \<and> stat st ''auto'' + stat st ''pending'' + stat st ''unmatched'' = stat st ''examined''"
  using match_run_frame[OF assms] by blast


lemma lone_to_match:
  assumes "existing_mapping 1 (lone_db ms) = None"
  shows "to_match None True (lone_db ms) = [lone_sku]"
proof -
  have "sp_id lone_sku = 1" "sp_is_active lone_sku" "supplier_products (lone_db ms) = [lone_sku]"
    by (simp_all add: lone_sku_def lone_db_def)
  with assms show ?thesis by (simp add: to_match_def needs_match_def)
qed

lemma lone_run:
  assumes "existing_mapping 1 (lone_db ms) = None" "database_ok (lone_db ms)"
    and "claimed_store_products g2a None (lone_db ms) = []" "rejected_pairs 1 (lone_db ms) = []"
  shows "\<exists>out. mo_best out = Some (candidate_of ascii_db lone_parts lone_product) \<and> mo_status out = AUTO
    \<and> match_run ascii_db default_settings g2a None True w (lone_db ms)
      = (case apply_outcome g2a lone_sku out (Some []) w (lone_db ms) of
           (Inl e, w', d') \<Rightarrow> (Inl e, w', d')
         | (Inr me, w', d') \<Rightarrow> (Inr (stat_add ''auto'' 1 (stat_add ''examined'' 1 zero_counters)), w', d'))"
proof -
  let ?out = "evaluate ascii_db default_settings g2a None lone_sku (lone_db ms)"
  note ev = lone_evaluate[OF assms(3,4)]
  have "match_run ascii_db default_settings g2a None True w (lone_db ms)
      = (case apply_outcome g2a lone_sku ?out (Some []) w (lone_db ms) of
           (Inl e, w', d') \<Rightarrow> (Inl e, w', d')
         | (Inr me, w', d') \<Rightarrow> (Inr (stat_add ''auto'' 1 (stat_add ''examined'' 1 zero_counters)), w', d'))"
    using ev assms(3) lone_to_match[OF assms(1)]
    by (auto simp: match_run_def match_one_def wbind_def wread_def wret_def status_counter_def
        split: prod.split sum.split)
  with ev show ?thesis by blast
qed

theorem run_counts_every_product_witness:
  "\<exists>st. fst (match_run ascii_db default_settings g2a None True () (lone_db [])) = Inr st
    \<and> stat st ''examined'' = 1 \<and> stat st ''auto'' + stat st ''pending'' + stat st ''unmatched'' = 1"
proof -
  have none: "existing_mapping i (lone_db []) = None" for i
    by (simp add: existing_mapping_def find_row_def lone_db_def)
  have ok: "database_ok (lone_db [])" using lone_db_ok[of "[]"] by simp
  from lone_run[OF none ok lone_claims(1,2), of "()"] obtain out where
    run: "match_run ascii_db default_settings g2a None True () (lone_db [])
      = (case apply_outcome g2a lone_sku out (Some []) () (lone_db []) of
           (Inl e, w', d') \<Rightarrow> (Inl e, w', d')
         | (Inr me, w', d') \<Rightarrow> (Inr (stat_add ''auto'' 1 (stat_add ''examined'' 1 zero_counters)), w', d'))"
    by blast
  have "\<not> product_taken (recorded g2a lone_sku out (lone_db [])) (lone_db [])"
    by (simp add: product_taken_def lone_db_def)
  with apply_recorded[OF ok, of lone_sku g2a out "Some []" "()"] none run
  obtain st d' where st: "match_run ascii_db default_settings g2a None True () (lone_db []) = (Inr st, (), d')"
    by (simp add: Let_def)
  with run_counts_every_product[OF ok st] lone_to_match[OF none] show ?thesis by simp
qed

text \<open>
  C32: The claim rule and the constraint disagree: a store product whose only mapping was
  rejected, or left unmatched below the review score, is not claimed, so it is offered to
  other SKUs, but the row that holds it makes recording such a proposal fail.
\<close>
theorem rejected_product_blocks_other_skus:
  assumes "database_ok d" "x \<in> set (product_mappings d)" "pm_status x \<in> {REJECTED, UNMATCHED}"
    and "pm_store_product_id x = Some s" "pm_store_code x = store"
    and "pm_supplier_product_id x \<noteq> sp_id p" "existing_mapping (sp_id p) d = None"
    and "mo_best out = Some c" "cd_store_product_id c = s"
  shows "s \<notin> set (claimed_store_products store None d)
    \<and> fst (apply_outcome store p out e w d) = Inl (IntegrityError ''constraint'')"
proof
  have u: "uniq uq_mapping_store_product (product_mappings d)"
    using database_mappings_ok[OF assms(1)] by (simp add: mappings_ok_def)
  show "s \<notin> set (claimed_store_products store None d)"
  proof
    assume "s \<in> set (claimed_store_products store None d)"
    then obtain m where m: "m \<in> set (product_mappings d)" "pm_store_code m = store"
      "pm_status m \<in> {AUTO, APPROVED, PENDING}" "pm_store_product_id m = Some s"
      by (auto simp: claimed_store_products_def in_claimed_of)
    with uniqD[OF u m(1) assms(2), of "(store, s)"] assms(4,5) have "m = x"
      by (simp add: uq_mapping_store_product_def)
    with m(3) assms(3) show False by auto
  qed
  let ?m = "recorded store p out d"
  have "pm_id ?m = fresh_id pm_id (product_mappings d)" "pm_store_code ?m = store"
    using assms(7) by (simp_all add: recorded_def new_mapping_def)
  moreover have "pm_store_product_id ?m = Some s" using assms(8,9) by (simp add: recorded_def)
  moreover have "pm_id x \<noteq> fresh_id pm_id (product_mappings d)" by (rule fresh_id_fresh[OF assms(2)])
  ultimately have "product_taken ?m d" using assms(2,4,5) by (auto simp: product_taken_def)
  then show "fst (apply_outcome store p out e w d) = Inl (IntegrityError ''constraint'')"
    using apply_recorded[OF assms(1), of p store out e w] assms(7) by (simp add: Let_def)
qed

theorem rejected_product_blocks_other_skus_witness:
  "fst (match_run ascii_db default_settings g2a None True () (lone_db [other_mapping REJECTED]))
     = Inl (IntegrityError ''constraint'')"
proof -
  let ?d = "lone_db [other_mapping REJECTED]"
  have none: "existing_mapping 1 ?d = None"
    by (simp add: existing_mapping_def find_row_def lone_db_def other_mapping_def new_mapping_def)
  have ok: "database_ok ?d" using lone_db_ok[of "[other_mapping REJECTED]"] by simp
  from lone_run[OF none ok lone_claims(3,4), of "()"] obtain out where
    best: "mo_best out = Some (candidate_of ascii_db lone_parts lone_product)"
    and run: "match_run ascii_db default_settings g2a None True () ?d
      = (case apply_outcome g2a lone_sku out (Some []) () ?d of
           (Inl e, w', d') \<Rightarrow> (Inl e, w', d')
         | (Inr me, w', d') \<Rightarrow> (Inr (stat_add ''auto'' 1 (stat_add ''examined'' 1 zero_counters)), w', d'))"
    by blast
  have "fst (apply_outcome g2a lone_sku out (Some []) () ?d) = Inl (IntegrityError ''constraint'')"
    using rejected_product_blocks_other_skus[OF ok, of "other_mapping REJECTED" 7 g2a lone_sku out _ "Some []" "()"]
      none best
    by (simp add: lone_db_def other_mapping_def new_mapping_def lone_sku_def candidate_product lone_product_def)
  then show ?thesis unfolding run by (auto split: prod.splits sum.splits)
qed

section \<open>Review\<close>

lemma mapping_by_id_Some: "mapping_by_id i d = Some m \<Longrightarrow> m \<in> set (product_mappings d) \<and> pm_id m = i"
  unfolding mapping_by_id_def by (rule find_row_Some)

lemma reviewed_simps [simp]:
  "pm_id (reviewed st by now note m) = pm_id m"
  "pm_supplier_product_id (reviewed st by now note m) = pm_supplier_product_id m"
  "pm_store_code (reviewed st by now note m) = pm_store_code m"
  "pm_store_product_id (reviewed st by now note m) = pm_store_product_id m"
  "pm_status (reviewed st by now note m) = st"
  by (simp_all add: reviewed_def)

lemma own_product_not_taken:
  assumes "database_ok d" "m \<in> set (product_mappings d)" "pm_id m' = pm_id m"
    and "pm_store_product_id m' = pm_store_product_id m" "pm_store_code m' = pm_store_code m"
  shows "\<not> product_taken m' d"
proof
  assume "product_taken m' d"
  then obtain x where x: "x \<in> set (product_mappings d)" "pm_id x \<noteq> pm_id m"
    "pm_store_product_id m \<noteq> None" "pm_store_code x = pm_store_code m"
    "pm_store_product_id x = pm_store_product_id m"
    using assms(3-) by (auto simp: product_taken_def)
  have u: "uniq uq_mapping_store_product (product_mappings d)"
    using database_mappings_ok[OF assms(1)] by (simp add: mappings_ok_def)
  have "x = m" using x uniqD[OF u x(1) assms(2)] by (auto simp: uq_mapping_store_product_def)
  with x(2) show False by simp
qed

lemma reject_at:
  assumes "database_ok d" "mapping_by_id i d = Some m"
  shows "reject R i by note w d
      = (Inr (reviewed REJECTED by (utcnow R w) note m), w,
         mappings_put d (reviewed REJECTED by (utcnow R w) note m))
    \<and> database_ok (mappings_put d (reviewed REJECTED by (utcnow R w) note m))"
proof -
  let ?m = "reviewed REJECTED by (utcnow R w) note m"
  note m = mapping_by_id_Some[OF assms(2)]
  have ok: "database_ok (mappings_put d ?m)"
    using put_mapping_ok[OF assms(1), of m ?m] own_product_not_taken[OF assms(1), of m ?m] m by simp
  then have "reject R i by note w d = (Inr ?m, w, mappings_put d ?m)"
    using assms(2)
    by (simp add: reject_def wbind_def wthen_def wread_def wtime_def set_mapping_def wmodify_def
        wflush_def flush_def wret_def)
  with ok show ?thesis by blast
qed

text \<open>
  A rejection is final: after \<open>reject\<close> returns, whatever matching runs follow, committed or
  rolled back, the rejected row is still there as it was written and its store product is
  never again a candidate for that SKU.
\<close>
theorem reject_is_final:
  assumes "database_ok d" "reject R i by note w d = (Inr m, w1, d1)"
    and "session_scope (match_run U S store limit only_unmapped) w1 d1 = (r, w2, d2)"
    and "sp_id p = pm_supplier_product_id m"
  shows "m \<in> set (product_mappings d2) \<and> pm_status m = REJECTED
    \<and> (\<forall>c \<in> set (find_candidates U S' store' e p d2). pm_store_product_id m \<noteq> Some (cd_store_product_id c))"
proof -
  from assms(2) obtain m0 where m0: "mapping_by_id i d = Some m0"
    by (cases "mapping_by_id i d") (auto simp: reject_def wbind_def wread_def wraise_def)
  note rej = reject_at[OF assms(1) m0, of R "by" "note" w]
  then have m: "m = reviewed REJECTED by (utcnow R w) note m0" "d1 = mappings_put d m" "database_ok d1"
    using assms(2) by auto
  have "m \<in> set (product_mappings d1)"
    using mapping_by_id_Some[OF m0] m(1) unfolding m(2) by (auto intro!: put_row_hit bexI[of _ m0])
  from run_kept[OF m(3) assms(3) this] have in2: "m \<in> set (product_mappings d2)"
    by (simp add: m(1) settled_def)
  have "pm_store_product_id m \<noteq> Some (cd_store_product_id c)"
    if c: "c \<in> set (find_candidates U S' store' e p d2)" for c
  proof
    assume h: "pm_store_product_id m = Some (cd_store_product_id c)"
    from c obtain s where s: "c = candidate_of U (supplier_parts U p) s"
      "st_id s \<notin> set (rejected_pairs (sp_id p) d2)"
      by (rule candidate_origin) (auto simp: eligible_def)
    with h in2 assms(4) show False by (auto simp: in_rejected_pairs candidate_product m(1))
  qed
  with in2 m(1) show ?thesis by simp
qed

theorem reject_is_final_witness:
  "\<exists>m d1. reject still_clock 1 (lit ''ops'') None () (lone_db [other_mapping PENDING]) = (Inr m, (), d1)
    \<and> m \<in> set (product_mappings (snd (snd
         (session_scope (match_run ascii_db default_settings g2a None True) () d1))))"
proof -
  let ?d = "lone_db [other_mapping PENDING]"
  have ok: "database_ok ?d" using lone_db_ok[of "[other_mapping PENDING]"] by simp
  have by1: "mapping_by_id 1 ?d = Some (other_mapping PENDING)"
    by (simp add: mapping_by_id_def find_row_def lone_db_def other_mapping_def new_mapping_def)
  from reject_at[OF ok by1, of still_clock "lit ''ops''" None "()"] obtain m d1 where
    rej: "reject still_clock 1 (lit ''ops'') None () ?d = (Inr m, (), d1)" by blast
  obtain r w2 d2 where run: "session_scope (match_run ascii_db default_settings g2a None True) () d1 = (r, w2, d2)"
    by (metis prod.collapse)
  have "sp_id (lone_sku\<lparr>sp_id := pm_supplier_product_id m\<rparr>) = pm_supplier_product_id m" by simp
  from reject_is_final[OF ok rej run this] rej run show ?thesis by auto
qed

text \<open>The store product an approval is for, and the other mapping that holds it.\<close>

definition approval_target :: "nat option \<Rightarrow> product_mapping \<Rightarrow> nat option" where
  "approval_target override m = (case override of None \<Rightarrow> pm_store_product_id m | Some s \<Rightarrow> Some s)"

definition holds_product :: "database \<Rightarrow> product_mapping \<Rightarrow> nat \<Rightarrow> product_mapping \<Rightarrow> bool" where
  "holds_product d m s x \<longleftrightarrow> x \<in> set (product_mappings d) \<and> pm_id x \<noteq> pm_id m
     \<and> pm_store_code x = pm_store_code m \<and> pm_store_product_id x = Some s"

lemma holder_unique:
  assumes "database_ok d" "holds_product d m s x" "holds_product d m s y"
  shows "x = y"
proof -
  have u: "uniq uq_mapping_store_product (product_mappings d)"
    using database_mappings_ok[OF assms(1)] by (simp add: mappings_ok_def)
  show ?thesis
    using uniqD[OF u, of x y "(pm_store_code m, s)"] assms(2,3)
    by (simp add: holds_product_def uq_mapping_store_product_def)
qed

lemma clash_of_holder:
  assumes "database_ok d"
  shows "clash_of m s d = Some x \<longleftrightarrow> holds_product d m s x \<and> pm_status x \<in> {AUTO, APPROVED}"
proof
  assume "clash_of m s d = Some x"
  from find_row_Some[OF this[unfolded clash_of_def]]
  show "holds_product d m s x \<and> pm_status x \<in> {AUTO, APPROVED}" by (simp add: holds_product_def)
next
  assume x: "holds_product d m s x \<and> pm_status x \<in> {AUTO, APPROVED}"
  then have "clash_of m s d \<noteq> None"
    unfolding clash_of_def find_row_None by (auto simp: holds_product_def)
  then obtain y where y: "clash_of m s d = Some y" by blast
  from find_row_Some[OF y[unfolded clash_of_def]] have "holds_product d m s y"
    by (simp add: holds_product_def)
  with holder_unique[OF assms, of m s x y] x y show "clash_of m s d = Some x" by simp
qed

lemma no_clash: "database_ok d \<Longrightarrow> \<forall>x. holds_product d m s x \<longrightarrow> pm_status x \<notin> {AUTO, APPROVED}
    \<Longrightarrow> clash_of m s d = None"
  using clash_of_holder[of d m s] by (cases "clash_of m s d") auto

text \<open>
  \<open>approve\<close> on an existing mapping, every branch: with no store product to approve it
  refuses; when no other mapping of the store holds the product, the mapping is approved for it
  under the reviewer's name and nothing else changes; when one does, the call is refused as a
  clash if that mapping is automatic or approved, but ends in the database's constraint error
  if it is pending, rejected or unmatched.
\<close>
theorem approve_confirms_or_refuses:
  assumes "database_ok d" "mapping_by_id i d = Some m"
  shows "(approval_target override m = None \<longrightarrow> fst (approve R i override by note w d)
        = Inl (PyValueError (lit ''cannot approve a mapping with no store product'')))
    \<and> (\<forall>s. approval_target override m = Some s \<and> (\<forall>x. \<not> holds_product d m s x) \<longrightarrow>
        (\<exists>m'. approve R i override by note w d = (Inr m', w, mappings_put d m')
           \<and> database_ok (mappings_put d m') \<and> pm_id m' = i \<and> pm_status m' = APPROVED
           \<and> pm_store_product_id m' = Some s \<and> pm_reviewed_by m' = Some by))
    \<and> (\<forall>s x. approval_target override m = Some s \<and> holds_product d m s x \<longrightarrow>
        fst (approve R i override by note w d) =
          Inl (if pm_status x \<in> {AUTO, APPROVED}
               then PyValueError (lit ''store product '' @ digits_of s
                 @ lit '' is already mapped by mapping '' @ digits_of (pm_id x))
               else IntegrityError ''constraint''))"
proof (intro conjI allI impI)
  note m = mapping_by_id_Some[OF assms(2)]
  show "fst (approve R i override by note w d)
      = Inl (PyValueError (lit ''cannot approve a mapping with no store product''))"
    if "approval_target override m = None"
    using that assms(2)
    by (cases override) (simp_all add: approval_target_def approve_def take_override_def wbind_def wread_def wret_def wraise_def)
next
  note m = mapping_by_id_Some[OF assms(2)]
  fix s
  assume s: "approval_target override m = Some s \<and> (\<forall>x. \<not> holds_product d m s x)"
  let ?m = "reviewed APPROVED by (utcnow R w) note (m\<lparr>pm_store_product_id := Some s\<rparr>)"
  have "\<not> product_taken ?m d" using s by (auto simp: product_taken_def holds_product_def)
  with put_mapping_ok[OF assms(1), of m ?m] m have ok: "database_ok (mappings_put d ?m)" by simp
  have "take_override m override w d = (Inr (m\<lparr>pm_store_product_id := Some s\<rparr>), w, d)"
  proof (cases override)
    case None
    with s have "m\<lparr>pm_store_product_id := Some s\<rparr> = m" by (cases m) (simp add: approval_target_def)
    with None show ?thesis by (simp add: take_override_def wret_def)
  next
    case (Some t)
    with s have "t = s" by (simp add: approval_target_def)
    with Some s no_clash[OF assms(1), of m s] show ?thesis
      by (simp add: take_override_def wbind_def wread_def wret_def)
  qed
  with assms ok have "approve R i override by note w d = (Inr ?m, w, mappings_put d ?m)"
    by (simp add: approve_def wbind_def wthen_def wread_def wtime_def set_mapping_def wmodify_def
        wflush_def flush_def wret_def)
  with ok m show "\<exists>m'. approve R i override by note w d = (Inr m', w, mappings_put d m')
           \<and> database_ok (mappings_put d m') \<and> pm_id m' = i \<and> pm_status m' = APPROVED
           \<and> pm_store_product_id m' = Some s \<and> pm_reviewed_by m' = Some by"
    by (intro exI[of _ ?m]) (simp add: reviewed_def)
next
  note m = mapping_by_id_Some[OF assms(2)]
  fix s x
  assume h: "approval_target override m = Some s \<and> holds_product d m s x"
  then have ov: "override = Some s"
    using own_product_not_taken[OF assms(1), of m m] m
    by (auto simp: approval_target_def holds_product_def product_taken_def split: option.splits)
  show "fst (approve R i override by note w d) =
          Inl (if pm_status x \<in> {AUTO, APPROVED}
               then PyValueError (lit ''store product '' @ digits_of s
                 @ lit '' is already mapped by mapping '' @ digits_of (pm_id x))
               else IntegrityError ''constraint'')"
  proof (cases "pm_status x \<in> {AUTO, APPROVED}")
    case True
    then have "clash_of m s d = Some x" using clash_of_holder[OF assms(1)] h by simp
    with True ov assms(2) show ?thesis
      by (simp add: approve_def take_override_def wbind_def wread_def wret_def wraise_def)
  next
    case False
    then have "\<forall>y. holds_product d m s y \<longrightarrow> pm_status y \<notin> {AUTO, APPROVED}"
      using holder_unique[OF assms(1)] h by metis
    then have c: "clash_of m s d = None" by (rule no_clash[OF assms(1)])
    let ?m = "reviewed APPROVED by (utcnow R w) note (m\<lparr>pm_store_product_id := Some s\<rparr>)"
    have "product_taken ?m d" using h by (auto simp: product_taken_def holds_product_def)
    with put_mapping_ok[OF assms(1), of m ?m] m have "\<not> database_ok (mappings_put d ?m)" by simp
    with c False ov assms(2) show ?thesis
      by (simp add: approve_def take_override_def wbind_def wthen_def wread_def wtime_def set_mapping_def
          wmodify_def wflush_def flush_def wret_def)
  qed
qed

theorem approve_confirms_or_refuses_witness:
  "fst (approve still_clock 1 None (lit ''ops'') None () (lone_db [(other_mapping PENDING)\<lparr>pm_store_product_id := None\<rparr>]))
      = Inl (PyValueError (lit ''cannot approve a mapping with no store product''))"
proof -
  let ?m = "(other_mapping PENDING)\<lparr>pm_store_product_id := None\<rparr>"
  have "database_ok (lone_db [?m])"
    by (simp add: lone_db_def database_ok_def empty_database_def supplier_products_ok_def
      store_products_ok_def mappings_ok_def offers_ok_def idempotency_ok_def constraint_defs lone_sku_def)
  moreover have "mapping_by_id 1 (lone_db [?m]) = Some ?m"
    by (simp add: mapping_by_id_def find_row_def lone_db_def other_mapping_def new_mapping_def)
  ultimately show ?thesis
    using approve_confirms_or_refuses[of "lone_db [?m]" 1 ?m None still_clock "lit ''ops''" None "()"]
    by (simp add: approval_target_def)
qed

end
