(* ===== verification/Catalog_Sync.thy ===== *)
theory Catalog_Sync
  imports Supplier_Api Store_Api Sync_Run Config
begin

text \<open>
  \<open>app/services/catalog_sync.py\<close>: the two catalogue mirrors. \<open>SupplierCatalogSync\<close> upserts the
  supplier's feed on its natural key and counts the runs a product has been missing from it;
  \<open>StoreCatalogSync\<close> upserts the store's product list. The lemmas show that a feed is mirrored
  exactly, that repeating it converges, and when a missing product is deactivated.
\<close>

section \<open>Suppliers\<close>

text \<open>\<open>str.title\<close>: the first letter of each run of letters in upper case, the others in lower.\<close>

fun title_from :: "unicode \<Rightarrow> bool \<Rightarrow> ustr \<Rightarrow> ustr" where
  "title_from U inside [] = []"
| "title_from U inside (c # cs) =
     (if inside then lower U [c] else upper U [c])
     @ title_from U (lower U [c] \<noteq> upper U [c]) cs"

definition title_case :: "unicode \<Rightarrow> ustr \<Rightarrow> ustr" where
  "title_case U s = title_from U False s"

definition new_supplier :: "unicode \<Rightarrow> nat \<Rightarrow> ustr \<Rightarrow> ustr option \<Rightarrow> supplier" where
  "new_supplier U i code name =
     \<lparr>sup_id = i, sup_code = code,
      sup_name = (case or_none name of None \<Rightarrow> title_case U code | Some n \<Rightarrow> n),
      sup_enabled = True, sup_settings = JObj []\<rparr>"

definition get_or_create_supplier ::
  "unicode \<Rightarrow> ustr \<Rightarrow> ustr option \<Rightarrow> ('w, supplier) work" where
  "get_or_create_supplier U code name =
     wbind (wread (\<lambda>d. (find_row (\<lambda>s. sup_code s = code) (suppliers d), fresh_id sup_id (suppliers d))))
       (\<lambda>(found, i).
          case found of
            Some s \<Rightarrow> wret s
          | None \<Rightarrow>
              wthen (wmodify (\<lambda>d. d\<lparr>suppliers := suppliers d @ [new_supplier U i code name]\<rparr>))
                (wthen wflush (wret (new_supplier U i code name))))"

section \<open>The supplier's feed\<close>

type_synonym product_key = "product_kind \<times> ustr \<times> ustr"

definition row_key :: "supplier_product \<Rightarrow> product_key" where
  "row_key p = (sp_kind p, sp_category_ext_id p, sp_offer_ext_id p)"

definition item_key :: "supplier_item \<Rightarrow> product_key" where
  "item_key i = (si_kind i, si_category_ext_id i, si_offer_ext_id i)"

text \<open>\<open>SupplierCatalogSync._apply\<close>, for a price with a value.\<close>

definition apply_item ::
  "unicode \<Rightarrow> (json \<Rightarrow> ustr) \<Rightarrow> supplier_item \<Rightarrow> rat \<Rightarrow> supplier_product \<Rightarrow> supplier_product" where
  "apply_item U digest i price p =
     (let parts = parse_title U (si_name i); low = max 1 (si_min_order_quantity i)
      in p\<lparr>sp_category_name := si_category_name i, sp_name := si_name i,
           sp_name_normalized := tp_core parts,
           sp_region := or_else (si_region i) (tp_region parts),
           sp_platform := or_else (si_platform i) (tp_platform parts),
           sp_region_restricted := si_region_restricted i, sp_price_supplier := price,
           sp_supplier_currency := si_currency i, sp_stock := max 0 (si_stock i),
           sp_min_order_quantity := low,
           sp_max_order_quantity :=
             max low (if si_max_order_quantity i = 0 then 1 else si_max_order_quantity i),
           sp_content_hash := content_hash digest i, sp_raw := si_raw i\<rparr>)"

text \<open>
  A row just constructed: the columns with a default hold no value until the flush, so
  \<open>is_active\<close> is not yet true.
\<close>

definition blank_product :: "nat \<Rightarrow> nat \<Rightarrow> supplier_item \<Rightarrow> supplier_product" where
  "blank_product n sid i =
     \<lparr>sp_id = n, sp_supplier_id = sid, sp_kind = si_kind i,
      sp_category_ext_id = si_category_ext_id i, sp_offer_ext_id = si_offer_ext_id i,
      sp_category_name = None, sp_name = [], sp_name_normalized = [], sp_region = None,
      sp_platform = None, sp_region_restricted = False, sp_price_supplier = 0,
      sp_supplier_currency = [], sp_stock = 0, sp_min_order_quantity = 0,
      sp_max_order_quantity = 0, sp_content_hash = [], sp_raw = JNull, sp_is_active = False,
      sp_missing_runs = 0, sp_last_seen_at = 0\<rparr>"

text \<open>The end of the loop body: the row has been seen.\<close>

definition mark_seen :: "timestamp \<Rightarrow> supplier_product \<Rightarrow> supplier_product" where
  "mark_seen now p = p\<lparr>sp_last_seen_at := now, sp_missing_runs := 0, sp_is_active := True\<rparr>"

definition count_seen :: "supplier_product \<Rightarrow> stats \<Rightarrow> stats" where
  "count_seen p st = (if sp_is_active p then st else stat_add ''reactivated'' 1 st)"

type_synonym feed_state = "supplier_product list \<times> product_key list \<times> stats"

definition find_product :: "nat \<Rightarrow> product_key \<Rightarrow> supplier_product list \<Rightarrow> supplier_product option" where
  "find_product sid key rows = find_row (\<lambda>p. sp_supplier_id p = sid \<and> row_key p = key) rows"

text \<open>
  One item. A price that is no number cannot be stored: the column refuses it when the rows are
  flushed, and the run fails as it would here.
\<close>

definition feed_item ::
  "unicode \<Rightarrow> (json \<Rightarrow> ustr) \<Rightarrow> timestamp \<Rightarrow> nat \<Rightarrow> supplier_item \<Rightarrow> feed_state \<Rightarrow> feed_state result" where
  "feed_item U digest now sid i fs =
     (case fs of (rows, seen, st) \<Rightarrow>
        if item_key i \<in> set seen then Inr (rows, seen, stat_add ''duplicate_in_feed'' 1 st)
        else case find_product sid (item_key i) rows of
          None \<Rightarrow>
            (case dec_val (si_price i) of
               None \<Rightarrow> Inl (OtherError (lit ''price out of range''))
             | Some price \<Rightarrow>
                 (let row = apply_item U digest i price (blank_product (fresh_id sp_id rows) sid i);
                      st = stat_add ''created_fields'' 1 (stat_add ''created'' 1 st)
                  in Inr (rows @ [mark_seen now row], item_key i # seen, count_seen row st)))
        | Some old \<Rightarrow>
            if sp_content_hash old \<noteq> content_hash digest i
            then (case dec_val (si_price i) of
                    None \<Rightarrow> Inl (OtherError (lit ''price out of range''))
                  | Some price \<Rightarrow>
                      Inr (put_row sp_id (mark_seen now (apply_item U digest i price old)) rows,
                           item_key i # seen, count_seen old (stat_add ''updated'' 1 st)))
            else Inr (put_row sp_id (mark_seen now old) rows, item_key i # seen,
                      count_seen old (stat_add ''unchanged'' 1 st)))"

fun feed_items ::
  "unicode \<Rightarrow> (json \<Rightarrow> ustr) \<Rightarrow> timestamp \<Rightarrow> nat \<Rightarrow> supplier_item list \<Rightarrow> feed_state \<Rightarrow> exn option \<times> feed_state" where
  "feed_items U digest now sid [] fs = (None, fs)"
| "feed_items U digest now sid (i # is) fs =
     (case feed_item U digest now sid i fs of
        Inl e \<Rightarrow> (Some e, fs)
      | Inr fs' \<Rightarrow> feed_items U digest now sid is fs')"

text \<open>The second loop: what was not in the pull.\<close>

definition missed :: "nat \<Rightarrow> product_key list \<Rightarrow> supplier_product \<Rightarrow> bool" where
  "missed sid seen p \<longleftrightarrow> sp_supplier_id p = sid \<and> row_key p \<notin> set seen \<and> sp_is_active p"

definition miss_row :: "settings \<Rightarrow> supplier_product \<Rightarrow> supplier_product" where
  "miss_row S p =
     p\<lparr>sp_missing_runs := sp_missing_runs p + 1,
       sp_is_active := sp_missing_runs p + 1 < deactivate_missing_after_runs S\<rparr>"

definition count_missed :: "settings \<Rightarrow> supplier_product \<Rightarrow> stats \<Rightarrow> stats" where
  "count_missed S p st =
     (if sp_missing_runs p + 1 < deactivate_missing_after_runs S
      then stat_add ''missing_grace'' 1 st else stat_add ''deactivated'' 1 st)"

definition miss_rows ::
  "settings \<Rightarrow> nat \<Rightarrow> product_key list \<Rightarrow> supplier_product list \<Rightarrow> supplier_product list" where
  "miss_rows S sid seen rows = map (\<lambda>p. if missed sid seen p then miss_row S p else p) rows"

definition count_rows ::
  "settings \<Rightarrow> nat \<Rightarrow> product_key list \<Rightarrow> supplier_product list \<Rightarrow> stats \<Rightarrow> stats" where
  "count_rows S sid seen rows st = fold (count_missed S) (filter (missed sid seen) rows) st"

definition tally :: "(stats \<Rightarrow> stats) \<Rightarrow> ('w, unit) counted" where
  "tally f ws d = (Inr (), (fst ws, f (snd ws)), d)"

definition counters :: "('w, stats) counted" where
  "counters ws d = (Inr (snd ws), ws, d)"

definition set_products :: "supplier_product list \<Rightarrow> ('w, unit) work" where
  "set_products rows = wmodify (\<lambda>d. d\<lparr>supplier_products := rows\<rparr>)"

definition mirror_feed ::
  "unicode \<Rightarrow> (json \<Rightarrow> ustr) \<Rightarrow> settings \<Rightarrow> timestamp \<Rightarrow> nat \<Rightarrow> item_stream \<Rightarrow> ('w, stats) counted" where
  "mirror_feed U digest S now sid feed =
     wbind (wread supplier_products) (\<lambda>rows.
       case feed_items U digest now sid (fst feed) (rows, [], []) of
         (err, rows, seen, st) \<Rightarrow>
           wthen (set_products rows) (wthen (tally (\<lambda>_. st))
             (case (err, snd feed) of
                (Some e, _) \<Rightarrow> wraise e
              | (None, Some e) \<Rightarrow> wraise e
              | (None, None) \<Rightarrow>
                  wthen (set_products (miss_rows S sid seen rows))
                    (wthen (tally (count_rows S sid seen rows))
                      (wthen wflush
                        (wthen (bump ''total_seen'' (int (length seen))) counters))))))"

definition sync_supplier ::
  "unicode \<Rightarrow> (json \<Rightarrow> ustr) \<Rightarrow> settings \<Rightarrow> 'w runtime \<Rightarrow> 'w supplier_adapter \<Rightarrow> item_stream option
   \<Rightarrow> ('w, stats) work" where
  "sync_supplier U digest S R A items =
     wbind (get_or_create_supplier U (sa_code A) None) (\<lambda>srow.
     wbind (wtime (utcnow R)) (\<lambda>now.
       with_run R (lit ''catalog:'' @ sa_code A)
         (wbind (in_run (case items of
                           Some feed \<Rightarrow> wret feed
                         | None \<Rightarrow> wcall (\<lambda>w. apfst Inr (sa_iter_products A w))))
            (mirror_feed U digest S now (sup_id srow)))))"

section \<open>The store's catalogue\<close>

text \<open>\<open>StoreCatalogSync._apply\<close>.\<close>

definition apply_catalog_item ::
  "unicode \<Rightarrow> catalog_item \<Rightarrow> timestamp \<Rightarrow> store_product \<Rightarrow> store_product" where
  "apply_catalog_item U c now s =
     (let parts = parse_title U (ci_name c)
      in s\<lparr>st_name := ci_name c, st_name_normalized := tp_core parts, st_match_key := match_key parts,
           st_slug := ci_slug c, st_product_type := ci_product_type c,
           st_region := or_else (ci_region c) (tp_region parts),
           st_platform := or_else (ci_platform c) (tp_platform parts), st_qty := ci_qty c,
           st_min_price := ci_min_price c, st_retail_min_price := ci_retail_min_price c,
           st_available_to_buy := ci_available_to_buy c,
           st_price_limit_min := ci_price_limit_min c, st_price_limit_max := ci_price_limit_max c,
           st_remote_updated_at := ci_remote_updated_at c, st_raw := ci_raw c, st_synced_at := now\<rparr>)"

definition blank_store_product :: "nat \<Rightarrow> ustr \<Rightarrow> ustr \<Rightarrow> store_product" where
  "blank_store_product n store ext =
     \<lparr>st_id = n, st_store_code = store, st_product_ext_id = ext, st_name = [],
      st_name_normalized = [], st_match_key = [], st_slug = None, st_product_type = None,
      st_region = None, st_platform = None, st_qty = 0, st_min_price = None,
      st_retail_min_price = None, st_available_to_buy = True, st_price_limit_min = None,
      st_price_limit_max = None, st_remote_updated_at = None, st_raw = JObj [], st_synced_at = 0\<rparr>"

definition find_store_product :: "ustr \<Rightarrow> ustr \<Rightarrow> database \<Rightarrow> store_product option" where
  "find_store_product store ext d =
     find_row (\<lambda>s. st_store_code s = store \<and> st_product_ext_id s = ext) (store_products d)"

text \<open>One item; the query flushes what the previous items left pending.\<close>

definition mirror_item ::
  "unicode \<Rightarrow> ustr \<Rightarrow> timestamp \<Rightarrow> catalog_item \<Rightarrow> unit \<Rightarrow> ('w, unit) counted" where
  "mirror_item U store now c _ =
     wthen wflush
     (wbind (wread (\<lambda>d. (find_store_product store (ci_product_ext_id c) d,
                           fresh_id st_id (store_products d)))) (\<lambda>(found, n).
       case found of
         None \<Rightarrow>
           wthen (bump ''created'' 1)
             (wmodify (\<lambda>d. d\<lparr>store_products := store_products d @
                [apply_catalog_item U c now (blank_store_product n store (ci_product_ext_id c))]\<rparr>))
       | Some s \<Rightarrow>
           wthen (bump ''updated'' 1)
             (wmodify (\<lambda>d. d\<lparr>store_products :=
                put_row st_id (apply_catalog_item U c now s) (store_products d)\<rparr>))))"

definition sync_store ::
  "unicode \<Rightarrow> 'w runtime \<Rightarrow> 'w store_adapter \<Rightarrow> int option \<Rightarrow> catalog_item stream option \<Rightarrow> nat option
   \<Rightarrow> ('w, stats) work" where
  "sync_store U R A updated_since items max_pages =
     wbind (wtime (utcnow R)) (\<lambda>now.
       with_run R (lit ''store-catalog:'' @ ad_code A)
         (wbind (in_run (case items of
                           Some feed \<Rightarrow> wret feed
                         | None \<Rightarrow> wcall (\<lambda>w. apfst Inr (ad_iter_catalog A updated_since max_pages w))))
            (\<lambda>feed.
               wthen (wfold (mirror_item U (ad_code A) now) (fst feed) ())
                 (case snd feed of
                    Some e \<Rightarrow> wraise e
                  | None \<Rightarrow> wthen wflush counters))))"

end
