(* ===== verification/Catalog_Mirror.thy ===== *)
theory Catalog_Mirror
  imports Catalog_Sync "HOL-Library.Sublist"
begin

text \<open>
  What the catalogue syncs do to the mirrors: a feed is written under its natural keys and
  nothing else changes, a repeated feed changes nothing it wrote, a product missing from the
  feed is kept for the configured number of runs, and a failed pull leaves no trace.
\<close>

section \<open>One item of the feed\<close>

text \<open>A row as a run at \<open>now\<close> leaves it for the item \<open>i\<close>.\<close>

definition mirrors ::
  "(json \<Rightarrow> ustr) \<Rightarrow> timestamp \<Rightarrow> nat \<Rightarrow> supplier_item \<Rightarrow> supplier_product \<Rightarrow> bool" where
  "mirrors digest now sid i q \<longleftrightarrow>
     sp_supplier_id q = sid \<and> row_key q = item_key i \<and> sp_content_hash q = content_hash digest i
     \<and> sp_is_active q \<and> sp_missing_runs q = 0 \<and> sp_last_seen_at q = now"

definition has_key :: "nat \<Rightarrow> product_key \<Rightarrow> supplier_product \<Rightarrow> bool" where
  "has_key sid k p \<longleftrightarrow> sp_supplier_id p = sid \<and> row_key p = k"

lemma uq_product_key:
  "uq_supplier_product_identity p = uq_supplier_product_identity q
    \<longleftrightarrow> sp_supplier_id p = sp_supplier_id q \<and> row_key p = row_key q"
  by (auto simp: uq_supplier_product_identity_def row_key_def)

lemma has_key_unique:
  assumes "supplier_products_ok rows" "p \<in> set rows" "q \<in> set rows" "has_key sid k p" "has_key sid k q"
  shows "p = q"
proof -
  have "uniq uq_supplier_product_identity rows" using assms(1) by (simp add: supplier_products_ok_def)
  moreover have "uq_supplier_product_identity p = uq_supplier_product_identity q"
    using assms(4,5) uq_product_key[of p q] by (auto simp: has_key_def)
  ultimately show ?thesis
    using assms(2,3) by (metis option.exhaust uniqD uq_supplier_product_identity_def)
qed

lemma put_product_ok:
  assumes ok: "supplier_products_ok rows" and p: "p \<in> set rows" and q: "sp_id q = sp_id p"
    "sp_supplier_id q = sp_supplier_id p" "row_key q = row_key p" "0 \<le> sp_stock q"
  shows "supplier_products_ok (put_row sp_id q rows)" "set (put_row sp_id q rows) = insert q (set rows - {p})"
proof -
  have d: "distinct (map sp_id rows)" and u: "uniq uq_supplier_product_identity rows"
    and s: "list_all ck_supplier_product_stock_non_negative rows"
    using ok by (simp_all add: supplier_products_ok_def)
  show set: "set (put_row sp_id q rows) = insert q (set rows - {p})"
    using set_put_row[OF d p] q(1) by simp
  have "uniq uq_supplier_product_identity (put_row sp_id q rows)"
  proof (rule uniq_put_row[OF u d])
    fix x k
    assume x: "x \<in> set rows" "sp_id x \<noteq> sp_id q" "uq_supplier_product_identity q = Some k"
    have "uq_supplier_product_identity p = Some k" using x(3) uq_product_key[of p q] q by simp
    with uniqD[OF u x(1) p, of k] x(2) q(1) show "uq_supplier_product_identity x \<noteq> Some k" by auto
  qed
  moreover have "list_all ck_supplier_product_stock_non_negative (put_row sp_id q rows)"
    using s q(4) unfolding list_all_iff set by (auto simp: ck_supplier_product_stock_non_negative_def)
  ultimately show "supplier_products_ok (put_row sp_id q rows)"
    using d by (simp add: supplier_products_ok_def)
qed

lemma add_product_ok:
  assumes "supplier_products_ok rows" "sp_id q = fresh_id sp_id rows" "0 \<le> sp_stock q"
    and "\<forall>p \<in> set rows. \<not> has_key (sp_supplier_id q) (row_key q) p"
  shows "supplier_products_ok (rows @ [q])"
proof -
  have "sp_id q \<notin> sp_id ` set rows" using assms(2) by (metis fresh_id_fresh imageE)
  moreover have "\<forall>p \<in> set rows. \<forall>k. uq_supplier_product_identity p = Some k
      \<longrightarrow> uq_supplier_product_identity q \<noteq> Some k"
    using assms(4) uq_product_key by (metis has_key_def)
  ultimately show ?thesis using assms(1,3)
    by (auto simp: supplier_products_ok_def uniq_append ck_supplier_product_stock_non_negative_def)
qed

lemma apply_item_simps [simp]:
  "sp_id (apply_item U digest i price p) = sp_id p"
  "sp_supplier_id (apply_item U digest i price p) = sp_supplier_id p"
  "row_key (apply_item U digest i price p) = row_key p"
  "sp_content_hash (apply_item U digest i price p) = content_hash digest i"
  "0 \<le> sp_stock (apply_item U digest i price p)"
  by (simp_all add: apply_item_def Let_def row_key_def)

lemma mark_seen_simps [simp]:
  "sp_id (mark_seen now p) = sp_id p" "sp_supplier_id (mark_seen now p) = sp_supplier_id p"
  "row_key (mark_seen now p) = row_key p" "sp_content_hash (mark_seen now p) = sp_content_hash p"
  "sp_is_active (mark_seen now p)" "sp_missing_runs (mark_seen now p) = 0"
  "sp_last_seen_at (mark_seen now p) = now" "sp_stock (mark_seen now p) = sp_stock p"
  by (simp_all add: mark_seen_def row_key_def)

lemma blank_product_simps [simp]:
  "sp_id (blank_product n sid i) = n" "sp_supplier_id (blank_product n sid i) = sid"
  "row_key (blank_product n sid i) = item_key i"
  by (simp_all add: blank_product_def row_key_def item_key_def)

text \<open>
  An item whose key is new in this pull: one row is its mirror, every row under another key
  stays, and rows keep their identifiers.
\<close>

lemma feed_item_new:
  assumes ok: "supplier_products_ok rows" and k: "item_key i \<notin> set seen"
    and f: "feed_item U digest now sid i (rows, seen, st) = Inr (rows', seen', st')"
  shows "seen' = item_key i # seen \<and> supplier_products_ok rows'
    \<and> (\<exists>q \<in> set rows'. mirrors digest now sid i q)
    \<and> (\<forall>p. \<not> has_key sid (item_key i) p \<longrightarrow> (p \<in> set rows' \<longleftrightarrow> p \<in> set rows))"
proof (cases "find_product sid (item_key i) rows")
  case None
  with f k obtain price where price: "dec_val (si_price i) = Some price"
    by (auto simp: feed_item_def split: option.splits)
  let ?q = "mark_seen now (apply_item U digest i price (blank_product (fresh_id sp_id rows) sid i))"
  have r: "rows' = rows @ [?q]" "seen' = item_key i # seen"
    using f k None price by (simp_all add: feed_item_def Let_def)
  have none: "\<forall>p \<in> set rows. \<not> has_key sid (item_key i) p"
    using None by (simp add: find_product_def find_row_None has_key_def)
  have "supplier_products_ok rows'" unfolding r using none
    by (intro add_product_ok[OF ok]) simp_all
  moreover have "mirrors digest now sid i ?q" by (simp add: mirrors_def)
  moreover have "has_key sid (item_key i) ?q" by (simp add: has_key_def)
  ultimately show ?thesis using r by auto
next
  case (Some old)
  then have old: "old \<in> set rows" "sp_supplier_id old = sid" "row_key old = item_key i"
    using find_row_Some[of "\<lambda>p. sp_supplier_id p = sid \<and> row_key p = item_key i" rows old]
    by (simp_all add: find_product_def)
  have stock: "0 \<le> sp_stock old"
    using ok old(1) by (auto simp: supplier_products_ok_def list_all_iff ck_supplier_product_stock_non_negative_def)
  have "\<exists>q. rows' = put_row sp_id q rows \<and> seen' = item_key i # seen
    \<and> mirrors digest now sid i q \<and> sp_id q = sp_id old \<and> 0 \<le> sp_stock q"
  proof (cases "sp_content_hash old = content_hash digest i")
    case True
    with f k Some old stock show ?thesis
      by (intro exI[of _ "mark_seen now old"]) (simp add: feed_item_def mirrors_def)
  next
    case False
    with f k Some obtain price where "dec_val (si_price i) = Some price"
      by (cases "dec_val (si_price i)") (simp_all add: feed_item_def)
    with False f k Some old show ?thesis
      by (intro exI[of _ "mark_seen now (apply_item U digest i price old)"])
        (simp add: feed_item_def mirrors_def)
  qed
  then obtain q where q: "rows' = put_row sp_id q rows" "seen' = item_key i # seen"
    "mirrors digest now sid i q" "sp_id q = sp_id old" "0 \<le> sp_stock q" by blast
  note p = put_product_ok[OF ok old(1), of q, unfolded q(1)[symmetric]]
  have "supplier_products_ok rows'" "set rows' = insert q (set rows - {old})"
    using p q(3-) old by (simp_all add: mirrors_def)
  moreover have "has_key sid (item_key i) old" "has_key sid (item_key i) q"
    using old q(3) by (simp_all add: has_key_def mirrors_def)
  ultimately show ?thesis using q(2,3) by auto
qed

lemma feed_item_again:
  "item_key i \<in> set seen \<Longrightarrow>
    feed_item U digest now sid i (rows, seen, st) = Inr (rows, seen, stat_add ''duplicate_in_feed'' 1 st)"
  by (simp add: feed_item_def)

section \<open>A whole feed\<close>

text \<open>The item that counts for a key is its first one in the feed.\<close>

definition first_of :: "supplier_item list \<Rightarrow> product_key \<Rightarrow> supplier_item option" where
  "first_of is k = find (\<lambda>i. item_key i = k) is"

lemma feed_items_mirrored:
  assumes "supplier_products_ok rows"
    and "feed_items U digest now sid is (rows, seen, st) = (None, rows', seen', st')"
  shows "supplier_products_ok rows' \<and> set seen' = set seen \<union> item_key ` set is
    \<and> (\<forall>k i. k \<notin> set seen \<and> first_of is k = Some i \<longrightarrow> (\<exists>q \<in> set rows'. mirrors digest now sid i q))
    \<and> (\<forall>p. (\<forall>k \<in> item_key ` set is - set seen. \<not> has_key sid k p) \<longrightarrow> (p \<in> set rows' \<longleftrightarrow> p \<in> set rows))"
  using assms
proof (induction "is" arbitrary: rows seen st)
  case (Cons i "is")
  obtain rows1 seen1 st1 where f: "feed_item U digest now sid i (rows, seen, st) = Inr (rows1, seen1, st1)"
    and rest: "feed_items U digest now sid is (rows1, seen1, st1) = (None, rows', seen', st')"
    using Cons.prems(2) by (auto split: sum.splits)
  show ?case
  proof (cases "item_key i \<in> set seen")
    case True
    with f have "rows1 = rows" "seen1 = seen" by (simp_all add: feed_item_again)
    with Cons.IH[OF Cons.prems(1)] rest True show ?thesis
      by (auto simp: first_of_def)
  next
    case False
    note one = feed_item_new[OF Cons.prems(1) False f]
    then have ok1: "supplier_products_ok rows1" and s1: "seen1 = item_key i # seen" by blast+
    note all = Cons.IH[OF ok1 rest]
    from one obtain q where q: "q \<in> set rows1" "mirrors digest now sid i q" by blast
    have "\<forall>k \<in> item_key ` set is - set seen1. \<not> has_key sid k q"
      using q(2) s1 by (auto simp: mirrors_def has_key_def)
    with all q(1) have "q \<in> set rows'" by blast
    then have here: "\<exists>q \<in> set rows'. mirrors digest now sid i q" using q(2) by blast
    show ?thesis
    proof (intro conjI allI impI)
      show "supplier_products_ok rows'" "set seen' = set seen \<union> item_key ` set (i # is)"
        using all s1 by auto
    next
      fix k i'
      assume k: "k \<notin> set seen \<and> first_of (i # is) k = Some i'"
      show "\<exists>q \<in> set rows'. mirrors digest now sid i' q"
      proof (cases "k = item_key i")
        case True
        with k have "i' = i" by (simp add: first_of_def)
        with here show ?thesis by simp
      next
        case False
        with k s1 have "k \<notin> set seen1 \<and> first_of is k = Some i'" by (auto simp: first_of_def)
        with all show ?thesis by blast
      qed
    next
      fix p
      assume u: "\<forall>k \<in> item_key ` set (i # is) - set seen. \<not> has_key sid k p"
      then have "\<not> has_key sid (item_key i) p" using False by simp
      with one have "p \<in> set rows1 \<longleftrightarrow> p \<in> set rows" by blast
      moreover have "\<forall>k \<in> item_key ` set is - set seen1. \<not> has_key sid k p" using u s1 by auto
      with all have "p \<in> set rows' \<longleftrightarrow> p \<in> set rows1" by blast
      ultimately show "p \<in> set rows' \<longleftrightarrow> p \<in> set rows" by simp
    qed
  qed
qed (simp add: first_of_def)


section \<open>A whole run\<close>

text \<open>The identifier the run works under, and the feed it pulls.\<close>

definition supplier_id_for :: "ustr \<Rightarrow> database \<Rightarrow> nat" where
  "supplier_id_for code d =
     (case find_row (\<lambda>s. sup_code s = code) (suppliers d) of
        Some s \<Rightarrow> sup_id s | None \<Rightarrow> fresh_id sup_id (suppliers d))"

definition pulled :: "'w supplier_adapter \<Rightarrow> item_stream option \<Rightarrow> 'w \<Rightarrow> item_stream \<times> 'w" where
  "pulled A items w = (case items of Some feed \<Rightarrow> (feed, w) | None \<Rightarrow> sa_iter_products A w)"

lemma get_or_create_effect:
  assumes "get_or_create_supplier U code name w d = (Inr srow, w', d')"
  shows "w' = w \<and> sup_id srow = supplier_id_for code d \<and> d' = d\<lparr>suppliers := suppliers d'\<rparr>
    \<and> supplier_id_for code d' = supplier_id_for code d
    \<and> find_row (\<lambda>s. sup_code s = code) (suppliers d') \<noteq> None
    \<and> (find_row (\<lambda>s. sup_code s = code) (suppliers d) \<noteq> None \<longrightarrow> d' = d)"
proof (cases "find_row (\<lambda>s. sup_code s = code) (suppliers d)")
  case None
  have "find_row P (ss @ [s]) = Some s" if "find_row P ss = None" "P s" for P ss and s :: supplier
    using that by (induction ss) (auto simp: find_row_def split: if_splits)
  from this[OF None] assms None show ?thesis
    by (auto simp: get_or_create_supplier_def wbind_def wthen_def wread_def wmodify_def wflush_def
        wret_def supplier_id_for_def new_supplier_def flush_def split: if_splits)
qed (use assms in \<open>auto simp: get_or_create_supplier_def wbind_def wread_def wret_def supplier_id_for_def\<close>)

lemma mirror_feed_effect:
  assumes "mirror_feed U digest S now sid feed ws d = (Inr st, ws', d')"
  shows "\<exists>rows seen st0. feed_items U digest now sid (fst feed) (supplier_products d, [], []) = (None, rows, seen, st0)
    \<and> snd feed = None \<and> d' = d\<lparr>supplier_products := miss_rows S sid seen rows\<rparr>
    \<and> fst ws' = fst ws
    \<and> st = stat_add ''total_seen'' (int (length seen)) (count_rows S sid seen rows st0)"
proof -
  obtain err rows seen st0 where
    f: "feed_items U digest now sid (fst feed) (supplier_products d, [], []) = (err, rows, seen, st0)"
    by (metis prod.collapse)
  with assms have "err = None" "snd feed = None"
    by (auto simp: mirror_feed_def wbind_def wread_def wthen_def set_products_def wmodify_def
        tally_def wraise_def split: option.splits)
  with assms f show ?thesis
    by (auto simp: mirror_feed_def wbind_def wread_def wthen_def set_products_def wmodify_def
        tally_def wflush_def flush_def bump_def counters_def split: if_splits)
qed

lemma only_suppliers: "d' = d\<lparr>suppliers := x\<rparr> \<Longrightarrow> supplier_products d' = supplier_products d"
  by simp

lemma only_runs:
  "d' = d\<lparr>sync_runs := x\<rparr> \<Longrightarrow> supplier_products d' = supplier_products d \<and> suppliers d' = suppliers d"
  by simp

lemma sync_supplier_effect:
  assumes "sync_supplier U digest S R A items w d = (Inr st, w', d')"
  shows "\<exists>feed rows seen st0. pulled A items w = ((feed, None), w')
    \<and> feed_items U digest (utcnow R w) (supplier_id_for (sa_code A) d) feed (supplier_products d, [], [])
        = (None, rows, seen, st0)
    \<and> supplier_products d' = miss_rows S (supplier_id_for (sa_code A) d) seen rows
    \<and> supplier_id_for (sa_code A) d' = supplier_id_for (sa_code A) d
    \<and> find_row (\<lambda>s. sup_code s = sa_code A) (suppliers d') \<noteq> None
    \<and> st = stat_add ''total_seen'' (int (length seen))
             (count_rows S (supplier_id_for (sa_code A) d) seen rows st0)"
proof -
  let ?sid = "supplier_id_for (sa_code A) d"
  let ?body = "\<lambda>srow. wbind (in_run (case items of Some feed \<Rightarrow> wret feed
      | None \<Rightarrow> wcall (\<lambda>w. apfst Inr (sa_iter_products A w))))
      (mirror_feed U digest S (utcnow R w) (sup_id srow))"
  obtain rs w1 d1 where g: "get_or_create_supplier U (sa_code A) None w d = (rs, w1, d1)"
    by (metis prod.collapse)
  with assms obtain srow where rs: "rs = Inr srow"
    by (cases rs) (auto simp: sync_supplier_def wbind_def)
  note srow = get_or_create_effect[OF g[unfolded rs]]
  from assms g rs srow have "with_run R (lit ''catalog:'' @ sa_code A) (?body srow) w d1 = (Inr st, w', d')"
    by (simp add: sync_supplier_def wbind_def[of "get_or_create_supplier U (sa_code A) None"]
        wbind_def[of "wtime (utcnow R)"] wtime_def)
  from with_run_success[OF this] obtain st1 d2 where
    b: "?body srow (w, []) (opened R (lit ''catalog:'' @ sa_code A) w d1) = (Inr st, (w', st1), d2)"
    and d': "d' = d2\<lparr>sync_runs := sync_runs d'\<rparr>" by blast
  have p: "in_run (case items of Some feed \<Rightarrow> wret feed
      | None \<Rightarrow> wcall (\<lambda>w. apfst Inr (sa_iter_products A w))) (w, []) d0
      = (Inr (fst (pulled A items w)), (snd (pulled A items w), []), d0)" for d0
    by (cases items) (simp_all add: in_run_def wret_def wcall_def pulled_def apfst_def map_prod_def
        Let_def split: prod.split)
  from b have "mirror_feed U digest S (utcnow R w) ?sid (fst (pulled A items w)) (snd (pulled A items w), [])
      (opened R (lit ''catalog:'' @ sa_code A) w d1) = (Inr st, (w', st1), d2)"
    using srow by (simp add: wbind_def p)
  from mirror_feed_effect[OF this] obtain rows seen st0 where
    m: "feed_items U digest (utcnow R w) ?sid (fst (fst (pulled A items w)))
        (supplier_products d1, [], []) = (None, rows, seen, st0)"
      "snd (fst (pulled A items w)) = None"
      "d2 = (opened R (lit ''catalog:'' @ sa_code A) w d1)\<lparr>supplier_products := miss_rows S ?sid seen rows\<rparr>"
      "w' = snd (pulled A items w)"
      "st = stat_add ''total_seen'' (int (length seen)) (count_rows S ?sid seen rows st0)"
    by (auto simp: opened_def)
  have d1: "supplier_products d1 = supplier_products d"
    using srow by (blast intro: only_suppliers)
  have "supplier_products d' = supplier_products d2 \<and> suppliers d' = suppliers d2"
    by (rule only_runs[OF d'])
  then have d2: "supplier_products d' = miss_rows S ?sid seen rows" "suppliers d' = suppliers d1"
    using m(3) by (simp_all add: opened_def)
  have "supplier_id_for (sa_code A) d' = supplier_id_for (sa_code A) d1"
    by (simp only: supplier_id_for_def d2(2))
  then have "supplier_id_for (sa_code A) d' = ?sid"
    "find_row (\<lambda>s. sup_code s = sa_code A) (suppliers d') \<noteq> None" using srow d2(2) by simp_all
  moreover have "pulled A items w = ((fst (fst (pulled A items w)), None), w')"
    using m(2,4) by (metis prod.collapse)
  ultimately show ?thesis using m(1,5) d2(1) unfolding d1
    by (intro exI[of _ "fst (fst (pulled A items w))"] exI[of _ rows] exI[of _ seen] exI[of _ st0])
      simp
qed


lemma miss_rows_other:
  "p \<in> set rows \<Longrightarrow> \<not> missed sid seen p \<Longrightarrow> p \<in> set (miss_rows S sid seen rows)"
  by (auto simp: miss_rows_def image_iff)

lemma miss_rows_in:
  "p \<in> set rows \<Longrightarrow> (if missed sid seen p then miss_row S p else p) \<in> set (miss_rows S sid seen rows)"
  by (simp add: miss_rows_def)

lemma miss_row_simps [simp]:
  "sp_id (miss_row S p) = sp_id p" "sp_supplier_id (miss_row S p) = sp_supplier_id p"
  "row_key (miss_row S p) = row_key p" "sp_stock (miss_row S p) = sp_stock p"
  by (simp_all add: miss_row_def row_key_def)

lemma miss_rows_key:
  "q \<in> set (miss_rows S sid seen rows) \<Longrightarrow> has_key s k q \<Longrightarrow> \<exists>p \<in> set rows. has_key s k p
     \<and> q = (if missed sid seen p then miss_row S p else p)"
  by (auto simp: miss_rows_def has_key_def split: if_splits)

text \<open>The mirror after a run, row by row.\<close>

lemma run_rows:
  assumes ok: "database_ok d" and run: "sync_supplier U digest S R A items w d = (Inr st, w', d')"
    and feed: "fst (pulled A items w) = (feed, e)"
  defines "sid \<equiv> supplier_id_for (sa_code A) d"
  shows "e = None"
    and "first_of feed k = Some i \<Longrightarrow> \<exists>q \<in> set (supplier_products d'). mirrors digest (utcnow R w) sid i q"
    and "p \<in> set (supplier_products d) \<Longrightarrow> sp_supplier_id p = sid \<Longrightarrow> row_key p \<notin> item_key ` set feed
      \<Longrightarrow> (if sp_is_active p then miss_row S p else p) \<in> set (supplier_products d')"
    and "p \<in> set (supplier_products d) \<Longrightarrow> sp_supplier_id p \<noteq> sid \<Longrightarrow> p \<in> set (supplier_products d')"
proof -
  from sync_supplier_effect[OF run] feed obtain rows seen st0 where
    e: "e = None" and
    f: "feed_items U digest (utcnow R w) sid feed (supplier_products d, [], []) = (None, rows, seen, st0)"
    and d': "supplier_products d' = miss_rows S sid seen rows"
    unfolding sid_def by force
  show "e = None" by (rule e)
  have "supplier_products_ok (supplier_products d)" using ok by (simp add: database_ok_def)
  note m = feed_items_mirrored[OF this f]
  then have seen: "set seen = item_key ` set feed" by simp
  show "\<exists>q \<in> set (supplier_products d'). mirrors digest (utcnow R w) sid i q" if "first_of feed k = Some i"
  proof -
    from m[THEN conjunct2, THEN conjunct2, THEN conjunct1, rule_format, of k i] that
    obtain q where q: "q \<in> set rows" "mirrors digest (utcnow R w) sid i q" by auto
    have "i \<in> set feed" using that by (auto simp: first_of_def find_Some_iff)
    with q(2) seen have "\<not> missed sid seen q" by (auto simp: missed_def mirrors_def)
    with q d' show ?thesis using miss_rows_other by metis
  qed
  show "(if sp_is_active p then miss_row S p else p) \<in> set (supplier_products d')"
    if "p \<in> set (supplier_products d)" "sp_supplier_id p = sid" "row_key p \<notin> item_key ` set feed"
  proof -
    have "\<forall>k \<in> item_key ` set feed - set []. \<not> has_key sid k p" using that by (auto simp: has_key_def)
    with m that(1) have "p \<in> set rows" by blast
    moreover have "missed sid seen p \<longleftrightarrow> sp_is_active p" using that(2,3) seen by (simp add: missed_def)
    ultimately show ?thesis using miss_rows_in[of p rows sid seen S] d' by simp
  qed
  show "p \<in> set (supplier_products d')" if "p \<in> set (supplier_products d)" "sp_supplier_id p \<noteq> sid"
  proof -
    have "\<forall>k \<in> item_key ` set feed - set []. \<not> has_key sid k p" using that by (auto simp: has_key_def)
    with m that(1) have "p \<in> set rows" by blast
    with that(2) show ?thesis unfolding d' by (intro miss_rows_other) (simp_all add: missed_def)
  qed
qed


section \<open>Missing products\<close>

text \<open>A sequence of runs, each its own transaction; the result counts those that committed.\<close>

fun pull_all :: "('f \<Rightarrow> ('w, 'a) work) \<Rightarrow> 'f list \<Rightarrow> 'w \<Rightarrow> database \<Rightarrow> nat \<times> 'w \<times> database" where
  "pull_all run [] w d = (0, w, d)"
| "pull_all run (f # fs) w d =
     (case session_scope (run f) w d of
        (r, w', d') \<Rightarrow>
          (case pull_all run fs w' d' of
             (n, w'', d'') \<Rightarrow> ((case r of Inl _ \<Rightarrow> n | Inr _ \<Rightarrow> Suc n), w'', d'')))"

text \<open>The row of a product that missed \<open>m\<close> runs with the limit at \<open>n\<close>.\<close>

definition after_misses :: "nat \<Rightarrow> nat \<Rightarrow> supplier_product \<Rightarrow> supplier_product" where
  "after_misses n m p = p\<lparr>sp_missing_runs := int (min m n), sp_is_active := m < n\<rparr>"

lemma miss_after_misses:
  assumes "deactivate_missing_after_runs S = int n" "0 < n"
  shows "(if sp_is_active (after_misses n m p) then miss_row S (after_misses n m p) else after_misses n m p)
    = after_misses n (Suc m) p"
proof (cases "m < n")
  case True
  have min: "min m n = m" "min (Suc m) n = Suc m" using True by simp_all
  have suc: "int (Suc m) = int m + 1" "Suc m < n \<longleftrightarrow> int m + 1 < int n" by linarith+
  have a: "after_misses n m p = p\<lparr>sp_missing_runs := int m, sp_is_active := True\<rparr>"
    by (simp only: after_misses_def min True)
  have b: "after_misses n (Suc m) p = p\<lparr>sp_missing_runs := int m + 1, sp_is_active := int m + 1 < int n\<rparr>"
    by (simp only: after_misses_def min suc)
  show ?thesis unfolding a b by (simp add: miss_row_def assms(1))
next
  case False
  then have "min m n = n" "min (Suc m) n = n" by simp_all
  with False show ?thesis by (simp add: after_misses_def)
qed

lemma missing_step:
  assumes "database_ok d" "session_scope (sync_supplier U digest S R A (Some feed)) w d = (r, w', d')"
    and "p \<in> set (supplier_products d)" "sp_supplier_id p = supplier_id_for (sa_code A) d"
    and "row_key p \<notin> item_key ` set (fst feed)"
    and "find_row (\<lambda>s. sup_code s = sa_code A) (suppliers d) \<noteq> None"
  shows "database_ok d' \<and> find_row (\<lambda>s. sup_code s = sa_code A) (suppliers d') \<noteq> None
    \<and> supplier_id_for (sa_code A) d' = supplier_id_for (sa_code A) d
    \<and> (case r of Inl _ \<Rightarrow> p \<in> set (supplier_products d')
        | Inr _ \<Rightarrow> (if sp_is_active p then miss_row S p else p) \<in> set (supplier_products d'))"
proof (cases r)
  case (Inl x)
  with session_scope_error[OF assms(2)[unfolded Inl]] assms show ?thesis by simp
next
  case (Inr st)
  note run = session_scope_success[OF assms(2)[unfolded Inr]]
  have "fst (pulled A (Some feed) w) = (fst feed, snd feed)" by (simp add: pulled_def)
  from run_rows(3)[OF assms(1) run[THEN conjunct1] this assms(3,4,5)] sync_supplier_effect[OF run[THEN conjunct1]] run Inr
  show ?thesis by auto
qed

text \<open>
  C33: A product that stops appearing in the feed is deactivated exactly when the configured
  number of committed runs in a row has missed it, not one run earlier, whatever the feeds
  contained otherwise and however many runs in between failed and rolled back: after \<open>m\<close> such runs
  it has \<open>min m n\<close> missed runs and is active exactly when \<open>m < n\<close>, and nothing else in its row has
  changed.
\<close>
theorem deactivated_after_exactly_n_misses:
  assumes "database_ok d" "deactivate_missing_after_runs S = int n" "0 < n"
    and "p \<in> set (supplier_products d)" "sp_is_active p" "sp_missing_runs p = 0"
    and "find_row (\<lambda>s. sup_code s = sa_code A) (suppliers d) = Some s" "sp_supplier_id p = sup_id s"
    and "\<forall>feed \<in> set feeds. row_key p \<notin> item_key ` set (fst feed)"
    and "pull_all (\<lambda>feed. sync_supplier U digest S R A (Some feed)) feeds w d = (m, w', d')"
  shows "p\<lparr>sp_missing_runs := int (min m n), sp_is_active := m < n\<rparr> \<in> set (supplier_products d')"
proof -
  have gen: "after_misses n (m0 + m) p \<in> set (supplier_products d')"
    if "database_ok d" "after_misses n m0 p \<in> set (supplier_products d)"
      "find_row (\<lambda>s. sup_code s = sa_code A) (suppliers d) \<noteq> None"
      "sp_supplier_id p = supplier_id_for (sa_code A) d"
      "\<forall>feed \<in> set feeds. row_key p \<notin> item_key ` set (fst feed)"
      "pull_all (\<lambda>feed. sync_supplier U digest S R A (Some feed)) feeds w d = (m, w', d')"
    for m0 m w d w' d'
    using that
  proof (induction feeds arbitrary: m0 m w d)
    case (Cons feed feeds)
    let ?run = "\<lambda>feed. sync_supplier U digest S R A (Some feed)"
    obtain r w1 d1 where one: "session_scope (?run feed) w d = (r, w1, d1)" by (metis prod.collapse)
    obtain m1 where rest: "pull_all ?run feeds w1 d1 = (m1, w', d')"
      and m: "m = (case r of Inl _ \<Rightarrow> m1 | Inr _ \<Rightarrow> Suc m1)"
      using Cons.prems(6) one by (auto split: prod.splits)
    have key: "row_key (after_misses n m0 p) = row_key p" "sp_supplier_id (after_misses n m0 p) = sp_supplier_id p"
      by (simp_all add: after_misses_def row_key_def)
    note st = missing_step[OF Cons.prems(1) one Cons.prems(2), unfolded key]
    from st Cons.prems(3-5) have nxt: "database_ok d1"
      "find_row (\<lambda>s. sup_code s = sa_code A) (suppliers d1) \<noteq> None"
      "sp_supplier_id p = supplier_id_for (sa_code A) d1" by auto
    have "after_misses n (case r of Inl _ \<Rightarrow> m0 | Inr _ \<Rightarrow> Suc m0) p \<in> set (supplier_products d1)"
      using st Cons.prems(3-5) miss_after_misses[OF assms(2,3), of m0 p] by (cases r) auto
    from Cons.IH[OF nxt(1) this nxt(2,3) _ rest] Cons.prems(5) m show ?case by (cases r) auto
  qed simp
  have "p = after_misses n 0 p" using assms(3,5,6) by (cases p) (simp add: after_misses_def)
  then have "after_misses n 0 p \<in> set (supplier_products d)" using assms(4) by simp
  from gen[OF assms(1) this _ _ assms(9,10)] assms(7,8)
  show ?thesis by (simp add: supplier_id_for_def after_misses_def)
qed


section \<open>Repeating a feed\<close>

text \<open>The rows a feed that changed nothing touches.\<close>

definition touch :: "timestamp \<Rightarrow> nat \<Rightarrow> product_key set \<Rightarrow> supplier_product \<Rightarrow> supplier_product" where
  "touch now sid ks p = (if \<exists>k \<in> ks. has_key sid k p then mark_seen now p else p)"

lemma put_row_touch:
  assumes "supplier_products_ok rows" "q \<in> set rows" "has_key sid k q"
  shows "put_row sp_id (mark_seen now q) rows = map (touch now sid {k}) rows"
  unfolding put_row_def
proof (rule map_cong[OF refl])
  fix p
  assume p: "p \<in> set rows"
  have "inj_on sp_id (set rows)" using assms(1) by (simp add: supplier_products_ok_def distinct_map)
  then have "sp_id p = sp_id q \<longleftrightarrow> p = q" using p assms(2) by (auto dest: inj_onD)
  moreover have "has_key sid k p \<longleftrightarrow> p = q" using has_key_unique[OF assms(1) p assms(2)] assms(3) by blast
  ultimately show "(if sp_id p = sp_id (mark_seen now q) then mark_seen now q else p) = touch now sid {k} p"
    by (simp add: touch_def)
qed

definition current :: "(json \<Rightarrow> ustr) \<Rightarrow> nat \<Rightarrow> supplier_product list \<Rightarrow> supplier_item \<Rightarrow> bool" where
  "current digest sid rows i \<longleftrightarrow> (\<exists>q \<in> set rows. has_key sid (item_key i) q
     \<and> sp_content_hash q = content_hash digest i \<and> sp_is_active q \<and> sp_missing_runs q = 0)"

lemma feed_item_quiet:
  assumes "supplier_products_ok rows" "item_key i \<notin> set seen" "current digest sid rows i"
  shows "feed_item U digest now sid i (rows, seen, st)
      = Inr (map (touch now sid {item_key i}) rows, item_key i # seen, stat_add ''unchanged'' 1 st)"
proof -
  from assms(3) obtain q where q: "q \<in> set rows" "has_key sid (item_key i) q"
    "sp_content_hash q = content_hash digest i" "sp_is_active q" by (auto simp: current_def)
  have "find_product sid (item_key i) rows \<noteq> None"
    using q(1,2) by (auto simp: find_product_def find_row_None has_key_def)
  then obtain q' where f: "find_product sid (item_key i) rows = Some q'" by blast
  then have "q' \<in> set rows" "has_key sid (item_key i) q'"
    using find_row_Some[of "\<lambda>p. sp_supplier_id p = sid \<and> row_key p = item_key i" rows q']
    by (simp_all add: find_product_def has_key_def)
  with has_key_unique[OF assms(1)] q(1,2) have "q' = q" by blast
  with f q assms(2) put_row_touch[OF assms(1) q(1,2), of now] show ?thesis
    by (simp add: feed_item_def count_seen_def)
qed

lemma touched_ok: "supplier_products_ok rows \<Longrightarrow> supplier_products_ok (map (touch now sid ks) rows)"
proof -
  have t: "sp_id (touch now sid ks p) = sp_id p"
    "uq_supplier_product_identity (touch now sid ks p) = uq_supplier_product_identity p"
    "sp_stock (touch now sid ks p) = sp_stock p" for p
    using uq_product_key[of "touch now sid ks p" p] by (simp_all add: touch_def)
  have "map sp_id (map (touch now sid ks) rows) = map sp_id rows"
    "keys_of uq_supplier_product_identity (map (touch now sid ks) rows)
      = keys_of uq_supplier_product_identity rows"
    by (simp_all add: keys_of_def filter_map comp_def t)
  then show "supplier_products_ok rows \<Longrightarrow> ?thesis"
    by (simp add: supplier_products_ok_def uniq_def list_all_iff ck_supplier_product_stock_non_negative_def t
        del: map_map)
qed


lemma touch_touch: "touch now sid A (touch now sid B p) = touch now sid (A \<union> B) p"
proof -
  have "has_key sid k (touch now sid B p) = has_key sid k p" for k
    by (simp add: touch_def has_key_def)
  moreover have "mark_seen now (mark_seen now p) = mark_seen now p" by (simp add: mark_seen_def)
  ultimately show ?thesis by (auto simp: touch_def)
qed

lemma current_touched:
  assumes "current digest sid rows i" "k \<noteq> item_key i"
  shows "current digest sid (map (touch now sid {k}) rows) i"
proof -
  from assms(1) obtain q where q: "q \<in> set rows" "has_key sid (item_key i) q"
    "sp_content_hash q = content_hash digest i" "sp_is_active q" "sp_missing_runs q = 0"
    by (auto simp: current_def)
  have "touch now sid {k} q = q" using q(2) assms(2) by (auto simp: touch_def has_key_def)
  with q show ?thesis unfolding current_def by (metis image_eqI list.set_map)
qed

lemma feed_items_quiet:
  assumes "supplier_products_ok rows"
    and "\<And>k i. k \<notin> set seen \<Longrightarrow> first_of is k = Some i \<Longrightarrow> current digest sid rows i"
  shows "\<exists>seen' st'. feed_items U digest now sid is (rows, seen, st)
      = (None, map (touch now sid (item_key ` set is - set seen)) rows, seen', st')
    \<and> set seen' = set seen \<union> item_key ` set is
    \<and> (\<forall>c. c \<notin> {''unchanged'', ''duplicate_in_feed''} \<longrightarrow> stat st' c = stat st c)"
  using assms
proof (induction "is" arbitrary: rows seen st)
  case Nil
  have "map (touch now sid {}) rows = rows" by (rule map_idI) (simp add: touch_def)
  then show ?case by simp
next
  case (Cons i "is")
  show ?case
  proof (cases "item_key i \<in> set seen")
    case True
    have c: "current digest sid rows i'" if "k \<notin> set seen" "first_of is k = Some i'" for k i'
    proof -
      have "item_key i \<noteq> k" using that(1) True by blast
      then have "first_of (i # is) k = Some i'" using that(2) by (simp add: first_of_def)
      with that(1) show ?thesis by (rule Cons.prems(2))
    qed
    have ks: "item_key ` set (i # is) - set seen = item_key ` set is - set seen"
      "set seen \<union> item_key ` set (i # is) = set seen \<union> item_key ` set is" using True by auto
    from Cons.IH[OF Cons.prems(1) c, where st = "stat_add ''duplicate_in_feed'' 1 st"] show ?thesis
      unfolding ks by (auto simp: feed_item_again[OF True])
  next
    case False
    have now: "current digest sid rows i" using Cons.prems(2)[OF False] by (simp add: first_of_def)
    let ?rows = "map (touch now sid {item_key i}) rows"
    have c: "current digest sid ?rows i'" if "k \<notin> set (item_key i # seen)" "first_of is k = Some i'" for k i'
    proof -
      have "item_key i' = k" using that(2) by (auto simp: first_of_def find_Some_iff)
      then show ?thesis using Cons.prems(2)[of k i'] that by (intro current_touched) (auto simp: first_of_def)
    qed
    have ks: "map (touch now sid (item_key ` set is - set (item_key i # seen))) ?rows
        = map (touch now sid (item_key ` set (i # is) - set seen)) rows"
    proof -
      have "(item_key ` set is - set (item_key i # seen)) \<union> {item_key i} = item_key ` set (i # is) - set seen"
        using False by auto
      then show ?thesis by (simp add: comp_def touch_touch)
    qed
    let ?st = "stat_add ''unchanged'' 1 st"
    have "\<exists>seen' st'. feed_items U digest now sid is (?rows, item_key i # seen, ?st)
      = (None, map (touch now sid (item_key ` set is - set (item_key i # seen))) ?rows, seen', st')
      \<and> set seen' = set (item_key i # seen) \<union> item_key ` set is
      \<and> (\<forall>c. c \<notin> {''unchanged'', ''duplicate_in_feed''} \<longrightarrow> stat st' c = stat ?st c)"
      by (rule Cons.IH[OF touched_ok[OF Cons.prems(1)]]) (rule c)
    then obtain seen' st' where rest: "feed_items U digest now sid is (?rows, item_key i # seen, ?st)
      = (None, map (touch now sid (item_key ` set (i # is) - set seen)) rows, seen', st')"
      "set seen' = set (item_key i # seen) \<union> item_key ` set is"
      "\<forall>c. c \<notin> {''unchanged'', ''duplicate_in_feed''} \<longrightarrow> stat st' c = stat ?st c"
      unfolding ks by blast
    have "feed_items U digest now sid (i # is) (rows, seen, st)
        = feed_items U digest now sid is (?rows, item_key i # seen, ?st)"
      using feed_item_quiet[OF Cons.prems(1) False now, of U now st] by simp
    with rest show ?thesis by (intro exI[of _ seen'] exI[of _ st']) auto
  qed
qed

lemma stat_count_rows:
  "c \<notin> {''missing_grace'', ''deactivated''} \<Longrightarrow> stat (count_rows S sid seen rows st) c = stat st c"
proof -
  have "stat (fold (count_missed S) ps st) c = stat st c" if "c \<notin> {''missing_grace'', ''deactivated''}" for ps
    using that by (induction ps arbitrary: st) (auto simp: count_missed_def)
  then show "c \<notin> {''missing_grace'', ''deactivated''} \<Longrightarrow> ?thesis" by (simp add: count_rows_def)
qed

text \<open>
  Re-running a catalogue sync converges: over the feed that was just mirrored a run creates,
  updates and reactivates nothing, adds no row, and changes nothing but the time it was last
  seen in the row of a product the feed lists.
\<close>
theorem resync_changes_nothing:
  assumes "database_ok d"
    and "session_scope (sync_supplier U digest S R A (Some feed)) w d = (Inr st1, w1, d1)"
    and "session_scope (sync_supplier U digest S R A (Some feed)) w2 d1 = (Inr st2, w3, d2)"
  shows "stat st2 ''created'' = 0 \<and> stat st2 ''updated'' = 0 \<and> stat st2 ''reactivated'' = 0
    \<and> length (supplier_products d2) = length (supplier_products d1)
    \<and> (\<forall>p \<in> set (supplier_products d1). sp_supplier_id p = supplier_id_for (sa_code A) d1
         \<and> row_key p \<in> item_key ` set (fst feed)
         \<longrightarrow> p\<lparr>sp_last_seen_at := utcnow R w2\<rparr> \<in> set (supplier_products d2))"
proof -
  let ?sid = "supplier_id_for (sa_code A) d1" and ?now = "utcnow R w2"
  note run1 = session_scope_success[OF assms(2)] and run2 = session_scope_success[OF assms(3)]
  have pull: "fst (pulled A (Some feed) w) = (fst feed, snd feed)" for w by (simp add: pulled_def)
  have sid: "supplier_id_for (sa_code A) d = ?sid" using sync_supplier_effect[OF run1[THEN conjunct1]] by auto
  have ok1: "supplier_products_ok (supplier_products d1)" using run1 by (simp add: database_ok_def)
  have mir: "\<exists>q \<in> set (supplier_products d1). mirrors digest (utcnow R w) ?sid i q"
    if "first_of (fst feed) k = Some i" for k i
    using run_rows(2)[OF assms(1) run1[THEN conjunct1] pull that] unfolding sid by blast
  have cur: "current digest ?sid (supplier_products d1) i" if "first_of (fst feed) k = Some i" for k i
    using mir[OF that] by (auto simp: current_def mirrors_def has_key_def)
  obtain seen st where q: "feed_items U digest ?now ?sid (fst feed) (supplier_products d1, [], [])
      = (None, map (touch ?now ?sid (item_key ` set (fst feed))) (supplier_products d1), seen, st)"
    "set seen = item_key ` set (fst feed)"
    "\<forall>c. c \<notin> {''unchanged'', ''duplicate_in_feed''} \<longrightarrow> stat st c = 0"
    using feed_items_quiet[OF ok1, of "[]" "fst feed" digest ?sid U ?now "[]"] cur by auto
  from sync_supplier_effect[OF run2[THEN conjunct1]] pull[of w2] q(1)
  have d2: "supplier_products d2 = miss_rows S ?sid seen
      (map (touch ?now ?sid (item_key ` set (fst feed))) (supplier_products d1))"
    and st2: "st2 = stat_add ''total_seen'' (int (length seen)) (count_rows S ?sid seen
      (map (touch ?now ?sid (item_key ` set (fst feed))) (supplier_products d1)) st)"
    by force+
  have "stat st2 ''created'' = 0 \<and> stat st2 ''updated'' = 0 \<and> stat st2 ''reactivated'' = 0"
    using q(3) unfolding st2 by (simp add: stat_count_rows)
  moreover have "length (supplier_products d2) = length (supplier_products d1)"
    unfolding d2 by (simp add: miss_rows_def)
  moreover have "p\<lparr>sp_last_seen_at := ?now\<rparr> \<in> set (supplier_products d2)"
    if p: "p \<in> set (supplier_products d1)" "sp_supplier_id p = ?sid" "row_key p \<in> item_key ` set (fst feed)" for p
  proof -
    have "first_of (fst feed) (row_key p) \<noteq> None" using p(3) by (auto simp: first_of_def find_None_iff)
    then obtain i where i: "first_of (fst feed) (row_key p) = Some i" by blast
    then have ik: "item_key i = row_key p" by (auto simp: first_of_def find_Some_iff)
    from mir[OF i] obtain q where q': "q \<in> set (supplier_products d1)" "mirrors digest (utcnow R w) ?sid i q" by blast
    have "q = p" using has_key_unique[OF ok1 q'(1) p(1), of ?sid "row_key p"] q'(2) ik p(2)
      by (simp add: mirrors_def has_key_def)
    with q'(2) have m: "mark_seen ?now p = p\<lparr>sp_last_seen_at := ?now\<rparr>"
      by (cases p) (simp add: mark_seen_def mirrors_def)
    have "touch ?now ?sid (item_key ` set (fst feed)) p = mark_seen ?now p"
      using p by (auto simp: touch_def has_key_def)
    with p(1) have "mark_seen ?now p \<in> set (map (touch ?now ?sid (item_key ` set (fst feed))) (supplier_products d1))"
      by (metis image_eqI list.set_map)
    moreover have "\<not> missed ?sid seen (mark_seen ?now p)" using p(3) q(2) by (simp add: missed_def)
    ultimately show ?thesis unfolding d2 m[symmetric] by (rule miss_rows_other)
  qed
  ultimately show ?thesis by blast
qed


section \<open>The store's catalogue\<close>

definition store_key :: "ustr \<Rightarrow> ustr \<Rightarrow> store_product \<Rightarrow> bool" where
  "store_key store ext s \<longleftrightarrow> st_store_code s = store \<and> st_product_ext_id s = ext"

definition store_identity :: "store_product \<Rightarrow> nat \<times> ustr \<times> ustr" where
  "store_identity s = (st_id s, st_store_code s, st_product_ext_id s)"

text \<open>A row as a run at \<open>now\<close> leaves it for the item \<open>c\<close>: writing the item again changes nothing.\<close>

definition wrote :: "unicode \<Rightarrow> ustr \<Rightarrow> timestamp \<Rightarrow> catalog_item \<Rightarrow> store_product \<Rightarrow> bool" where
  "wrote U store now c s \<longleftrightarrow> store_key store (ci_product_ext_id c) s \<and> apply_catalog_item U c now s = s"

lemma apply_catalog_simps [simp]:
  "store_identity (apply_catalog_item U c now s) = store_identity s"
  "st_id (apply_catalog_item U c now s) = st_id s"
  "store_key store ext (apply_catalog_item U c now s) = store_key store ext s"
  "apply_catalog_item U c now (apply_catalog_item U c now s) = apply_catalog_item U c now s"
  by (simp_all add: apply_catalog_item_def store_identity_def store_key_def Let_def)

lemma store_key_unique:
  assumes "store_products_ok ss" "s \<in> set ss" "t \<in> set ss" "store_key store ext s" "store_key store ext t"
  shows "s = t"
proof -
  have "uniq uq_store_product_identity ss" using assms(1) by (simp add: store_products_ok_def)
  from uniqD[OF this assms(2,3), of "(store, ext)"] assms(4,5) show ?thesis
    by (simp add: store_key_def uq_store_product_identity_def)
qed

definition store_mirror_step :: "ustr \<Rightarrow> ustr set \<Rightarrow> store_product list \<Rightarrow> store_product list \<Rightarrow> bool" where
  "store_mirror_step store exts ss ss' \<longleftrightarrow> store_products_ok ss'
     \<and> prefix (map store_identity ss) (map store_identity ss')
     \<and> (\<forall>s. (\<forall>ext \<in> exts. \<not> store_key store ext s) \<longrightarrow> (s \<in> set ss' \<longleftrightarrow> s \<in> set ss))"

lemma add_store_product:
  assumes "store_products_ok ss" "s = apply_catalog_item U c now (blank_store_product (fresh_id st_id ss) store (ci_product_ext_id c))"
    and "\<forall>t \<in> set ss. \<not> store_key store (ci_product_ext_id c) t"
  shows "store_mirror_step store {ci_product_ext_id c} ss (ss @ [s]) \<and> wrote U store now c s"
proof -
  have k: "store_key store (ci_product_ext_id c) s" "st_id s = fresh_id st_id ss"
    using assms(2) by (simp_all add: store_key_def blank_store_product_def)
      (simp_all add: apply_catalog_item_def Let_def)
  have u: "uq_store_product_identity s = Some (store, ci_product_ext_id c)"
    using k(1) by (simp add: store_key_def uq_store_product_identity_def)
  have "\<forall>t \<in> set ss. uq_store_product_identity t \<noteq> Some (store, ci_product_ext_id c)"
    using assms(3) by (auto simp: store_key_def uq_store_product_identity_def)
  then have "uniq uq_store_product_identity (ss @ [s])"
    using assms(1) u by (auto simp: uniq_append store_products_ok_def)
  moreover have "st_id s \<notin> st_id ` set ss" using k(2) fresh_id_fresh by (metis imageE)
  ultimately have "store_products_ok (ss @ [s])" using assms(1) by (simp add: store_products_ok_def)
  moreover have "wrote U store now c s" using k(1) assms(2) by (simp add: wrote_def)
  ultimately show ?thesis using k(1) by (auto simp: store_mirror_step_def)
qed

lemma put_store_product:
  assumes "store_products_ok ss" "t \<in> set ss" "store_key store (ci_product_ext_id c) t"
    and "s = apply_catalog_item U c now t"
  shows "store_mirror_step store {ci_product_ext_id c} ss (put_row st_id s ss)
    \<and> wrote U store now c s \<and> s \<in> set (put_row st_id s ss)"
proof -
  have d: "distinct (map st_id ss)" and u: "uniq uq_store_product_identity ss"
    using assms(1) by (simp_all add: store_products_ok_def)
  have k: "store_key store (ci_product_ext_id c) s" "st_id s = st_id t"
    using assms(3,4) by simp_all
  have set: "set (put_row st_id s ss) = insert s (set ss - {t})"
    using set_put_row[OF d assms(2)] k(2) by simp
  have "map store_identity (put_row st_id s ss) = map store_identity ss"
  proof -
    have "store_identity s = store_identity x" if "x \<in> set ss" "st_id x = st_id s" for x
    proof -
      have "x = t" using that k(2) d assms(2) by (metis distinct_map inj_on_def)
      then show ?thesis using assms(4) by simp
    qed
    then show ?thesis by (auto simp: put_row_def)
  qed
  moreover have "uniq uq_store_product_identity (put_row st_id s ss)"
  proof (rule uniq_put_row[OF u d])
    fix x k
    assume x: "x \<in> set ss" "st_id x \<noteq> st_id s" "uq_store_product_identity s = Some k"
    have "uq_store_product_identity t = Some k"
      using x(3) assms(3) k(1) by (simp add: store_key_def uq_store_product_identity_def)
    with uniqD[OF u x(1) assms(2), of k] x(2) assms(4) show "uq_store_product_identity x \<noteq> Some k" by auto
  qed
  ultimately show ?thesis using set k assms(3,4) d
    by (auto simp: store_mirror_step_def store_products_ok_def wrote_def)
qed

lemma mirror_item_effect:
  assumes "database_ok d" "mirror_item U store now c u ws d = (Inr u', ws', d')"
  shows "fst ws' = fst ws \<and> d' = d\<lparr>store_products := store_products d'\<rparr>
    \<and> store_mirror_step store {ci_product_ext_id c} (store_products d) (store_products d')
    \<and> (\<exists>s \<in> set (store_products d'). wrote U store now c s)"
proof -
  have ok: "store_products_ok (store_products d)" using assms(1) by (simp add: database_ok_def)
  show ?thesis
  proof (cases "find_store_product store (ci_product_ext_id c) d")
    case None
    then have "\<forall>t \<in> set (store_products d). \<not> store_key store (ci_product_ext_id c) t"
      by (simp add: find_store_product_def find_row_None store_key_def)
    from add_store_product[OF ok refl this, of U now] assms None show ?thesis
      by (auto simp: mirror_item_def wthen_def wbind_def wflush_def flush_def wread_def bump_def
          wmodify_def)
  next
    case (Some t)
    then have "t \<in> set (store_products d)" "store_key store (ci_product_ext_id c) t"
      using find_row_Some[of "\<lambda>s. st_store_code s = store \<and> st_product_ext_id s = ci_product_ext_id c"
          "store_products d" t]
      by (simp_all add: find_store_product_def store_key_def)
    from put_store_product[OF ok this refl, of U now] assms Some show ?thesis
      by (auto simp: mirror_item_def wthen_def wbind_def wflush_def flush_def wread_def bump_def
          wmodify_def)
  qed
qed

definition last_of :: "catalog_item list \<Rightarrow> ustr \<Rightarrow> catalog_item option" where
  "last_of cs ext = find (\<lambda>c. ci_product_ext_id c = ext) (rev cs)"

lemma last_of_Cons:
  "last_of (c # cs) ext = (case last_of cs ext of Some x \<Rightarrow> Some x
     | None \<Rightarrow> if ci_product_ext_id c = ext then Some c else None)"
proof -
  have "find P (xs @ ys) = (case find P xs of Some x \<Rightarrow> Some x | None \<Rightarrow> find P ys)" for P :: "catalog_item \<Rightarrow> bool" and xs ys
    by (induction xs) auto
  then show ?thesis by (simp add: last_of_def split: option.split)
qed

lemma mirror_step_trans:
  "store_mirror_step store A s1 s2 \<Longrightarrow> store_mirror_step store B s2 s3 \<Longrightarrow> store_mirror_step store (A \<union> B) s1 s3"
  unfolding store_mirror_step_def by (auto intro: prefix_order.trans)

lemma store_change_ok:
  "d1 = d\<lparr>store_products := x\<rparr> \<Longrightarrow> database_ok d \<Longrightarrow> store_products_ok x \<Longrightarrow> database_ok d1"
  by (simp add: database_ok_def)

lemma store_change_trans:
  "d1 = d\<lparr>store_products := x\<rparr> \<Longrightarrow> d2 = d1\<lparr>store_products := y\<rparr> \<Longrightarrow> d2 = d\<lparr>store_products := y\<rparr>"
  by simp

lemma only_runs_store: "d' = d\<lparr>sync_runs := x\<rparr> \<Longrightarrow> store_products d' = store_products d"
  by simp

lemma mirror_fold_effect:
  assumes "database_ok d" "wfold (mirror_item U store now) cs u ws d = (Inr u', ws', d')"
  shows "fst ws' = fst ws \<and> database_ok d' \<and> d' = d\<lparr>store_products := store_products d'\<rparr>
    \<and> store_mirror_step store (ci_product_ext_id ` set cs) (store_products d) (store_products d')
    \<and> (\<forall>ext c. last_of cs ext = Some c \<longrightarrow> (\<exists>s \<in> set (store_products d'). wrote U store now c s))"
  using assms
proof (induction cs arbitrary: u ws d)
  case Nil
  then show ?case by (simp add: wret_def store_mirror_step_def last_of_def database_ok_def)
next
  case (Cons c cs)
  obtain r ws1 d1 where a: "mirror_item U store now c u ws d = (r, ws1, d1)" by (metis prod.collapse)
  with Cons.prems(2) obtain u1 where r: "r = Inr u1" by (cases r) (auto simp: wbind_def)
  from a r Cons.prems(2) have rest: "wfold (mirror_item U store now) cs u1 ws1 d1 = (Inr u', ws', d')"
    by (simp add: wbind_def)
  note one = mirror_item_effect[OF Cons.prems(1) a[unfolded r]]
  have ok1: "database_ok d1"
    by (rule store_change_ok[OF _ Cons.prems(1), where x = "store_products d1"])
      (use one in \<open>auto simp: store_mirror_step_def\<close>)
  note all = Cons.IH[OF ok1 rest]
  have d': "d' = d\<lparr>store_products := store_products d'\<rparr>"
    by (rule store_change_trans[where x = "store_products d1"]) (use one all in auto)
  have "store_mirror_step store ({ci_product_ext_id c} \<union> ci_product_ext_id ` set cs)
      (store_products d) (store_products d')"
    using one all mirror_step_trans by blast
  moreover have "\<exists>s \<in> set (store_products d'). wrote U store now x s" if "last_of (c # cs) ext = Some x" for ext x
  proof (cases "last_of cs ext")
    case None
    with that have x: "x = c" "ci_product_ext_id c = ext" by (auto simp: last_of_Cons split: if_splits)
    from one obtain s where s: "s \<in> set (store_products d1)" "wrote U store now c s" by blast
    have "ext \<notin> ci_product_ext_id ` set cs" using None by (auto simp: last_of_def find_None_iff)
    then have "\<forall>e \<in> ci_product_ext_id ` set cs. \<not> store_key store e s"
      using s(2) x(2) by (auto simp: wrote_def store_key_def)
    with all s(1) have "s \<in> set (store_products d')" by (simp add: store_mirror_step_def)
    with s(2) x(1) show ?thesis by blast
  next
    case (Some y)
    with that all show ?thesis by (auto simp: last_of_Cons)
  qed
  ultimately show ?case using one all d' by simp
qed


text \<open>
  A store catalogue run that commits mirrors what it pulled: for every product of the pull
  there is exactly one row, holding what the last item listed for it says, its bucket being
  the key its title parses to; products not in the pull keep their rows, and no row ever loses
  its identifier or its place.
\<close>
theorem store_catalog_is_mirrored:
  assumes "database_ok d"
    and "session_scope (sync_store U R A since (Some (feed, e)) pages) w d = (Inr st, w', d')"
  shows "(\<forall>ext c. last_of feed ext = Some c \<longrightarrow>
        (\<exists>s \<in> set (store_products d'). wrote U (ad_code A) (utcnow R w) c s
           \<and> st_match_key s = match_key (parse_title U (ci_name c))
           \<and> (\<forall>t \<in> set (store_products d'). store_key (ad_code A) ext t \<longrightarrow> t = s)))
    \<and> (\<forall>s \<in> set (store_products d). (\<forall>c \<in> set feed. \<not> store_key (ad_code A) (ci_product_ext_id c) s)
        \<longrightarrow> s \<in> set (store_products d'))
    \<and> prefix (map store_identity (store_products d)) (map store_identity (store_products d'))"
proof -
  let ?body = "wbind (in_run (wret (feed, e))) (\<lambda>feed.
      wthen (wfold (mirror_item U (ad_code A) (utcnow R w)) (fst feed) ())
        (case snd feed of Some e \<Rightarrow> wraise e | None \<Rightarrow> wthen wflush counters))"
  note run = session_scope_success[OF assms(2)]
  then have "with_run R (lit ''store-catalog:'' @ ad_code A) ?body w d = (Inr st, w', d')"
    by (simp add: sync_store_def wbind_def[of "wtime (utcnow R)"] wtime_def)
  from with_run_success[OF this] obtain st1 d2 where
    b: "?body (w, []) (opened R (lit ''store-catalog:'' @ ad_code A) w d) = (Inr st, (w', st1), d2)"
    and d': "d' = d2\<lparr>sync_runs := sync_runs d'\<rparr>" by blast
  let ?d0 = "opened R (lit ''store-catalog:'' @ ad_code A) w d"
  obtain r ws1 d1 where f: "wfold (mirror_item U (ad_code A) (utcnow R w)) feed () (w, []) ?d0 = (r, ws1, d1)"
    by (metis prod.collapse)
  have "(\<exists>u. r = Inr u) \<and> d2 = d1"
    using b f by (cases r; cases e)
      (auto simp: wbind_def in_run_def wret_def wthen_def wraise_def wflush_def flush_def counters_def split: if_splits)
  then obtain u where r: "r = Inr u" "d2 = d1" by blast
  have ok0: "database_ok ?d0" by (rule opened_ok[OF assms(1)])
  note m = mirror_fold_effect[OF ok0 f[unfolded r(1)]]
  have s0: "store_products ?d0 = store_products d" by (simp add: opened_def)
  have sp: "store_products d' = store_products d1" using only_runs_store[OF d'] r(2) by simp
  have okp: "store_products_ok (store_products d')" using run by (simp add: database_ok_def)
  have "\<exists>s \<in> set (store_products d'). wrote U (ad_code A) (utcnow R w) c s
           \<and> st_match_key s = match_key (parse_title U (ci_name c))
           \<and> (\<forall>t \<in> set (store_products d'). store_key (ad_code A) ext t \<longrightarrow> t = s)"
    if "last_of feed ext = Some c" for ext c
  proof -
    from m that obtain s where s: "s \<in> set (store_products d')" "wrote U (ad_code A) (utcnow R w) c s"
      unfolding sp by blast
    have ext: "ci_product_ext_id c = ext" using that by (auto simp: last_of_def find_Some_iff)
    have "st_match_key (apply_catalog_item U c (utcnow R w) s) = match_key (parse_title U (ci_name c))"
      by (simp add: apply_catalog_item_def Let_def)
    with s(2) have "st_match_key s = match_key (parse_title U (ci_name c))" by (simp add: wrote_def)
    moreover have "\<forall>t \<in> set (store_products d'). store_key (ad_code A) ext t \<longrightarrow> t = s"
      using store_key_unique[OF okp] s ext by (auto simp: wrote_def)
    ultimately show ?thesis using s by blast
  qed
  with m s0 sp show ?thesis by (auto simp: store_mirror_step_def)
qed


section \<open>Runs commit\<close>

lemma get_or_create_returns:
  assumes "database_ok d"
  shows "\<exists>srow d'. get_or_create_supplier U code name w d = (Inr srow, w, d') \<and> database_ok d'"
proof (cases "find_row (\<lambda>s. sup_code s = code) (suppliers d)")
  case None
  let ?s = "new_supplier U (fresh_id sup_id (suppliers d)) code name"
  have "sup_id ?s = fresh_id sup_id (suppliers d)" by (simp add: new_supplier_def)
  then have "sup_id ?s \<notin> sup_id ` set (suppliers d)" using fresh_id_fresh by (metis imageE)
  moreover have "uniq uq_supplier_code (suppliers d @ [?s])"
    using assms None by (auto simp: uniq_append database_ok_def uq_supplier_code_def find_row_None new_supplier_def)
  ultimately have "database_ok (d\<lparr>suppliers := suppliers d @ [?s]\<rparr>)"
    using assms by (simp add: database_ok_def)
  with None show ?thesis
    by (simp add: get_or_create_supplier_def wbind_def wthen_def wread_def wmodify_def wflush_def
        flush_def wret_def)
qed (use assms in \<open>simp add: get_or_create_supplier_def wbind_def wread_def wret_def\<close>)

lemma feed_items_returns:
  "\<forall>i \<in> set is. dec_val (si_price i) \<noteq> None \<Longrightarrow> fst (feed_items U digest now sid is fs) = None"
proof (induction "is" arbitrary: fs)
  case (Cons i "is")
  obtain rows seen st where fs: "fs = (rows, seen, st)" by (cases fs)
  from Cons.prems obtain price where "dec_val (si_price i) = Some price" by auto
  then have "\<exists>fs'. feed_item U digest now sid i fs = Inr fs'"
    unfolding fs by (simp add: feed_item_def Let_def split: option.split)
  with Cons show ?case by auto
qed simp

lemma miss_rows_ok: "supplier_products_ok rows \<Longrightarrow> supplier_products_ok (miss_rows S sid seen rows)"
proof -
  let ?f = "\<lambda>p. if missed sid seen p then miss_row S p else p"
  have t: "sp_id (?f p) = sp_id p" "sp_stock (?f p) = sp_stock p"
    "uq_supplier_product_identity (?f p) = uq_supplier_product_identity p" for p
    using uq_product_key[of "?f p" p] by simp_all
  have "map sp_id (map ?f rows) = map sp_id rows"
    "keys_of uq_supplier_product_identity (map ?f rows) = keys_of uq_supplier_product_identity rows"
    by (simp_all add: keys_of_def filter_map comp_def t del: if_split)
  then show "supplier_products_ok rows \<Longrightarrow> ?thesis"
    by (auto simp: supplier_products_ok_def uniq_def list_all_iff ck_supplier_product_stock_non_negative_def
        miss_rows_def simp del: map_map)
qed

lemma products_change_ok:
  "database_ok d \<Longrightarrow> supplier_products_ok ps \<Longrightarrow> database_ok (d\<lparr>supplier_products := ps\<rparr>)"
  by (simp add: database_ok_def)

lemma recorded_run_commits:
  assumes "database_ok d" "body (w, []) (opened R kind w d) = (Inr x, (w', st), d1)" "database_ok d1"
  shows "\<exists>d'. with_run R kind body w d = (Inr x, w', d') \<and> database_ok d'"
proof -
  let ?f = "\<lambda>r. if run_id r = fresh_id run_id (sync_runs d) then closed_row R st (result_error (Inr x)) w' r else r"
  have "map run_id (map ?f (sync_runs d1)) = map run_id (sync_runs d1)" by (simp add: closed_row_def)
  from relabelled_runs_ok[OF assms(3) this] with_run_result[where body = body, OF assms] show ?thesis by blast
qed

lemma mirror_feed_returns:
  assumes "database_ok d" "\<forall>i \<in> set feed. dec_val (si_price i) \<noteq> None"
  shows "\<exists>st st' d'. mirror_feed U digest S now sid (feed, None) (w, []) d = (Inr st, (w, st'), d') \<and> database_ok d'"
proof -
  obtain err rows seen st where
    f: "feed_items U digest now sid feed (supplier_products d, [], []) = (err, rows, seen, st)"
    by (metis prod.collapse)
  with feed_items_returns[OF assms(2), of U digest now sid "(supplier_products d, [], [])"] have err: "err = None" by simp
  have "supplier_products_ok (supplier_products d)" using assms(1) by (simp add: database_ok_def)
  with f err feed_items_mirrored have "supplier_products_ok rows" by blast
  then have "database_ok (d\<lparr>supplier_products := miss_rows S sid seen rows\<rparr>)"
    by (intro products_change_ok assms miss_rows_ok)
  with f err show ?thesis
    by (simp add: mirror_feed_def wbind_def wread_def wthen_def set_products_def wmodify_def
        tally_def wflush_def flush_def bump_def counters_def)
qed

lemma complete_feed_returns:
  assumes "database_ok d" "\<forall>i \<in> set feed. dec_val (si_price i) \<noteq> None"
  shows "\<exists>st d'. session_scope (sync_supplier U digest S R A (Some (feed, None))) w d = (Inr st, w, d')
    \<and> database_ok d'"
proof -
  let ?kind = "lit ''catalog:'' @ sa_code A"
  obtain srow d1 where g: "get_or_create_supplier U (sa_code A) None w d = (Inr srow, w, d1)" "database_ok d1"
    using get_or_create_returns[OF assms(1), of U "sa_code A" None w] by blast
  let ?body = "wbind (in_run (wret (feed, None))) (mirror_feed U digest S (utcnow R w) (sup_id srow))"
  have "\<exists>st st' d2. ?body (w, []) (opened R ?kind w d1) = (Inr st, (w, st'), d2) \<and> database_ok d2"
    using mirror_feed_returns[OF opened_ok[OF g(2), of R ?kind w] assms(2), of U digest S "utcnow R w" "sup_id srow" w]
    by (simp add: wbind_def in_run_def wret_def)
  then obtain st st' d2 where b: "?body (w, []) (opened R ?kind w d1) = (Inr st, (w, st'), d2)" "database_ok d2"
    by blast
  from recorded_run_commits[where body = ?body, OF g(2) b] g show ?thesis
    by (auto simp: sync_supplier_def wbind_def[of "get_or_create_supplier U (sa_code A) None"]
        wbind_def[of "wtime (utcnow R)"] wtime_def session_scope_def flush_def)
qed

text \<open>
  A catalogue run over a complete feed whose prices are numbers always commits: no
  duplicate, renamed, vanished or returning product can violate a constraint and abort it.
\<close>
theorem complete_feed_commits:
  assumes "database_ok d" "\<forall>i \<in> set feed. dec_val (si_price i) \<noteq> None"
  shows "\<exists>st d'. session_scope (sync_supplier U digest S R A (Some (feed, None))) w d = (Inr st, w, d')
    \<and> database_ok d'"
  by (rule complete_feed_returns[OF assms])


section \<open>A sample catalogue\<close>

definition sample_item :: supplier_item where
  "sample_item =
     \<lparr>si_kind = GAME_KEY, si_category_ext_id = [57], si_offer_ext_id = [49], si_name = [55],
      si_price = Finite False 1999 (- 2), si_stock = 3, si_currency = lit ''USD'',
      si_category_name = None, si_region = None, si_platform = None, si_region_restricted = False,
      si_min_order_quantity = 1, si_max_order_quantity = 1, si_raw = JObj []\<rparr>"

definition sample_supplier :: "unit supplier_adapter" where
  "sample_supplier =
     \<lparr>sa_code = lit ''fazercards'', sa_iter_products = (\<lambda>w. (([sample_item], None), w)),
      sa_purchase = (\<lambda>i q k w. (Inl InvalidOperation, w)), sa_get_order = (\<lambda>i w. (Inr None, w)),
      sa_balance = (\<lambda>w. (Inr None, w))\<rparr>"

lemma sample_price: "\<forall>i \<in> set [sample_item]. dec_val (si_price i) \<noteq> None"
  by (simp add: sample_item_def)

abbreviation sample_sync :: "item_stream \<Rightarrow> (unit, stats) work" where
  "sample_sync feed \<equiv> sync_supplier ascii_db (\<lambda>j. []) default_settings still_clock sample_supplier (Some feed)"

theorem complete_feed_commits_witness:
  "\<exists>st d'. session_scope (sample_sync ([sample_item], None)) () empty_database = (Inr st, (), d')"
  using complete_feed_commits[OF empty_database_ok sample_price, of ascii_db "\<lambda>j. []" default_settings
      still_clock sample_supplier "()"] by blast


theorem resync_changes_nothing_witness:
  "\<exists>st1 d1 st2 d2. session_scope (sample_sync ([sample_item], None)) () empty_database = (Inr st1, (), d1)
     \<and> session_scope (sample_sync ([sample_item], None)) () d1 = (Inr st2, (), d2)
     \<and> stat st2 ''created'' = 0 \<and> stat st2 ''updated'' = 0"
proof -
  obtain st1 d1 where s1: "session_scope (sample_sync ([sample_item], None)) () empty_database = (Inr st1, (), d1)"
    "database_ok d1" using complete_feed_returns[OF empty_database_ok sample_price, of ascii_db "\<lambda>j. []" default_settings
      still_clock sample_supplier "()"] by blast
  obtain st2 d2 where s2: "session_scope (sample_sync ([sample_item], None)) () d1 = (Inr st2, (), d2)"
    using complete_feed_returns[OF s1(2) sample_price, of ascii_db "\<lambda>j. []" default_settings
      still_clock sample_supplier "()"] by blast
  from resync_changes_nothing[OF empty_database_ok s1(1) s2] s1 s2 show ?thesis by blast
qed

definition stocked_product :: supplier_product where
  "stocked_product =
     (mark_seen 1 (apply_item ascii_db (\<lambda>j. []) sample_item 20 (blank_product 1 1 sample_item)))"

definition stocked_db :: database where
  "stocked_db = empty_database\<lparr>
     suppliers := [\<lparr>sup_id = 1, sup_code = lit ''fazercards'', sup_name = [], sup_enabled = True,
                    sup_settings = JObj []\<rparr>],
     supplier_products := [stocked_product]\<rparr>"

theorem deactivated_after_exactly_n_misses_witness:
  "(case pull_all sample_sync [([], None), ([], None)] () stocked_db of
      (m, w', d') \<Rightarrow> stocked_product\<lparr>sp_missing_runs := int (min m 2), sp_is_active := m < 2\<rparr>
        \<in> set (supplier_products d'))"
proof -
  obtain m w' d' where p: "pull_all sample_sync [([], None), ([], None)] () stocked_db = (m, w', d')"
    by (metis prod.collapse)
  have "database_ok stocked_db"
    by (simp add: stocked_db_def database_ok_def empty_database_def supplier_products_ok_def
        store_products_ok_def mappings_ok_def offers_ok_def idempotency_ok_def stocked_product_def
        ck_supplier_product_stock_non_negative_def)
  from deactivated_after_exactly_n_misses[OF this _ _ _ _ _ _ _ _ p, of 2 stocked_product
      "\<lparr>sup_id = 1, sup_code = lit ''fazercards'', sup_name = [], sup_enabled = True, sup_settings = JObj []\<rparr>"]
  show ?thesis unfolding p
    by (simp add: stocked_db_def find_row_def sample_supplier_def default_settings_def stocked_product_def)
qed


lemma mirror_fold_returns:
  "database_ok d \<Longrightarrow> \<exists>ws' d'. wfold (mirror_item U store now) cs () (w, st) d = (Inr (), (w, ws'), d') \<and> database_ok d'"
proof (induction cs arbitrary: st d)
  case (Cons c cs)
  obtain r ws1 d1 where a: "mirror_item U store now c () (w, st) d = (r, ws1, d1)" by (metis prod.collapse)
  have "\<exists>u. r = Inr u"
    using a Cons.prems by (auto simp: mirror_item_def wthen_def wbind_def wflush_def flush_def wread_def
        bump_def wmodify_def split: option.splits)
  then have r: "r = Inr ()" by auto
  note one = mirror_item_effect[OF Cons.prems a[unfolded r]]
  then obtain st1 where ws1: "ws1 = (w, st1)" by (metis fst_conv prod.collapse)
  have "database_ok d1"
    by (rule store_change_ok[OF _ Cons.prems, where x = "store_products d1"])
      (use one in \<open>auto simp: store_mirror_step_def\<close>)
  from Cons.IH[OF this, of st1] a r ws1 show ?case by (simp add: wbind_def)
qed (simp add: wret_def)

lemma complete_store_pull_returns:
  assumes "database_ok d"
  shows "\<exists>st d'. session_scope (sync_store U R A since (Some (feed, None)) pages) w d = (Inr st, w, d')"
proof -
  let ?kind = "lit ''store-catalog:'' @ ad_code A"
  let ?body = "wbind (in_run (wret (feed, None))) (\<lambda>feed.
      wthen (wfold (mirror_item U (ad_code A) (utcnow R w)) (fst feed) ())
        (case snd feed of Some e \<Rightarrow> wraise e | None \<Rightarrow> wthen wflush counters))"
  obtain st1 d1 where f: "wfold (mirror_item U (ad_code A) (utcnow R w)) feed () (w, []) (opened R ?kind w d)
      = (Inr (), (w, st1), d1)" "database_ok d1"
    using mirror_fold_returns[OF opened_ok[OF assms, of R ?kind w], of U "ad_code A" "utcnow R w" feed w "[]"]
    by blast
  then have "?body (w, []) (opened R ?kind w d) = (Inr st1, (w, st1), d1)"
    by (simp add: wbind_def in_run_def wret_def wthen_def wflush_def flush_def counters_def)
  from recorded_run_commits[where body = ?body, OF assms this f(2)] show ?thesis
    by (auto simp: sync_store_def wbind_def[of "wtime (utcnow R)"] wtime_def session_scope_def flush_def)
qed

definition sample_listing :: catalog_item where
  "sample_listing =
     \<lparr>ci_product_ext_id = [50], ci_name = [55], ci_product_type = None, ci_slug = None,
      ci_region = None, ci_platform = None, ci_qty = 4, ci_min_price = None,
      ci_retail_min_price = None, ci_available_to_buy = True, ci_price_limit_min = None,
      ci_price_limit_max = None, ci_remote_updated_at = None, ci_raw = JObj []\<rparr>"

definition sample_store :: "unit store_adapter" where
  "sample_store =
     \<lparr>ad_code = lit ''g2a'', ad_iter_catalog = (\<lambda>s p w. (([], None), w)),
      ad_list_offers = (\<lambda>w. (([], None), w)), ad_offers_for_product = (\<lambda>i w. (Inr [], w)),
      ad_create_offer = (\<lambda>i p s a w. (Inl InvalidOperation, w)),
      ad_update_offer = (\<lambda>i p s a w. (Inl InvalidOperation, w)),
      ad_get_job = (\<lambda>j w. (Inl InvalidOperation, w))\<rparr>"

theorem store_catalog_is_mirrored_witness:
  "\<exists>s \<in> set (store_products (snd (snd (session_scope
      (sync_store ascii_db still_clock sample_store None (Some ([sample_listing], None)) None) () empty_database)))).
     st_match_key s = match_key (parse_title ascii_db [55]) \<and> st_qty s = 4"
proof -
  obtain st d' where s: "session_scope (sync_store ascii_db still_clock sample_store None
      (Some ([sample_listing], None)) None) () empty_database = (Inr st, (), d')"
    using complete_store_pull_returns[OF empty_database_ok, of ascii_db still_clock sample_store None
        "[sample_listing]" None "()"] by blast
  have "last_of [sample_listing] [50] = Some sample_listing"
    by (simp add: last_of_def sample_listing_def)
  with store_catalog_is_mirrored[OF empty_database_ok s] obtain p where
    p: "p \<in> set (store_products d')" "wrote ascii_db (lit ''g2a'') 5 sample_listing p"
      "st_match_key p = match_key (parse_title ascii_db (ci_name sample_listing))"
    by (fastforce simp: sample_store_def still_clock_def)
  have "st_qty (apply_catalog_item ascii_db sample_listing 5 p) = 4"
    by (simp add: apply_catalog_item_def Let_def) (simp add: sample_listing_def)
  with p(2) have "st_qty p = 4" by (simp add: wrote_def)
  with p s show ?thesis by (auto simp: sample_listing_def)
qed

end
