(* ===== verification/Worker.thy ===== *)
theory Worker
  imports Offer_Run Match_Run Catalog_Mirror
begin

text \<open>
  \<open>app/worker.py\<close>: the scheduler and its four jobs, each a unit of work over the services in a
  transaction of its own. The world of a job is the outside world together with the committed
  database. The lemmas are about the composed system: what any number of ticks keeps, whatever
  fails.
\<close>

section \<open>Jobs\<close>

record 'x job =
  jb_name :: string
  jb_interval_seconds :: rat
  jb_run :: "'x \<Rightarrow> exn option \<times> 'x"
  jb_initial_delay :: rat
  jb_next_run_at :: rat
  jb_running :: bool
  jb_failures :: nat

definition due :: "rat \<Rightarrow> 'x job \<Rightarrow> bool" where
  "due now j \<longleftrightarrow> \<not> jb_running j \<and> jb_next_run_at j \<le> now"

definition schedule_next :: "rat \<Rightarrow> 'x job \<Rightarrow> 'x job" where
  "schedule_next now j = j\<lparr>jb_next_run_at := fl (now + jb_interval_seconds j)\<rparr>"

text \<open>\<open>with session_scope() as session\<close>, on the committed database.\<close>

definition in_session :: "('w, 'a) work \<Rightarrow> 'w \<times> database \<Rightarrow> exn option \<times> 'w \<times> database" where
  "in_session m x =
     (case session_scope m (fst x) (snd x) of
        (Inr r, w', d') \<Rightarrow> (None, w', d')
      | (Inl e, w', d') \<Rightarrow> (Some e, w', d'))"

text \<open>What the jobs are built from: the settings, the adapters and the clock of the process.\<close>

record 'w bridge =
  br_settings :: settings
  br_unicode :: unicode
  br_digest :: "json \<Rightarrow> ustr"
  br_runtime :: "'w runtime"
  br_supplier :: "'w supplier_adapter"
  br_store :: "'w store_adapter"

definition sync_supplier_catalogue :: "'w bridge \<Rightarrow> 'w \<times> database \<Rightarrow> exn option \<times> 'w \<times> database" where
  "sync_supplier_catalogue B =
     in_session (sync_supplier (br_unicode B) (br_digest B) (br_settings B) (br_runtime B)
                   (br_supplier B) None)"

definition sync_store_catalogue :: "'w bridge \<Rightarrow> 'w \<times> database \<Rightarrow> exn option \<times> 'w \<times> database" where
  "sync_store_catalogue B x =
     (let since = utcnow (br_runtime B) (fst x) - 26 * an_hour
      in in_session (sync_store (br_unicode B) (br_runtime B) (br_store B) (Some since) None None) x)"

definition match_products :: "'w bridge \<Rightarrow> 'w \<times> database \<Rightarrow> exn option \<times> 'w \<times> database" where
  "match_products B =
     in_session (match_run (br_unicode B) (br_settings B) (lit ''g2a'') None True)"

definition sync_offers :: "'w bridge \<Rightarrow> 'w \<times> database \<Rightarrow> exn option \<times> 'w \<times> database" where
  "sync_offers B =
     in_session
       (wthen (run_offers (br_runtime B) (br_settings B)
                 (fx_rate_now (br_runtime B) (br_settings B) False) (br_store B) None False)
          (reconcile_jobs (br_store B) 200))"

definition new_job ::
  "string \<Rightarrow> rat \<Rightarrow> ('x \<Rightarrow> exn option \<times> 'x) \<Rightarrow> rat \<Rightarrow> 'x job" where
  "new_job name interval run delay =
     \<lparr>jb_name = name, jb_interval_seconds = interval, jb_run = run, jb_initial_delay = delay,
      jb_next_run_at = 0, jb_running = False, jb_failures = 0\<rparr>"

definition build_jobs :: "'w bridge \<Rightarrow> ('w \<times> database) job list" where
  "build_jobs B =
     (let S = br_settings B
      in [new_job ''supplier-catalogue'' (of_int (catalog_sync_minutes S * 60))
            (sync_supplier_catalogue B) 5,
          new_job ''store-catalogue'' (of_int (max 6 (catalog_sync_minutes S) * 60 * 4))
            (sync_store_catalogue B) 120,
          new_job ''matching'' (of_int (catalog_sync_minutes S * 60)) (match_products B) 60,
          new_job ''offers'' (of_int (price_stock_sync_minutes S * 60)) (sync_offers B) 90])"

section \<open>The scheduler\<close>

definition new_worker :: "'x timer \<Rightarrow> 'x job list \<Rightarrow> 'x \<Rightarrow> 'x job list \<times> 'x" where
  "new_worker T jobs x =
     (let (now, x') = clock T x
      in (map (\<lambda>j. j\<lparr>jb_next_run_at := fl (now + jb_initial_delay j)\<rparr>) jobs, x'))"

definition run_job :: "'x timer \<Rightarrow> 'x job \<Rightarrow> 'x \<Rightarrow> 'x job \<times> 'x" where
  "run_job T j x =
     (let (err, x1) = jb_run j x; (now, x2) = clock T x1
      in (schedule_next now
            (j\<lparr>jb_running := False,
               jb_failures := (case err of None \<Rightarrow> 0 | Some e \<Rightarrow> jb_failures j + 1)\<rparr>), x2))"

fun tick_jobs :: "'x timer \<Rightarrow> rat \<Rightarrow> 'x job list \<Rightarrow> 'x \<Rightarrow> string list \<times> 'x job list \<times> 'x" where
  "tick_jobs T now [] x = ([], [], x)"
| "tick_jobs T now (j # js) x =
     (if due now j
      then let (j', x1) = run_job T j x; (names, js', x2) = tick_jobs T now js x1
           in (jb_name j # names, j' # js', x2)
      else let (names, js', x2) = tick_jobs T now js x in (names, j # js', x2))"

definition tick :: "'x timer \<Rightarrow> 'x job list \<Rightarrow> 'x \<Rightarrow> string list \<times> 'x job list \<times> 'x" where
  "tick T jobs x = (let (now, x') = clock T x in tick_jobs T now jobs x')"

text \<open>
  The loop of \<open>run_forever\<close>, up to the tick after which a stop is requested: \<open>n\<close> ticks, each
  followed by a sleep.
\<close>

fun run_ticks :: "'x timer \<Rightarrow> rat \<Rightarrow> nat \<Rightarrow> 'x job list \<Rightarrow> 'x \<Rightarrow> 'x job list \<times> 'x" where
  "run_ticks T poll 0 jobs x = (jobs, x)"
| "run_ticks T poll (Suc n) jobs x =
     (case tick T jobs x of (names, jobs', x') \<Rightarrow> run_ticks T poll n jobs' (sleep T poll x'))"

section \<open>What a tick does\<close>

lemma schedule_next_simps [simp]:
  "jb_name (schedule_next now j) = jb_name j" "jb_run (schedule_next now j) = jb_run j"
  "jb_running (schedule_next now j) = jb_running j" "jb_failures (schedule_next now j) = jb_failures j"
  "jb_interval_seconds (schedule_next now j) = jb_interval_seconds j"
  "jb_next_run_at (schedule_next now j) = fl (now + jb_interval_seconds j)"
  by (simp_all add: schedule_next_def)

text \<open>A job after the tick in which it names.\<close>

definition completed :: "'x timer \<Rightarrow> 'x job \<Rightarrow> 'x job \<Rightarrow> bool" where
  "completed T j j' \<longleftrightarrow>
     (\<exists>x err x1 now. jb_run j x = (err, x1) \<and> fst (clock T x1) = now
        \<and> jb_failures j' = (case err of None \<Rightarrow> 0 | Some e \<Rightarrow> jb_failures j + 1)
        \<and> jb_next_run_at j' = fl (now + jb_interval_seconds j))
     \<and> \<not> jb_running j' \<and> jb_name j' = jb_name j \<and> jb_run j' = jb_run j
     \<and> jb_interval_seconds j' = jb_interval_seconds j"

lemma run_job_completed: "run_job T j x = (j', x') \<Longrightarrow> completed T j j'"
  by (auto simp: run_job_def completed_def Let_def split: prod.splits) (metis fst_conv)

lemma tick_jobs_effect:
  "tick_jobs T now js x = (names, js', x') \<Longrightarrow>
    names = map jb_name (filter (due now) js)
    \<and> list_all2 (\<lambda>j j'. if due now j then completed T j j' else j' = j) js js'"
proof (induction js arbitrary: x names js')
  case (Cons j js)
  show ?case
  proof (cases "due now j")
    case True
    obtain j1 x1 where j1: "run_job T j x = (j1, x1)" by (metis prod.collapse)
    obtain names1 js1 where r: "tick_jobs T now js x1 = (names1, js1, x')"
      "names = jb_name j # names1" "js' = j1 # js1"
      using Cons.prems True j1 by (auto split: prod.splits)
    from Cons.IH[OF r(1)] run_job_completed[OF j1] True r(2,3) show ?thesis by simp
  next
    case False
    obtain names1 js1 where r: "tick_jobs T now js x = (names1, js1, x')" "names = names1" "js' = j # js1"
      using Cons.prems False by (auto split: prod.splits)
    from Cons.IH[OF r(1)] False r(2,3) show ?thesis by simp
  qed
qed simp


section \<open>What every tick keeps\<close>

text \<open>A property of the world that every job and the clock keep.\<close>

definition kept_by :: "('x \<Rightarrow> bool) \<Rightarrow> ('x \<Rightarrow> exn option \<times> 'x) \<Rightarrow> bool" where
  "kept_by P run \<longleftrightarrow> (\<forall>x. P x \<longrightarrow> P (snd (run x)))"

definition kept_by_timer :: "('x \<Rightarrow> bool) \<Rightarrow> 'x timer \<Rightarrow> bool" where
  "kept_by_timer P T \<longleftrightarrow> (\<forall>x. P x \<longrightarrow> P (snd (clock T x)) \<and> (\<forall>s. P (sleep T s x)))"

lemma run_job_keeps:
  "run_job T j x = (j', x') \<Longrightarrow> kept_by P (jb_run j) \<Longrightarrow> kept_by_timer P T \<Longrightarrow> P x \<Longrightarrow> P x'"
  unfolding run_job_def kept_by_def kept_by_timer_def Let_def
  by (auto split: prod.splits; metis snd_conv)

lemma tick_jobs_keep:
  "tick_jobs T now js x = (names, js', x') \<Longrightarrow> \<forall>j \<in> set js. kept_by P (jb_run j) \<Longrightarrow>
    kept_by_timer P T \<Longrightarrow> P x \<Longrightarrow> P x'"
proof (induction js arbitrary: x names js')
  case (Cons j js)
  show ?case
  proof (cases "due now j")
    case True
    obtain j1 x1 where j1: "run_job T j x = (j1, x1)" by (metis prod.collapse)
    with run_job_keeps[OF j1, of P] Cons.prems have "P x1" by simp
    moreover obtain names1 js1 where "tick_jobs T now js x1 = (names1, js1, x')"
      using Cons.prems(1) True j1 by (auto split: prod.splits)
    ultimately show ?thesis using Cons.IH Cons.prems(2,3) by simp
  next
    case False
    then obtain names1 js1 where "tick_jobs T now js x = (names1, js1, x')"
      using Cons.prems(1) by (auto split: prod.splits)
    with Cons show ?thesis by simp
  qed
qed simp

lemma tick_jobs_runs: "tick_jobs T now js x = (names, js', x') \<Longrightarrow> map jb_run js' = map jb_run js"
  using tick_jobs_effect[of T now js x names js' x']
  by (auto simp: list_eq_iff_nth_eq list_all2_conv_all_nth completed_def split: if_splits)

lemma run_ticks_keep:
  "run_ticks T poll n js x = (js', x') \<Longrightarrow> \<forall>r \<in> set (map jb_run js). kept_by P r \<Longrightarrow>
    kept_by_timer P T \<Longrightarrow> P x \<Longrightarrow> P x'"
proof (induction n arbitrary: js x)
  case (Suc n)
  obtain now x0 where c: "clock T x = (now, x0)" by (metis prod.collapse)
  obtain names js1 x1 where t: "tick_jobs T now js x0 = (names, js1, x1)" by (metis prod.collapse)
  have "P x0" using Suc.prems(3,4) c unfolding kept_by_timer_def by (metis snd_conv)
  with tick_jobs_keep[OF t] Suc.prems(2,3) have "P x1" by simp
  then have "P (sleep T poll x1)" using Suc.prems(3) by (simp add: kept_by_timer_def)
  moreover have "run_ticks T poll n js1 (sleep T poll x1) = (js', x')"
    using Suc.prems(1) c t by (simp add: tick_def)
  ultimately show ?case using Suc.IH tick_jobs_runs[OF t] Suc.prems(2,3) by metis
qed simp

section \<open>The bridge under the scheduler\<close>

text \<open>Which jobs leave the mapping table alone.\<close>

abbreviation mappings_kept :: "database \<Rightarrow> database \<Rightarrow> bool" where
  "mappings_kept \<equiv> \<lambda>d d'. product_mappings d' = product_mappings d"

lemma kept_preorder: "preorder_on_db mappings_kept"
  by (rule preorder_field)

lemma kept_ignores_runs: "ignores_runs mappings_kept"
  by (simp add: ignores_runs_def)

lemmas kept_intros = step_intros[where R = mappings_kept] kept_preorder kept_ignores_runs

lemma steps_memory:
  "steps mappings_kept (tally f)" "steps mappings_kept counters" "steps mappings_kept (bump k n)"
  by (auto simp: steps_def tally_def counters_def bump_def)

lemma steps_modify_kept: "(\<And>d. product_mappings (f d) = product_mappings d) \<Longrightarrow> steps mappings_kept (wmodify f)"
  by (rule steps_modify)

lemma kept_sync_supplier: "steps mappings_kept (sync_supplier U digest S R A items)"
proof -
  have "steps mappings_kept (mirror_feed U digest S now sid feed)" for now sid feed
    unfolding mirror_feed_def set_products_def
    by (intro kept_intros) (auto split: prod.split option.split intro!: kept_intros steps_memory)
  moreover have "steps mappings_kept (get_or_create_supplier U code name)" for code name
    unfolding get_or_create_supplier_def
    by (intro kept_intros) (auto split: prod.split option.split intro!: kept_intros)
  ultimately show ?thesis
    unfolding sync_supplier_def
    by (intro kept_intros steps_in_run) (auto split: option.split intro!: kept_intros)
qed

lemma kept_sync_store: "steps mappings_kept (sync_store U R A since items pages)"
proof -
  have "steps mappings_kept (mirror_item U store now c u)" for store now c u
    unfolding mirror_item_def
    by (intro kept_intros) (auto split: prod.split option.split intro!: kept_intros steps_memory)
  then show ?thesis
    unfolding sync_store_def
    by (intro kept_intros steps_in_run) (auto split: option.split intro!: kept_intros steps_memory)
qed

lemma kept_sync_offers:
  "steps mappings_kept (wthen (run_offers R S (fx_rate_now R S False) A None False) (reconcile_jobs A n))"
proof -
  have f: "mappings_kept d d'" if "run_frame d d'" for d d'
    using that unfolding run_frame_def by (metis database.select_convs(4) database.surjective
        database.update_convs(5,6,11,13))
  have "steps mappings_kept (run_offers R S (fx_rate_now R S False) A None False)"
    using stepsD[OF frame_run] by (intro stepsI f)
  moreover have "steps mappings_kept (reconcile_row A r st)" for r st
    unfolding reconcile_row_def Let_def set_offer_def
    by (intro kept_intros) (auto simp: put_offer_def split: option.split intro!: kept_intros)
  then have "steps mappings_kept (reconcile_jobs A n)"
    unfolding reconcile_jobs_def by (intro kept_intros)
  ultimately show ?thesis by (intro kept_intros)
qed

text \<open>A mapping that holds its place: a human decision, or an automatic match.\<close>

definition holds_decision :: "product_mapping \<Rightarrow> 'w \<times> database \<Rightarrow> bool" where
  "holds_decision m x \<longleftrightarrow> database_ok (snd x) \<and> m \<in> set (product_mappings (snd x))"

lemma session_keeps_mappings:
  assumes "steps mappings_kept body"
  shows "kept_by (holds_decision m) (in_session body)"
  unfolding kept_by_def
proof (intro allI impI)
  fix x :: "'a \<times> database"
  assume x: "holds_decision m x"
  obtain r w' d' where s: "session_scope body (fst x) (snd x) = (r, w', d')" by (metis prod.collapse)
  show "holds_decision m (snd (in_session body x))"
  proof (cases r)
    case (Inl e)
    with s x session_scope_error[OF s[unfolded Inl]] show ?thesis
      by (simp add: in_session_def holds_decision_def)
  next
    case (Inr v)
    from session_scope_success[OF s[unfolded Inr]] have "body (fst x) (snd x) = (Inr v, w', d')" "database_ok d'"
      by auto
    with stepsD[OF assms this(1)] s Inr x show ?thesis by (simp add: in_session_def holds_decision_def)
  qed
qed

lemma matching_keeps_decisions:
  assumes "pm_status m \<in> {APPROVED, REJECTED, AUTO}"
  shows "kept_by (holds_decision m) (match_products B)"
  unfolding kept_by_def
proof (intro allI impI)
  fix x :: "'a \<times> database"
  assume x: "holds_decision m x"
  obtain r w' d' where s: "session_scope (match_run (br_unicode B) (br_settings B) (lit ''g2a'') None True)
      (fst x) (snd x) = (r, w', d')" by (metis prod.collapse)
  have "m \<in> set (product_mappings d') \<and> database_ok d'"
    using run_kept[OF _ s, of m] x assms by (auto simp: holds_decision_def)
  with s show "holds_decision m (snd (match_products B x))"
    by (simp add: match_products_def in_session_def holds_decision_def split: sum.split)
qed

lemma jobs_keep_decisions:
  assumes "pm_status m \<in> {APPROVED, REJECTED, AUTO}"
  shows "\<forall>r \<in> set (map jb_run (build_jobs B)). kept_by (holds_decision m) r"
proof -
  have "kept_by (holds_decision m) (sync_supplier_catalogue B)" "kept_by (holds_decision m) (sync_offers B)"
    unfolding sync_supplier_catalogue_def sync_offers_def
    by (intro session_keeps_mappings kept_sync_supplier kept_sync_offers)+
  moreover have "kept_by (holds_decision m) (sync_store_catalogue B)"
    using session_keeps_mappings[OF kept_sync_store]
    unfolding kept_by_def sync_store_catalogue_def Let_def by blast
  ultimately show ?thesis
    using matching_keeps_decisions[OF assms] by (simp add: build_jobs_def new_job_def Let_def)
qed

text \<open>The clock and the sleep of the process do not touch the database.\<close>

definition beside_database :: "('w \<times> database) timer \<Rightarrow> bool" where
  "beside_database T \<longleftrightarrow>
     (\<forall>x. snd (snd (clock T x)) = snd x \<and> (\<forall>s. snd (sleep T s x) = snd x))"

lemma beside_database_kept: "beside_database T \<Longrightarrow> kept_by_timer (holds_decision m) T"
  by (simp add: beside_database_def kept_by_timer_def holds_decision_def)

lemma worker_run_keeps:
  assumes "beside_database T" "database_ok d" "m \<in> set (product_mappings d)"
    and "pm_status m \<in> {APPROVED, REJECTED, AUTO}"
    and "new_worker T (build_jobs B) (w, d) = (jobs, x0)" "run_ticks T poll n jobs x0 = (jobs', w', d')"
  shows "m \<in> set (product_mappings d') \<and> database_ok d'"
proof -
  have j: "map jb_run jobs = map jb_run (build_jobs B)" and x0: "snd x0 = d"
    using assms(1,5) by (auto simp: new_worker_def Let_def beside_database_def split: prod.splits)
      (metis snd_conv)
  have "holds_decision m x0" using assms(2,3) x0 by (simp add: holds_decision_def)
  moreover have "\<forall>r \<in> set (map jb_run jobs). kept_by (holds_decision m) r"
    unfolding j by (rule jobs_keep_decisions[OF assms(4)])
  ultimately show ?thesis
    using run_ticks_keep[OF assms(6) _ beside_database_kept[OF assms(1)]]
    unfolding holds_decision_def snd_conv by blast
qed

text \<open>
  C3: However long the worker runs, in whatever order its jobs fall due and whatever the services
  answer or refuse: an approved, rejected or automatic mapping is still there, exactly as it was,
  and the constraints of the database hold.
\<close>
theorem worker_never_loses_a_decision:
  assumes "beside_database T" "database_ok d" "m \<in> set (product_mappings d)"
    and "pm_status m \<in> {APPROVED, REJECTED, AUTO}"
    and "new_worker T (build_jobs B) (w, d) = (jobs, x0)" "run_ticks T poll n jobs x0 = (jobs', w', d')"
  shows "m \<in> set (product_mappings d') \<and> database_ok d'"
  by (rule worker_run_keeps[OF assms])

definition idle_supplier :: "unit supplier_adapter" where
  "idle_supplier =
     \<lparr>sa_code = lit ''fazercards'', sa_iter_products = Pair ([], None),
      sa_purchase = (\<lambda>i q k. Pair (Inl InvalidOperation)), sa_get_order = (\<lambda>i. Pair (Inr None)),
      sa_balance = Pair (Inr None)\<rparr>"

definition sample_bridge :: "unit bridge" where
  "sample_bridge =
     \<lparr>br_settings = default_settings, br_unicode = ascii_db, br_digest = (\<lambda>v. []),
      br_runtime = still_clock, br_supplier = idle_supplier,
      br_store = sample_adapter (Inr done_job)\<rparr>"

definition frozen :: "(unit \<times> database) timer" where
  "frozen = \<lparr>clock = Pair 200, sleep = (\<lambda>s x. x)\<rparr>"

lemma frozen_beside: "beside_database frozen"
  by (simp add: beside_database_def frozen_def)

theorem worker_never_loses_a_decision_witness:
  "\<exists>jobs x0 jobs' w' d'. new_worker frozen (build_jobs sample_bridge) ((), lone_db [other_mapping APPROVED])
       = (jobs, x0) \<and> run_ticks frozen 1 50 jobs x0 = (jobs', w', d')
     \<and> other_mapping APPROVED \<in> set (product_mappings d')"
proof -
  obtain jobs x0 where n: "new_worker frozen (build_jobs sample_bridge) ((), lone_db [other_mapping APPROVED])
    = (jobs, x0)" by (metis prod.collapse)
  obtain jobs' w' d' where r: "run_ticks frozen 1 50 jobs x0 = (jobs', w', d')" by (metis prod.collapse)
  have m: "other_mapping APPROVED \<in> set (product_mappings (lone_db [other_mapping APPROVED]))"
    "pm_status (other_mapping APPROVED) \<in> {APPROVED, REJECTED, AUTO}"
    by (simp_all add: lone_db_def other_mapping_def)
  have ok: "database_ok (lone_db [other_mapping APPROVED])"
    by (rule lone_db_ok[of _ APPROVED]) simp
  from worker_never_loses_a_decision[OF frozen_beside ok m n r] n r show ?thesis by blast
qed

definition failing_job :: "nat job" where
  "failing_job = new_job ''offers'' 60 (\<lambda>x. (Some (PricingError []), x + 1)) 0"

definition other_job :: "nat job" where
  "other_job = new_job ''matching'' 60 (\<lambda>x. (None, x + 1)) 0"


end
