(* ===== verification/Admin_Api.thy ===== *)
theory Admin_Api
  imports Offer_Run Match_Run
begin

text \<open>
  \<open>app/api/main.py\<close>: the endpoints of the admin API as units of work over the services, with the
  token check, the transaction of a request and the status of its reply. FastAPI itself (routing,
  JSON, the validation of types) is not modelled; the bounds the endpoints declare for their
  parameters are. The rank of a title in the database's collation and its \<open>lower\<close> are parameters;
  rows that a query does not order come in the order of their table.
\<close>

section \<open>Requests\<close>

record 'w api_env =
  ae_admin_token :: "ustr option"
  ae_settings :: settings
  ae_unicode :: unicode
  ae_runtime :: "'w runtime"
  ae_sql_lower :: "ustr \<Rightarrow> ustr"
  ae_name_rank :: "ustr \<Rightarrow> rat"

definition require_token :: "ustr option \<Rightarrow> ustr option \<Rightarrow> unit result" where
  "require_token expected x_admin_token =
     (case or_none expected of
        None \<Rightarrow> Inl (HttpException 503 (lit ''ADMIN_API_TOKEN is not configured; the admin API is disabled''))
      | Some t \<Rightarrow>
          if x_admin_token \<noteq> Some t then Inl (HttpException 401 (lit ''bad or missing X-Admin-Token''))
          else Inr ())"

definition get_db :: "('w, 'a) work \<Rightarrow> ('w, 'a) work" where
  "get_db body = session_scope body"

text \<open>
  A protected endpoint: the token is checked before anything else, then the parameters
  (\<open>valid\<close>), then the body runs in the request's transaction.
\<close>

definition endpoint :: "'w api_env \<Rightarrow> ustr option \<Rightarrow> bool \<Rightarrow> ('w, 'a) work \<Rightarrow> ('w, 'a) work" where
  "endpoint V token valid body =
     (case require_token (ae_admin_token V) token of
        Inl e \<Rightarrow> wraise e
      | Inr u \<Rightarrow>
          get_db (if valid then body
                  else wraise (HttpException 422 (lit ''validation error''))))"

text \<open>The status of the reply: an exception that is no \<open>HTTPException\<close> is an internal error.\<close>

fun reply_status :: "'a result \<Rightarrow> nat" where
  "reply_status (Inr x) = 200"
| "reply_status (Inl e) = (case e of HttpException c m \<Rightarrow> c | _ \<Rightarrow> 500)"

definition page :: "nat \<Rightarrow> nat \<Rightarrow> 'a list \<Rightarrow> 'a list" where
  "page limit offset rows = take limit (drop offset rows)"

section \<open>Operations\<close>

text \<open>\<open>health\<close> is open to everyone and answers with the time; the count is its round trip.\<close>

definition health :: "'w api_env \<Rightarrow> ('w, timestamp) work" where
  "health V =
     get_db (wthen (wread (\<lambda>d. length (supplier_products d))) (wtime (utcnow (ae_runtime V))))"

record status_report =
  sr_total :: nat
  sr_active :: nat
  sr_in_stock :: nat
  sr_mirrored :: nat
  sr_mappings :: "(string \<times> nat) list"
  sr_offers :: "(string \<times> nat) list"
  sr_recent_runs :: "sync_run list"

definition count_where :: "('r \<Rightarrow> bool) \<Rightarrow> 'r list \<Rightarrow> nat" where
  "count_where P rows = length (filter P rows)"

definition status_of :: "database \<Rightarrow> status_report" where
  "status_of d =
     \<lparr>sr_total = length (supplier_products d),
      sr_active = count_where sp_is_active (supplier_products d),
      sr_in_stock = count_where (\<lambda>p. 0 < sp_stock p) (supplier_products d),
      sr_mirrored = length (store_products d),
      sr_mappings = map (\<lambda>s. (mapping_status_value s,
          count_where (\<lambda>m. pm_status m = s) (product_mappings d)))
        [PENDING, APPROVED, AUTO, REJECTED, UNMATCHED],
      sr_offers = map (\<lambda>s. (offer_state_value s, count_where (\<lambda>r. so_state r = s) (store_offers d)))
        [OfferPending, LIVE, OUT_OF_STOCK, ARCHIVED, FAILED],
      sr_recent_runs = take 8 (sort_key (\<lambda>r. - run_started_at r) (sync_runs d))\<rparr>"

definition status :: "'w api_env \<Rightarrow> ustr option \<Rightarrow> ('w, status_report) work" where
  "status V token = endpoint V token True (wread status_of)"

record settings_report =
  sg_default_markup_percent :: rat
  sg_supplier_currency :: ustr
  sg_store_currency :: ustr
  sg_fx_rate_pinned :: "rat option"
  sg_price_rounding :: price_rounding
  sg_min_offer_price :: rat
  sg_price_stock_sync_minutes :: int
  sg_catalog_sync_minutes :: int
  sg_price_change_budget :: int
  sg_match_auto_accept_score :: rat
  sg_match_review_score :: rat

definition current_settings :: "'w api_env \<Rightarrow> ustr option \<Rightarrow> ('w, settings_report) work" where
  "current_settings V token =
     (let s = ae_settings V
      in wthen (wlift (require_token (ae_admin_token V) token)) (wret
        \<lparr>sg_default_markup_percent = default_markup_percent s,
         sg_supplier_currency = supplier_currency s, sg_store_currency = store_currency s,
         sg_fx_rate_pinned = fx_rate_usd_eur s, sg_price_rounding = price_rounding s,
         sg_min_offer_price = min_offer_price s,
         sg_price_stock_sync_minutes = price_stock_sync_minutes s,
         sg_catalog_sync_minutes = catalog_sync_minutes s,
         sg_price_change_budget = effective_price_change_budget s,
         sg_match_auto_accept_score = match_auto_accept_score s,
         sg_match_review_score = match_review_score s\<rparr>))"

text \<open>The log of API calls, newest first: rows are appended as they are created.\<close>

definition failed_call :: "api_call \<Rightarrow> bool" where
  "failed_call r \<longleftrightarrow> ac_error r \<noteq> None \<or> (\<exists>c. ac_status_code r = Some c \<and> 400 \<le> c)"

definition api_calls_page ::
  "'w api_env \<Rightarrow> ustr option \<Rightarrow> ustr option \<Rightarrow> bool \<Rightarrow> nat \<Rightarrow> ('w, api_call list) work" where
  "api_calls_page V token service failed_only limit =
     endpoint V token (limit \<le> 500)
       (wread (\<lambda>d. take limit (filter (\<lambda>r.
          (case or_none service of None \<Rightarrow> True | Some s \<Rightarrow> ac_service r = s)
          \<and> (failed_only \<longrightarrow> failed_call r)) (rev (api_calls d)))))"

section \<open>Mappings\<close>

record mapping_out =
  mo_mapping_id :: nat
  mo_mapping_status :: mapping_status
  mo_score :: "rat option"
  mo_supplier_product :: nat
  mo_supplier_name :: ustr
  mo_supplier_price :: rat
  mo_supplier_stock :: int
  mo_store_product :: "nat option"
  mo_store_product_ext_id :: "ustr option"
  mo_store_name :: "ustr option"
  mo_candidates :: "candidate_json list"

definition store_product_of :: "product_mapping \<Rightarrow> database \<Rightarrow> store_product option" where
  "store_product_of m d =
     Option.bind (pm_store_product_id m) (\<lambda>i. find_row (\<lambda>g. st_id g = i) (store_products d))"

definition by_score :: "('r \<Rightarrow> rat option) \<Rightarrow> 'r list \<Rightarrow> 'r list" where
  "by_score f rows =
     sort_key (\<lambda>r. - the (f r)) (filter (\<lambda>r. f r \<noteq> None) rows) @ filter (\<lambda>r. f r = None) rows"

definition mapping_line :: "database \<Rightarrow> product_mapping \<times> supplier_product \<Rightarrow> mapping_out" where
  "mapping_line d row =
     (case row of (m, sp) \<Rightarrow>
        \<lparr>mo_mapping_id = pm_id m, mo_mapping_status = pm_status m, mo_score = pm_score m,
         mo_supplier_product = sp_id sp, mo_supplier_name = sp_name sp,
         mo_supplier_price = fl (sp_price_supplier sp), mo_supplier_stock = sp_stock sp,
         mo_store_product = pm_store_product_id m,
         mo_store_product_ext_id = map_option st_product_ext_id (store_product_of m d),
         mo_store_name = map_option st_name (store_product_of m d),
         mo_candidates = pm_candidates m\<rparr>)"

definition mapping_rows :: "ustr \<Rightarrow> database \<Rightarrow> (product_mapping \<times> supplier_product) list" where
  "mapping_rows status_filter d =
     by_score (pm_score \<circ> fst)
       [(m, sp). m \<leftarrow> product_mappings d, lit (mapping_status_value (pm_status m)) = status_filter,
                 sp \<leftarrow> supplier_products d, sp_id sp = pm_supplier_product_id m]"

definition list_mappings ::
  "'w api_env \<Rightarrow> ustr option \<Rightarrow> ustr \<Rightarrow> nat \<Rightarrow> int \<Rightarrow> ('w, mapping_out list) work" where
  "list_mappings V token status_filter limit offset =
     endpoint V token (limit \<le> 500 \<and> 0 \<le> offset)
       (wread (\<lambda>d. map (mapping_line d) (page limit (nat offset) (mapping_rows status_filter d))))"

definition as_http :: "exn \<Rightarrow> exn" where
  "as_http e =
     (case e of PyLookupError m \<Rightarrow> HttpException 404 m | PyValueError m \<Rightarrow> HttpException 409 m | _ \<Rightarrow> e)"

definition is_lookup_error :: "exn \<Rightarrow> bool" where
  "is_lookup_error e = (case e of PyLookupError m \<Rightarrow> True | _ \<Rightarrow> False)"

definition is_value_error :: "exn \<Rightarrow> bool" where
  "is_value_error e = (case e of PyValueError m \<Rightarrow> True | _ \<Rightarrow> False)"

definition mapping_reply :: "product_mapping \<Rightarrow> nat \<times> mapping_status" where
  "mapping_reply m = (pm_id m, pm_status m)"

definition approve_mapping ::
  "'w api_env \<Rightarrow> ustr option \<Rightarrow> nat \<Rightarrow> nat option \<Rightarrow> ustr \<Rightarrow> ustr option
    \<Rightarrow> ('w, nat \<times> mapping_status) work" where
  "approve_mapping V token i store_product who remark =
     endpoint V token True
       (wbind (wtry (approve (ae_runtime V) i store_product who remark)
                 (\<lambda>e. is_lookup_error e \<or> is_value_error e) (\<lambda>e. wraise (as_http e)))
          (\<lambda>m. wret (mapping_reply m)))"

definition reject_mapping ::
  "'w api_env \<Rightarrow> ustr option \<Rightarrow> nat \<Rightarrow> ustr \<Rightarrow> ustr option \<Rightarrow> ('w, nat \<times> mapping_status) work" where
  "reject_mapping V token i who remark =
     endpoint V token True
       (wbind (wtry (reject (ae_runtime V) i who remark) is_lookup_error (\<lambda>e. wraise (as_http e)))
          (\<lambda>m. wret (mapping_reply m)))"

definition no_mapping :: exn where
  "no_mapping = HttpException 404 (lit ''mapping not found'')"

definition supplier_product_by_id :: "nat \<Rightarrow> database \<Rightarrow> supplier_product option" where
  "supplier_product_by_id i d = find_row (\<lambda>p. sp_id p = i) (supplier_products d)"

definition attribute_error :: exn where
  "attribute_error = OtherError (lit ''AttributeError'')"

definition mapping_candidates ::
  "'w api_env \<Rightarrow> ustr option \<Rightarrow> nat \<Rightarrow> ('w, nat \<times> ustr \<times> candidate_json list) work" where
  "mapping_candidates V token i =
     endpoint V token True
       (wbind (wread (mapping_by_id i)) (\<lambda>found.
          case found of
            None \<Rightarrow> wraise no_mapping
          | Some m \<Rightarrow>
              wbind (wread (supplier_product_by_id (pm_supplier_product_id m))) (\<lambda>p.
                case p of
                  None \<Rightarrow> wraise attribute_error
                | Some sp \<Rightarrow>
                    wbind (wread (find_candidates (ae_unicode V) (ae_settings V) (lit ''g2a'') None sp))
                      (\<lambda>cs. wret (i, sp_name sp, map as_json cs)))))"

section \<open>Offers\<close>

record offer_out =
  oo_mapping_id :: nat
  oo_offer_ext_id :: "ustr option"
  oo_store_product_ext_id :: ustr
  oo_supplier_name :: ustr
  oo_store_name :: ustr
  oo_state :: ustr
  oo_sync_enabled :: bool
  oo_stock :: int
  oo_supplier_price :: rat
  oo_supplier_currency :: ustr
  oo_markup_percent :: rat
  oo_markup_is_override :: bool
  oo_fixed_price_override :: "rat option"
  oo_computed_price :: "rat option"
  oo_pushed_price :: "rat option"
  oo_pushed_inventory :: "int option"
  oo_price_pending :: bool
  oo_price_changes_this_hour :: nat
  oo_price_budget :: int
  oo_last_pushed_at :: "timestamp option"
  oo_last_error :: "ustr option"

text \<open>\<open>LIKE\<close> of PostgreSQL: \<open>%\<close> is any text, \<open>_\<close> any character, a backslash takes the next one as it is.\<close>

fun like :: "ustr \<Rightarrow> ustr \<Rightarrow> bool" where
  "like [] s = (s = [])"
| "like (p # ps) [] = (p = 37 \<and> like ps [])"
| "like (p # ps) (c # s) =
     (if p = 37 then like ps (c # s) \<or> like (p # ps) s
      else if p = 92 then ps \<noteq> [] \<and> c = hd ps \<and> like (tl ps) s
      else (p = 95 \<or> p = c) \<and> like ps s)"

definition search_pattern :: "unicode \<Rightarrow> ustr \<Rightarrow> ustr" where
  "search_pattern U sought = [37] @ lower U sought @ [37]"

type_synonym offer_line = "product_mapping \<times> supplier_product \<times> store_product \<times> store_offer option"

definition outer :: "'r list \<Rightarrow> 'r option list" where
  "outer rs = (if rs = [] then [None] else map Some rs)"

definition offer_lines :: "database \<Rightarrow> offer_line list" where
  "offer_lines d =
     [(m, sp, st, r). m \<leftarrow> product_mappings d, syncable_status (pm_status m),
        sp \<leftarrow> supplier_products d, sp_id sp = pm_supplier_product_id m,
        st \<leftarrow> store_products d, pm_store_product_id m = Some (st_id st),
        r \<leftarrow> outer (filter (\<lambda>r. so_mapping_id r = pm_id m) (store_offers d))]"

definition wanted_line :: "'w api_env \<Rightarrow> ustr option \<Rightarrow> ustr option \<Rightarrow> offer_line \<Rightarrow> bool" where
  "wanted_line V sought state line =
     (case line of (m, sp, st, r) \<Rightarrow>
        (case or_none sought of
           None \<Rightarrow> True
         | Some q \<Rightarrow>
             like (search_pattern (ae_unicode V) q) (ae_sql_lower V (sp_name sp))
             \<or> like (search_pattern (ae_unicode V) q) (ae_sql_lower V (st_name st)))
        \<and> (case or_none state of
             None \<Rightarrow> True
           | Some q \<Rightarrow> (case r of None \<Rightarrow> False | Some x \<Rightarrow> lit (offer_state_value (so_state x)) = q)))"

definition queried_lines ::
  "'w api_env \<Rightarrow> ustr option \<Rightarrow> ustr option \<Rightarrow> nat \<Rightarrow> nat \<Rightarrow> database \<Rightarrow> offer_line list" where
  "queried_lines V sought state limit offset d =
     page limit offset
       (sort_key (\<lambda>(m, sp, st, r). ae_name_rank V (sp_name sp))
          (filter (wanted_line V sought state) (offer_lines d)))"

definition price_pending :: "rat option \<Rightarrow> rat option \<Rightarrow> bool" where
  "price_pending computed pushed \<longleftrightarrow>
     (case (computed, pushed) of (Some c, Some p) \<Rightarrow> fl (1 / 1000) < \<bar>fl (c - p)\<bar> | _ \<Rightarrow> False)"

definition shown_push :: "store_offer option \<Rightarrow> rat option" where
  "shown_push r =
     Option.bind (Option.bind r so_pushed_price) (\<lambda>p. if p = 0 then None else Some (fl p))"

definition offer_report :: "settings \<Rightarrow> offer_line \<Rightarrow> rat option \<Rightarrow> nat \<Rightarrow> offer_out" where
  "offer_report s line computed used =
     (case line of (m, sp, st, r) \<Rightarrow>
        \<lparr>oo_mapping_id = pm_id m, oo_offer_ext_id = Option.bind r so_offer_ext_id,
         oo_store_product_ext_id = st_product_ext_id st, oo_supplier_name = sp_name sp,
         oo_store_name = st_name st,
         oo_state = lit (case r of None \<Rightarrow> ''pending'' | Some x \<Rightarrow> offer_state_value (so_state x)),
         oo_sync_enabled = pm_sync_enabled m, oo_stock = sp_stock sp,
         oo_supplier_price = fl (sp_price_supplier sp),
         oo_supplier_currency = sp_supplier_currency sp,
         oo_markup_percent = effective_markup s (Some m),
         oo_markup_is_override = pm_markup_percent_override m \<noteq> None,
         oo_fixed_price_override = map_option fl (pm_fixed_price_override m),
         oo_computed_price = computed, oo_pushed_price = shown_push r,
         oo_pushed_inventory = Option.bind r so_pushed_inventory,
         oo_price_pending = price_pending computed (shown_push r),
         oo_price_changes_this_hour = used, oo_price_budget = effective_price_change_budget s,
         oo_last_pushed_at = Option.bind r so_last_pushed_at,
         oo_last_error = Option.bind r so_last_error\<rparr>)"

definition priced_line :: "'w api_env \<Rightarrow> offer_line \<Rightarrow> offer_out list \<Rightarrow> ('w, offer_out list) work" where
  "priced_line V line acc =
     (let S = ae_settings V; R = ae_runtime V
      in case line of (m, sp, st, r) \<Rightarrow>
        wbind (wtry (wbind (compute S (fx_rate_now R S False) sp (Some m) (Some st))
                       (\<lambda>b. wret (Some (fl (pb_final_price b)))))
                 is_pricing_error (\<lambda>e. wret None)) (\<lambda>computed.
        wbind (wtime (utcnow R)) (\<lambda>now.
        wbind (wread (budget_used (lit ''g2a'') (st_product_ext_id st) now)) (\<lambda>used.
          wret (acc @ [offer_report S line computed used])))))"

definition list_offers_page ::
  "'w api_env \<Rightarrow> ustr option \<Rightarrow> ustr option \<Rightarrow> ustr option \<Rightarrow> nat \<Rightarrow> int \<Rightarrow> ('w, offer_out list) work" where
  "list_offers_page V token sought state limit offset =
     endpoint V token (limit \<le> 500 \<and> 0 \<le> offset)
       (wbind (wread (queried_lines V sought state limit (nat offset))) (\<lambda>rows.
          wfold (priced_line V) rows []))"

section \<open>Pricing one product\<close>

record pricing_in =
  pi_markup_percent_override :: "rat option"
  pi_fixed_price_override :: "rat option"
  pi_sync_enabled :: "bool option"
  pi_clear_markup_override :: bool
  pi_clear_fixed_price :: bool

definition valid_pricing :: "pricing_in \<Rightarrow> bool" where
  "valid_pricing b \<longleftrightarrow>
     (case pi_markup_percent_override b of None \<Rightarrow> True | Some x \<Rightarrow> - 90 \<le> x \<and> x \<le> 1000)
     \<and> (case pi_fixed_price_override b of None \<Rightarrow> True | Some x \<Rightarrow> 0 \<le> x)"

definition keep_or :: "'a option \<Rightarrow> 'a option \<Rightarrow> 'a option" where
  "keep_or given old = (case given of None \<Rightarrow> old | Some x \<Rightarrow> Some x)"

definition repriced :: "pricing_in \<Rightarrow> product_mapping \<Rightarrow> product_mapping" where
  "repriced b m =
     m\<lparr>pm_markup_percent_override :=
         (if pi_clear_markup_override b then None
          else keep_or (pi_markup_percent_override b) (pm_markup_percent_override m)),
       pm_fixed_price_override :=
         (if pi_clear_fixed_price b then None
          else keep_or (pi_fixed_price_override b) (pm_fixed_price_override m)),
       pm_sync_enabled := (case pi_sync_enabled b of None \<Rightarrow> pm_sync_enabled m | Some x \<Rightarrow> x)\<rparr>"

text \<open>The preview: the breakdown with its amounts as floats, or the text of the pricing error.\<close>

definition shown_breakdown :: "price_breakdown \<Rightarrow> price_breakdown" where
  "shown_breakdown b =
     b\<lparr>pb_supplier_price := fl (pb_supplier_price b), pb_fx_rate := fl (pb_fx_rate b),
       pb_markup_percent := fl (pb_markup_percent b), pb_final_price := fl (pb_final_price b)\<rparr>"

record pricing_out =
  po_mapping_id :: nat
  po_sync_enabled :: bool
  po_markup_percent_override :: "rat option"
  po_fixed_price_override :: "rat option"
  po_preview :: "ustr + price_breakdown"

text \<open>The price of a mapping as it is stored now: the products it names and \<open>Pricer.compute\<close>.\<close>

definition price_of_mapping :: "settings \<Rightarrow> 'w runtime \<Rightarrow> product_mapping \<Rightarrow> ('w, price_breakdown) work" where
  "price_of_mapping S R m =
     wbind (wread (\<lambda>d. (supplier_product_by_id (pm_supplier_product_id m) d, store_product_of m d)))
       (\<lambda>(p, g). case p of
          None \<Rightarrow> wraise attribute_error
        | Some sp \<Rightarrow> compute S (fx_rate_now R S False) sp (Some m) g)"

definition set_pricing_body ::
  "settings \<Rightarrow> 'w runtime \<Rightarrow> nat \<Rightarrow> pricing_in \<Rightarrow> ('w, pricing_out) work" where
  "set_pricing_body S R i b =
     wbind (wread (mapping_by_id i)) (\<lambda>found.
       case found of
         None \<Rightarrow> wraise no_mapping
       | Some m \<Rightarrow>
           wthen (set_mapping (repriced b m)) (wthen wflush
             (wbind (wtry (wbind (price_of_mapping S R (repriced b m))
                             (\<lambda>x. wret (Inr (shown_breakdown x))))
                      is_pricing_error (\<lambda>e. wret (Inl (exn_str e)))) (\<lambda>preview.
               wret \<lparr>po_mapping_id = pm_id m, po_sync_enabled = pm_sync_enabled (repriced b m),
                     po_markup_percent_override = pm_markup_percent_override (repriced b m),
                     po_fixed_price_override = map_option fl (pm_fixed_price_override (repriced b m)),
                     po_preview = preview\<rparr>))))"

definition set_pricing ::
  "'w api_env \<Rightarrow> ustr option \<Rightarrow> nat \<Rightarrow> pricing_in \<Rightarrow> ('w, pricing_out) work" where
  "set_pricing V token i b =
     endpoint V token (valid_pricing b) (set_pricing_body (ae_settings V) (ae_runtime V) i b)"

end
