(* ===== verification/Secrets.thy ===== *)
theory Secrets
  imports Title_Text Schema
begin

text \<open>
  \<open>app/crypto.py\<close>: the encryption of purchased codes and their fingerprints. Fernet and HMAC are the
  fields of a record of library functions; the environment variable, its absence and invalid values,
  and the conversions between text and bytes (UTF-8, base 16) are modelled. The lemmas are the round
  trips and what the fingerprint promises about a code that is bought twice.
\<close>

section \<open>Text and bytes\<close>

type_synonym bytes = "nat list"

text \<open>\<open>s.encode()\<close> of one character: nothing for a lone surrogate, which is no Unicode scalar value.\<close>

definition utf8_char :: "nat \<Rightarrow> bytes option" where
  "utf8_char c =
     (if c < 128 then Some [c]
      else if c < 2048 then Some [192 + c div 64, 128 + c mod 64]
      else if 55296 \<le> c \<and> c < 57344 then None
      else if c < 65536 then Some [224 + c div 4096, 128 + c div 64 mod 64, 128 + c mod 64]
      else if c < 1114112 then
        Some [240 + c div 262144, 128 + c div 4096 mod 64, 128 + c div 64 mod 64, 128 + c mod 64]
      else None)"

fun utf8_encode :: "ustr \<Rightarrow> bytes option" where
  "utf8_encode [] = Some []"
| "utf8_encode (c # s) =
     (case (utf8_char c, utf8_encode s) of (Some b, Some bs) \<Rightarrow> Some (b @ bs) | _ \<Rightarrow> None)"

definition continues :: "nat \<Rightarrow> bool" where
  "continues b \<longleftrightarrow> 128 \<le> b \<and> b < 192"

text \<open>\<open>bytes.decode()\<close>, strict: overlong forms, surrogates and values past the last plane are refused.\<close>

fun utf8_next :: "bytes \<Rightarrow> (nat \<times> bytes) option" where
  "utf8_next [] = None"
| "utf8_next (a # s) =
     (if a < 128 then Some (a, s)
      else if 194 \<le> a \<and> a < 224 then
        (case s of
           b # r \<Rightarrow> if continues b then Some ((a - 192) * 64 + (b - 128), r) else None
         | _ \<Rightarrow> None)
      else if 224 \<le> a \<and> a < 240 then
        (case s of
           b # c # r \<Rightarrow>
             (let x = (a - 224) * 4096 + (b - 128) * 64 + (c - 128)
              in if continues b \<and> continues c \<and> 2048 \<le> x \<and> \<not> (55296 \<le> x \<and> x < 57344)
                 then Some (x, r) else None)
         | _ \<Rightarrow> None)
      else if 240 \<le> a \<and> a < 245 then
        (case s of
           b # c # e # r \<Rightarrow>
             (let x = (a - 240) * 262144 + (b - 128) * 4096 + (c - 128) * 64 + (e - 128)
              in if continues b \<and> continues c \<and> continues e \<and> 65536 \<le> x \<and> x < 1114112
                 then Some (x, r) else None)
         | _ \<Rightarrow> None)
      else None)"

lemma utf8_next_shorter: "utf8_next s = Some (c, r) \<Longrightarrow> length r < length s"
  by (cases s) (auto simp: Let_def split: if_splits list.splits)

function utf8_decode :: "bytes \<Rightarrow> ustr option" where
  "utf8_decode s =
     (if s = [] then Some []
      else case utf8_next s of
             None \<Rightarrow> None
           | Some (c, r) \<Rightarrow> (case utf8_decode r of None \<Rightarrow> None | Some cs \<Rightarrow> Some (c # cs)))"
  by pat_completeness auto
termination
  by (relation "measure length") (auto dest: utf8_next_shorter)

declare utf8_decode.simps [simp del]

lemma utf8_decode_Nil [simp]: "utf8_decode [] = Some []"
  by (simp add: utf8_decode.simps)

lemma utf8_next_char:
  assumes "utf8_char c = Some b"
  shows "utf8_next (b @ s) = Some (c, s)"
proof -
  have two: "c div 64 * 64 + c mod 64 = c" by simp
  have three: "c div 4096 * 4096 + c div 64 mod 64 * 64 + c mod 64 = c"
  proof -
    have "c div 4096 = c div 64 div 64" by (simp add: div_mult2_eq[symmetric])
    then show ?thesis using div_mult_mod_eq[of "c div 64" 64] two by linarith
  qed
  have four: "c div 262144 * 262144 + c div 4096 mod 64 * 4096 + c div 64 mod 64 * 64 + c mod 64 = c"
  proof -
    have "c div 262144 = c div 4096 div 64" by (simp add: div_mult2_eq[symmetric])
    then show ?thesis using div_mult_mod_eq[of "c div 4096" 64] three by linarith
  qed
  consider "c < 128" | "128 \<le> c" "c < 2048" | "2048 \<le> c" "\<not> (55296 \<le> c \<and> c < 57344)" "c < 65536"
    | "65536 \<le> c" "c < 1114112"
    using assms by (fastforce simp: utf8_char_def split: if_splits)
  then show ?thesis
  proof cases
    case 1
    with assms show ?thesis by (auto simp: utf8_char_def)
  next
    case 2
    then have "2 \<le> c div 64" "c div 64 < 32" by auto
    with assms 2 two show ?thesis by (auto simp: utf8_char_def continues_def)
  next
    case 3
    then have "c div 4096 < 16" by auto
    with assms 3 three show ?thesis by (auto simp: utf8_char_def continues_def Let_def)
  next
    case 4
    then have "c div 262144 < 5" by auto
    with assms 4 four show ?thesis by (auto simp: utf8_char_def continues_def Let_def)
  qed
qed

lemma utf8_char_nonempty: "utf8_char c = Some b \<Longrightarrow> b \<noteq> []"
  by (auto simp: utf8_char_def split: if_splits)

lemma utf8_read_back: "utf8_encode s = Some b \<Longrightarrow> utf8_decode b = Some s"
proof (induction s arbitrary: b)
  case (Cons c s)
  then obtain x y where "utf8_char c = Some x" "utf8_encode s = Some y" "b = x @ y"
    by (auto split: option.splits)
  with Cons.IH[of y] utf8_next_char[of c x y] utf8_char_nonempty[of c x] show ?case
    by (simp add: utf8_decode.simps[of "x @ y"])
qed simp

lemma utf8_bytes: "utf8_encode s = Some b \<Longrightarrow> list_all (\<lambda>x. x < 256) b"
proof (induction s arbitrary: b)
  case (Cons c s)
  have "list_all (\<lambda>x. x < 256) x" if "utf8_char c = Some x" for x
    using that by (auto simp: utf8_char_def split: if_splits)
  with Cons show ?case by (auto split: option.splits)
qed simp

lemma utf8_ascii: "list_all (\<lambda>b. b < 128) s \<Longrightarrow> utf8_encode s = Some s \<and> utf8_decode s = Some s"
proof (induction s)
  case (Cons a s)
  then have "utf8_encode (a # s) = Some (a # s)" by (simp add: utf8_char_def)
  with utf8_read_back show ?case by blast
qed simp

section \<open>The key\<close>

text \<open>
  What the code uses of \<open>cryptography\<close> and \<open>hmac\<close>: \<open>Fernet(key)\<close> with the text of its
  \<open>ValueError\<close> or \<open>TypeError\<close>, \<open>encrypt\<close> and \<open>generate_key\<close>, which draw from the world, \<open>decrypt\<close>,
  which gives nothing for \<open>InvalidToken\<close>, and HMAC-SHA256.
\<close>

record ('w, 'k) crypto_lib =
  fernet_of :: "bytes \<Rightarrow> ustr + 'k"
  fernet_encrypt :: "'k \<Rightarrow> bytes \<Rightarrow> 'w \<Rightarrow> bytes \<times> 'w"
  fernet_decrypt :: "'k \<Rightarrow> bytes \<Rightarrow> bytes option"
  fernet_generate_key :: "'w \<Rightarrow> bytes \<times> 'w"
  hmac_sha256 :: "bytes \<Rightarrow> bytes \<Rightarrow> bytes"

definition not_configured :: "string \<Rightarrow> exn" where
  "not_configured t = PyRuntimeError (lit ''ENCRYPTION_KEY'' @ lit t)"

text \<open>\<open>UnicodeEncodeError\<close> and \<open>UnicodeDecodeError\<close> are \<open>ValueError\<close>s; their texts are not modelled.\<close>

definition encoded :: "ustr \<Rightarrow> bytes result" where
  "encoded s = (case utf8_encode s of None \<Rightarrow> Inl (PyValueError []) | Some b \<Rightarrow> Inr b)"

definition decoded :: "bytes \<Rightarrow> ustr result" where
  "decoded b = (case utf8_decode b of None \<Rightarrow> Inl (PyValueError []) | Some s \<Rightarrow> Inr s)"

definition generate_key :: "('w, 'k) crypto_lib \<Rightarrow> 'w \<Rightarrow> ustr result \<times> 'w" where
  "generate_key L w = (let (b, w') = fernet_generate_key L w in (decoded b, w'))"

text \<open>\<open>raw\<close> is \<open>os.environ.get("ENCRYPTION_KEY")\<close>.\<close>

definition the_fernet :: "('w, 'k) crypto_lib \<Rightarrow> ustr option \<Rightarrow> 'k result" where
  "the_fernet L raw =
     (case or_none raw of
        None \<Rightarrow> Inl (not_configured '' is not set. Generate one with `python -m app.cli keygen` and put it in your .env -- the bridge refuses to store keys in plaintext.'')
      | Some r \<Rightarrow>
          (case utf8_encode r of
             None \<Rightarrow> Inl (not_configured '' is not a valid Fernet key: '')
           | Some b \<Rightarrow>
               (case fernet_of L b of
                  Inl msg \<Rightarrow> Inl (PyRuntimeError (lit ''ENCRYPTION_KEY is not a valid Fernet key: '' @ msg))
                | Inr k \<Rightarrow> Inr k)))"

definition encrypt :: "('w, 'k) crypto_lib \<Rightarrow> ustr option \<Rightarrow> ustr \<Rightarrow> 'w \<Rightarrow> ustr result \<times> 'w" where
  "encrypt L raw plaintext w =
     (case the_fernet L raw of
        Inl e \<Rightarrow> (Inl e, w)
      | Inr k \<Rightarrow>
          (case encoded plaintext of
             Inl e \<Rightarrow> (Inl e, w)
           | Inr b \<Rightarrow> let (t, w') = fernet_encrypt L k b w in (decoded t, w')))"

definition decrypt :: "('w, 'k) crypto_lib \<Rightarrow> ustr option \<Rightarrow> ustr \<Rightarrow> ustr result" where
  "decrypt L raw token =
     (case the_fernet L raw of
        Inl e \<Rightarrow> Inl e
      | Inr k \<Rightarrow>
          (case encoded token of
             Inl e \<Rightarrow> Inl e
           | Inr t \<Rightarrow>
               (case fernet_decrypt L k t of
                  None \<Rightarrow> Inl (PyValueError (lit ''Could not decrypt a stored key -- ENCRYPTION_KEY has changed since it was written''))
                | Some b \<Rightarrow> decoded b)))"

section \<open>Fingerprints\<close>

definition hex_upper :: "nat \<Rightarrow> nat" where
  "hex_upper n = (if n < 10 then 48 + n else 55 + n)"

fun b16encode :: "bytes \<Rightarrow> bytes" where
  "b16encode [] = []"
| "b16encode (b # bs) = hex_upper (b div 16) # hex_upper (b mod 16) # b16encode bs"

definition ascii_lower :: "nat \<Rightarrow> nat" where
  "ascii_lower c = (if 65 \<le> c \<and> c \<le> 90 then c + 32 else c)"

text \<open>The base 16 text is ASCII, on which \<open>decode\<close> is the identity and \<open>lower\<close> shifts the letters.\<close>

definition fingerprint :: "('w, 'k) crypto_lib \<Rightarrow> unicode \<Rightarrow> ustr option \<Rightarrow> ustr \<Rightarrow> ustr result" where
  "fingerprint L U raw plaintext =
     (case or_none raw of
        None \<Rightarrow> Inl (not_configured '' is not set'')
      | Some secret \<Rightarrow>
          (case (encoded secret, encoded (strip_by (space U) plaintext)) of
             (Inr k, Inr b) \<Rightarrow> Inr (take 64 (map ascii_lower (b16encode (hmac_sha256 L k b))))
           | (Inl e, _) \<Rightarrow> Inl e
           | (_, Inl e) \<Rightarrow> Inl e))"

section \<open>Round trip\<close>

text \<open>What Fernet documents: a token is base 64 text, and it decrypts to what was encrypted under its key.\<close>

definition fernet_contract :: "('w, 'k) crypto_lib \<Rightarrow> bool" where
  "fernet_contract L \<longleftrightarrow>
     (\<forall>k p w. list_all (\<lambda>b. b < 256) p \<longrightarrow>
        fernet_decrypt L k (fst (fernet_encrypt L k p w)) = Some p
        \<and> list_all (\<lambda>b. b < 128) (fst (fernet_encrypt L k p w)))"

text \<open>
  A purchased code is never stored in the clear by accident: with a valid key, whatever is
  encrypted decrypts to the same text; without one (absent, empty or invalid) encryption raises
  \<open>EncryptionNotConfigured\<close>. Only a text with a lone surrogate is refused under a valid key.
\<close>
theorem encrypted_code_reads_back:
  assumes "fernet_contract L" "encrypt L raw plaintext w = (x, w')"
  shows "case x of
      Inr t \<Rightarrow> decrypt L raw t = Inr plaintext
    | Inl e \<Rightarrow> w' = w
        \<and> (if \<exists>k. the_fernet L raw = Inr k then utf8_encode plaintext = None else the_fernet L raw = Inl e)"
proof (cases "the_fernet L raw")
  case (Inl e)
  with assms(2) have "x = Inl e" "w' = w" by (simp_all add: encrypt_def)
  with Inl show ?thesis by simp
next
  case (Inr k)
  show ?thesis
  proof (cases "utf8_encode plaintext")
    case None
    with assms(2) Inr have "x = Inl (PyValueError [])" "w' = w" by (simp_all add: encrypt_def encoded_def)
    with Inr None show ?thesis by simp
  next
    case (Some b)
    obtain t w1 where t: "fernet_encrypt L k b w = (t, w1)" by (metis prod.collapse)
    from assms(1) have "fernet_decrypt L k (fst (fernet_encrypt L k b w)) = Some b"
      "list_all (\<lambda>b. b < 128) (fst (fernet_encrypt L k b w))"
      using utf8_bytes[OF Some] by (auto simp: fernet_contract_def)
    with t have c: "fernet_decrypt L k t = Some b" "utf8_encode t = Some t" "utf8_decode t = Some t"
      using utf8_ascii[of t] by simp_all
    then have "x = Inr t" using assms(2) Inr Some t by (simp add: encrypt_def encoded_def decoded_def)
    with Inr c utf8_read_back[OF Some] show ?thesis
      by (simp add: decrypt_def encoded_def decoded_def)
  qed
qed

section \<open>One row per code\<close>

lemma hex_upper_inj: "a < 16 \<Longrightarrow> b < 16 \<Longrightarrow> ascii_lower (hex_upper a) = ascii_lower (hex_upper b) \<longleftrightarrow> a = b"
  by (auto simp: hex_upper_def ascii_lower_def)

lemma b16_inj:
  "list_all (\<lambda>b. b < 256) xs \<Longrightarrow> list_all (\<lambda>b. b < 256) ys \<Longrightarrow>
    map ascii_lower (b16encode xs) = map ascii_lower (b16encode ys) \<Longrightarrow> xs = ys"
proof (induction xs arbitrary: ys)
  case Nil
  then show ?case by (cases ys) auto
next
  case (Cons x xs)
  then obtain y zs where y: "ys = y # zs" by (cases ys) auto
  have "x div 16 = y div 16" "x mod 16 = y mod 16"
    using Cons.prems y hex_upper_inj[of "x div 16" "y div 16"] hex_upper_inj[of "x mod 16" "y mod 16"] by auto
  then have "x = y" by (metis div_mult_mod_eq)
  with Cons y show ?case by auto
qed

lemma b16_length: "length (b16encode bs) = 2 * length bs"
  by (induction bs) auto

definition hex_digits :: ustr where
  "hex_digits = lit ''0123456789abcdef''"

lemma b16_digits:
  "list_all (\<lambda>b. b < 256) bs \<Longrightarrow> set (map ascii_lower (b16encode bs)) \<subseteq> set hex_digits"
proof (induction bs)
  case (Cons b bs)
  have "ascii_lower (hex_upper n) \<in> set hex_digits" if "n < 16" for n
  proof -
    have "list_all (\<lambda>n. ascii_lower (hex_upper n) \<in> set hex_digits) [0..<16]" by code_simp
    with that show ?thesis by (simp add: list_all_iff)
  qed
  moreover have "b div 16 < 16" "b mod 16 < 16" using Cons.prems by auto
  ultimately have "ascii_lower (hex_upper (b div 16)) \<in> set hex_digits"
    "ascii_lower (hex_upper (b mod 16)) \<in> set hex_digits" by blast+
  with Cons show ?case by simp
qed simp

text \<open>A SHA-256 digest is 32 bytes.\<close>

definition sha256_sized :: "('w, 'k) crypto_lib \<Rightarrow> bool" where
  "sha256_sized L \<longleftrightarrow> (\<forall>k m. length (hmac_sha256 L k m) = 32 \<and> list_all (\<lambda>b. b < 256) (hmac_sha256 L k m))"

lemma fingerprint_run:
  assumes "fingerprint L U raw code = Inr f" "sha256_sized L"
  obtains secret k b where "or_none raw = Some secret" "utf8_encode secret = Some k"
    "utf8_encode (strip_by (space U) code) = Some b" "f = map ascii_lower (b16encode (hmac_sha256 L k b))"
proof -
  obtain secret where s: "or_none raw = Some secret"
    using assms(1) by (cases "or_none raw") (auto simp: fingerprint_def)
  then obtain k b where kb: "utf8_encode secret = Some k" "utf8_encode (strip_by (space U) code) = Some b"
    "f = take 64 (map ascii_lower (b16encode (hmac_sha256 L k b)))"
    using assms(1) by (auto simp: fingerprint_def encoded_def split: option.splits)
  moreover have "length (hmac_sha256 L k b) = 32" using assms(2) by (simp add: sha256_sized_def)
  ultimately show thesis using that s b16_length[of "hmac_sha256 L k b"] by simp
qed

text \<open>
  C29: A fingerprint fits its column: whatever the code and the secret, it is a text of 64 lower-case
  hexadecimal digits.
\<close>
theorem fingerprint_is_hex:
  assumes "sha256_sized L" "fingerprint L U raw code = Inr f"
  shows "length f = 64 \<and> set f \<subseteq> set hex_digits"
proof -
  obtain k b where f: "f = map ascii_lower (b16encode (hmac_sha256 L k b))"
    using fingerprint_run[OF assms(2,1)] by metis
  have "length (hmac_sha256 L k b) = 32" "list_all (\<lambda>b. b < 256) (hmac_sha256 L k b)"
    using assms(1) by (simp_all add: sha256_sized_def)
  then show ?thesis using b16_digits[of "hmac_sha256 L k b"] b16_length[of "hmac_sha256 L k b"] unfolding f by simp
qed

text \<open>
  C28: A code is stored once, as long as the key stays: among the rows written under one
  \<open>ENCRYPTION_KEY\<close>, two with the same code, up to surrounding white space, are the same row; and
  two codes whose digests do not collide never share a row.
\<close>
theorem code_is_stored_once:
  assumes "sha256_sized L" "database_ok d" "r1 \<in> set (delivered_keys d)" "r2 \<in> set (delivered_keys d)"
    and "fingerprint L U (Some secret) c1 = Inr (dk_fingerprint r1)"
    and "fingerprint L U (Some secret) c2 = Inr (dk_fingerprint r2)"
    and "utf8_encode secret = Some k" "utf8_encode (strip_by (space U) c1) = Some b1"
    and "utf8_encode (strip_by (space U) c2) = Some b2"
    and "hmac_sha256 L k b1 = hmac_sha256 L k b2 \<longrightarrow> b1 = b2"
  shows "r1 = r2 \<longleftrightarrow> strip_by (space U) c1 = strip_by (space U) c2"
proof
  have u: "distinct (map dk_id (delivered_keys d))" "uniq uq_delivered_key_fingerprint (delivered_keys d)"
    using assms(2) by (auto simp: database_ok_def)
  {
    assume "strip_by (space U) c1 = strip_by (space U) c2"
    then have "fingerprint L U (Some secret) c1 = fingerprint L U (Some secret) c2"
      unfolding fingerprint_def by (simp only:)
    then have "dk_fingerprint r1 = dk_fingerprint r2" using assms(5,6) by simp
    then show "r1 = r2" using uniqD[OF u(2) assms(3,4)] by (simp add: uq_delivered_key_fingerprint_def)
  next
    assume "r1 = r2"
    have "dk_fingerprint r1 = map ascii_lower (b16encode (hmac_sha256 L k b1))"
      by (rule fingerprint_run[OF assms(5,1)]) (use assms(7,8) in \<open>auto split: if_splits\<close>)
    moreover have "dk_fingerprint r2 = map ascii_lower (b16encode (hmac_sha256 L k b2))"
      by (rule fingerprint_run[OF assms(6,1)]) (use assms(7,9) in \<open>auto split: if_splits\<close>)
    ultimately have "map ascii_lower (b16encode (hmac_sha256 L k b1)) = map ascii_lower (b16encode (hmac_sha256 L k b2))"
      using \<open>r1 = r2\<close> by simp
    then have "hmac_sha256 L k b1 = hmac_sha256 L k b2"
      using b16_inj assms(1) by (auto simp: sha256_sized_def)
    with assms(10) have "b1 = b2" by simp
    with utf8_read_back[OF assms(8)] utf8_read_back[OF assms(9)] show "strip_by (space U) c1 = strip_by (space U) c2" by simp
  }
qed

section \<open>A small library\<close>

text \<open>A cipher that splits each byte in two, and a digest that pads or cuts the message.\<close>

fun halves :: "bytes \<Rightarrow> bytes" where
  "halves [] = []"
| "halves (b # bs) = b div 64 # b mod 64 # halves bs"

fun unhalve :: "bytes \<Rightarrow> bytes" where
  "unhalve (a # b # s) = (a * 64 + b) # unhalve s"
| "unhalve s = []"

definition halving :: "('w, bytes) crypto_lib" where
  "halving =
     \<lparr>fernet_of = Inr, fernet_encrypt = (\<lambda>k p w. (halves p, w)),
      fernet_decrypt = (\<lambda>k t. Some (unhalve t)), fernet_generate_key = Pair [107],
      hmac_sha256 = (\<lambda>k m. take 32 (map (\<lambda>b. b mod 256) m @ replicate 32 0))\<rparr>"

lemma halving_contract: "fernet_contract halving" and halving_sized: "sha256_sized halving"
proof -
  have "unhalve (halves p) = p" for p by (induction p) auto
  moreover have "list_all (\<lambda>b. b < 256) p \<Longrightarrow> list_all (\<lambda>b. b < 128) (halves p)" for p
    by (induction p) auto
  ultimately show "fernet_contract halving" by (simp add: fernet_contract_def halving_def)
  show "sha256_sized halving"
    by (auto simp: sha256_sized_def halving_def list_all_iff dest!: in_set_takeD)
qed

theorem encrypted_code_reads_back_witness:
  "\<exists>t. encrypt halving (Some [107]) [65, 233] () = (Inr t, ())
     \<and> decrypt (halving :: (unit, bytes) crypto_lib) (Some [107]) t = Inr [65, 233]"
proof -
  obtain x where r: "encrypt halving (Some [107]) [65, 233] () = (x, ())" by (metis prod.collapse unit.exhaust)
  have "the_fernet (halving :: (unit, bytes) crypto_lib) (Some [107]) = Inr [107]" "utf8_encode [65, 233] = Some [65, 195, 169]" by code_simp+
  with encrypted_code_reads_back[OF halving_contract r] r show ?thesis by (cases x) (auto split: if_splits)
qed

theorem fingerprint_is_hex_witness:
  "\<exists>f. fingerprint halving ascii_db (Some [107]) [65] = Inr f \<and> length f = 64"
proof -
  have "fingerprint halving ascii_db (Some [107]) [65] = Inr (lit ''41'' @ replicate 62 48)" by code_simp
  with fingerprint_is_hex[OF halving_sized this] show ?thesis by blast
qed

definition stored_code :: delivered_key where
  "stored_code = \<lparr>dk_id = 1, dk_order_item_id = 1, dk_code_encrypted = [1, 1],
     dk_fingerprint = lit ''41'' @ replicate 62 48, dk_kind = lit ''text'', dk_delivered_to_store = False\<rparr>"

theorem code_is_stored_once_witness:
  "strip_by (space ascii_db) [32, 65] = strip_by (space ascii_db) [65]"
proof -
  let ?d = "empty_database\<lparr>delivered_keys := [stored_code]\<rparr>"
  have ok: "database_ok ?d"
    by (simp add: database_ok_def empty_database_def supplier_products_ok_def store_products_ok_def
        mappings_ok_def offers_ok_def idempotency_ok_def constraint_defs)
  have f: "fingerprint halving ascii_db (Some [107]) [32, 65] = Inr (dk_fingerprint stored_code)"
    "fingerprint halving ascii_db (Some [107]) [65] = Inr (dk_fingerprint stored_code)"
    "utf8_encode [107] = Some [107]" "utf8_encode (strip_by (space ascii_db) [32, 65]) = Some [65]"
    "utf8_encode (strip_by (space ascii_db) [65]) = Some [65]" by code_simp+
  from code_is_stored_once[OF halving_sized ok _ _ f] show ?thesis by simp
qed

end
