(* ===== verification/Command_Line.thy ===== *)
theory Command_Line
  imports Worker Admin_Api Fazercards G2a Secrets
begin

text \<open>
  \<open>app/cli.py\<close>: the commands of the console as units of work over the same services as the jobs and
  the admin API. A value is what the command hands to \<open>_echo\<close>; typer, logging and the JSON text are
  not modelled. A query without an order gives its rows in the order of the table.
\<close>

section \<open>Database\<close>

record row_counts =
  rc_supplier_products :: nat
  rc_store_products :: nat
  rc_mappings :: nat
  rc_offers :: nat

definition db_check :: "('w, row_counts) work" where
  "db_check = session_scope (wread (\<lambda>d.
     \<lparr>rc_supplier_products = length (supplier_products d), rc_store_products = length (store_products d),
      rc_mappings = length (product_mappings d), rc_offers = length (store_offers d)\<rparr>))"

definition keygen :: "('w, 'k) crypto_lib \<Rightarrow> 'w \<Rightarrow> ustr result \<times> 'w" where
  "keygen L = generate_key L"

section \<open>The doctor\<close>

text \<open>
  The report is a dictionary with distinct keys, written entry by entry: each part is a generator of
  entries, and \<open>reporting\<close> turns the exception that ends it into an entry.
\<close>

definition reporting :: "string \<Rightarrow> ('w, string \<times> ustr) generator \<Rightarrow> ('w, string \<times> ustr) generator" where
  "reporting k g w =
     (case g w of
        ((xs, Some e), w') \<Rightarrow> ((xs @ [(k, lit ''FAILED: '' @ exn_str e)], None), w')
      | ((xs, None), w') \<Rightarrow> ((xs, None), w'))"

definition opt_str :: "('a \<Rightarrow> ustr) \<Rightarrow> 'a option \<Rightarrow> ustr" where
  "opt_str f x = (case x of None \<Rightarrow> lit ''None'' | Some v \<Rightarrow> f v)"

definition doctor_supplier ::
  "settings \<Rightarrow> (json \<Rightarrow> ustr) \<Rightarrow> 'w client \<Rightarrow> ('w, string \<times> ustr) generator" where
  "doctor_supplier S repr C =
     reporting ''fazercards''
       (gcall (clift (require_fazercards_key S)) (\<lambda>k.
        gthen (gyield (''fazercards_key'', lit ''present''))
          (gcall (balance (fazercards_client S repr C) repr) (\<lambda>b.
             gyield (''fazercards_balance'', opt_str dec_str b)))))"

text \<open>\<open>next(iter(stream), None)\<close>: what comes after the first item is not looked at.\<close>

definition first_of :: "'a stream \<Rightarrow> 'a option result" where
  "first_of st =
     (case fst st of
        x # xs \<Rightarrow> Inr (Some x)
      | [] \<Rightarrow> (case snd st of None \<Rightarrow> Inr None | Some e \<Rightarrow> Inl e))"

text \<open>The adapter of the command starts without a token, and is dropped with it.\<close>

definition with_new_adapter :: "('w \<times> token_state, 'a) generator \<Rightarrow> ('w, 'a) generator" where
  "with_new_adapter g w = (case g (w, no_token) of (st, x') \<Rightarrow> (st, fst x'))"

definition doctor_store ::
  "settings \<Rightarrow> (json \<Rightarrow> ustr) \<Rightarrow> (ustr \<Rightarrow> int option) list \<Rightarrow> (int \<Rightarrow> ustr) \<Rightarrow> 'w token_endpoint \<Rightarrow> 'w client
    \<Rightarrow> ('w, string \<times> ustr) generator" where
  "doctor_store S repr parsers fmt E C =
     reporting ''g2a''
       (gcall (clift (require_g2a_credentials S)) (\<lambda>k.
        with_new_adapter
          (gcall (token S E) (\<lambda>t.
           gthen (gyield (''g2a_token'', lit ''obtained''))
             (gcall (\<lambda>x. case the (iter_catalog (g2a_client S repr E C) repr parsers fmt None True (Some 1) x) of
                           (st, x') \<Rightarrow> (first_of st, x')) (\<lambda>first.
                gyield (''g2a_catalog_sample'', case first of None \<Rightarrow> lit ''(empty page)'' | Some c \<Rightarrow> ci_name c)))))))"

definition doctor_secrets :: "('w, 'k) crypto_lib \<Rightarrow> ustr option \<Rightarrow> ('w, string \<times> ustr) generator" where
  "doctor_secrets L raw =
     reporting ''encryption''
       (gcall (encrypt L raw (lit ''probe'')) (\<lambda>t. gyield (''encryption'', lit ''configured'')))"

definition doctor ::
  "settings \<Rightarrow> (json \<Rightarrow> ustr) \<Rightarrow> (ustr \<Rightarrow> int option) list \<Rightarrow> (int \<Rightarrow> ustr) \<Rightarrow> 'w client
    \<Rightarrow> 'w token_endpoint \<Rightarrow> 'w client \<Rightarrow> ('w, 'k) crypto_lib \<Rightarrow> ustr option \<Rightarrow> ('w, string \<times> ustr) generator" where
  "doctor S repr parsers fmt supplier E store L raw =
     gthen (gyield (''environment'', environment S))
       (gthen (doctor_supplier S repr supplier)
         (gthen (doctor_store S repr parsers fmt E store) (doctor_secrets L raw)))"

section \<open>Synchronisation\<close>

definition sync_supplier_command :: "'w bridge \<Rightarrow> ('w, stats) work" where
  "sync_supplier_command B =
     session_scope (sync_supplier (br_unicode B) (br_digest B) (br_settings B) (br_runtime B) (br_supplier B) None)"

definition sync_store_catalog :: "'w bridge \<Rightarrow> nat option \<Rightarrow> int option \<Rightarrow> ('w, stats) work" where
  "sync_store_catalog B max_pages since_hours =
     wbind (wtime (utcnow (br_runtime B))) (\<lambda>now.
       (let updated_since = (case since_hours of
              None \<Rightarrow> None | Some h \<Rightarrow> if h = 0 then None else Some (now - hours h))
        in session_scope (sync_store (br_unicode B) (br_runtime B) (br_store B) updated_since None max_pages)))"

definition sync_offers_command :: "'w bridge \<Rightarrow> nat option \<Rightarrow> bool \<Rightarrow> ('w, stats \<times> stats option) work" where
  "sync_offers_command B limit dry_run =
     session_scope
       (wbind (run_offers (br_runtime B) (br_settings B) (fx_rate_now (br_runtime B) (br_settings B) False)
                 (br_store B) limit dry_run) (\<lambda>result.
          if dry_run then wret (result, None)
          else wbind (reconcile_jobs (br_store B) 200) (\<lambda>jobs. wret (result, Some jobs))))"

definition sync_adopt :: "'w bridge \<Rightarrow> ('w, stats) work" where
  "sync_adopt B = session_scope (adopt_existing_offers (br_store B))"

section \<open>Mappings\<close>

definition map_run :: "'w bridge \<Rightarrow> nat option \<Rightarrow> bool \<Rightarrow> ('w, stats) work" where
  "map_run B limit all_products =
     session_scope (match_run (br_unicode B) (br_settings B) (lit ''g2a'') limit (\<not> all_products))"

text \<open>\<open>round(x, 3)\<close> of a double.\<close>

definition round3 :: "rat \<Rightarrow> rat" where
  "round3 x = fl (of_int (half_even (x * 1000)) / 1000)"

record pending_line =
  pl_mapping_id :: nat
  pl_score :: "rat option"
  pl_supplier :: ustr
  pl_suggested :: "ustr option"
  pl_alternatives :: "ustr list"

definition pending_of :: "database \<Rightarrow> product_mapping \<times> supplier_product \<Rightarrow> pending_line" where
  "pending_of d row =
     (case row of (m, sp) \<Rightarrow>
        \<lparr>pl_mapping_id = pm_id m,
         pl_score = (case pm_score m of None \<Rightarrow> None | Some x \<Rightarrow> if x = 0 then None else Some (round3 x)),
         pl_supplier = sp_name sp, pl_suggested = map_option st_name (store_product_of m d),
         pl_alternatives = map cj_name (take 3 (drop 1 (pm_candidates m)))\<rparr>)"

definition map_pending :: "nat \<Rightarrow> ('w, pending_line list) work" where
  "map_pending limit =
     session_scope (wread (\<lambda>d. map (pending_of d) (take limit
       [(m, sp). m \<leftarrow> product_mappings d, pm_status m = PENDING,
                 sp \<leftarrow> supplier_products d, sp_id sp = pm_supplier_product_id m])))"

definition map_approve :: "'w runtime \<Rightarrow> nat \<Rightarrow> nat option \<Rightarrow> ustr \<Rightarrow> ('w, nat \<times> mapping_status) work" where
  "map_approve R i store_product who =
     session_scope (wbind (approve R i store_product who None) (\<lambda>m. wret (mapping_reply m)))"

definition map_reject :: "'w runtime \<Rightarrow> nat \<Rightarrow> ustr option \<Rightarrow> ustr \<Rightarrow> ('w, nat \<times> mapping_status) work" where
  "map_reject R i remark who =
     session_scope (wbind (reject R i who remark) (\<lambda>m. wret (mapping_reply m)))"

section \<open>Prices\<close>

record console_price =
  cp_markup :: "rat option"
  cp_fixed :: "rat option"
  cp_clear :: bool
  cp_pause :: bool
  cp_resume :: bool

text \<open>The assignments of \<open>map_price\<close>, in their order.\<close>

definition console_repriced :: "console_price \<Rightarrow> product_mapping \<Rightarrow> product_mapping" where
  "console_repriced o' m0 =
     (let m = (if cp_clear o' then m0\<lparr>pm_markup_percent_override := None, pm_fixed_price_override := None\<rparr> else m0);
          m = (case cp_markup o' of None \<Rightarrow> m | Some x \<Rightarrow> m\<lparr>pm_markup_percent_override := Some x\<rparr>);
          m = (case cp_fixed o' of None \<Rightarrow> m | Some x \<Rightarrow> m\<lparr>pm_fixed_price_override := Some x\<rparr>);
          m = (if cp_pause o' then m\<lparr>pm_sync_enabled := False\<rparr> else m)
      in if cp_resume o' then m\<lparr>pm_sync_enabled := True\<rparr> else m)"

record priced =
  pr_mapping_id :: nat
  pr_product :: ustr
  pr_sync_enabled :: bool
  pr_cost :: rat
  pr_fx_rate :: rat
  pr_markup_percent :: rat
  pr_new_price :: rat

definition typer_exit :: exn where
  "typer_exit = OtherError (lit ''Exit'')"

definition priced_of :: "product_mapping \<Rightarrow> supplier_product \<Rightarrow> price_breakdown \<Rightarrow> priced" where
  "priced_of m sp b =
     \<lparr>pr_mapping_id = pm_id m, pr_product = sp_name sp, pr_sync_enabled = pm_sync_enabled m,
      pr_cost = fl (pb_supplier_price b), pr_fx_rate = fl (pb_fx_rate b),
      pr_markup_percent = fl (pb_markup_percent b), pr_new_price = fl (pb_final_price b)\<rparr>"

definition map_price_body :: "settings \<Rightarrow> 'w runtime \<Rightarrow> nat \<Rightarrow> console_price \<Rightarrow> ('w, priced) work" where
  "map_price_body S R i o' =
     wbind (wread (mapping_by_id i)) (\<lambda>found.
       case found of
         None \<Rightarrow> wraise typer_exit
       | Some m0 \<Rightarrow>
           (let m = console_repriced o' m0
            in wthen (set_mapping m) (wthen wflush
                 (wbind (wread (\<lambda>d. (supplier_product_by_id (pm_supplier_product_id m) d, store_product_of m d)))
                    (\<lambda>(p, g). case p of
                       None \<Rightarrow> wraise attribute_error
                     | Some sp \<Rightarrow>
                         wbind (compute S (fx_rate_now R S False) sp (Some m) g) (\<lambda>b.
                           wret (priced_of m sp b)))))))"

definition map_price :: "settings \<Rightarrow> 'w runtime \<Rightarrow> nat \<Rightarrow> console_price \<Rightarrow> ('w, priced) work" where
  "map_price S R i o' = session_scope (map_price_body S R i o')"

record listed =
  ls_mapping_id :: nat
  ls_product :: ustr
  ls_stock :: int
  ls_cost_usd :: rat
  ls_markup :: rat
  ls_sell_price :: rat
  ls_sync_enabled :: bool

definition listed_rows ::
  "unicode \<Rightarrow> (ustr \<Rightarrow> ustr) \<Rightarrow> ustr option \<Rightarrow> database \<Rightarrow> (product_mapping \<times> supplier_product \<times> store_product) list" where
  "listed_rows U sql_lower sought d =
     [(m, sp, g). m \<leftarrow> product_mappings d, syncable_status (pm_status m),
        sp \<leftarrow> supplier_products d, sp_id sp = pm_supplier_product_id m,
        g \<leftarrow> store_products d, pm_store_product_id m = Some (st_id g),
        case or_none sought of None \<Rightarrow> True | Some q \<Rightarrow> like (search_pattern U q) (sql_lower (sp_name sp))]"

definition listed_line ::
  "settings \<Rightarrow> 'w runtime \<Rightarrow> product_mapping \<times> supplier_product \<times> store_product \<Rightarrow> listed list
    \<Rightarrow> ('w, listed list) work" where
  "listed_line S R row acc =
     (case row of (m, sp, g) \<Rightarrow>
        wbind (compute S (fx_rate_now R S False) sp (Some m) (Some g)) (\<lambda>b.
          wret (acc @ [\<lparr>ls_mapping_id = pm_id m, ls_product = sp_name sp, ls_stock = sp_stock sp,
            ls_cost_usd = fl (sp_price_supplier sp), ls_markup = effective_markup S (Some m),
            ls_sell_price = fl (pb_final_price b), ls_sync_enabled = pm_sync_enabled m\<rparr>])))"

definition map_list ::
  "settings \<Rightarrow> 'w runtime \<Rightarrow> unicode \<Rightarrow> (ustr \<Rightarrow> ustr) \<Rightarrow> ustr option \<Rightarrow> nat \<Rightarrow> ('w, listed list) work" where
  "map_list S R U sql_lower sought limit =
     session_scope (wbind (wread (\<lambda>d. take limit (listed_rows U sql_lower sought d))) (\<lambda>rows.
       wfold (listed_line S R) rows []))"

end
