(* ===== verification/Admin_Safety.thy ===== *)
theory Admin_Safety
  imports Admin_Api
begin

text \<open>
  What the admin API guarantees: who is served, what a refused request leaves behind, the reply to an
  approval on every branch, what a change of price touches and what its preview promises, and what
  the listings show.
\<close>

section \<open>Access and transactions\<close>

lemma token_accepted:
  "require_token expected token = Inr () \<longleftrightarrow> truthy token \<and> token = expected"
  by (cases expected; cases token) (auto simp: require_token_def)

lemma endpoint_open:
  "require_token (ae_admin_token V) token = Inr () \<Longrightarrow> valid \<Longrightarrow>
     endpoint V token valid body = session_scope body"
  by (simp add: endpoint_def get_db_def)


section \<open>Approval\<close>

lemma approve_missing:
  "mapping_by_id i d = None \<Longrightarrow> approve R i s who remark w d = (Inl (PyLookupError (mapping_text i)), w, d)"
  by (simp add: approve_def wbind_def wread_def wraise_def)

lemma approve_mapping_run:
  assumes "require_token (ae_admin_token V) token = Inr ()"
    and "approve (ae_runtime V) i s who remark w d = (x, w1, d1)"
  shows "fst (approve_mapping V token i s who remark w d) = (case x of
      Inl e \<Rightarrow> Inl (if is_lookup_error e \<or> is_value_error e then as_http e else e)
    | Inr m \<Rightarrow> if database_ok d1 then Inr (mapping_reply m) else Inl (IntegrityError ''constraint''))"
  using assms(2) unfolding approve_mapping_def endpoint_open[OF assms(1) TrueI]
  by (auto simp: session_scope_def wbind_def wtry_def wraise_def wret_def flush_def split: sum.split)

text \<open>
  The reply to an approval, every branch: 404 for an unknown mapping, 409 when there is no product
  to approve or an automatic or approved mapping holds it, an internal error when a mapping of
  another status holds it, and otherwise the approval. Only the last changes the database.
\<close>
theorem approval_reply:
  assumes "database_ok d" "require_token (ae_admin_token V) token = Inr ()"
    and "approve_mapping V token i s who remark w d = (x, w', d')"
  shows "reply_status x = (case mapping_by_id i d of
        None \<Rightarrow> 404
      | Some m \<Rightarrow> (case approval_target s m of
          None \<Rightarrow> 409
        | Some p \<Rightarrow> if \<exists>y. holds_product d m p y \<and> pm_status y \<in> {AUTO, APPROVED} then 409
                    else if \<exists>y. holds_product d m p y then 500 else 200))
    \<and> (reply_status x \<noteq> 200 \<longrightarrow> d' = d)"
proof
  obtain a w1 d1 where a: "approve (ae_runtime V) i s who remark w d = (a, w1, d1)" by (metis prod.collapse)
  note x = approve_mapping_run[OF assms(2) a, unfolded assms(3) fst_conv]
  have http: "as_http (PyValueError t) = HttpException 409 t" "as_http (PyLookupError t) = HttpException 404 t"
    "is_value_error (PyValueError t)" "is_lookup_error (PyLookupError t)"
    "\<not> is_value_error (IntegrityError c)" "\<not> is_lookup_error (IntegrityError c)" for t c
    by (simp_all add: as_http_def is_value_error_def is_lookup_error_def)
  show "reply_status x = (case mapping_by_id i d of
        None \<Rightarrow> 404
      | Some m \<Rightarrow> (case approval_target s m of
          None \<Rightarrow> 409
        | Some p \<Rightarrow> if \<exists>y. holds_product d m p y \<and> pm_status y \<in> {AUTO, APPROVED} then 409
                    else if \<exists>y. holds_product d m p y then 500 else 200))"
  proof (cases "mapping_by_id i d")
    case None
    from approve_missing[OF None, of "ae_runtime V" s who remark w] a have "a = Inl (PyLookupError (mapping_text i))" by simp
    with x \<open>mapping_by_id i d = None\<close> http show ?thesis by simp
  next
    case (Some m)
    note branches = approve_confirms_or_refuses[OF assms(1) Some, of s "ae_runtime V" who remark w]
    show ?thesis
    proof (cases "approval_target s m")
      case None
      with branches a have "a = Inl (PyValueError (lit ''cannot approve a mapping with no store product''))"
        by simp
      with x Some None http show ?thesis by simp
    next
      case (Some p)
      show ?thesis
      proof (cases "\<exists>y. holds_product d m p y")
        case True
        then obtain y where y: "holds_product d m p y" by blast
        with branches a Some have "a = Inl (if pm_status y \<in> {AUTO, APPROVED}
            then PyValueError (lit ''store product '' @ digits_of p
               @ lit '' is already mapped by mapping '' @ digits_of (pm_id y))
            else IntegrityError ''constraint'')" by auto
        moreover have "(\<exists>z. holds_product d m p z \<and> pm_status z \<in> {AUTO, APPROVED})
            \<longleftrightarrow> pm_status y \<in> {AUTO, APPROVED}" using holder_unique[OF assms(1), of m p y] y by blast
        ultimately show ?thesis using x \<open>mapping_by_id i d = Some m\<close> Some True http by simp
      next
        case False
        with branches Some obtain m' where "approve (ae_runtime V) i s who remark w d = (Inr m', w, mappings_put d m')"
          "database_ok (mappings_put d m')" by blast
        with a x False Some \<open>mapping_by_id i d = Some m\<close> show ?thesis by auto
      qed
    qed
  qed
  show "reply_status x \<noteq> 200 \<longrightarrow> d' = d"
    using assms(3) session_scope_error unfolding approve_mapping_def endpoint_open[OF assms(2) TrueI]
    by (cases x) fastforce+
qed

section \<open>Changing a price\<close>

lemma mapping_by_id_replaced:
  assumes "mapping_by_id i d = Some m" "pm_id m' = pm_id m"
  shows "mapping_by_id i (d\<lparr>product_mappings := put_row pm_id m' (product_mappings d)\<rparr>) = Some m'"
  using assms mapping_by_id_Some[OF assms(1)] by (simp add: mapping_by_id_def find_put_row)

lemma newest_snoc: "\<forall>x \<in> set rs. fx_fetched_at x < fx_fetched_at r \<Longrightarrow> newest (rs @ [r]) = Some r"
  by (induction rs) auto

text \<open>A rate that was just used is used again: pinned, cached and still fresh, or newly stored.\<close>

lemma fx_rate_again:
  assumes "fx_rate_now R s False w d = (Inr r, w', d')"
    and "\<forall>x \<in> set (fx_rates d). fx_fetched_at x < txn_now R w'"
    and "utcnow R w' - txn_now R w' < hours (fx_max_age_hours s)"
  shows "fx_rate_now R s False w' d' = (Inr r, w', d')"
proof (cases "fx_rate_usd_eur s")
  case (Some x)
  with assms(1) show ?thesis by (simp add: fx_rate_now_def)
next
  case None
  show ?thesis
  proof (cases "\<exists>c. fx_cached s d = Some c \<and> fresh_enough R s w c")
    case True
    with assms(1) None show ?thesis by (auto simp: fx_rate_now_def)
  next
    case False
    then have stale: "(case fx_cached s d of None \<Rightarrow> None
        | Some c \<Rightarrow> if fresh_enough R s w c then Some c else None) = None" by (auto split: option.split)
    obtain y w1 where f: "fx_fetch R s w = (y, w1)" by fastforce
    with assms(1) None stale obtain q where q: "y = Inr q" "storable_rate q = Some r" "w1 = w'"
      "d' = d\<lparr>fx_rates := fx_rates d @ [\<lparr>fx_base = supplier_currency s, fx_quote = store_currency s,
         fx_value = r, fx_source = fx_provider_url s, fx_fetched_at = txn_now R w'\<rparr>]\<rparr>"
      by (auto simp: fx_rate_now_def Let_def split: sum.splits option.splits)
    let ?row = "\<lparr>fx_base = supplier_currency s, fx_quote = store_currency s,
         fx_value = r, fx_source = fx_provider_url s, fx_fetched_at = txn_now R w'\<rparr>"
    have "fx_cached s d' = Some ?row"
      using newest_snoc[of "filter (\<lambda>r. fx_base r = supplier_currency s \<and> fx_quote r = store_currency s)
        (fx_rates d)" ?row] assms(2) q(4) by (simp add: fx_cached_def)
    moreover have "fresh_enough R s w' ?row" using assms(3) by (simp add: fresh_enough_def)
    ultimately show ?thesis using None by (simp add: fx_rate_now_def)
  qed
qed

lemma compute_again:
  assumes "compute s (fx_rate_now R s False) sp m g w d = (Inr x, w', d')"
    and "\<forall>x \<in> set (fx_rates d). fx_fetched_at x < txn_now R w'"
    and "utcnow R w' - txn_now R w' < hours (fx_max_age_hours s)"
  shows "compute s (fx_rate_now R s False) sp m g w' d' = (Inr x, w', d')"
proof (cases "override_of m")
  case (Some v)
  with assms(1) show ?thesis by (simp add: compute_def)
next
  case None
  obtain y w1 d1 where f: "fx_rate_now R s False w d = (y, w1, d1)" by (metis prod.collapse)
  with None assms(1) obtain r where "y = Inr r" "w1 = w'" "d1 = d'"
    "markup_price s m g (sp_price_supplier sp) r = Inr x"
    by (cases y) (auto simp: compute_def)
  with f fx_rate_again[of R s w d r w' d'] assms(2,3) None show ?thesis by (simp add: compute_def)
qed

text \<open>The run of \<open>set_pricing\<close> that is answered.\<close>

lemma set_pricing_run:
  assumes "require_token (ae_admin_token V) token = Inr ()"
    and "set_pricing V token i b w d = (Inr out, w', d')"
  obtains m sp x where "mapping_by_id i d = Some m" "valid_pricing b"
    "supplier_product_by_id (pm_supplier_product_id m) d = Some sp"
    "compute (ae_settings V) (fx_rate_now (ae_runtime V) (ae_settings V) False) sp (Some (repriced b m))
       (store_product_of m d) w (mappings_put d (repriced b m)) = (x, w', d')"
    "case x of Inl e \<Rightarrow> is_pricing_error e \<and> po_preview out = Inl (exn_str e)
      | Inr p \<Rightarrow> po_preview out = Inr (shown_breakdown p)"
    "database_ok (mappings_put d (repriced b m))" "po_sync_enabled out = pm_sync_enabled (repriced b m)"
proof -
  let ?S = "ae_settings V" and ?R = "ae_runtime V"
  have v: "valid_pricing b"
    using assms by (auto simp: set_pricing_def endpoint_def get_db_def session_scope_def wraise_def
        split: if_splits)
  with assms have run: "set_pricing_body ?S ?R i b w d = (Inr out, w', d')"
    unfolding set_pricing_def endpoint_open[OF assms(1) v] by (blast dest: session_scope_success)
  then obtain m where m: "mapping_by_id i d = Some m"
    by (cases "mapping_by_id i d") (auto simp: set_pricing_body_def wbind_def wread_def wraise_def)
  let ?m = "repriced b m" and ?d = "mappings_put d (repriced b m)"
  have ok: "database_ok ?d"
    using run m by (auto simp: set_pricing_body_def wbind_def wthen_def wread_def set_mapping_def
        wmodify_def wflush_def flush_def split: if_splits)
  have same: "pm_supplier_product_id ?m = pm_supplier_product_id m"
    "supplier_product_by_id k ?d = supplier_product_by_id k d" "store_product_of ?m ?d = store_product_of m d" for k
    by (simp_all add: repriced_def supplier_product_by_id_def store_product_of_def)
  obtain sp where sp: "supplier_product_by_id (pm_supplier_product_id m) d = Some sp"
    using run m ok same
    by (cases "supplier_product_by_id (pm_supplier_product_id m) d")
      (auto simp: set_pricing_body_def wbind_def wthen_def wread_def set_mapping_def wtry_def wraise_def
        wmodify_def wflush_def flush_def price_of_mapping_def attribute_error_def)
  obtain x w1 d1 where c: "compute ?S (fx_rate_now ?R ?S False) sp (Some ?m) (store_product_of m d) w ?d
      = (x, w1, d1)" by (metis prod.collapse)
  have "w1 = w' \<and> d1 = d' \<and> (case x of Inl e \<Rightarrow> is_pricing_error e \<and> po_preview out = Inl (exn_str e)
      | Inr p \<Rightarrow> po_preview out = Inr (shown_breakdown p)) \<and> po_sync_enabled out = pm_sync_enabled ?m"
    using run m ok same sp c
    by (cases x) (auto simp: set_pricing_body_def wbind_def wthen_def wread_def set_mapping_def wtry_def
        wret_def wmodify_def wflush_def flush_def price_of_mapping_def split: if_splits)
  with that[OF m v sp _ _ ok] c show thesis by blast
qed

text \<open>
  What the next transaction reads: PostgreSQL rounds an amount to the scale of its column, four
  decimals for prices and eight for rates, while the session that wrote it keeps it as it was given.
\<close>

definition numeric_scale :: "nat \<Rightarrow> rat \<Rightarrow> rat" where
  "numeric_scale k x = of_int (half_up (x * 10 ^ k)) / 10 ^ k"

definition stored_form :: "database \<Rightarrow> database" where
  "stored_form d =
     d\<lparr>supplier_products := map (\<lambda>p. p\<lparr>sp_price_supplier := numeric_scale 4 (sp_price_supplier p)\<rparr>) (supplier_products d),
       store_products := map (\<lambda>g. g\<lparr>st_price_limit_min := map_option (numeric_scale 4) (st_price_limit_min g),
           st_price_limit_max := map_option (numeric_scale 4) (st_price_limit_max g)\<rparr>) (store_products d),
       product_mappings := map (\<lambda>m. m\<lparr>pm_fixed_price_override :=
           map_option (numeric_scale 4) (pm_fixed_price_override m)\<rparr>) (product_mappings d),
       fx_rates := map (\<lambda>r. r\<lparr>fx_value := numeric_scale 8 (fx_value r)\<rparr>) (fx_rates d)\<rparr>"

text \<open>
  C11: Changing a price touches that mapping's overrides and switch and nothing else but the cached
  exchange rate; and the price the preview promises is the price the next offer run computes for the
  mapping from the tables as they are stored, as long as the rate it used is still fresh and the
  amounts fit the scale of their columns.
\<close>
theorem preview_is_next_price:
  assumes "require_token (ae_admin_token V) token = Inr ()" "S = ae_settings V" "R = ae_runtime V"
    and "set_pricing V token i b w d = (Inr out, w', d')" "po_preview out = Inr shown"
    and "\<forall>x \<in> set (fx_rates d). fx_fetched_at x < txn_now R w'"
    and "utcnow R w' - txn_now R w' < hours (fx_max_age_hours S)" "stored_form d' = d'"
  shows "\<exists>m sp. mapping_by_id i d = Some m
    \<and> d' = (mappings_put d (repriced b m))\<lparr>fx_rates := fx_rates d'\<rparr>
    \<and> mapping_by_id i (stored_form d') = Some (repriced b m)
    \<and> supplier_product_by_id (pm_supplier_product_id m) (stored_form d') = Some sp
    \<and> (\<exists>p. compute S (fx_rate_now R S False) sp (Some (repriced b m)) (store_product_of m (stored_form d'))
            w' (stored_form d') = (Inr p, w', stored_form d') \<and> shown = shown_breakdown p)"
proof -
  obtain m sp x where r: "mapping_by_id i d = Some m"
    "supplier_product_by_id (pm_supplier_product_id m) d = Some sp"
    "compute S (fx_rate_now R S False) sp (Some (repriced b m))
       (store_product_of m d) w (mappings_put d (repriced b m)) = (x, w', d')"
    "case x of Inl e \<Rightarrow> is_pricing_error e \<and> po_preview out = Inl (exn_str e)
      | Inr p \<Rightarrow> po_preview out = Inr (shown_breakdown p)"
    unfolding assms(2,3) by (rule set_pricing_run[OF assms(1,4)]) blast
  let ?d = "mappings_put d (repriced b m)"
  have f: "d' = ?d\<lparr>fx_rates := fx_rates d'\<rparr>" using live.compute_frame[OF r(3)] .
  obtain p where p: "x = Inr p" "shown = shown_breakdown p"
    using r(4) assms(5) by (cases x) auto
  have tables: "product_mappings d' = product_mappings ?d" "supplier_products d' = supplier_products d"
    "store_products d' = store_products d" by (subst f, simp)+
  have "\<forall>x \<in> set (fx_rates ?d). fx_fetched_at x < txn_now R w'" using assms(6) by simp
  from compute_again[OF r(3)[unfolded p(1)] this assms(7)]
  have "compute S (fx_rate_now R S False) sp (Some (repriced b m)) (store_product_of m d') w' d'
      = (Inr p, w', d')" using tables by (simp add: store_product_of_def)
  moreover have "mapping_by_id i d' = Some (repriced b m)"
    using mapping_by_id_replaced[OF r(1), of "repriced b m"] tables(1)
    by (simp add: mapping_by_id_def repriced_def)
  moreover have "supplier_product_by_id (pm_supplier_product_id m) d' = Some sp"
    using r(2) tables(2) by (simp add: supplier_product_by_id_def)
  ultimately show ?thesis unfolding assms(8) using r(1) f p(2) by blast
qed

text \<open>
  Without that, the preview may promise another price than the one that is sold: a fixed price of
  more than four decimals is previewed as it was given and read back rounded, which can cross the
  boundary of a price step.
\<close>
lemma long_price_rounds:
  "round_price Round_0_05 (249374999 / 25000000) = Inr (199 / 20)"
  "round_price Round_0_05 (399 / 40) = Inr 10"
proof -
  have exact: "dctx (249374999 / 1250000) = 249374999 / 1250000" "dctx (399 / 2) = 399 / 2"
    "dctx (199 / 20) = 199 / 20" "dctx 10 = 10"
    using dctx_exact[of "249374999 / 1250000" 1994999992 "- 7"] dctx_exact[of "399 / 2" 1995 "- 1"]
      dctx_exact[of "199 / 20" 995 "- 2"] dctx_int[of 10] by (simp_all add: power_int_minus)
  have half: "half_up (249374999 / 1250000) = 199" "half_up (399 / 2) = 200"
    by (simp_all add: half_up_def floor_eq_iff)
  show "round_price Round_0_05 (249374999 / 25000000) = Inr (199 / 20)" "round_price Round_0_05 (399 / 40) = Inr 10"
    by (simp_all add: round_price_def quantize_half_up_def exact half)
qed

theorem preview_of_a_long_price_differs:
  "map_sum id pb_final_price (fixed_price (default_settings\<lparr>price_rounding := Round_0_05\<rparr>) cost (997499996 / 100000000))
     = Inr (995 / 100)
   \<and> map_sum id pb_final_price (fixed_price (default_settings\<lparr>price_rounding := Round_0_05\<rparr>) cost
       (numeric_scale 4 (997499996 / 100000000))) = Inr 10"
proof -
  have scale: "numeric_scale 4 (249374999 / 25000000) = 399 / 40"
    by (simp add: numeric_scale_def half_up_def floor_eq_iff)
  show ?thesis by (simp add: fixed_price_def long_price_rounds scale)
qed

section \<open>Listings\<close>

lemma like_any: "like [37] s"
  by (induction s) auto

text \<open>A pattern without wildcards matches the texts it begins, when anything may follow.\<close>

lemma like_prefix:
  assumes "37 \<notin> set u" "92 \<notin> set u" "95 \<notin> set u"
  shows "like (u @ [37]) s \<longleftrightarrow> starts_with u s"
  using assms
proof (induction u arbitrary: s)
  case Nil
  then show ?case using like_any by simp
next
  case (Cons x u)
  then show ?case by (cases s) auto
qed

lemma like_contains:
  assumes "37 \<notin> set u" "92 \<notin> set u" "95 \<notin> set u"
  shows "like (37 # u @ [37]) s \<longleftrightarrow> contains u s"
proof (induction s)
  case Nil
  have "like (u @ [37]) [] \<longleftrightarrow> u = []" using like_prefix[OF assms, of "[]"] by (cases u) auto
  then show ?case by simp
next
  case (Cons c s)
  then show ?case using like_prefix[OF assms, of "c # s"] by simp
qed

text \<open>
  The search of the offers screen: without the wildcards of \<open>LIKE\<close> in what is sought, a line is
  listed if and only if the lower-case text is part of the supplier's or the store's lower-case title
  (and the offer is in the state asked for).
\<close>
theorem search_finds_substrings:
  assumes "37 \<notin> set q'" "92 \<notin> set q'" "95 \<notin> set q'" "q' = lower (ae_unicode V) q" "q \<noteq> []"
  shows "wanted_line V (Some q) None (m, sp, st, r)
    \<longleftrightarrow> contains q' (ae_sql_lower V (sp_name sp)) \<or> contains q' (ae_sql_lower V (st_name st))"
  using like_contains[OF assms(1-3)] assms(4,5)
  by (simp add: wanted_line_def search_pattern_def)

lemma count_partition:
  assumes "distinct cs" "\<forall>x \<in> set xs. f x \<in> set cs"
  shows "sum_list (map (\<lambda>c. count_where (\<lambda>x. f x = c) xs) cs) = length xs"
  using assms(2)
proof (induction xs)
  case (Cons x xs)
  have "sum_list (map (\<lambda>c. count_where (\<lambda>x. f x = c) (x # xs)) cs)
      = sum_list (map (\<lambda>c. (if f x = c then 1 else 0) + count_where (\<lambda>x. f x = c) xs) cs)"
    by (intro arg_cong[where f = sum_list] map_cong) (auto simp: count_where_def)
  also have "\<dots> = sum_list (map (\<lambda>c. if f x = c then 1 else 0) cs) + length xs"
    using Cons by (simp add: sum_list_addf)
  also have "sum_list (map (\<lambda>c. if f x = c then 1 else 0) cs) = (1 :: nat)"
  proof -
    have "sum_list (map (\<lambda>c. if f x = c then 1 else 0) cs) = (if f x \<in> set cs then 1 else 0 :: nat)"
      using assms(1) by (induction cs) auto
    then show ?thesis using Cons.prems by simp
  qed
  finally show ?case by simp
qed (simp add: count_where_def)

text \<open>
  The status report accounts for every mapping and every offer exactly once.
\<close>
theorem status_counts_everything:
  "sum_list (map snd (sr_mappings (status_of d))) = length (product_mappings d)
    \<and> sum_list (map snd (sr_offers (status_of d))) = length (store_offers d)"
proof
  have m: "f x \<in> set [PENDING, APPROVED, AUTO, REJECTED, UNMATCHED]" for f :: "product_mapping \<Rightarrow> mapping_status" and x
    by (cases "f x") auto
  show "sum_list (map snd (sr_mappings (status_of d))) = length (product_mappings d)"
    using count_partition[of "[PENDING, APPROVED, AUTO, REJECTED, UNMATCHED]" "product_mappings d" pm_status] m
    by (simp add: status_of_def)
  have o: "f x \<in> set [OfferPending, LIVE, OUT_OF_STOCK, ARCHIVED, FAILED]" for f :: "store_offer \<Rightarrow> offer_state" and x
    by (cases "f x") auto
  show "sum_list (map snd (sr_offers (status_of d))) = length (store_offers d)"
    using count_partition[of "[OfferPending, LIVE, OUT_OF_STOCK, ARCHIVED, FAILED]" "store_offers d" so_state] o
    by (simp add: status_of_def)
qed

lemma priced_line_without_rate:
  assumes "\<forall>w. \<exists>e w1. fx_rate_now (ae_runtime V) (ae_settings V) False w d = (Inl e, w1, d) \<and> is_pricing_error e"
    and "pm_fixed_price_override (fst line) = None"
  shows "\<exists>w1 used. priced_line V line acc w d
    = (Inr (acc @ [offer_report (ae_settings V) line None used]), w1, d)"
proof -
  obtain m sp st r where line: "line = (m, sp, st, r)" by (cases line)
  from assms(1) obtain e w1 where "fx_rate_now (ae_runtime V) (ae_settings V) False w d = (Inl e, w1, d)"
    "is_pricing_error e" by blast
  moreover have "override_of (Some m) = None" using assms(2) line by (simp add: override_of_def)
  ultimately have "compute (ae_settings V) (fx_rate_now (ae_runtime V) (ae_settings V) False) sp (Some m) (Some st) w d
      = (Inl e, w1, d)" "is_pricing_error e" by (simp_all add: compute_def)
  then show ?thesis
    by (simp add: priced_line_def line Let_def wbind_def wtry_def wret_def wtime_def wread_def) blast
qed

lemma lines_without_rate:
  assumes "\<forall>w. \<exists>e w1. fx_rate_now (ae_runtime V) (ae_settings V) False w d = (Inl e, w1, d) \<and> is_pricing_error e"
    and "\<forall>line \<in> set lines. pm_fixed_price_override (fst line) = None"
  shows "\<exists>w1 outs. wfold (priced_line V) lines acc w d = (Inr (acc @ outs), w1, d)
    \<and> map oo_mapping_id outs = map (pm_id \<circ> fst) lines \<and> list_all (\<lambda>x. oo_computed_price x = None) outs"
  using assms(2)
proof (induction lines arbitrary: acc w)
  case (Cons line lines)
  obtain w1 used where 1: "priced_line V line acc w d
      = (Inr (acc @ [offer_report (ae_settings V) line None used]), w1, d)"
    using priced_line_without_rate[OF assms(1), of line acc w] Cons.prems by auto
  obtain w2 outs where 2: "wfold (priced_line V) lines (acc @ [offer_report (ae_settings V) line None used]) w1 d
      = (Inr ((acc @ [offer_report (ae_settings V) line None used]) @ outs), w2, d)"
    "map oo_mapping_id outs = map (pm_id \<circ> fst) lines" "list_all (\<lambda>x. oo_computed_price x = None) outs"
    using Cons.IH[of "acc @ [offer_report (ae_settings V) line None used]" w1] Cons.prems by auto
  have "oo_mapping_id (offer_report (ae_settings V) line None used) = pm_id (fst line)"
    "oo_computed_price (offer_report (ae_settings V) line None used) = None"
    by (simp_all add: offer_report_def split: prod.split)
  with 1 2 show ?case
    by (intro exI[of _ w2] exI[of _ "offer_report (ae_settings V) line None used # outs"])
      (simp add: wbind_def)
qed (simp add: wret_def)

text \<open>
  A missing exchange rate does not blank the offers screen: every line the query selects is still
  listed, in order, without a computed price, and the database stays as it was.
\<close>
theorem screen_survives_missing_rate:
  assumes "require_token (ae_admin_token V) token = Inr ()" "database_ok d" "limit \<le> 500" "0 \<le> offset"
    and "\<forall>w. \<exists>e w1. fx_rate_now (ae_runtime V) (ae_settings V) False w d = (Inl e, w1, d) \<and> is_pricing_error e"
    and "lines = queried_lines V sought state limit (nat offset) d"
    and "list_all (\<lambda>line. pm_fixed_price_override (fst line) = None) lines"
  shows "\<exists>outs w'. list_offers_page V token sought state limit offset w d = (Inr outs, w', d)
    \<and> map oo_mapping_id outs = map (pm_id \<circ> fst) lines \<and> list_all (\<lambda>x. oo_computed_price x = None) outs"
proof -
  obtain w1 outs where r: "wfold (priced_line V) lines [] w d = (Inr outs, w1, d)"
    "map oo_mapping_id outs = map (pm_id \<circ> fst) lines" "list_all (\<lambda>x. oo_computed_price x = None) outs"
    using lines_without_rate[OF assms(5), of lines "[]" w] assms(7) by (auto simp: list_all_iff)
  have "list_offers_page V token sought state limit offset w d = (Inr outs, w1, d)"
    using r(1) assms(2,6) unfolding list_offers_page_def
    by (subst endpoint_open[OF assms(1)])
      (use assms(3,4) in \<open>simp_all add: session_scope_def wbind_def wread_def flush_def\<close>)
  with r(2,3) show ?thesis by blast
qed

section \<open>A small shop\<close>

definition office :: "unit api_env" where
  "office =
     \<lparr>ae_admin_token = Some [116], ae_settings = default_settings, ae_unicode = ascii_db,
      ae_runtime = still_clock, ae_sql_lower = lower ascii_db, ae_name_rank = (\<lambda>s. 0)\<rparr>"

definition pinned_office :: "unit api_env" where
  "pinned_office = office\<lparr>ae_settings := default_settings\<lparr>fx_rate_usd_eur := Some 1\<rparr>\<rparr>"

lemma office_open:
  "require_token (ae_admin_token office) (Some [116]) = Inr ()"
  "require_token (ae_admin_token pinned_office) (Some [116]) = Inr ()"
  by (simp_all add: require_token_def office_def pinned_office_def)


theorem approval_reply_witness:
  "\<exists>x d'. approve_mapping office (Some [116]) 1 None (lit ''ops'') None () (lone_db [other_mapping PENDING]) = (x, (), d')
    \<and> reply_status x = 200"
proof -
  let ?d = "lone_db [other_mapping PENDING]"
  obtain x w' d' where r: "approve_mapping office (Some [116]) 1 None (lit ''ops'') None () ?d = (x, w', d')"
    by (metis prod.collapse)
  have m: "mapping_by_id 1 ?d = Some (other_mapping PENDING)"
    "\<not> holds_product ?d (other_mapping PENDING) p y" for p y
    by (simp_all add: mapping_by_id_def find_row_def lone_db_def holds_product_def other_mapping_def new_mapping_def)
  have "approval_target None (other_mapping PENDING) = Some 7"
    by (simp add: approval_target_def other_mapping_def new_mapping_def)
  with approval_reply[OF _ office_open(1) r] lone_db_ok[of "[other_mapping PENDING]" PENDING] m r
  show ?thesis by simp
qed

text \<open>A mapping whose price is fixed, so that no exchange rate is needed to preview it.\<close>

definition fixed_at_zero :: pricing_in where
  "fixed_at_zero = \<lparr>pi_markup_percent_override = None, pi_fixed_price_override = Some 0,
     pi_sync_enabled = None, pi_clear_markup_override = False, pi_clear_fixed_price = False\<rparr>"

definition own_mapping :: product_mapping where
  "own_mapping = (new_mapping g2a 1 1)\<lparr>pm_store_product_id := Some 7, pm_status := APPROVED\<rparr>"

lemma round_zero: "round_price Round_0_01 0 = Inr 0"
  by code_simp

lemma set_pricing_to_zero:
  "\<exists>out. set_pricing office (Some [116]) 1 fixed_at_zero () (lone_db [own_mapping])
     = (Inr out, (), lone_db [repriced fixed_at_zero own_mapping]) \<and> (\<exists>shown. po_preview out = Inr shown)"
proof -
  let ?m = "repriced fixed_at_zero own_mapping"
  have v: "valid_pricing fixed_at_zero" by (simp add: valid_pricing_def fixed_at_zero_def)
  have m: "mapping_by_id 1 (lone_db [own_mapping]) = Some own_mapping"
    "mappings_put (lone_db [own_mapping]) ?m = lone_db [?m]"
    "supplier_product_by_id (pm_supplier_product_id ?m) (lone_db [?m]) = Some lone_sku"
    by (simp_all add: mapping_by_id_def supplier_product_by_id_def find_row_def lone_db_def own_mapping_def
        new_mapping_def repriced_def put_row_def lone_sku_def)
  have ok: "database_ok (lone_db [?m])"
    by (simp add: lone_db_def database_ok_def empty_database_def supplier_products_ok_def
      store_products_ok_def mappings_ok_def offers_ok_def idempotency_ok_def constraint_defs
      lone_sku_def own_mapping_def new_mapping_def repriced_def)
  have c: "compute default_settings f lone_sku (Some ?m) g () (lone_db [?m])
      = (fixed_price default_settings (sp_price_supplier lone_sku) 0, (), lone_db [?m])" for f g
    by (simp add: compute_def override_of_def repriced_def fixed_at_zero_def keep_or_def)
  show ?thesis
    unfolding set_pricing_def endpoint_open[OF office_open(1) v]
    using m ok c
    by (simp add: session_scope_def set_pricing_body_def wbind_def wthen_def wread_def set_mapping_def wtry_def
        wret_def wmodify_def wflush_def flush_def price_of_mapping_def office_def fixed_price_def
        default_settings_def round_zero)
qed

theorem preview_is_next_price_witness:
  "\<exists>p. compute default_settings (fx_rate_now still_clock default_settings False) lone_sku
      (Some (repriced fixed_at_zero own_mapping)) (Some lone_product) ()
      (lone_db [repriced fixed_at_zero own_mapping])
    = (Inr p, (), lone_db [repriced fixed_at_zero own_mapping])"
proof -
  let ?m = "repriced fixed_at_zero own_mapping"
  obtain out shown where r: "set_pricing office (Some [116]) 1 fixed_at_zero () (lone_db [own_mapping])
     = (Inr out, (), lone_db [?m])" "po_preview out = Inr shown" using set_pricing_to_zero by blast
  have rates: "fx_rates (lone_db [?m]) = []" "fx_rates (lone_db [own_mapping]) = []"
    by (simp_all add: lone_db_def empty_database_def)
  have m: "mapping_by_id 1 (lone_db [own_mapping]) = Some own_mapping"
    "store_product_of own_mapping (lone_db [?m]) = Some lone_product"
    "supplier_product_by_id (pm_supplier_product_id own_mapping) (lone_db [?m]) = Some lone_sku"
    by (simp_all add: mapping_by_id_def supplier_product_by_id_def find_row_def lone_db_def own_mapping_def
        new_mapping_def lone_sku_def store_product_of_def lone_product_def)
  have t: "utcnow still_clock () - txn_now still_clock () < hours (fx_max_age_hours default_settings)"
    by (simp add: still_clock_def default_settings_def hours_def)
  have st: "stored_form (lone_db [?m]) = lone_db [?m]"
    by (simp add: stored_form_def lone_db_def empty_database_def lone_sku_def lone_product_def own_mapping_def
        new_mapping_def repriced_def fixed_at_zero_def keep_or_def numeric_scale_def half_up_def
        floor_eq_iff)
  show ?thesis
    using preview_is_next_price[of office "Some [116]" default_settings still_clock 1 fixed_at_zero "()"
        "lone_db [own_mapping]" out "()" "lone_db [?m]" shown, OF office_open(1) _ _ r _ t st, unfolded st] rates m
    by (auto simp: office_def)
qed

theorem search_finds_substrings_witness:
  "wanted_line office (Some [55]) None (own_mapping, lone_sku, lone_product, None)"
proof -
  have l: "[55] = lower (ae_unicode office) [55]" by code_simp
  have "contains [55] (ae_sql_lower office (sp_name lone_sku))" by code_simp
  with search_finds_substrings[OF _ _ _ l, of own_mapping lone_sku lone_product None] show ?thesis by simp
qed

theorem screen_survives_missing_rate_witness:
  "\<exists>outs. list_offers_page office (Some [116]) None None 200 0 () (lone_db [own_mapping])
      = (Inr outs, (), lone_db [own_mapping])
    \<and> map oo_mapping_id outs = [1]"
proof -
  let ?d = "lone_db [own_mapping]"
  have lines: "queried_lines office None None 200 (nat 0) ?d = [(own_mapping, lone_sku, lone_product, None)]"
    by (simp add: queried_lines_def page_def offer_lines_def lone_db_def own_mapping_def new_mapping_def
        empty_database_def wanted_line_def outer_def lone_sku_def lone_product_def syncable_status_def)
  have fx: "\<forall>w. \<exists>e w1. fx_rate_now (ae_runtime office) (ae_settings office) False w ?d = (Inl e, w1, ?d)
      \<and> is_pricing_error e"
    by (simp add: fx_rate_now_def office_def default_settings_def still_clock_def fx_fetch_def fx_cached_def
        lone_db_def empty_database_def)
  have ok: "database_ok ?d"
    by (simp add: lone_db_def database_ok_def empty_database_def supplier_products_ok_def
      store_products_ok_def mappings_ok_def offers_ok_def idempotency_ok_def constraint_defs
      lone_sku_def own_mapping_def new_mapping_def)
  show ?thesis
    using screen_survives_missing_rate[OF office_open(1) ok _ _ fx refl, where limit = 200 and offset = 0
        and sought = None and state = None] lines
    by (auto simp: own_mapping_def new_mapping_def)
qed

end
