(* ===== verification/Command_Safety.thy ===== *)
theory Command_Safety
  imports Command_Line Admin_Safety
begin

text \<open>
  What the console of \<open>Command_Line\<close> guarantees: the doctor's report is complete whatever fails, and
  approvals and price changes agree with those of the admin API, up to what each does when no
  exchange rate is to be had.
\<close>

section \<open>The doctor\<close>

lemma gthen_run:
  "g w = ((xs, None), w1) \<Longrightarrow> h w1 = ((ys, e), w2) \<Longrightarrow> gthen g h w = ((xs @ ys, e), w2)"
  by (simp add: gthen_def)

lemma gcall_run:
  "m w = (Inr x, w1) \<Longrightarrow> gcall m f w = f x w1" "m w = (Inl e, w1) \<Longrightarrow> gcall m f w = (([], Some e), w1)"
  by (simp_all add: gcall_def)

lemma reporting_returns: "\<exists>es w'. reporting k g w = ((es, None), w')"
  by (auto simp: reporting_def split: prod.split option.split)

text \<open>A check of credentials, then two steps that may fail and report a value each.\<close>

lemma reporting_two_steps:
  assumes "reporting k (gcall (clift r) (\<lambda>u. gthen (gyield (k1, a)) (gcall m (\<lambda>v. gyield (k2, b v))))) w = ((es, None), w')"
  shows "map fst es \<in> {[k1, k2], [k1, k], [k]} \<and> (\<forall>e. r = Inl e \<longrightarrow> es = [(k, lit ''FAILED: '' @ exn_str e)] \<and> w' = w)"
proof (cases r)
  case (Inl e)
  with assms show ?thesis by (auto simp: reporting_def gcall_def clift_def)
next
  case (Inr u)
  obtain y w1 where m: "m w = (y, w1)" by (metis prod.collapse)
  with assms Inr show ?thesis
    by (cases y) (auto simp: reporting_def gcall_def clift_def gthen_def gyield_def)
qed

lemma doctor_supplier_keys:
  assumes "doctor_supplier S repr C w = ((es, None), w')"
  shows "map fst es \<in> {[''fazercards_key'', ''fazercards_balance''], [''fazercards_key'', ''fazercards''], [''fazercards'']}
    \<and> (\<not> truthy (fazercards_api_key S) \<longrightarrow> map fst es = [''fazercards''] \<and> w' = w)"
  using reporting_two_steps[OF assms[unfolded doctor_supplier_def]]
  by (cases "fazercards_api_key S") (auto simp: require_fazercards_key_def)

lemma doctor_store_keys:
  assumes "doctor_store S repr parsers fmt E C w = ((es, None), w')"
  shows "map fst es \<in> {[''g2a_token'', ''g2a_catalog_sample''], [''g2a_token'', ''g2a''], [''g2a'']}
    \<and> (\<not> truthy (g2a_client_id S) \<longrightarrow> map fst es = [''g2a''] \<and> w' = w)"
proof (cases "require_g2a_credentials S")
  case (Inl e)
  with assms show ?thesis by (auto simp: doctor_store_def reporting_def gcall_def clift_def)
next
  case (Inr c)
  then have set: "truthy (g2a_client_id S)"
    by (cases "g2a_client_id S") (auto simp: require_g2a_credentials_def split: option.splits if_splits)
  obtain t x1 where t: "token S E (w, no_token) = (t, x1)" by (metis prod.collapse)
  show ?thesis
  proof (cases t)
    case (Inl e)
    with assms t Inr set show ?thesis
      by (auto simp: doctor_store_def reporting_def gcall_def clift_def with_new_adapter_def)
  next
    case (Inr tok)
    obtain st x2 where s: "the (iter_catalog (g2a_client S repr E C) repr parsers fmt None True (Some 1) x1) = (st, x2)"
      by (metis prod.collapse)
    show ?thesis using assms t Inr \<open>require_g2a_credentials S = Inr c\<close> set s
      by (cases "first_of st") (auto simp: doctor_store_def reporting_def gcall_def clift_def with_new_adapter_def
          gthen_def gyield_def)
  qed
qed

lemma doctor_secrets_keys:
  assumes "doctor_secrets L raw w = ((es, None), w')"
  shows "map fst es = [''encryption''] \<and> (\<not> truthy raw \<longrightarrow> w' = w)"
proof -
  obtain y w1 where y: "encrypt L raw (lit ''probe'') w = (y, w1)" by (metis prod.collapse)
  moreover have "w1 = w" if "\<not> truthy raw" using y that by (cases raw) (auto simp: encrypt_def the_fernet_def)
  ultimately show ?thesis using assms
    by (cases y) (auto simp: doctor_secrets_def reporting_def gcall_def gyield_def)
qed

text \<open>The page the doctor asks for is one page: the crawl behind it ends.\<close>

lemma one_page_returns: "\<exists>r. iter_catalog C repr parsers fmt since b (Some 1) x = Some r"
  unfolding iter_catalog_def
  by (subst crawl.simps)
    (auto simp: last_catalog_page_def split: prod.split sum.split option.split)

text \<open>
  The doctor always ends with a report, whatever is missing or broken: each part of the deployment
  has its entries, in order, either what was found or how it failed, and a part whose credentials
  are not configured is reported without asking anybody.
\<close>
theorem doctor_reports_every_part:
  "\<exists>es w'. doctor S repr parsers fmt supplier E store L raw w = ((es, None), w')
    \<and> (\<exists>a b. map fst es = ''environment'' # a @ b @ [''encryption'']
        \<and> a \<in> {[''fazercards_key'', ''fazercards_balance''], [''fazercards_key'', ''fazercards''], [''fazercards'']}
        \<and> b \<in> {[''g2a_token'', ''g2a_catalog_sample''], [''g2a_token'', ''g2a''], [''g2a'']})
    \<and> (\<not> truthy (fazercards_api_key S) \<and> \<not> truthy (g2a_client_id S) \<and> \<not> truthy raw
        \<longrightarrow> w' = w)"
proof -
  obtain a w1 where a: "doctor_supplier S repr supplier w = ((a, None), w1)"
    unfolding doctor_supplier_def using reporting_returns by metis
  obtain b w2 where b: "doctor_store S repr parsers fmt E store w1 = ((b, None), w2)"
    unfolding doctor_store_def using reporting_returns by metis
  obtain c w3 where c: "doctor_secrets L raw w2 = ((c, None), w3)"
    unfolding doctor_secrets_def using reporting_returns by metis
  have "doctor S repr parsers fmt supplier E store L raw w
      = (((''environment'', environment S) # a @ b @ c, None), w3)"
    using a b c by (simp add: doctor_def gthen_def gyield_def)
  moreover have "map fst ((''environment'', environment S) # a @ b @ c)
      = ''environment'' # map fst a @ map fst b @ [''encryption'']"
    using doctor_secrets_keys[OF c] by simp
  moreover have "w3 = w" if "\<not> truthy (fazercards_api_key S) \<and> \<not> truthy (g2a_client_id S) \<and> \<not> truthy raw"
    using doctor_supplier_keys[OF a] doctor_store_keys[OF b] doctor_secrets_keys[OF c] that by simp
  ultimately show ?thesis
    using doctor_supplier_keys[OF a] doctor_store_keys[OF b]
    by (intro exI[of _ "(''environment'', environment S) # a @ b @ c"] exI[of _ w3] conjI
        exI[of _ "map fst a"] exI[of _ "map fst b"]) (simp_all del: map_append list.map)
qed

section \<open>Prices\<close>

text \<open>The body of the API's request that asks for what the options of the command ask for.\<close>

definition as_pricing :: "console_price \<Rightarrow> pricing_in" where
  "as_pricing o' =
     \<lparr>pi_markup_percent_override = cp_markup o', pi_fixed_price_override = cp_fixed o',
      pi_sync_enabled = (if cp_resume o' then Some True else if cp_pause o' then Some False else None),
      pi_clear_markup_override = (cp_clear o' \<and> cp_markup o' = None),
      pi_clear_fixed_price = (cp_clear o' \<and> cp_fixed o' = None)\<rparr>"

lemma console_repriced_pricing: "console_repriced o' m = repriced (as_pricing o') m"
  by (cases "cp_markup o'"; cases "cp_fixed o'")
    (simp_all add: console_repriced_def repriced_def as_pricing_def keep_or_def Let_def)

text \<open>The command on a database where the same request of the API is answered.\<close>

lemma map_price_run:
  assumes "mapping_by_id i d = Some m" "supplier_product_by_id (pm_supplier_product_id m) d = Some sp"
    and "database_ok (mappings_put d (repriced (as_pricing o') m))"
    and "compute S (fx_rate_now R S False) sp (Some (repriced (as_pricing o') m)) (store_product_of m d) w
           (mappings_put d (repriced (as_pricing o') m)) = (x, w', d')"
  shows "map_price_body S R i o' w d
    = (case x of Inl e \<Rightarrow> (Inl e, w', d') | Inr b \<Rightarrow> (Inr (priced_of (repriced (as_pricing o') m) sp b), w', d'))"
proof -
  let ?m = "repriced (as_pricing o') m" and ?d = "mappings_put d (repriced (as_pricing o') m)"
  have same: "supplier_product_by_id (pm_supplier_product_id ?m) ?d = Some sp"
    "store_product_of ?m ?d = store_product_of m d"
    using assms(2) by (simp_all add: repriced_def supplier_product_by_id_def store_product_of_def)
  show ?thesis
    unfolding map_price_body_def console_repriced_pricing using assms(1,3,4) same
    by (cases x) (simp_all add: wbind_def wthen_def wread_def set_mapping_def wmodify_def wflush_def
        flush_def wret_def Let_def)
qed

text \<open>
  C12: The console and the admin API change a price alike: what the API answers with a preview, the
  command carries out with the same mapping, the same price and the same database. When the price
  cannot be computed they part: the API keeps the change and reports the error beside it, the
  command ends with that error and keeps nothing.
\<close>
theorem console_prices_like_the_api:
  assumes "require_token (ae_admin_token V) given = Inr ()"
    and "set_pricing V given i (as_pricing o') w d = (Inr out, w', d')"
  shows "\<exists>m. mapping_by_id i d = Some m \<and> mapping_by_id i d' = Some (console_repriced o' m)
    \<and> (case po_preview out of
         Inr shown \<Rightarrow> (\<exists>line. map_price (ae_settings V) (ae_runtime V) i o' w d = (Inr line, w', d')
             \<and> pr_new_price line = pb_final_price shown \<and> pr_sync_enabled line = po_sync_enabled out)
       | Inl msg \<Rightarrow> (\<exists>e. map_price (ae_settings V) (ae_runtime V) i o' w d = (Inl e, w', d)
             \<and> is_pricing_error e \<and> exn_str e = msg))"
proof -
  let ?S = "ae_settings V" and ?R = "ae_runtime V"
  obtain m sp x where r: "mapping_by_id i d = Some m" "valid_pricing (as_pricing o')"
    "supplier_product_by_id (pm_supplier_product_id m) d = Some sp"
    "compute ?S (fx_rate_now ?R ?S False) sp (Some (repriced (as_pricing o') m)) (store_product_of m d) w
       (mappings_put d (repriced (as_pricing o') m)) = (x, w', d')"
    "case x of Inl e \<Rightarrow> is_pricing_error e \<and> po_preview out = Inl (exn_str e)
      | Inr p \<Rightarrow> po_preview out = Inr (shown_breakdown p)"
    "database_ok (mappings_put d (repriced (as_pricing o') m))" "po_sync_enabled out = pm_sync_enabled (repriced (as_pricing o') m)"
    by (rule set_pricing_run[OF assms]) blast
  let ?m = "repriced (as_pricing o') m"
  have ok: "database_ok d'"
    using assms(2) unfolding set_pricing_def endpoint_open[OF assms(1) r(2)]
    by (blast dest: session_scope_success)
  have run: "map_price_body ?S ?R i o' w d
      = (case x of Inl e \<Rightarrow> (Inl e, w', d') | Inr b \<Rightarrow> (Inr (priced_of ?m sp b), w', d'))"
    by (rule map_price_run[OF r(1,3,6,4)])
  have "product_mappings d' = product_mappings (mappings_put d ?m)"
    by (subst live.compute_frame[OF r(4)]) simp
  then have kept: "mapping_by_id i d' = Some (console_repriced o' m)"
    using mapping_by_id_replaced[OF r(1), of ?m] by (simp add: mapping_by_id_def console_repriced_pricing repriced_def)
  show ?thesis
  proof (cases x)
    case (Inl e)
    with run r(1,5) kept show ?thesis by (simp add: map_price_def session_scope_def)
  next
    case (Inr b)
    with run ok r(1,5,7) kept show ?thesis
      by (simp add: map_price_def session_scope_def flush_def priced_of_def shown_breakdown_def)
  qed
qed

section \<open>Approvals\<close>

text \<open>
  An approval at the console is the approval of the admin API: the same mapping or the same
  exception, which the API turns into a status, in the same database.
\<close>
theorem console_approves_like_the_api:
  assumes "require_token (ae_admin_token V) given = Inr ()"
    and "map_approve (ae_runtime V) i s who w d = (x, w', d')"
  shows "approve_mapping V given i s who None w d
    = (case x of Inl e \<Rightarrow> Inl (if is_lookup_error e \<or> is_value_error e then as_http e else e) | Inr m \<Rightarrow> Inr m, w', d')"
proof -
  obtain y w1 d1 where y: "approve (ae_runtime V) i s who None w d = (y, w1, d1)" by (rule prod_cases3)
  have x: "map_approve (ae_runtime V) i s who w d = (case y of Inl e \<Rightarrow> (Inl e, w1, d)
      | Inr m \<Rightarrow> if database_ok d1 then (Inr (mapping_reply m), w1, d1) else (Inl (IntegrityError ''constraint''), w1, d))"
    by (simp add: map_approve_def session_scope_def wbind_def wret_def flush_def y split: sum.split)
  have "approve_mapping V given i s who None w d = (case y of
        Inl e \<Rightarrow> (Inl (if is_lookup_error e \<or> is_value_error e then as_http e else e), w1, d)
      | Inr m \<Rightarrow> if database_ok d1 then (Inr (mapping_reply m), w1, d1) else (Inl (IntegrityError ''constraint''), w1, d))"
    unfolding approve_mapping_def endpoint_open[OF assms(1) TrueI]
    by (simp add: session_scope_def wbind_def wtry_def wraise_def wret_def flush_def y split: sum.split)
  with x assms(2) show ?thesis
    by (cases y) (auto simp: is_lookup_error_def is_value_error_def split: if_splits)
qed

section \<open>Witnesses\<close>

definition nobody_there :: "'w token_endpoint" where
  "nobody_there = \<lparr>te_post = (\<lambda>form w. (Lost TimeoutException [], w)), te_time = (\<lambda>w. 0)\<rparr>"

theorem doctor_reports_every_part_witness:
  "snd (doctor default_settings json_dumps [] (\<lambda>t. []) scripted nobody_there scripted halving None (script_of []))
     = script_of []"
proof -
  have "\<not> truthy (fazercards_api_key default_settings)" "\<not> truthy (g2a_client_id default_settings)"
    "\<not> truthy (None :: ustr option)" by (simp_all add: default_settings_def)
  with doctor_reports_every_part[of default_settings json_dumps "[]" "\<lambda>t. []" scripted nobody_there
      scripted halving None "script_of []"]
  show ?thesis by auto
qed

definition console_zero :: console_price where
  "console_zero = \<lparr>cp_markup = None, cp_fixed = Some 0, cp_clear = False, cp_pause = False, cp_resume = False\<rparr>"

theorem console_prices_like_the_api_witness:
  "\<exists>line. map_price (ae_settings office) (ae_runtime office) 1 console_zero () (lone_db [own_mapping])
     = (Inr line, (), lone_db [repriced fixed_at_zero own_mapping])"
proof -
  have p: "as_pricing console_zero = fixed_at_zero"
    by (simp add: as_pricing_def console_zero_def fixed_at_zero_def)
  obtain out shown where r: "set_pricing office (Some [116]) 1 (as_pricing console_zero) () (lone_db [own_mapping])
      = (Inr out, (), lone_db [repriced fixed_at_zero own_mapping])" "po_preview out = Inr shown"
    unfolding p using set_pricing_to_zero by blast
  from console_prices_like_the_api[OF office_open(1) r(1)] r(2) show ?thesis by auto
qed

theorem console_approves_like_the_api_witness:
  "\<exists>x. map_approve still_clock 1 None [99] () empty_database = (x, (), empty_database)
    \<and> reply_status (fst (approve_mapping office (Some [116]) 1 None [99] None () empty_database)) = 404"
proof -
  have "mapping_by_id 1 empty_database = None" by (simp add: mapping_by_id_def find_row_def empty_database_def)
  then have m: "map_approve (ae_runtime office) 1 None [99] () empty_database
      = (Inl (PyLookupError (mapping_text 1)), (), empty_database)"
    by (simp add: map_approve_def session_scope_def wbind_def approve_missing)
  show ?thesis
    using console_approves_like_the_api[OF office_open(1) m] m
    by (simp add: is_lookup_error_def as_http_def office_def)
qed

end
