(* ===== verification/Process.thy ===== *)
theory Process
  imports Config Title_Text
begin

text \<open>
  What a process keeps for itself: the settings read once from its environment (\<open>app/config.py\<close>), the
  engine and session factory made when they are first needed (\<open>app/db.py\<close>) and the logging set up once
  by \<open>app/logging_conf.py\<close>. How pydantic reads settings from the environment is a parameter;
  SQLAlchemy's engine is the arguments it is made from; the formatter and the stream of the handler
  are not modelled.
\<close>

section \<open>Settings\<close>

type_synonym environ = "string \<Rightarrow> ustr option"

text \<open>The module variables of \<open>config.py\<close> and \<open>db.py\<close>, and the environment variables of the process.\<close>

datatype engine_options =
    Sqlite bool "string list"
  | Pooled bool int int

record engine =
  en_url :: ustr
  en_options :: engine_options

record process =
  pr_environ :: environ
  pr_settings :: "settings option"
  pr_engine :: "engine option"
  pr_factory :: "engine option"

text \<open>\<open>lru_cache\<close> keeps the value of a call that returned, never an exception.\<close>

definition get_settings :: "(environ \<Rightarrow> settings result) \<Rightarrow> process \<Rightarrow> settings result \<times> process" where
  "get_settings load s =
     (case pr_settings s of
        Some S \<Rightarrow> (Inr S, s)
      | None \<Rightarrow>
          (case load (pr_environ s) of
             Inl e \<Rightarrow> (Inl e, s)
           | Inr S \<Rightarrow> (Inr S, s\<lparr>pr_settings := Some S\<rparr>)))"

definition reload_settings :: "(environ \<Rightarrow> settings result) \<Rightarrow> process \<Rightarrow> settings result \<times> process" where
  "reload_settings load s = get_settings load (s\<lparr>pr_settings := None\<rparr>)"

section \<open>The engine\<close>

text \<open>\<open>Sqlite\<close> holds \<open>check_same_thread\<close> and the statements run on every new connection.\<close>

definition create_engine_for :: "settings \<Rightarrow> ustr \<Rightarrow> engine" where
  "create_engine_for S url =
     \<lparr>en_url = url,
      en_options =
        (if starts_with (lit ''sqlite'') url
         then Sqlite False [''PRAGMA foreign_keys=ON'', ''PRAGMA journal_mode=WAL'']
         else Pooled True (db_pool_size S) (db_max_overflow S))\<rparr>"

definition get_engine :: "(environ \<Rightarrow> settings result) \<Rightarrow> process \<Rightarrow> engine result \<times> process" where
  "get_engine load s =
     (case pr_engine s of
        Some e \<Rightarrow> (Inr e, s)
      | None \<Rightarrow>
          (case get_settings load s of
             (Inl x, s1) \<Rightarrow> (Inl x, s1)
           | (Inr S, s1) \<Rightarrow>
               (let e = create_engine_for S (database_url S)
                in (Inr e, s1\<lparr>pr_engine := Some e, pr_factory := Some e\<rparr>))))"

definition assertion_error :: exn where
  "assertion_error = OtherError (lit ''AssertionError'')"

definition get_session_factory :: "(environ \<Rightarrow> settings result) \<Rightarrow> process \<Rightarrow> engine result \<times> process" where
  "get_session_factory load s =
     (case get_engine load s of
        (Inl x, s1) \<Rightarrow> (Inl x, s1)
      | (Inr e, s1) \<Rightarrow> (case pr_factory s1 of None \<Rightarrow> Inl assertion_error | Some f \<Rightarrow> Inr f, s1))"

definition reset_engine :: "(environ \<Rightarrow> settings result) \<Rightarrow> ustr option \<Rightarrow> process \<Rightarrow> unit result \<times> process" where
  "reset_engine load url s =
     (let s1 = s\<lparr>pr_engine := None, pr_factory := None\<rparr>
      in case url of
           None \<Rightarrow> (Inr (), s1)
         | Some u \<Rightarrow>
             (case reload_settings load (s1\<lparr>pr_environ := (pr_environ s1)(''DATABASE_URL'' \<mapsto> u)\<rparr>) of
                (Inl x, s2) \<Rightarrow> (Inl x, s2)
              | (Inr S, s2) \<Rightarrow> (Inr (), s2)))"

text \<open>\<open>create_all\<close> hands the models to SQLAlchemy, which creates the tables the database does not have.\<close>

definition create_all ::
  "(environ \<Rightarrow> settings result) \<Rightarrow> (engine \<Rightarrow> 'w \<Rightarrow> unit result \<times> 'w) \<Rightarrow> process \<Rightarrow> 'w
    \<Rightarrow> unit result \<times> process \<times> 'w" where
  "create_all load create_tables s w =
     (case get_engine load s of
        (Inl x, s1) \<Rightarrow> (Inl x, s1, w)
      | (Inr e, s1) \<Rightarrow> (case create_tables e w of (x, w') \<Rightarrow> (x, s1, w')))"

lemmas process_defs = get_settings_def reload_settings_def get_engine_def get_session_factory_def
  reset_engine_def

text \<open>Creating the tables leaves the process as needing the engine does.\<close>

lemma create_all_process [simp]: "fst (snd (create_all load create_tables s w)) = snd (get_engine load s)"
  by (simp add: create_all_def split: prod.split sum.split)

text \<open>
  What happens to these variables, in any order: \<open>True\<close> marks the steps after which the process may
  use another engine. The environment may change at any time.
\<close>

inductive process_step :: "(environ \<Rightarrow> settings result) \<Rightarrow> bool \<Rightarrow> process \<Rightarrow> process \<Rightarrow> bool" for load where
  settings_step: "process_step load False s (snd (get_settings load s))"
| reload_step: "process_step load False s (snd (reload_settings load s))"
| engine_step: "process_step load False s (snd (get_engine load s))"
| factory_step: "process_step load False s (snd (get_session_factory load s))"
| create_step: "process_step load False s (fst (snd (create_all load create_tables s ())))"
| environ_step: "process_step load False s (s\<lparr>pr_environ := env\<rparr>)"
| reset_step: "process_step load True s (snd (reset_engine load url s))"

inductive_simps process_steps: "process_step load True s s'" "process_step load False s s'"

inductive reaches :: "(environ \<Rightarrow> settings result) \<Rightarrow> bool \<Rightarrow> process \<Rightarrow> process \<Rightarrow> bool" for load resets s0 where
  start: "reaches load resets s0 s0"
| step: "reaches load resets s0 s \<Longrightarrow> process_step load r s s' \<Longrightarrow> r \<longrightarrow> resets \<Longrightarrow> reaches load resets s0 s'"

definition fresh_process :: "environ \<Rightarrow> process" where
  "fresh_process env = \<lparr>pr_environ = env, pr_settings = None, pr_engine = None, pr_factory = None\<rparr>"

lemma process_step_factory:
  "process_step load r s s' \<Longrightarrow> pr_factory s = pr_engine s \<Longrightarrow> pr_factory s' = pr_engine s'"
  by (erule process_step.cases)
    (auto simp: process_defs Let_def split: option.splits sum.splits prod.splits)

lemma reachable_factory: "reaches load resets s0 s \<Longrightarrow> pr_factory s0 = pr_engine s0 \<Longrightarrow> pr_factory s = pr_engine s"
  by (induction rule: reaches.induct) (auto dest: process_step_factory)

lemma step_keeps_engine: "process_step load False s s' \<Longrightarrow> pr_engine s = Some e \<Longrightarrow> pr_engine s' = Some e"
  by (auto simp: process_steps process_defs split: option.splits sum.splits prod.splits)

lemma reaches_keeps_engine: "reaches load False s s' \<Longrightarrow> pr_engine s = Some e \<Longrightarrow> pr_engine s' = Some e"
  by (induction rule: reaches.induct) (auto dest: step_keeps_engine)

text \<open>
  However a process has used its database so far, the assertion of \<open>get_session_factory\<close> holds: it
  fails only when the settings cannot be read, and otherwise its factory is bound to the one engine
  of the process. That engine stays, whatever is read, reloaded or changed in the environment, until
  \<open>reset_engine\<close> is called.
\<close>
theorem one_engine_per_process:
  assumes "reaches load True (fresh_process env) s" "get_session_factory load s = (r, s')"
  shows "case r of
      Inl x \<Rightarrow> load (pr_environ s) = Inl x \<and> s' = s
    | Inr e \<Rightarrow> \<forall>s2. reaches load False s' s2 \<longrightarrow>
        get_engine load s2 = (Inr e, s2) \<and> get_session_factory load s2 = (Inr e, s2)"
proof -
  have f: "pr_factory s = pr_engine s"
    using reachable_factory[OF assms(1)] by (simp add: fresh_process_def)
  show ?thesis
  proof (cases r)
    case (Inl x)
    with assms(2) f show ?thesis
      by (auto simp: process_defs Let_def split: option.splits sum.splits prod.splits)
  next
    case (Inr e)
    with assms(2) f have s': "pr_engine s' = Some e" "pr_factory s' = Some e"
      by (auto simp: process_defs Let_def split: option.splits sum.splits prod.splits)
    have "get_engine load s2 = (Inr e, s2) \<and> get_session_factory load s2 = (Inr e, s2)"
      if r: "reaches load False s' s2" for s2
      using reaches_keeps_engine[OF r s'(1)] reachable_factory[OF r] s'
      by (simp add: get_engine_def get_session_factory_def)
    with Inr show ?thesis by simp
  qed
qed

text \<open>
  \<open>reset_engine\<close> with a URL moves the process to that database: the next factory is bound to an engine
  for it, provided the environment variable is what the settings take the URL from.
\<close>
theorem reset_moves_the_process:
  assumes "reset_engine load (Some u) s = (r, s1)"
    and "load ((pr_environ s)(''DATABASE_URL'' \<mapsto> u)) = Inr S" "database_url S = u"
  shows "r = Inr () \<and> (\<exists>s2. get_session_factory load s1 = (Inr (create_engine_for S u), s2))"
proof -
  from assms(1,2) have "r = Inr ()" "pr_engine s1 = None" "pr_settings s1 = Some S"
    by (auto simp: reset_engine_def reload_settings_def get_settings_def Let_def)
  then show ?thesis
    by (simp add: get_session_factory_def get_engine_def get_settings_def assms(3) Let_def)
qed

section \<open>Logging\<close>

datatype log_level = NOTSET | DEBUG | INFO | WARNING | ERROR | CRITICAL

fun severity :: "log_level \<Rightarrow> nat" where
  "severity NOTSET = 0"
| "severity DEBUG = 10"
| "severity INFO = 20"
| "severity WARNING = 30"
| "severity ERROR = 40"
| "severity CRITICAL = 50"

lemma severity_inject [simp]: "severity a = severity b \<longleftrightarrow> a = b"
  by (cases a; cases b) simp_all

text \<open>Levels are ordered by their numbers.\<close>

instantiation log_level :: linorder
begin

definition less_eq_log_level :: "log_level \<Rightarrow> log_level \<Rightarrow> bool" where
  "less_eq_log_level a b \<longleftrightarrow> severity a \<le> severity b"

definition less_log_level :: "log_level \<Rightarrow> log_level \<Rightarrow> bool" where
  "less_log_level a b \<longleftrightarrow> severity a < severity b"

instance
  by standard (auto simp: less_eq_log_level_def less_log_level_def)

end

text \<open>The names \<open>setLevel\<close> knows.\<close>

definition level_names :: "(string \<times> log_level) list" where
  "level_names =
     [(''CRITICAL'', CRITICAL), (''FATAL'', CRITICAL), (''ERROR'', ERROR), (''WARN'', WARNING),
      (''WARNING'', WARNING), (''INFO'', INFO), (''DEBUG'', DEBUG), (''NOTSET'', NOTSET)]"

definition level_of_name :: "ustr \<Rightarrow> log_level option" where
  "level_of_name u = map_of (map (\<lambda>(n, l). (lit n, l)) level_names) u"

text \<open>A logger is the path of its name, innermost part first; the root logger is the empty path.\<close>

record log_state =
  lg_configured :: bool
  lg_handlers :: "string list"
  lg_root_level :: log_level
  lg_levels :: "string list \<Rightarrow> log_level option"

definition noisy_loggers :: "string list" where
  "noisy_loggers = [''httpx'', ''httpcore'', ''urllib3'']"

text \<open>\<open>setLevel\<close> raises \<open>ValueError\<close> for a name it does not know, after the handlers were replaced.\<close>

definition configure_logging :: "unicode \<Rightarrow> ustr option \<Rightarrow> ustr option \<Rightarrow> log_state \<Rightarrow> unit result \<times> log_state" where
  "configure_logging U environ level s =
     (if lg_configured s then (Inr (), s)
      else
        (let resolved = upper U (case or_none (or_else level environ) of None \<Rightarrow> lit ''INFO'' | Some l \<Rightarrow> l);
             s' = s\<lparr>lg_handlers := [''stdout'']\<rparr>
         in case level_of_name resolved of
              None \<Rightarrow> (Inl (PyValueError (lit ''Unknown level'')), s')
            | Some l \<Rightarrow>
                (Inr (), s'\<lparr>lg_root_level := l,
                     lg_levels := fold (\<lambda>n f. f([n] \<mapsto> WARNING)) noisy_loggers (lg_levels s'),
                     lg_configured := True\<rparr>)))"

definition get_logger :: "unicode \<Rightarrow> ustr option \<Rightarrow> string list \<Rightarrow> log_state \<Rightarrow> string list result \<times> log_state" where
  "get_logger U environ name s =
     (case configure_logging U environ None s of
        (Inl e, s') \<Rightarrow> (Inl e, s')
      | (Inr u, s') \<Rightarrow> (Inr name, s'))"

text \<open>\<open>db init\<close> of the console.\<close>

definition db_init ::
  "unicode \<Rightarrow> (environ \<Rightarrow> settings result) \<Rightarrow> (engine \<Rightarrow> 'w \<Rightarrow> unit result \<times> 'w)
    \<Rightarrow> log_state \<Rightarrow> process \<Rightarrow> 'w \<Rightarrow> unit result \<times> log_state \<times> process \<times> 'w" where
  "db_init U load create_tables logs s w =
     (case configure_logging U (pr_environ s ''LOG_LEVEL'') None logs of
        (Inl e, logs') \<Rightarrow> (Inl e, logs', s, w)
      | (Inr _, logs') \<Rightarrow> (case create_all load create_tables s w of (x, s', w') \<Rightarrow> (x, logs', s', w')))"

text \<open>\<open>Logger.getEffectiveLevel\<close>: the first level that is set, from the logger outwards.\<close>

fun effective_level :: "log_state \<Rightarrow> string list \<Rightarrow> log_level" where
  "effective_level s [] = lg_root_level s"
| "effective_level s (n # outer) =
     (case lg_levels s (n # outer) of
        Some l \<Rightarrow> if l = NOTSET then effective_level s outer else l
      | None \<Rightarrow> effective_level s outer)"

definition prints :: "log_state \<Rightarrow> string list \<Rightarrow> log_level \<Rightarrow> bool" where
  "prints s logger l \<longleftrightarrow> effective_level s logger \<le> l"

lemma noisy_levels:
  "n \<in> set noisy_loggers \<Longrightarrow> fold (\<lambda>n f. f([n] \<mapsto> WARNING)) noisy_loggers f [n] = Some WARNING"
  "length path \<noteq> 1 \<Longrightarrow> fold (\<lambda>n f. f([n] \<mapsto> WARNING)) noisy_loggers f path = f path"
  by (auto simp: noisy_loggers_def)

lemma inherited_level:
  assumes "lg_levels s [n] = Some WARNING" "\<And>a b. inner = a @ b \<Longrightarrow> b \<noteq> [] \<Longrightarrow> lg_levels s (b @ [n]) = None"
  shows "effective_level s (inner @ [n]) = WARNING"
  using assms(2)
proof (induction inner)
  case (Cons m inner)
  have "effective_level s (inner @ [n]) = WARNING"
    by (rule Cons.IH) (metis Cons.prems append_Cons)
  moreover have "lg_levels s ((m # inner) @ [n]) = None" by (rule Cons.prems[of "[]"]) simp_all
  ultimately show ?case by simp
qed (simp add: assms(1))

text \<open>
  The libraries that would print query strings are silenced: whatever level is asked for, no
  record below a warning of \<open>httpx\<close>, \<open>httpcore\<close>, \<open>urllib3\<close> or a logger inside them that has no level of
  its own is printed, and once configured nothing reconfigures the process.
\<close>
theorem noisy_loggers_are_pinned:
  assumes "configure_logging U environ level s = (Inr (), s')" "\<not> lg_configured s"
    and "n \<in> set noisy_loggers" "\<And>a b. inner = a @ b \<Longrightarrow> b \<noteq> [] \<Longrightarrow> lg_levels s (b @ [n]) = None"
    and "l < WARNING"
  shows "\<not> prints s' (inner @ [n]) l \<and> lg_handlers s' = [''stdout'']
    \<and> configure_logging U environ2 level2 s' = (Inr (), s')"
proof -
  have s': "lg_levels s' = fold (\<lambda>n f. f([n] \<mapsto> WARNING)) noisy_loggers (lg_levels s)"
    "lg_handlers s' = [''stdout'']" "lg_configured s'"
    using assms(1,2) by (auto simp: configure_logging_def Let_def split: option.splits)
  have "effective_level s' (inner @ [n]) = WARNING"
  proof (rule inherited_level)
    show "lg_levels s' [n] = Some WARNING" unfolding s' by (rule noisy_levels(1)[OF assms(3)])
    fix a b
    assume "inner = a @ b" "b \<noteq> []"
    with assms(4) show "lg_levels s' (b @ [n]) = None" by (simp add: s' noisy_levels(2))
  qed
  with assms(5) s' show ?thesis by (simp add: prints_def configure_logging_def)
qed

section \<open>A process on SQLite\<close>

definition read_url :: "environ \<Rightarrow> settings result" where
  "read_url env =
     Inr (case env ''DATABASE_URL'' of None \<Rightarrow> default_settings | Some u \<Rightarrow> default_settings\<lparr>database_url := u\<rparr>)"

theorem one_engine_per_process_witness:
  "\<exists>e s'. get_session_factory read_url (fresh_process [''DATABASE_URL'' \<mapsto> lit ''sqlite://'']) = (Inr e, s')
     \<and> get_engine read_url (snd (reload_settings read_url s')) = (Inr e, snd (reload_settings read_url s'))
     \<and> en_url e = lit ''sqlite://''"
proof -
  let ?s = "fresh_process [''DATABASE_URL'' \<mapsto> lit ''sqlite://'']"
  obtain e s' where f: "get_session_factory read_url ?s = (Inr e, s')" "en_url e = lit ''sqlite://''"
    by (auto simp: process_defs fresh_process_def read_url_def create_engine_for_def Let_def)
  have "reaches read_url False s' (snd (reload_settings read_url s'))"
    by (rule reaches.step[OF reaches.start process_step.reload_step]) simp
  with one_engine_per_process[OF reaches.start f(1)] f show ?thesis by auto
qed

theorem reset_moves_the_process_witness:
  "\<exists>s1 s2. reset_engine read_url (Some (lit ''sqlite:///a'')) (fresh_process Map.empty) = (Inr (), s1)
     \<and> get_session_factory read_url s1
        = (Inr (create_engine_for (default_settings\<lparr>database_url := lit ''sqlite:///a''\<rparr>) (lit ''sqlite:///a'')), s2)"
proof -
  let ?u = "lit ''sqlite:///a''" and ?s = "fresh_process Map.empty"
  obtain r s1 where r: "reset_engine read_url (Some ?u) ?s = (r, s1)" by (rule prod.exhaust)
  have l: "read_url ((pr_environ ?s)(''DATABASE_URL'' \<mapsto> ?u)) = Inr (default_settings\<lparr>database_url := ?u\<rparr>)"
    by (simp add: read_url_def)
  from reset_moves_the_process[OF r l] r show ?thesis by auto
qed

theorem noisy_loggers_are_pinned_witness:
  "\<exists>s'. configure_logging ascii_db None (Some (lit ''debug''))
      \<lparr>lg_configured = False, lg_handlers = [], lg_root_level = WARNING, lg_levels = (\<lambda>n. None)\<rparr> = (Inr (), s')
    \<and> \<not> prints s' [''connection'', ''httpcore''] INFO"
proof -
  let ?s = "\<lparr>lg_configured = False, lg_handlers = [], lg_root_level = WARNING, lg_levels = (\<lambda>n. None)\<rparr>"
  have "upper ascii_db (lit ''debug'') = lit ''DEBUG''" by code_simp
  moreover have "level_of_name (lit ''DEBUG'') = Some DEBUG" by code_simp
  ultimately obtain s' where r: "configure_logging ascii_db None (Some (lit ''debug'')) ?s = (Inr (), s')"
    by (auto simp: configure_logging_def or_else_def Let_def)
  have "\<not> prints s' ([''connection''] @ [''httpcore'']) INFO"
    by (rule noisy_loggers_are_pinned[OF r, THEN conjunct1])
      (auto simp: noisy_loggers_def less_log_level_def)
  with r show ?thesis by auto
qed

end
