(* ===== verification/Lifecycle.thy ===== *)
theory Lifecycle
  imports Worker Admin_Safety
begin

text \<open>
  What a change of mind reaches: the review of a mapping, the pause of a product and the deactivation
  of a supplier product, followed through the offer synchronisation and the scheduler to the offer
  that is already on the store.
\<close>

section \<open>Offers out of the selection\<close>

text \<open>
  No row the run selects belongs to the mapping of the offer: it is rejected or unreviewed, paused,
  or its supplier product is inactive.
\<close>

definition withdrawn :: "store_offer \<Rightarrow> database \<Rightarrow> bool" where
  "withdrawn r d \<longleftrightarrow>
     (\<forall>m \<in> set (product_mappings d). pm_id m = so_mapping_id r \<longrightarrow>
        \<not> syncable_status (pm_status m) \<or> \<not> pm_sync_enabled m
        \<or> (\<forall>sp \<in> set (supplier_products d). sp_id sp = pm_supplier_product_id m \<longrightarrow> \<not> sp_is_active sp))"

definition untouched :: "store_offer \<Rightarrow> database \<Rightarrow> bool" where
  "untouched r d \<longleftrightarrow> r \<in> set (store_offers d) \<and> distinct (map so_id (store_offers d)) \<and> withdrawn r d"

abbreviation stays :: "store_offer \<Rightarrow> database \<Rightarrow> database \<Rightarrow> bool" where
  "stays r \<equiv> \<lambda>d d'. untouched r d \<longrightarrow> untouched r d'"

lemma stays_preorder: "preorder_on_db (stays r)"
  by (rule preorder_keeps)

lemma stays_ignores_runs: "ignores_runs (stays r)"
  by (simp add: ignores_runs_def untouched_def withdrawn_def)

lemmas stays_intros = step_intros[where R = "stays r" for r] stays_preorder stays_ignores_runs

lemma selected_not_withdrawn:
  assumes "(m, sp, st) \<in> set (syncable store limit d)" "withdrawn r d"
  shows "pm_id m \<noteq> so_mapping_id r"
proof -
  have "m \<in> set (product_mappings d) \<and> syncable_status (pm_status m) \<and> pm_sync_enabled m
      \<and> sp \<in> set (supplier_products d) \<and> sp_id sp = pm_supplier_product_id m \<and> sp_is_active sp"
    using assms(1) by (auto simp: syncable_def Let_def split: option.splits if_splits dest: in_set_takeD)
  with assms(2) show ?thesis unfolding withdrawn_def by blast
qed

text \<open>The value of a statement, known where the invariant holds, for the statement after it.\<close>

definition yields :: "(database \<Rightarrow> bool) \<Rightarrow> ('a \<Rightarrow> bool) \<Rightarrow> ('w, 'a) work \<Rightarrow> bool" where
  "yields P Q m \<longleftrightarrow> (\<forall>w d x w' d'. P d \<longrightarrow> m w d = (Inr x, w', d') \<longrightarrow> Q x)"

lemma steps_bind_value:
  assumes "steps (\<lambda>d d'. P d \<longrightarrow> P d') m" "yields P Q m" "\<And>x. Q x \<Longrightarrow> steps (\<lambda>d d'. P d \<longrightarrow> P d') (f x)"
  shows "steps (\<lambda>d d'. P d \<longrightarrow> P d') (wbind m f)"
proof (rule stepsI, rule impI)
  fix w d x w' d'
  assume r: "wbind m f w d = (x, w', d')" and p: "P d"
  obtain y w1 d1 where m: "m w d = (y, w1, d1)" by (rule prod_cases3)
  from stepsD[OF assms(1) m] p have p1: "P d1" by simp
  show "P d'"
  proof (cases y)
    case (Inl e)
    with r m p1 show ?thesis by (simp add: wbind_def)
  next
    case (Inr v)
    with r m have f: "f v w1 d1 = (x, w', d')" by (simp add: wbind_def)
    have "Q v" using assms(2) p m Inr unfolding yields_def by blast
    from stepsD[OF assms(3)[OF this] f] p1 show ?thesis by simp
  qed
qed

lemma stays_relation:
  assumes "i \<noteq> so_id r"
  shows "offer_relation (stays r) i"
proof
  fix f and d :: database
  assume f: "keeps_identity f"
  then have "map so_id (map (\<lambda>x. if so_id x = i then f x else x) (store_offers d)) = map so_id (store_offers d)"
    by (auto simp: keeps_identity_def offer_identity_def)
  with f assms show "stays r d (put_offer i f d)"
    by (auto simp: untouched_def put_offer_def withdrawn_def image_iff simp del: map_map)
qed (use stays_preorder in \<open>auto simp: untouched_def withdrawn_def budget_record_def\<close>)

lemmas stays_sync_one = offer_relation.sync_one_kept[OF stays_relation]

lemmas stays_reconcile_row = offer_relation.reconcile_row_kept[OF stays_relation refl]

lemma stays_new_row:
  "steps (stays r) (wbind (wread (\<lambda>d. fresh_id so_id (store_offers d))) (\<lambda>i.
     wthen (wmodify (\<lambda>d. d\<lparr>store_offers := store_offers d @ [new_offer i store m st]\<rparr>)) (wthen wflush (wret i))))"
proof -
  have "fresh_id so_id (store_offers d) \<notin> so_id ` set (store_offers d)" for d :: database
    using fresh_id_fresh[of _ "store_offers d" so_id] by (metis imageE)
  then show ?thesis
    by (auto simp: steps_def wbind_def wthen_def wread_def wmodify_def wflush_def wret_def flush_def
        untouched_def withdrawn_def new_offer_def)
qed

lemma stays_offer_row: "steps (stays r) (offer_row store m st)"
  unfolding offer_row_def
  by (rule steps_bind[OF stays_preorder steps_pure(3)[OF stays_preorder]], rule steps_option)
    (simp_all add: stays_new_row steps_pure(1)[OF stays_preorder])

lemma yields_offer_row:
  assumes "pm_id m \<noteq> so_mapping_id r"
  shows "yields (untouched r) (\<lambda>i. i \<noteq> so_id r) (offer_row store m st)"
  unfolding yields_def
proof (intro allI impI notI)
  fix w d x w' d'
  assume u: "untouched r d" and run: "offer_row store m st w d = (Inr x, w', d')" and x: "x = so_id r"
  have in_table: "r \<in> set (store_offers d)" and ids: "distinct (map so_id (store_offers d))"
    using u by (simp_all add: untouched_def)
  show False
  proof (cases "find_row (\<lambda>r. so_mapping_id r = pm_id m) (store_offers d)")
    case None
    with run x fresh_id_fresh[OF in_table, of so_id] show False
      by (auto simp: offer_row_def wbind_def wthen_def wread_def wmodify_def wflush_def wret_def flush_def
          split: if_splits)
  next
    case (Some r0)
    then have "r0 \<in> set (store_offers d)" "so_mapping_id r0 = pm_id m" by (auto dest: find_row_Some)
    moreover have "so_id r0 = so_id r" using run x Some by (simp add: offer_row_def wbind_def wread_def wret_def)
    ultimately show False using in_table ids assms by (metis distinct_map inj_onD)
  qed
qed

lemma yields_in_run: "yields P Q m \<Longrightarrow> yields P Q (in_run m)"
  by (auto simp: yields_def in_run_def split: prod.splits) (metis)

lemma stays_compute: "steps (stays r) (compute s (fx_rate_now R s False) sp m st)"
proof (rule stepsI)
  fix w d x w' d'
  assume "compute s (fx_rate_now R s False) sp m st w d = (x, w', d')"
  then have "d' = d\<lparr>fx_rates := fx_rates d'\<rparr>" by (rule live.compute_frame)
  then show "stays r d d'" by (cases d; cases d') (simp add: untouched_def withdrawn_def)
qed

lemma stays_sync_row:
  assumes "pm_id (fst row) \<noteq> so_mapping_id r"
  shows "steps (stays r) (sync_row R s (fx_rate_now R s False) A dry now row u)"
proof -
  obtain m sp st where row: "row = (m, sp, st)" by (cases row)
  with assms have m: "pm_id m \<noteq> so_mapping_id r" by simp
  have push: "steps (stays r) (wbind (in_run (offer_row (ad_code A) m st)) (\<lambda>i.
      wbind (in_run (sync_one R s A i de dry now)) (\<lambda>a. bump (action_name a) 1)))" for de
    by (rule steps_bind_value[OF steps_in_run[OF stays_offer_row] yields_in_run[OF yields_offer_row[OF m]]])
      (intro stays_intros steps_in_run steps_bump stays_sync_one)
  have price: "steps (stays r) (wtry (in_run (desired_offer s (fx_rate_now R s False) m sp st)) is_pricing_error
      (\<lambda>e. wthen (bump ''errors'' 1) (wraise e)))"
    unfolding desired_offer_def by (intro stays_intros steps_in_run steps_bump stays_compute)
  show ?thesis
    unfolding sync_row_def row prod.case
    by (rule steps_then[OF stays_preorder steps_bump[OF stays_preorder]],
        rule steps_bind[OF stays_preorder price], rule push)
qed

lemma stays_run: "steps (stays r) (run_offers R s (fx_rate_now R s False) A limit dry)"
proof -
  have e: "steps (stays r) (\<lambda>ws d. (Inr (snd ws), ws, d))" by (simp add: steps_def)
  have y: "yields (untouched r) (\<lambda>rows. \<forall>row \<in> set rows. pm_id (fst row) \<noteq> so_mapping_id r)
      (wread (syncable (ad_code A) limit))"
    unfolding yields_def wread_def untouched_def using selected_not_withdrawn by fastforce
  have "steps (stays r) (wbind (wread (syncable (ad_code A) limit)) (\<lambda>rows.
      wthen (wfold (sync_row R s (fx_rate_now R s False) A dry now) rows ())
        (wthen wflush (\<lambda>ws d. (Inr (snd ws), ws, d)))))" for now
    by (rule steps_bind_value[OF _ y]) (intro stays_intros stays_sync_row e; simp)+
  then show ?thesis
    unfolding run_offers_def
    by (intro steps_bind[OF stays_preorder steps_pure(7)[OF stays_preorder]]
        steps_with_run[OF stays_preorder stays_ignores_runs])
qed

lemma stays_reconcile:
  assumes "so_pending_job_id r = None"
  shows "steps (stays r) (reconcile_jobs A n)"
proof -
  have y: "yields (untouched r) (\<lambda>rows. \<forall>x \<in> set rows. so_id x \<noteq> so_id r) (wread (pending_offers (ad_code A) n))"
    unfolding yields_def wread_def
  proof (intro allI impI, clarsimp)
    fix d :: database and x :: store_offer
    assume u: "untouched r d" and x: "x \<in> set (pending_offers (ad_code A) n d)" and id: "so_id x = so_id r"
    from x have "x \<in> set (store_offers d)" "so_pending_job_id x \<noteq> None"
      by (auto simp: pending_offers_def dest!: in_set_takeD)
    with u id assms show False unfolding untouched_def by (metis distinct_map inj_onD)
  qed
  show ?thesis
    unfolding reconcile_jobs_def
    by (rule steps_bind_value[OF _ y]) (intro stays_intros stays_reconcile_row; simp)+
qed

section \<open>Rounds of the offer job\<close>

lemma session_keeps:
  assumes "steps (\<lambda>d d'. P d \<longrightarrow> P d') body"
  shows "kept_by (\<lambda>x. P (snd x)) (in_session body)"
  unfolding kept_by_def
proof (intro allI impI)
  fix x :: "'a \<times> database"
  assume x: "P (snd x)"
  obtain y w' d' where s: "session_scope body (fst x) (snd x) = (y, w', d')" by (rule prod_cases3)
  show "P (snd (snd (in_session body x)))"
  proof (cases y)
    case (Inl e)
    with s x session_scope_error[OF s[unfolded Inl]] show ?thesis by (simp add: in_session_def)
  next
    case (Inr v)
    from session_scope_success[OF s[unfolded Inr]] have "body (fst x) (snd x) = (Inr v, w', d')" by simp
    from stepsD[OF assms this] x s Inr show ?thesis by (simp add: in_session_def)
  qed
qed

lemma stays_offer_job:
  assumes "so_pending_job_id r = None"
  shows "kept_by (\<lambda>x. untouched r (snd x)) (sync_offers B)"
  unfolding sync_offers_def
  by (rule session_keeps, rule steps_then[OF stays_preorder stays_run stays_reconcile[OF assms]])

lemma offers_distinct: "database_ok d \<Longrightarrow> distinct (map so_id (store_offers d))"
  by (simp add: database_ok_def offers_ok_def)


section \<open>Under the scheduler\<close>

abbreviation offers_kept :: "database \<Rightarrow> database \<Rightarrow> bool" where
  "offers_kept \<equiv> \<lambda>d d'. store_offers d' = store_offers d"

lemma offers_kept_preorder: "preorder_on_db offers_kept"
  by (rule preorder_field)

lemma offers_kept_runs: "ignores_runs offers_kept"
  by (simp add: ignores_runs_def)

lemmas offers_intros = step_intros[where R = offers_kept] offers_kept_preorder offers_kept_runs

lemma offers_memory:
  "steps offers_kept (tally f)" "steps offers_kept counters" "steps offers_kept (bump k n)"
  by (auto simp: steps_def tally_def counters_def bump_def)

lemma catalogues_keep_offers:
  "steps offers_kept (sync_supplier U digest S R A items)" "steps offers_kept (sync_store U R G since feed pages)"
proof -
  have "steps offers_kept (mirror_feed U digest S now sid feed)" for now sid feed
    unfolding mirror_feed_def set_products_def
    by (intro offers_intros) (auto split: prod.split option.split intro!: offers_intros offers_memory)
  moreover have "steps offers_kept (get_or_create_supplier U code name)" for code name
    unfolding get_or_create_supplier_def
    by (intro offers_intros) (auto split: prod.split option.split intro!: offers_intros)
  ultimately show "steps offers_kept (sync_supplier U digest S R A items)"
    unfolding sync_supplier_def
    by (intro offers_intros steps_in_run) (auto split: option.split intro!: offers_intros)
  have "steps offers_kept (mirror_item U store now c u)" for store now c u
    unfolding mirror_item_def
    by (intro offers_intros) (auto split: prod.split option.split intro!: offers_intros offers_memory)
  then show "steps offers_kept (sync_store U R G since feed pages)"
    unfolding sync_store_def
    by (intro offers_intros steps_in_run) (auto split: option.split intro!: offers_intros offers_memory)
qed

lemma matching_keeps_offers: "steps offers_kept (match_run U S store limit only)"
proof -
  have "steps offers_kept (apply_outcome store p out e)" for p out e
    unfolding apply_outcome_def set_mapping_def add_mapping_def Let_def
    by (intro offers_intros) (auto split: prod.split option.split intro!: offers_intros)
  then have "steps offers_kept (match_one U S store p se)" for p se
    unfolding match_one_def
    by (intro offers_intros) (auto split: prod.split intro!: offers_intros)
  then show ?thesis unfolding match_run_def by (intro offers_intros)
qed

lemma offers_kept_member: "steps offers_kept m \<Longrightarrow> steps (\<lambda>d d'. r \<in> set (store_offers d) \<longrightarrow> r \<in> set (store_offers d')) m"
  by (auto simp: steps_def)

text \<open>The mapping holds its place and keeps its offer out of the selection.\<close>

definition off_sale :: "product_mapping \<Rightarrow> store_offer \<Rightarrow> bool" where
  "off_sale m r \<longleftrightarrow>
     pm_status m \<in> {APPROVED, REJECTED, AUTO} \<and> (pm_status m = REJECTED \<or> \<not> pm_sync_enabled m)
     \<and> so_mapping_id r = pm_id m \<and> so_pending_job_id r = None"

lemma off_sale_withdrawn:
  assumes "database_ok d" "m \<in> set (product_mappings d)" "off_sale m r"
  shows "withdrawn r d"
proof -
  have "distinct (map pm_id (product_mappings d))"
    using assms(1) by (simp add: database_ok_def mappings_ok_def)
  then have "m' = m" if "m' \<in> set (product_mappings d)" "pm_id m' = so_mapping_id r" for m'
    using that assms(2,3) unfolding off_sale_def by (metis distinct_map inj_onD)
  moreover have "\<not> syncable_status (pm_status m) \<or> \<not> pm_sync_enabled m"
    using assms(3) by (auto simp: off_sale_def syncable_status_def)
  ultimately show ?thesis unfolding withdrawn_def by metis
qed

lemma offer_job_keeps:
  assumes "off_sale m r"
  shows "kept_by (\<lambda>x. holds_decision m x \<and> r \<in> set (store_offers (snd x))) (sync_offers B)"
  unfolding kept_by_def
proof (intro allI impI, elim conjE)
  fix x :: "'a \<times> database"
  assume h: "holds_decision m x" and r: "r \<in> set (store_offers (snd x))"
  have "kept_by (holds_decision m) (sync_offers B)"
    unfolding sync_offers_def by (intro session_keeps_mappings kept_sync_offers)
  moreover have "untouched r (snd x)"
    using h r offers_distinct off_sale_withdrawn[OF _ _ assms] by (simp add: untouched_def holds_decision_def)
  moreover have "kept_by (\<lambda>x. untouched r (snd x)) (sync_offers B)"
    using assms by (intro stays_offer_job) (simp add: off_sale_def)
  ultimately show "holds_decision m (snd (sync_offers B x))
      \<and> r \<in> set (store_offers (snd (snd (sync_offers B x))))"
    using h unfolding kept_by_def untouched_def by blast
qed

lemma jobs_leave_off_sale:
  assumes "off_sale m r"
  shows "\<forall>run \<in> set (map jb_run (build_jobs B)).
    kept_by (\<lambda>x. holds_decision m x \<and> r \<in> set (store_offers (snd x))) run"
proof -
  have d: "\<forall>run \<in> set (map jb_run (build_jobs B)). kept_by (holds_decision m) run"
    using assms by (intro jobs_keep_decisions) (simp add: off_sale_def)
  have both: "kept_by (\<lambda>x. holds_decision m x \<and> r \<in> set (store_offers (snd x))) run"
    if "kept_by (holds_decision m) run" "kept_by (\<lambda>x. r \<in> set (store_offers (snd x))) run"
    for run :: "'a \<times> database \<Rightarrow> exn option \<times> 'a \<times> database"
    using that unfolding kept_by_def by blast
  have "kept_by (\<lambda>x. r \<in> set (store_offers (snd x))) (sync_supplier_catalogue B)"
    unfolding sync_supplier_catalogue_def
    by (intro session_keeps offers_kept_member catalogues_keep_offers)
  moreover have "kept_by (\<lambda>x. r \<in> set (store_offers (snd x))) (sync_store_catalogue B)"
    
    using session_keeps[OF offers_kept_member[OF catalogues_keep_offers(2)]]
    unfolding kept_by_def sync_store_catalogue_def Let_def by blast
  moreover have "kept_by (\<lambda>x. r \<in> set (store_offers (snd x))) (match_products B)"
    unfolding match_products_def
    by (intro session_keeps offers_kept_member matching_keeps_offers)
  ultimately show ?thesis
    using d offer_job_keeps[OF assms, of B] both by (simp add: build_jobs_def new_job_def Let_def)
qed

text \<open>
  However long the worker runs: a mapping that a human rejected, or whose synchronisation is
  paused, leaves its offer on the store exactly as it was pushed last. The offer keeps its state,
  its price, its inventory and its activity whatever the supplier's stock becomes; nothing archives
  or deactivates it.
\<close>
theorem rejected_offer_stays_on_sale:
  assumes "beside_database T" "database_ok d" "m \<in> set (product_mappings d)" "r \<in> set (store_offers d)"
    and "off_sale m r"
    and "new_worker T (build_jobs B) (w, d) = (jobs, x0)" "run_ticks T poll n jobs x0 = (jobs', w', d')"
  shows "r \<in> set (store_offers d')"
proof -
  let ?P = "\<lambda>x. holds_decision m x \<and> r \<in> set (store_offers (snd x))"
  have j: "map jb_run jobs = map jb_run (build_jobs B)" and x0: "snd x0 = d"
    using assms(1,6) by (auto simp: new_worker_def Let_def beside_database_def split: prod.splits)
      (metis snd_conv)
  have "?P x0" using assms(2-4) x0 by (simp add: holds_decision_def)
  moreover have "\<forall>run \<in> set (map jb_run jobs). kept_by ?P run"
    unfolding j by (rule jobs_leave_off_sale[OF assms(5)])
  moreover have "kept_by_timer ?P T"
    using assms(1) by (simp add: beside_database_def kept_by_timer_def holds_decision_def)
  ultimately show ?thesis using run_ticks_keep[OF assms(7)] by fastforce
qed

section \<open>A mapping that is corrected\<close>

text \<open>The offers are still there, in order, under the same mapping, store and product.\<close>

abbreviation named :: "database \<Rightarrow> database \<Rightarrow> bool" where
  "named \<equiv> \<lambda>d d'. prefix (map offer_identity (store_offers d)) (map offer_identity (store_offers d'))"

lemma named_preorder: "preorder_on_db named"
  unfolding preorder_on_db_def by (auto simp: reflp_def transp_def intro: prefix_order.trans)

interpretation named: run_relation named
proof
  show "preorder_on_db named" by (rule named_preorder)
  show "named d (put_offer i f d)" if "keeps_identity f" for d i f
    using identity_map[OF that] by (simp add: put_offer_def del: map_map)
  show "named d d'" if "d' = d\<lparr>fx_rates := fx_rates d'\<rparr>" for d d'
    using that by (cases d; cases d') simp
qed (auto simp: budget_record_def ignores_runs_def)

lemma named_from: "steps named body \<Longrightarrow> steps (\<lambda>d1 d2. named d d1 \<longrightarrow> named d d2) body"
  by (intro stepsI impI) (auto dest!: stepsD intro: prefix_order.trans)

lemma named_offer_job: "kept_by (\<lambda>x. named d (snd x)) (sync_offers B)"
  unfolding sync_offers_def
  by (intro session_keeps named_from steps_then[OF named_preorder] named.whole_run_kept named.reconcile_kept)

lemma named_offer_found:
  assumes "prefix (map offer_identity rs) (map offer_identity rs')" "find_row (\<lambda>r. so_mapping_id r = i) rs = Some r"
  shows "\<exists>r'. find_row (\<lambda>r. so_mapping_id r = i) rs' = Some r' \<and> offer_identity r' = offer_identity r"
  using assms
proof (induction rs arbitrary: rs')
  case (Cons a rs)
  from Cons.prems(1) obtain b bs where rs': "rs' = b # bs" by (cases rs') auto
  with Cons show ?case by (auto simp: find_row_def offer_identity_def split: if_splits)
qed (simp add: find_row_def)

text \<open>
  A reviewer who corrects a mapping to another store product after its offer exists does not
  move the offer: however many offer runs follow, the mapping's offer still names the product it
  was created for, which is the product the runs create, look up and budget under.
\<close>
theorem correction_leaves_the_old_offer:
  assumes "find_row (\<lambda>r. so_mapping_id r = i) (store_offers d) = Some r"
    and "approve R i (Some p) who remark w d = (Inr m, w1, d1)"
    and "((\<lambda>x. snd (sync_offers B x)) ^^ n) (w1, d1) = (w2, d2)"
  shows "pm_store_product_id m = Some p
    \<and> (\<exists>r'. find_row (\<lambda>r. so_mapping_id r = i) (store_offers d2) = Some r'
         \<and> so_id r' = so_id r \<and> so_product_ext_id r' = so_product_ext_id r)"
proof -
  have m: "pm_store_product_id m = Some p" and d1: "store_offers d1 = store_offers d"
    using assms(2)
    by (auto simp: approve_def take_override_def wbind_def wthen_def wread_def wret_def wraise_def wtime_def
        set_mapping_def wmodify_def wflush_def flush_def reviewed_def
        split: option.splits if_splits prod.splits sum.splits)
  have "named d (snd (((\<lambda>x. snd (sync_offers B x)) ^^ n) (w1, d1)))"
  proof (induction n)
    case 0
    show ?case by (simp add: d1)
  next
    case (Suc n)
    have "named d (snd x) \<Longrightarrow> named d (snd (snd (sync_offers B x)))" for x
      using named_offer_job[of d B] unfolding kept_by_def by blast
    with Suc show ?case by simp
  qed
  then have "prefix (map offer_identity (store_offers d)) (map offer_identity (store_offers d2))"
    unfolding assms(3) by simp
  from named_offer_found[OF this assms(1)] m show ?thesis by (auto simp: offer_identity_def)
qed

section \<open>The lifecycle on a concrete database\<close>

definition offered_db :: "mapping_status \<Rightarrow> database" where
  "offered_db st = (lone_db [other_mapping st])\<lparr>store_offers := [sample_offer (Some (lit ''o1''))]\<rparr>"

lemma offered_db_ok: "database_ok (offered_db st)"
  by (simp add: offered_db_def lone_db_def database_ok_def empty_database_def supplier_products_ok_def
      store_products_ok_def mappings_ok_def offers_ok_def idempotency_ok_def constraint_defs
      lone_sku_def other_mapping_def new_mapping_def)

lemma offered_db_row:
  "other_mapping st \<in> set (product_mappings (offered_db st))"
  "sample_offer (Some (lit ''o1'')) \<in> set (store_offers (offered_db st))"
  "off_sale (other_mapping REJECTED) (sample_offer (Some (lit ''o1'')))"
  by (simp_all add: offered_db_def lone_db_def off_sale_def other_mapping_def new_mapping_def sample_offer_def)


theorem rejected_offer_stays_on_sale_witness:
  "\<exists>jobs x0 jobs' w' d'. new_worker frozen (build_jobs sample_bridge) ((), offered_db REJECTED) = (jobs, x0)
     \<and> run_ticks frozen 1 50 jobs x0 = (jobs', w', d')
     \<and> sample_offer (Some (lit ''o1'')) \<in> set (store_offers d')"
proof -
  obtain jobs x0 where n: "new_worker frozen (build_jobs sample_bridge) ((), offered_db REJECTED) = (jobs, x0)"
    by (metis prod.collapse)
  obtain jobs' w' d' where r: "run_ticks frozen 1 50 jobs x0 = (jobs', w', d')" by (metis prod.collapse)
  from rejected_offer_stays_on_sale[OF frozen_beside offered_db_ok offered_db_row n r] n r
  show ?thesis by blast
qed

theorem correction_leaves_the_old_offer_witness:
  "\<exists>m d1 w2 d2. approve still_clock 1 (Some 8) (lit ''ops'') None () (offered_db APPROVED) = (Inr m, (), d1)
     \<and> ((\<lambda>x. snd (sync_offers sample_bridge x)) ^^ 10) ((), d1) = (w2, d2)
     \<and> pm_store_product_id m = Some 8
     \<and> (\<exists>r'. find_row (\<lambda>r. so_mapping_id r = 1) (store_offers d2) = Some r' \<and> so_product_ext_id r' = lit ''10'')"
proof -
  let ?r = "sample_offer (Some (lit ''o1''))"
  have f: "find_row (\<lambda>r. so_mapping_id r = 1) (store_offers (offered_db APPROVED)) = Some ?r"
    by (simp add: offered_db_def find_row_def sample_offer_def)
  have t: "so_product_ext_id ?r = lit ''10''" by (simp add: sample_offer_def)
  have i: "mapping_by_id 1 (offered_db APPROVED) = Some (other_mapping APPROVED)"
    by (simp add: mapping_by_id_def find_row_def offered_db_def lone_db_def other_mapping_def new_mapping_def)
  have "\<not> holds_product (offered_db APPROVED) (other_mapping APPROVED) 8 x" for x
    by (auto simp: holds_product_def offered_db_def lone_db_def other_mapping_def new_mapping_def)
  then obtain m where a: "approve still_clock 1 (Some 8) (lit ''ops'') None () (offered_db APPROVED)
      = (Inr m, (), mappings_put (offered_db APPROVED) m)"
    using approve_confirms_or_refuses[OF offered_db_ok i, of "Some 8" still_clock "lit ''ops''" None "()"]
    by (auto simp: approval_target_def)
  obtain w2 d2 where s: "((\<lambda>x. snd (sync_offers sample_bridge x)) ^^ 10) ((), mappings_put (offered_db APPROVED) m)
      = (w2, d2)" by (metis prod.collapse)
  from correction_leaves_the_old_offer[OF f a s] t a s show ?thesis by auto
qed

end
