(* ===== verification/Review_Race.thy ===== *)
theory Review_Race
  imports Match_Run
begin

text \<open>
  A matching run and the reviews that are made while it is under way. The scheduler holds one
  transaction for a whole run; \<open>approve\<close> and \<open>reject\<close> of \<open>app/services/matching.py\<close>, called by the admin API
  and the console, run in transactions of their own, between any two statements of the run. The
  lemmas tell which reviews a run can never undo and what is left of the others.
\<close>

section \<open>Rows in a unit of work\<close>

text \<open>
  \<open>W loaded new current\<close> is the row a flush leaves in the table: \<open>loaded\<close> is the row as the unit of work
  read it, \<open>new\<close> what the code made of it and \<open>current\<close> the row as it is in the table by then. The
  ORM sets the columns the code changed and no others, and no column of the table is a version.
\<close>

type_synonym row_write = "product_mapping \<Rightarrow> product_mapping \<Rightarrow> product_mapping \<Rightarrow> product_mapping"

definition sets_if_changed :: "(product_mapping \<Rightarrow> 'a) \<Rightarrow> row_write \<Rightarrow> bool" where
  "sets_if_changed f W \<longleftrightarrow>
     (\<forall>loaded new current. f (W loaded new current) = (if f new = f loaded then f current else f new))"

definition writes_changes :: "row_write \<Rightarrow> bool" where
  "writes_changes W \<longleftrightarrow>
     sets_if_changed pm_id W \<and> sets_if_changed pm_supplier_product_id W \<and> sets_if_changed pm_store_code W
     \<and> sets_if_changed pm_store_product_id W \<and> sets_if_changed pm_status W \<and> sets_if_changed pm_score W
     \<and> sets_if_changed pm_method W \<and> sets_if_changed pm_candidates W
     \<and> sets_if_changed pm_markup_percent_override W \<and> sets_if_changed pm_fixed_price_override W
     \<and> sets_if_changed pm_sync_enabled W \<and> sets_if_changed pm_reviewed_by W
     \<and> sets_if_changed pm_reviewed_at W \<and> sets_if_changed pm_note W"

definition changed_columns :: row_write where
  "changed_columns l n c =
     \<lparr>pm_id = if pm_id n = pm_id l then pm_id c else pm_id n,
      pm_supplier_product_id = if pm_supplier_product_id n = pm_supplier_product_id l
        then pm_supplier_product_id c else pm_supplier_product_id n,
      pm_store_code = if pm_store_code n = pm_store_code l then pm_store_code c else pm_store_code n,
      pm_store_product_id = if pm_store_product_id n = pm_store_product_id l
        then pm_store_product_id c else pm_store_product_id n,
      pm_status = if pm_status n = pm_status l then pm_status c else pm_status n,
      pm_score = if pm_score n = pm_score l then pm_score c else pm_score n,
      pm_method = if pm_method n = pm_method l then pm_method c else pm_method n,
      pm_candidates = if pm_candidates n = pm_candidates l then pm_candidates c else pm_candidates n,
      pm_markup_percent_override = if pm_markup_percent_override n = pm_markup_percent_override l
        then pm_markup_percent_override c else pm_markup_percent_override n,
      pm_fixed_price_override = if pm_fixed_price_override n = pm_fixed_price_override l
        then pm_fixed_price_override c else pm_fixed_price_override n,
      pm_sync_enabled = if pm_sync_enabled n = pm_sync_enabled l then pm_sync_enabled c else pm_sync_enabled n,
      pm_reviewed_by = if pm_reviewed_by n = pm_reviewed_by l then pm_reviewed_by c else pm_reviewed_by n,
      pm_reviewed_at = if pm_reviewed_at n = pm_reviewed_at l then pm_reviewed_at c else pm_reviewed_at n,
      pm_note = if pm_note n = pm_note l then pm_note c else pm_note n\<rparr>"

lemma changed_columns_writes: "writes_changes changed_columns"
  by (simp add: writes_changes_def sets_if_changed_def changed_columns_def)

lemma decided_write:
  assumes "writes_changes W"
  shows "pm_id (W m (decided out m) c) = pm_id c"
    "pm_supplier_product_id (W m (decided out m) c) = pm_supplier_product_id c"
    "pm_store_code (W m (decided out m) c) = pm_store_code c"
    "pm_status (W m (decided out m) c) = (if mo_status out = pm_status m then pm_status c else mo_status out)"
    "pm_store_product_id (W m (decided out m) c) =
      (if map_option cd_store_product_id (mo_best out) = pm_store_product_id m
       then pm_store_product_id c else map_option cd_store_product_id (mo_best out))"
    "pm_markup_percent_override (W m (decided out m) c) = pm_markup_percent_override c"
    "pm_fixed_price_override (W m (decided out m) c) = pm_fixed_price_override c"
    "pm_sync_enabled (W m (decided out m) c) = pm_sync_enabled c"
    "pm_reviewed_by (W m (decided out m) c) = pm_reviewed_by c"
    "pm_reviewed_at (W m (decided out m) c) = pm_reviewed_at c"
    "pm_note (W m (decided out m) c) = pm_note c"
  using assms by (auto simp: writes_changes_def sets_if_changed_def decided_def)

section \<open>Reviews beside a run\<close>

datatype verdict = Approve "nat option" | Reject

fun review :: "'w runtime \<Rightarrow> nat \<Rightarrow> verdict \<Rightarrow> ustr \<Rightarrow> ustr option \<Rightarrow> ('w, product_mapping) work" where
  "review R i (Approve override) who remark = approve R i override who remark"
| "review R i Reject who remark = reject R i who remark"

fun verdict_status :: "verdict \<Rightarrow> mapping_status" where
  "verdict_status (Approve override) = APPROVED"
| "verdict_status Reject = REJECTED"

text \<open>
  What happens between the start of the run and its end: the run reads a mapping in \<open>apply\<close>, it
  flushes the mapping with an outcome, somebody reviews a mapping in a world of their own, the
  run commits or is rolled back.
\<close>

datatype 'w race_event =
    Loads nat
  | Writes nat match_outcome
  | Reviews 'w nat verdict ustr "ustr option"
  | Commits
  | RollsBack

text \<open>
  \<open>rc_db\<close> is what is committed, \<open>rc_loaded\<close> the rows as the run has read them, \<open>rc_pending\<close> the rows
  it has flushed: they are locked until it ends.
\<close>

record race =
  rc_db :: database
  rc_loaded :: "nat \<Rightarrow> product_mapping option"
  rc_pending :: "nat \<Rightarrow> product_mapping option"
  rc_over :: bool

definition flushed :: "(nat \<Rightarrow> product_mapping option) \<Rightarrow> database \<Rightarrow> database" where
  "flushed pending d =
     d\<lparr>product_mappings := map (\<lambda>m. case pending (pm_id m) of None \<Rightarrow> m | Some r \<Rightarrow> r) (product_mappings d)\<rparr>"

text \<open>\<open>None\<close>: the event cannot happen now. A review of a locked row waits for the run to end.\<close>

fun race_step :: "row_write \<Rightarrow> 'w runtime \<Rightarrow> 'w race_event \<Rightarrow> race \<Rightarrow> race option" where
  "race_step W R (Loads i) s =
     (if rc_over s \<or> rc_loaded s i \<noteq> None then None
      else map_option (\<lambda>m. s\<lparr>rc_loaded := (rc_loaded s)(i \<mapsto> m)\<rparr>) (mapping_by_id i (rc_db s)))"
| "race_step W R (Writes i out) s =
     (case (rc_loaded s i, mapping_by_id i (rc_db s)) of
        (Some m, Some current) \<Rightarrow>
          if rc_over s \<or> rc_pending s i \<noteq> None \<or> pm_status m \<in> {APPROVED, REJECTED} then None
          else Some (s\<lparr>rc_pending := (rc_pending s)(i \<mapsto> W m (decided out m) current)\<rparr>)
      | _ \<Rightarrow> None)"
| "race_step W R (Reviews w i v who remark) s =
     (if rc_pending s i \<noteq> None then None
      else Some (s\<lparr>rc_db := snd (snd (session_scope (review R i v who remark) w (rc_db s)))\<rparr>))"
| "race_step W R Commits s =
     (if rc_over s \<or> \<not> database_ok (flushed (rc_pending s) (rc_db s)) then None
      else Some (s\<lparr>rc_db := flushed (rc_pending s) (rc_db s), rc_pending := Map.empty, rc_over := True\<rparr>))"
| "race_step W R RollsBack s =
     (if rc_over s then None else Some (s\<lparr>rc_pending := Map.empty, rc_over := True\<rparr>))"

fun race_run :: "row_write \<Rightarrow> 'w runtime \<Rightarrow> 'w race_event list \<Rightarrow> race \<Rightarrow> race option" where
  "race_run W R [] s = Some s"
| "race_run W R (e # es) s = (case race_step W R e s of None \<Rightarrow> None | Some s' \<Rightarrow> race_run W R es s')"

definition run_begins :: "database \<Rightarrow> race" where
  "run_begins d = \<lparr>rc_db = d, rc_loaded = Map.empty, rc_pending = Map.empty, rc_over = False\<rparr>"

fun reviews_of :: "nat \<Rightarrow> 'w race_event \<Rightarrow> bool" where
  "reviews_of i (Reviews w j v who remark) \<longleftrightarrow> j = i"
| "reviews_of i e \<longleftrightarrow> False"

section \<open>What a review changes\<close>

lemma mapping_by_id_put:
  "mapping_by_id j (mappings_put d r)
    = (case mapping_by_id j d of None \<Rightarrow> None | Some x \<Rightarrow> Some (if pm_id r = j then r else x))"
  by (simp add: mapping_by_id_def find_put_row)

lemma approve_success:
  assumes "approve R i override who remark w d = (Inr m', w', d')"
  shows "\<exists>m. mapping_by_id i d = Some m \<and> d' = mappings_put d m'
    \<and> m' = (reviewed APPROVED who (utcnow R w) remark m)
        \<lparr>pm_store_product_id := (case override of None \<Rightarrow> pm_store_product_id m | Some p \<Rightarrow> Some p)\<rparr>"
  using assms
  by (auto simp: approve_def take_override_def wbind_def wthen_def wread_def wret_def wraise_def wtime_def
      set_mapping_def wmodify_def wflush_def flush_def reviewed_def
      split: option.splits if_splits prod.splits sum.splits)

lemma reject_success:
  assumes "reject R i who remark w d = (Inr m', w', d')"
  shows "\<exists>m. mapping_by_id i d = Some m \<and> d' = mappings_put d m'
    \<and> m' = reviewed REJECTED who (utcnow R w) remark m"
  using assms
  by (auto simp: reject_def wbind_def wthen_def wread_def wret_def wraise_def wtime_def
      set_mapping_def wmodify_def wflush_def flush_def split: option.splits if_splits)

text \<open>A review that commits replaces one row, which keeps everything but the columns of a review.\<close>

lemma review_success:
  assumes "session_scope (review R i v who remark) w d = (Inr m', w', d')"
  shows "\<exists>m. mapping_by_id i d = Some m \<and> d' = mappings_put d m' \<and> database_ok d'
    \<and> m' = (reviewed (verdict_status v) who (utcnow R w) remark m)
        \<lparr>pm_store_product_id :=
           (case v of Approve (Some p) \<Rightarrow> Some p | _ \<Rightarrow> pm_store_product_id m)\<rparr>"
proof -
  note r = session_scope_success[OF assms]
  show ?thesis
  proof (cases v)
    case (Approve override)
    with r have "approve R i override who remark w d = (Inr m', w', d')" by simp
    from approve_success[OF this] r Approve show ?thesis by (auto split: option.splits)
  next
    case Reject
    with r have "reject R i who remark w d = (Inr m', w', d')" by simp
    from reject_success[OF this] r Reject show ?thesis by (auto simp: reviewed_def)
  qed
qed

lemma review_row:
  assumes "mapping_by_id i d = Some m" "database_ok d"
  shows "\<exists>m'. mapping_by_id i (snd (snd (session_scope (review R j v who remark) w d))) = Some m'
    \<and> (j \<noteq> i \<longrightarrow> m' = m) \<and> (pm_status m \<in> {APPROVED, REJECTED} \<longrightarrow> pm_status m' \<in> {APPROVED, REJECTED})
    \<and> database_ok (snd (snd (session_scope (review R j v who remark) w d)))"
proof -
  obtain x w' d' where run: "session_scope (review R j v who remark) w d = (x, w', d')" by (rule prod_cases3)
  show ?thesis
  proof (cases x)
    case (Inl e)
    with run have "d' = d" by (blast dest: session_scope_error)
    with run assms show ?thesis by simp
  next
    case (Inr m')
    from review_success[OF run[unfolded Inr]] obtain m0 where m0: "mapping_by_id j d = Some m0"
      "d' = mappings_put d m'" "database_ok d'" "pm_id m' = pm_id m0" "pm_status m' = verdict_status v"
      by (auto simp: reviewed_def)
    have "pm_id m' = j" using m0(1,4) mapping_by_id_Some[OF m0(1)] by simp
    moreover have "verdict_status v \<in> {APPROVED, REJECTED}" by (cases v) auto
    ultimately show ?thesis using run m0 assms by (auto simp: mapping_by_id_put)
  qed
qed

section \<open>Reviews a run cannot undo\<close>

definition out_of_reach :: "nat \<Rightarrow> race \<Rightarrow> bool" where
  "out_of_reach i s \<longleftrightarrow>
     rc_pending s i = None
     \<and> (rc_over s \<or> rc_loaded s i = None \<or> (\<exists>m. rc_loaded s i = Some m \<and> pm_status m \<in> {APPROVED, REJECTED}))"

definition race_ok :: "race \<Rightarrow> bool" where
  "race_ok s \<longleftrightarrow> database_ok (rc_db s) \<and> (\<forall>j r. rc_pending s j = Some r \<longrightarrow> pm_id r = j)"

lemma find_mapped_row:
  assumes "\<And>x. pk (f x) = pk x"
  shows "find_row (\<lambda>x. pk x = j) (map f rows) = map_option f (find_row (\<lambda>x. pk x = j) rows)"
  by (induction rows) (auto simp: find_row_def assms)

lemma mapping_by_id_flushed:
  assumes "\<forall>j r. pending j = Some r \<longrightarrow> pm_id r = j"
  shows "mapping_by_id i (flushed pending d)
    = map_option (\<lambda>m. case pending i of None \<Rightarrow> m | Some r \<Rightarrow> r) (mapping_by_id i d)"
proof -
  have "pm_id (case pending (pm_id m) of None \<Rightarrow> m | Some r \<Rightarrow> r) = pm_id m" for m
    using assms by (auto split: option.split)
  from find_mapped_row[of pm_id, OF this] show ?thesis
    by (cases "mapping_by_id i d") (auto simp: mapping_by_id_def flushed_def dest!: find_row_Some)
qed

lemma race_step_ok:
  assumes "writes_changes W" "race_ok s" "race_step W R e s = Some s'"
  shows "race_ok s'"
proof (cases e)
  case (Reviews w i v who remark)
  then have "rc_db s' = snd (snd (session_scope (review R i v who remark) w (rc_db s)))"
    "rc_pending s' = rc_pending s" using assms(3) by (auto split: if_splits)
  then show ?thesis
    using assms(2) session_scope_keeps_constraints[of "rc_db s"] unfolding race_ok_def by (metis prod.collapse)
qed (use assms in \<open>auto simp: race_ok_def decided_write dest!: mapping_by_id_Some
    split: if_splits option.splits\<close>)

lemma race_step_out_of_reach:
  assumes "writes_changes W" "race_ok s" "race_step W R e s = Some s'" "out_of_reach i s"
    and m: "mapping_by_id i (rc_db s) = Some m" "pm_status m \<in> {APPROVED, REJECTED}"
  shows "out_of_reach i s' \<and> (\<exists>m'. mapping_by_id i (rc_db s') = Some m'
    \<and> pm_status m' \<in> {APPROVED, REJECTED} \<and> (\<not> reviews_of i e \<longrightarrow> m' = m))"
proof (cases e)
  case (Reviews w j v who remark)
  then have s': "s' = s\<lparr>rc_db := snd (snd (session_scope (review R j v who remark) w (rc_db s)))\<rparr>"
    using assms(3) by (auto split: if_splits)
  from review_row[OF m(1), of R j v who remark w] assms(2,4) m(2) Reviews show ?thesis
    unfolding s' by (auto simp: race_ok_def out_of_reach_def)
next
  case Commits
  then show ?thesis using assms m(2) mapping_by_id_flushed[of "rc_pending s" i "rc_db s"]
    by (auto simp: out_of_reach_def race_ok_def split: if_splits)
qed (use assms in \<open>auto simp: out_of_reach_def split: if_splits option.splits\<close>)

text \<open>
  C4: A review is safe from a matching run that is under way when the run had not read the mapping
  yet, when the run had read it as reviewed before, or when the run is over: whatever the run
  and the other reviewers do afterwards, in whatever order, the mapping stays approved or rejected,
  and it stays exactly as it is until it is reviewed again.
\<close>
theorem settled_review_is_kept:
  assumes "writes_changes W" "race_ok s" "race_run W R es s = Some s'" "out_of_reach i s"
    and "mapping_by_id i (rc_db s) = Some m" "pm_status m \<in> {APPROVED, REJECTED}"
  shows "\<exists>m'. mapping_by_id i (rc_db s') = Some m' \<and> pm_status m' \<in> {APPROVED, REJECTED}
    \<and> ((\<exists>e \<in> set es. reviews_of i e) \<or> m' = m)"
  using assms(2-)
proof (induction es arbitrary: s m)
  case (Cons e es)
  from Cons.prems(2) obtain s1 where 1: "race_step W R e s = Some s1" "race_run W R es s1 = Some s'"
    by (auto split: option.splits)
  from race_step_out_of_reach[OF assms(1) Cons.prems(1) 1(1) Cons.prems(3-5)] obtain m1 where
    m1: "out_of_reach i s1" "mapping_by_id i (rc_db s1) = Some m1" "pm_status m1 \<in> {APPROVED, REJECTED}"
    "\<not> reviews_of i e \<longrightarrow> m1 = m" by blast
  from Cons.IH[OF race_step_ok[OF assms(1) Cons.prems(1) 1(1)] 1(2) m1(1-3)] m1(4) show ?case by auto
qed auto

section \<open>Reviews a run writes over\<close>

text \<open>
  C22: A review that falls between the moment the run reads the mapping and the moment it writes it
  is not safe. The run sets the columns its outcome changed: the status of the review survives
  only if the outcome leaves the status the run had read, and the store product only if the
  outcome leaves the product. The name of the reviewer and the pricing of the mapping survive.
\<close>
theorem review_in_the_window:
  assumes "writes_changes W" "database_ok d" "mapping_by_id i d = Some m"
    and "session_scope (review R i v who remark) w d = (Inr m1, w1, d1)"
    and "race_run W R [Loads i, Reviews w i v who remark, Writes i out, Commits] (run_begins d) = Some s'"
  shows "\<exists>m'. mapping_by_id i (rc_db s') = Some m'
    \<and> pm_status m' = (if mo_status out = pm_status m then verdict_status v else mo_status out)
    \<and> pm_store_product_id m' =
        (if map_option cd_store_product_id (mo_best out) = pm_store_product_id m then pm_store_product_id m1
         else map_option cd_store_product_id (mo_best out))
    \<and> pm_reviewed_by m' = Some who \<and> pm_sync_enabled m' = pm_sync_enabled m
    \<and> pm_fixed_price_override m' = pm_fixed_price_override m
    \<and> pm_markup_percent_override m' = pm_markup_percent_override m"
proof -
  from review_success[OF assms(4)] assms(3) have d1: "d1 = mappings_put d m1" and
    m1: "pm_status m1 = verdict_status v" "pm_reviewed_by m1 = Some who" "pm_id m1 = pm_id m"
    "pm_sync_enabled m1 = pm_sync_enabled m" "pm_fixed_price_override m1 = pm_fixed_price_override m"
    "pm_markup_percent_override m1 = pm_markup_percent_override m"
    by (auto simp: reviewed_def)
  have i: "pm_id m1 = i" using m1(3) mapping_by_id_Some[OF assms(3)] by simp
  then have cur: "mapping_by_id i d1 = Some m1" using assms(3) by (simp add: d1 mapping_by_id_put)
  let ?r = "W m (decided out m) m1"
  have "rc_db s' = flushed [i \<mapsto> ?r] d1"
    using assms(3-5) cur by (auto simp: run_begins_def split: if_splits)
  then have "mapping_by_id i (rc_db s') = Some ?r"
    using mapping_by_id_flushed[of "[i \<mapsto> ?r]" i d1] cur i decided_write(1)[OF assms(1), of m out m1] by simp
  then show ?thesis using m1 by (simp add: decided_write[OF assms(1)])
qed

section \<open>A lost rejection and an approval that moves\<close>

definition found_product :: "mapping_status \<Rightarrow> nat \<Rightarrow> match_outcome" where
  "found_product st p =
     \<lparr>mo_supplier_product_id = 2, mo_status = st,
      mo_best = Some \<lparr>cd_store_product_id = p, cd_product_ext_id = lit ''20'', cd_name = lit ''Hades'',
        cd_score = 1, cd_reasons = []\<rparr>,
      mo_candidates = [], mo_method = lit ''auto-title-v1''\<rparr>"

abbreviation pending_db :: database where
  "pending_db \<equiv> lone_db [other_mapping PENDING]"

definition overlapped :: "verdict \<Rightarrow> match_outcome \<Rightarrow> race option" where
  "overlapped v out = race_run changed_columns still_clock
     [Loads 1, Reviews () 1 v (lit ''ops'') None, Writes 1 out, Commits] (run_begins pending_db)"

lemma overlapped_runs:
  "overlapped Reject (found_product AUTO 8) \<noteq> None"
  "overlapped (Approve None) (found_product PENDING 8) \<noteq> None"
  by code_simp+

lemma review_commits:
  "v \<in> {Reject, Approve None} \<Longrightarrow>
    \<exists>m1 d1. session_scope (review still_clock 1 v (lit ''ops'') None) () pending_db = (Inr m1, (), d1)"
proof -
  have "isl (fst (session_scope (review still_clock 1 Reject (lit ''ops'') None) () pending_db)) = False"
    "isl (fst (session_scope (review still_clock 1 (Approve None) (lit ''ops'') None) () pending_db)) = False"
    by code_simp+
  moreover assume "v \<in> {Reject, Approve None}"
  ultimately have "isl (fst (session_scope (review still_clock 1 v (lit ''ops'') None) () pending_db)) = False"
    by auto
  then show ?thesis
    by (cases "session_scope (review still_clock 1 v (lit ''ops'') None) () pending_db"; cases "fst
      (session_scope (review still_clock 1 v (lit ''ops'') None) () pending_db)") auto
qed

lemma other_mapping_fields:
  "pm_status (other_mapping st) = st" "pm_store_product_id (other_mapping st) = Some 7"
  by (simp_all add: other_mapping_def)

lemma found_product_outcome:
  "mo_status (found_product st p) = st"
  "map_option cd_store_product_id (mo_best (found_product st p)) = Some p"
  by (simp_all add: found_product_def)

theorem settled_review_is_kept_witness:
  "\<exists>s' m'. race_run changed_columns (still_clock :: unit runtime) [Loads 1, Commits] (run_begins (lone_db [other_mapping REJECTED]))
      = Some s' \<and> mapping_by_id 1 (rc_db s') = Some m' \<and> m' = other_mapping REJECTED"
proof -
  let ?s = "run_begins (lone_db [other_mapping REJECTED])"
  have ok: "race_ok ?s" using lone_db_ok[of "[other_mapping REJECTED]" REJECTED]
    by (simp add: race_ok_def run_begins_def)
  have out: "out_of_reach 1 ?s" by (simp add: out_of_reach_def run_begins_def)
  have m: "mapping_by_id 1 (rc_db ?s) = Some (other_mapping REJECTED)" "pm_status (other_mapping REJECTED) \<in> {APPROVED, REJECTED}"
    by (simp_all add: run_begins_def mapping_by_id_def find_row_def lone_db_def other_mapping_def new_mapping_def)
  have "race_run changed_columns (still_clock :: unit runtime) [Loads 1, Commits] ?s \<noteq> None" by code_simp
  then obtain s' where r: "race_run changed_columns (still_clock :: unit runtime) [Loads 1, Commits] ?s = Some s'" by auto
  from settled_review_is_kept[OF changed_columns_writes ok r out m]
  have "mapping_by_id 1 (rc_db s') = Some (other_mapping REJECTED)" by simp
  with r show ?thesis by blast
qed

theorem review_in_the_window_witness:
  "(\<exists>s m. overlapped Reject (found_product AUTO 8) = Some s \<and> mapping_by_id 1 (rc_db s) = Some m
      \<and> pm_status m = AUTO \<and> pm_store_product_id m = Some 8 \<and> pm_reviewed_by m = Some (lit ''ops''))
   \<and> (\<exists>s m. overlapped (Approve None) (found_product PENDING 8) = Some s \<and> mapping_by_id 1 (rc_db s) = Some m
      \<and> pm_status m = APPROVED \<and> pm_store_product_id m = Some 8)"
proof -
  have ok: "database_ok pending_db" using lone_db_ok[of "[other_mapping PENDING]" PENDING] by simp
  have m: "mapping_by_id 1 pending_db = Some (other_mapping PENDING)"
    by (simp add: mapping_by_id_def find_row_def lone_db_def other_mapping_def new_mapping_def)
  obtain s1 s2 where s: "overlapped Reject (found_product AUTO 8) = Some s1"
    "overlapped (Approve None) (found_product PENDING 8) = Some s2" using overlapped_runs(1,2) by auto
  obtain m1 d1 where r1:
    "session_scope (review still_clock 1 Reject (lit ''ops'') None) () pending_db = (Inr m1, (), d1)"
    using review_commits[of Reject] by auto
  obtain m2 d2 where r2:
    "session_scope (review still_clock 1 (Approve None) (lit ''ops'') None) () pending_db = (Inr m2, (), d2)"
    using review_commits[of "Approve None"] by auto
  note w = review_in_the_window[OF changed_columns_writes ok m]
  obtain m1' where 1: "mapping_by_id 1 (rc_db s1) = Some m1'" "pm_status m1' = AUTO"
    "pm_store_product_id m1' = Some 8" "pm_reviewed_by m1' = Some (lit ''ops'')"
    using w[OF r1 s(1)[unfolded overlapped_def]] unfolding found_product_outcome other_mapping_fields
    by auto
  obtain m2' where 2: "mapping_by_id 1 (rc_db s2) = Some m2'" "pm_status m2' = APPROVED"
    "pm_store_product_id m2' = Some 8"
    using w[OF r2 s(2)[unfolded overlapped_def]] unfolding found_product_outcome other_mapping_fields
    by auto
  show ?thesis using s 1 2 by blast
qed

end
