(* ===== verification/Price_Log.thy ===== *)
theory Price_Log
  imports Offer_Run Match_Run
begin

text \<open>
  The log of price changes over whole runs of \<open>OfferSync.run\<close>: which changes a run can record, and what
  two runs under way at the same time, the worker's and one started from the console, do to the
  hourly budget of a product.
\<close>

section \<open>The product a mapping is sold as\<close>

text \<open>The product of the offer the mapping has; a mapping without one gets it for its store product.\<close>

definition sold_as :: "database \<Rightarrow> product_mapping \<times> supplier_product \<times> store_product \<Rightarrow> ustr" where
  "sold_as d row =
     (case row of (m, sp, st) \<Rightarrow>
        case find_row (\<lambda>r. so_mapping_id r = pm_id m) (store_offers d) of
          Some r \<Rightarrow> so_product_ext_id r
        | None \<Rightarrow> st_product_ext_id st)"

text \<open>What one step of the run appends to the log.\<close>

definition logs_at_most :: "ustr \<Rightarrow> ustr \<Rightarrow> database \<Rightarrow> database \<Rightarrow> bool" where
  "logs_at_most store product d d' \<longleftrightarrow>
     (\<exists>news. price_changes d' = price_changes d @ news
        \<and> (news = [] \<or> (\<exists>c. news = [c] \<and> pc_store_code c = store \<and> pc_product_ext_id c = product)))"

text \<open>The offers of one mapping.\<close>

definition offers_of :: "nat \<Rightarrow> database \<Rightarrow> store_offer list" where
  "offers_of k d = filter (\<lambda>r. so_mapping_id r = k) (store_offers d)"

lemma find_filter: "find_row P rs = (case filter P rs of [] \<Rightarrow> None | r # _ \<Rightarrow> Some r)"
  by (induction rs) (auto simp: find_row_def)

lemma sold_as_offers:
  "offers_of (pm_id m) d' = offers_of (pm_id m) d \<Longrightarrow> sold_as d' (m, sp, st) = sold_as d (m, sp, st)"
  unfolding sold_as_def offers_of_def prod.case find_filter by simp

text \<open>Offer \<open>i\<close> belongs to another mapping, and the offers of this one are left alone.\<close>

definition belongs_elsewhere :: "nat \<Rightarrow> nat \<Rightarrow> database \<Rightarrow> bool" where
  "belongs_elsewhere k i d \<longleftrightarrow> (\<forall>r \<in> set (store_offers d). so_id r = i \<longrightarrow> so_mapping_id r \<noteq> k)"

definition spares :: "nat \<Rightarrow> nat \<Rightarrow> database \<Rightarrow> database \<Rightarrow> bool" where
  "spares k i d d' \<longleftrightarrow>
     (belongs_elsewhere k i d \<longrightarrow> offers_of k d' = offers_of k d \<and> belongs_elsewhere k i d')"

abbreviation same_keys :: "database \<Rightarrow> database \<Rightarrow> bool" where
  "same_keys \<equiv> \<lambda>d d'. distinct (map so_id (store_offers d)) \<longrightarrow> distinct (map so_id (store_offers d'))"

lemma filtered_assign:
  assumes "keeps_identity f" "\<forall>r \<in> set rs. so_id r = i \<longrightarrow> so_mapping_id r \<noteq> k"
  shows "filter (\<lambda>r. so_mapping_id r = k) (map (\<lambda>r. if so_id r = i then f r else r) rs)
    = filter (\<lambda>r. so_mapping_id r = k) rs"
  using assms by (induction rs) (auto simp: keeps_identity_def offer_identity_def)

interpretation spares: offer_relation "spares k i" i for k i
proof
  show "preorder_on_db (spares k i)"
    by (auto simp: preorder_on_db_def reflp_def transp_def spares_def)
  fix f and d :: database
  assume f: "keeps_identity f"
  have "belongs_elsewhere k i (put_offer i f d)" if "belongs_elsewhere k i d"
    unfolding belongs_elsewhere_def
  proof (intro ballI impI)
    fix x
    assume "x \<in> set (store_offers (put_offer i f d))" "so_id x = i"
    then obtain r where r: "r \<in> set (store_offers d)" "x = (if so_id r = i then f r else r)"
      by (auto simp: put_offer_def)
    have same: "offer_identity (f r) = offer_identity r" using f by (simp add: keeps_identity_def)
    with r(2) \<open>so_id x = i\<close> have "so_id r = i" by (auto simp: offer_identity_def split: if_splits)
    with that r same show "so_mapping_id x \<noteq> k" by (simp add: belongs_elsewhere_def offer_identity_def)
  qed
  moreover have "offers_of k (put_offer i f d) = offers_of k d" if "belongs_elsewhere k i d"
    using filtered_assign[OF f that[unfolded belongs_elsewhere_def]] by (simp add: offers_of_def put_offer_def)
  ultimately show "spares k i d (put_offer i f d)" by (simp add: spares_def)
qed (auto simp: spares_def belongs_elsewhere_def offers_of_def budget_record_def)

interpretation same_keys: run_relation same_keys
proof
  show "preorder_on_db same_keys" by (rule preorder_keeps)
  show "same_keys d (put_offer i f d)" if "keeps_identity f" for d :: database and i f
  proof -
    have "map so_id (map (\<lambda>r. if so_id r = i then f r else r) (store_offers d)) = map so_id (store_offers d)"
      using that by (auto simp: keeps_identity_def offer_identity_def)
    then show ?thesis by (simp add: put_offer_def del: map_map)
  qed
  show "same_keys d d'" if "d' = d\<lparr>fx_rates := fx_rates d'\<rparr>" for d d' :: database
    using that by (cases d; cases d') simp
qed (auto simp: budget_record_def new_offer_def ignores_runs_def)

section \<open>One row of the run\<close>

lemma find_row_key:
  "distinct (map pk rows) \<Longrightarrow> r \<in> set rows \<Longrightarrow> find_row (\<lambda>x. pk x = pk r) rows = Some r"
  by (induction rows) (auto simp: find_row_def image_iff)

lemma find_row_appended:
  "k \<notin> pk ` set rows \<Longrightarrow> pk r = k \<Longrightarrow> find_row (\<lambda>x. pk x = k) (rows @ [r]) = Some r"
  by (induction rows) (auto simp: find_row_def)

lemma offer_row_sold_as:
  assumes "offer_row store m st w d = (Inr i, w', d')" "distinct (map so_id (store_offers d))"
  shows "\<exists>r. offer_at i d' = Some r \<and> so_product_ext_id r = sold_as d (m, sp, st)"
proof (cases "find_row (\<lambda>r. so_mapping_id r = pm_id m) (store_offers d)")
  case None
  have "fresh_id so_id (store_offers d) \<notin> so_id ` set (store_offers d)"
    using fresh_id_fresh[of _ "store_offers d" so_id] by (metis imageE)
  from find_row_appended[of _ so_id, OF this, of "new_offer _ store m st"] None assms(1)
  show ?thesis
    by (auto simp: offer_row_def wbind_def wthen_def wread_def wmodify_def wflush_def wret_def flush_def
        offer_at_def sold_as_def new_offer_def split: if_splits)
next
  case (Some r)
  with find_row_key[OF assms(2)] find_row_Some[OF Some] assms(1) show ?thesis
    by (auto simp: offer_row_def wbind_def wread_def wret_def offer_at_def sold_as_def)
qed

lemma logs_nothing: "price_changes d' = price_changes d \<Longrightarrow> logs_at_most store product d d'"
  by (simp add: logs_at_most_def)

lemma logs_at_most_cong:
  "price_changes d1 = price_changes d2 \<Longrightarrow> logs_at_most store product d1 d' = logs_at_most store product d2 d'"
  by (simp add: logs_at_most_def)

lemma sync_one_logs:
  assumes "sync_one R s A i de dry now w d = (x, w', d')" "offer_at i d = Some r"
  shows "logs_at_most (ad_code A) (so_product_ext_id r) d d'"
  using assms
proof (cases rule: sync_one_cases)
  case pushed
  then show ?thesis by (auto simp: push_post_def logged_def logs_at_most_def split: if_splits)
qed (auto simp: logs_at_most_def)

text \<open>A statement and what follows it, by the outcome of the statement.\<close>

lemma wbind_outcome:
  assumes "wbind m f w d = (x, w', d')"
  obtains (raised) e where "m w d = (Inl e, w', d')" "x = Inl e"
  | (returned) y w1 d1 where "m w d = (Inr y, w1, d1)" "f y w1 d1 = (x, w', d')"
  using assms by (cases "m w d"; cases "fst (m w d)") (auto simp: wbind_def)

lemma wthen_bump: "wthen (bump k n) m ws d = m (fst ws, stat_add k n (snd ws)) d"
  by (simp add: wthen_def wbind_def bump_def)

lemma offer_row_log: "steps (\<lambda>d d'. price_changes d' = price_changes d) (offer_row store m st)"
  unfolding offer_row_def by (intro step_intros preorder_field) simp

lemma offer_row_other:
  assumes "offer_row store m st w d = (x, w', d')" "distinct (map so_id (store_offers d))" "pm_id m \<noteq> k"
  shows "offers_of k d' = offers_of k d" "x = Inr i \<Longrightarrow> belongs_elsewhere k i d'"
proof -
  have "steps (\<lambda>d d'. offers_of k d' = offers_of k d) (offer_row store m st)"
    unfolding offer_row_def using assms(3)
    by (intro step_intros preorder_field) (simp add: offers_of_def new_offer_def)
  from stepsD[OF this assms(1)] show "offers_of k d' = offers_of k d" .
  assume x: "x = Inr i"
  show "belongs_elsewhere k i d'"
  proof (cases "find_row (\<lambda>r. so_mapping_id r = pm_id m) (store_offers d)")
    case None
    with assms(1,3) x fresh_id_fresh[of _ "store_offers d" so_id] show ?thesis
      by (auto simp: offer_row_def wbind_def wthen_def wread_def wmodify_def wflush_def wret_def flush_def
          belongs_elsewhere_def new_offer_def split: if_splits)
  next
    case (Some r)
    with assms(1) x have d: "d' = d" "i = so_id r" by (auto simp: offer_row_def wbind_def wread_def wret_def)
    have "r' = r" if "r' \<in> set (store_offers d)" "so_id r' = so_id r" for r'
      using that assms(2) find_row_Some[OF Some] by (metis distinct_map inj_onD)
    with find_row_Some[OF Some] assms(3) show ?thesis unfolding belongs_elsewhere_def d by metis
  qed
qed

lemma desired_keeps:
  "steps (\<lambda>d d'. price_changes d' = price_changes d \<and> store_offers d' = store_offers d)
     (desired_offer s (fx_rate_now R s False) m sp st)"
proof -
  let ?R = "\<lambda>d d'. price_changes d' = price_changes d \<and> store_offers d' = store_offers d"
  have p: "preorder_on_db ?R" by (intro preorder_conj preorder_field)
  have "steps ?R (compute s (fx_rate_now R s False) sp (Some m) (Some st))"
  proof (rule stepsI)
    fix w d x w' d'
    assume "compute s (fx_rate_now R s False) sp (Some m) (Some st) w d = (x, w', d')"
    then have "d' = d\<lparr>fx_rates := fx_rates d'\<rparr>" by (rule live.compute_frame)
    then show "?R d d'" by (cases d; cases d') simp
  qed
  then show ?thesis unfolding desired_offer_def by (intro step_intros p)
qed

text \<open>
  One round of the loop: the price is computed, the row of the offer is found or made, the offer
  is pushed. It may end after each of them.
\<close>

abbreviation same_sale :: "database \<Rightarrow> database \<Rightarrow> bool" where
  "same_sale d d' \<equiv> price_changes d' = price_changes d \<and> store_offers d' = store_offers d"

lemma sync_row_outcome:
  assumes "sync_row R s (fx_rate_now R s False) A dry now (m, sp, st) u ws d = (x, ws', d')"
  obtains (unpriced) "same_sale d d'"
  | (no_row) w1 d1 e where "same_sale d d1" "offer_row (ad_code A) m st w1 d1 = (Inl e, fst ws', d')"
  | (pushed) w1 d1 i w2 d2 de y where "same_sale d d1" "offer_row (ad_code A) m st w1 d1 = (Inr i, w2, d2)"
      "sync_one R s A i de dry now w2 d2 = (y, fst ws', d')"
proof -
  have p: "preorder_on_db same_sale" by (intro preorder_conj preorder_field)
  define price where "price = wtry (in_run (desired_offer s (fx_rate_now R s False) m sp st)) is_pricing_error
      (\<lambda>e. wthen (bump ''errors'' 1) (wraise e))"
  define push where "push de = wbind (in_run (offer_row (ad_code A) m st)) (\<lambda>i.
      wbind (in_run (sync_one R s A i de dry now)) (\<lambda>a. bump (action_name a) 1))" for de
  have price: "steps same_sale price"
    unfolding price_def by (intro steps_then steps_try steps_bump steps_in_run desired_keeps steps_pure p)
  have "wbind price push (fst ws, stat_add ''examined'' 1 (snd ws)) d = (x, ws', d')"
    using assms unfolding sync_row_def prod.case price_def[symmetric] push_def[symmetric] wthen_bump .
  then show ?thesis
  proof (cases rule: wbind_outcome)
    case (raised e)
    with stepsD[OF price] unpriced show ?thesis by blast
  next
    case (returned de ws1 d1)
    note d1 = stepsD[OF price returned(1)]
    from returned(2)[unfolded push_def] show ?thesis
    proof (cases rule: wbind_outcome)
      case (raised e)
      then have "offer_row (ad_code A) m st (fst ws1) d1 = (Inl e, fst ws', d')"
        by (auto simp: in_run_def split: prod.splits)
      from no_row[OF d1 this] show ?thesis .
    next
      case (returned i ws2 d2)
      from returned(1) have row: "offer_row (ad_code A) m st (fst ws1) d1 = (Inr i, fst ws2, d2)"
        by (auto simp: in_run_def split: prod.splits)
      obtain y where "sync_one R s A i de dry now (fst ws2) d2 = (y, fst ws', d')"
        using returned(2) by (auto simp: wbind_def in_run_def bump_def split: prod.splits sum.splits)
      from pushed[OF d1 row this] show ?thesis .
    qed
  qed
qed

lemma sync_row_logs:
  assumes "sync_row R s (fx_rate_now R s False) A dry now row u ws d = (x, ws', d')"
    and "distinct (map so_id (store_offers d))"
  shows "logs_at_most (ad_code A) (sold_as d row) d d'"
proof -
  obtain m sp st where row: "row = (m, sp, st)" by (cases row)
  from assms(1)[unfolded row] show ?thesis
  proof (cases rule: sync_row_outcome)
    case unpriced
    then show ?thesis by (simp add: logs_nothing)
  next
    case (no_row w1 d1 e)
    with stepsD[OF offer_row_log no_row(2)] show ?thesis by (simp add: logs_nothing)
  next
    case (pushed w1 d1 i w2 d2 de y)
    from offer_row_sold_as[OF pushed(2)] assms(2) pushed(1) obtain r where r: "offer_at i d2 = Some r"
      "so_product_ext_id r = sold_as d (m, sp, st)" by (auto simp: sold_as_def)
    from sync_one_logs[OF pushed(3) r(1)] r(2) stepsD[OF offer_row_log pushed(2)] pushed(1) show ?thesis
      unfolding row by (simp add: logs_at_most_def)
  qed
qed

lemma sync_row_other:
  assumes "sync_row R s (fx_rate_now R s False) A dry now row u ws d = (x, ws', d')"
    and "distinct (map so_id (store_offers d))" "pm_id (fst row) \<noteq> k"
  shows "offers_of k d' = offers_of k d"
proof -
  obtain m sp st where row: "row = (m, sp, st)" by (cases row)
  with assms(3) have k: "pm_id m \<noteq> k" by simp
  from assms(1)[unfolded row] show ?thesis
  proof (cases rule: sync_row_outcome)
    case unpriced
    then show ?thesis by (simp add: offers_of_def)
  next
    case (no_row w1 d1 e)
    with offer_row_other(1)[OF no_row(2) _ k] assms(2) show ?thesis by (simp add: offers_of_def)
  next
    case (pushed w1 d1 i w2 d2 de y)
    with assms(2) have "distinct (map so_id (store_offers d1))" by simp
    note other = offer_row_other[OF pushed(2) this k]
    from stepsD[OF spares.sync_one_kept pushed(3), of k] other(1) other(2)[OF refl] pushed(1)
    show ?thesis by (simp add: spares_def offers_of_def)
  qed
qed

section \<open>The rows of a run\<close>

text \<open>What a run, or a part of it, appends: at most one change per selected mapping, in their order.\<close>

definition logs_along :: "ustr \<Rightarrow> ustr list \<Rightarrow> database \<Rightarrow> database \<Rightarrow> bool" where
  "logs_along store products d d' \<longleftrightarrow>
     (\<exists>news. price_changes d' = price_changes d @ news \<and> subseq (map pc_product_ext_id news) products
        \<and> (\<forall>c \<in> set news. pc_store_code c = store))"

lemma logs_along_simps:
  "price_changes d' = price_changes d \<Longrightarrow> logs_along store products d d'"
  "logs_at_most store p d d' \<Longrightarrow> logs_along store (p # products) d d'"
  by (auto simp: logs_along_def logs_at_most_def)

lemma logs_along_Cons:
  assumes "logs_at_most store p d d1" "logs_along store products d1 d2"
  shows "logs_along store (p # products) d d2"
proof -
  from assms(2) obtain news where n: "price_changes d2 = price_changes d1 @ news"
    "subseq (map pc_product_ext_id news) products" "\<forall>c \<in> set news. pc_store_code c = store"
    unfolding logs_along_def by blast
  from assms(1) obtain first where f: "price_changes d1 = price_changes d @ first"
    "first = [] \<or> (\<exists>c. first = [c] \<and> pc_store_code c = store \<and> pc_product_ext_id c = p)"
    unfolding logs_at_most_def by blast
  from f n show ?thesis
    unfolding logs_along_def by (intro exI[of _ "first @ news"]) auto
qed

lemma rows_log:
  "wfold (sync_row R s (fx_rate_now R s False) A dry now) rows u ws d = (x, ws', d') \<Longrightarrow>
    distinct (map so_id (store_offers d)) \<Longrightarrow> distinct (map (\<lambda>row. pm_id (fst row)) rows) \<Longrightarrow>
    logs_along (ad_code A) (map (sold_as d) rows) d d'"
proof (induction rows arbitrary: u ws d)
  case Nil
  then show ?case by (auto simp: wret_def logs_along_simps)
next
  case (Cons row rows)
  from Cons.prems(1)[simplified] show ?case
  proof (cases rule: wbind_outcome)
    case (raised e)
    from sync_row_logs[OF this(1) Cons.prems(2)] show ?thesis by (simp add: logs_along_simps)
  next
    case (returned v ws1 d1)
    have "distinct (map so_id (store_offers d1))"
      using stepsD[OF same_keys.sync_row_kept returned(1)] Cons.prems(2) by blast
    from Cons.IH[OF returned(2) this] Cons.prems(3)
    have "logs_along (ad_code A) (map (sold_as d1) rows) d1 d'" by simp
    moreover have "map (sold_as d1) rows = map (sold_as d) rows"
    proof (rule map_cong[OF refl])
      fix other
      assume "other \<in> set rows"
      with Cons.prems(3) have "pm_id (fst row) \<noteq> pm_id (fst other)" by auto
      from sync_row_other[OF returned(1) Cons.prems(2) this] sold_as_offers[of "fst other" d1 d]
      show "sold_as d1 other = sold_as d other" by (cases other) simp
    qed
    ultimately show ?thesis
      using logs_along_Cons[OF sync_row_logs[OF returned(1) Cons.prems(2)]] by simp
  qed
qed

lemma length_concat_unique:
  assumes "distinct (map pk xs)" "\<And>x. x \<in> set xs \<Longrightarrow> P x \<Longrightarrow> pk x = k"
    and "\<And>x. length (g x) \<le> Suc 0"
  shows "length (concat (map (\<lambda>x. if P x then g x else []) xs)) \<le> Suc 0"
  using assms(1,2)
proof (induction xs)
  case (Cons x xs)
  show ?case
  proof (cases "P x")
    case True
    then have "\<not> P y" if "y \<in> set xs" for y using Cons.prems that by (auto simp: image_iff)
    then have rest: "concat (map (\<lambda>x. if P x then g x else []) xs) = []" by simp
    show ?thesis unfolding list.map concat.simps rest using True assms(3)[of x] by simp
  qed (use Cons in auto)
qed simp

lemma distinct_concat_keys:
  assumes "distinct (map pk xs)" "\<And>x. length (g x) \<le> Suc 0" "\<And>x y. y \<in> set (g x) \<Longrightarrow> key y = pk x"
  shows "distinct (map key (concat (map g xs)))"
  using assms(1)
proof (induction xs)
  case (Cons x xs)
  have "distinct (map key (g x))" using assms(2)[of x] by (cases "g x") auto
  with Cons show ?case using assms(3) by (fastforce simp: image_iff)
qed simp

lemma selected_once:
  assumes "database_ok d"
  shows "distinct (map (\<lambda>row. pm_id (fst row)) (syncable store limit d))"
proof -
  have k: "distinct (map pm_id (product_mappings d))" "distinct (map sp_id (supplier_products d))"
    "distinct (map st_id (store_products d))"
    using assms by (simp_all add: database_ok_def mappings_ok_def supplier_products_ok_def store_products_ok_def)
  have "distinct (map (\<lambda>row. pm_id (fst row)) (syncable store None d))"
    unfolding syncable_def Let_def option.case
  proof (rule distinct_concat_keys[OF k(1)])
    fix m
    have inner: "length (concat (map (\<lambda>st. if pm_store_product_id m = Some (st_id st) then [(m, sp, st)] else [])
        (store_products d))) \<le> Suc 0" for sp :: supplier_product
      by (rule length_concat_unique[OF k(3), of _ "the (pm_store_product_id m)"]) auto
    have "length (concat (map (\<lambda>sp. if sp_id sp = pm_supplier_product_id m \<and> sp_is_active sp
        then concat (map (\<lambda>st. if pm_store_product_id m = Some (st_id st) then [(m, sp, st)] else [])
          (store_products d)) else []) (supplier_products d))) \<le> Suc 0"
      by (rule length_concat_unique[OF k(2) _ inner]) auto
    then show "length (if pm_store_code m = store \<and> syncable_status (pm_status m) \<and> pm_sync_enabled m
      then concat (map (\<lambda>sp. if sp_id sp = pm_supplier_product_id m \<and> sp_is_active sp
        then concat (map (\<lambda>st. if pm_store_product_id m = Some (st_id st) then [(m, sp, st)] else [])
          (store_products d)) else []) (supplier_products d)) else []) \<le> Suc 0"
      by simp
  qed (auto split: if_splits)
  moreover have "syncable store limit d = (case limit of None \<Rightarrow> syncable store None d
      | Some n \<Rightarrow> if n = 0 then syncable store None d else take n (syncable store None d))"
    by (simp add: syncable_def Let_def split: option.split)
  ultimately show ?thesis by (auto simp: take_map[symmetric] split: option.splits)
qed

section \<open>A whole run\<close>

lemma with_run_body:
  assumes "with_run R kind body w d = (x, w', d')"
  obtains (unopened) "price_changes d' = price_changes d" "w' = w"
  | (body) r ws d1 where "body (w, []) (opened R kind w d) = (r, ws, d1)"
      "price_changes d' = price_changes d1" "w' = fst ws"
proof (cases "database_ok (opened R kind w d)")
  case True
  then have "open_run R kind w d = (Inr (fresh_id run_id (sync_runs d)), w, opened R kind w d)"
    by (simp add: open_run_def wbind_def wthen_def wtime_def wread_def wmodify_def wflush_def
        wret_def flush_def opened_def)
  moreover obtain r ws d1 where b: "body (w, []) (opened R kind w d) = (r, ws, d1)" by (rule prod_cases3)
  ultimately have "price_changes d' = price_changes d1 \<and> w' = fst ws"
    using assms by (auto simp: with_run_def wbind_def wthen_def wlift_def close_run_def wmodify_def
        wflush_def flush_def split: if_splits)
  with b body show ?thesis by blast
next
  case False
  with assms have "price_changes d' = price_changes d \<and> w' = w"
    by (auto simp: with_run_def wbind_def open_run_def wthen_def wtime_def wread_def wmodify_def wflush_def
        flush_def opened_def split: if_splits)
  with unopened show ?thesis by blast
qed

lemma opened_tables [simp]:
  "price_changes (opened R kind w d) = price_changes d" "store_offers (opened R kind w d) = store_offers d"
  "syncable store limit (opened R kind w d) = syncable store limit d"
  "sold_as (opened R kind w d) = sold_as d"
proof -
  show "price_changes (opened R kind w d) = price_changes d"
    and o: "store_offers (opened R kind w d) = store_offers d" by (simp_all add: opened_def)
  have "product_mappings (opened R kind w d) = product_mappings d"
    "supplier_products (opened R kind w d) = supplier_products d"
    "store_products (opened R kind w d) = store_products d" by (simp_all add: opened_def)
  then show "syncable store limit (opened R kind w d) = syncable store limit d"
    unfolding syncable_def by (simp only:)
  show "sold_as (opened R kind w d) = sold_as d" by (simp add: sold_as_def[abs_def] o)
qed

text \<open>The rows of a run, from the database its body starts with.\<close>

lemma offer_run_rows:
  assumes "run_offers R s fx A limit dry w d = (x, w', d')"
  obtains (unopened) "price_changes d' = price_changes d"
  | (rows) r ws d0 d1 where "price_changes d0 = price_changes d" "store_offers d0 = store_offers d"
      "sold_as d0 = sold_as d"
      "wfold (sync_row R s fx A dry (utcnow R w)) (syncable (ad_code A) limit d) () (w, []) d0 = (r, ws, d1)"
      "price_changes d' = price_changes d1" "w' = fst ws"
proof -
  let ?kind = "lit ''offers:'' @ ad_code A" and ?row = "sync_row R s fx A dry (utcnow R w)"
  let ?body = "wbind (wread (syncable (ad_code A) limit)) (\<lambda>rows. wthen (wfold ?row rows ())
      (wthen wflush (\<lambda>ws d. (Inr (snd ws), ws, d))))"
  from assms have "with_run R ?kind ?body w d = (x, w', d')"
    by (simp add: run_offers_def wbind_def wtime_def)
  then show ?thesis
  proof (cases rule: with_run_body)
    case (body r ws d1)
    let ?d0 = "opened R ?kind w d"
    obtain r2 ws2 d2 where f: "wfold ?row (syncable (ad_code A) limit d) () (w, []) ?d0 = (r2, ws2, d2)"
      by (rule prod_cases3)
    from body(1) f have "d1 = d2" "ws = ws2"
      by (auto simp: wbind_def wread_def wthen_def wflush_def flush_def split: sum.splits if_splits)
    with rows[OF _ _ _ f] body(2,3) show ?thesis by simp
  qed (rule unopened)
qed

text \<open>
  Over a whole run, completed or broken off, the log of price changes grows by at most one
  change for each mapping the run selected, in the order of the selection, under the product the
  mapping is sold as; nothing else is recorded. So a run changes the price of a product at most
  once, unless two of the selected mappings are sold as the same product.
\<close>
theorem run_records_each_mapping_once:
  assumes "database_ok d" "run_offers R s (fx_rate_now R s False) A limit dry w d = (x, w', d')"
  shows "\<exists>news. price_changes d' = price_changes d @ news
    \<and> subseq (map pc_product_ext_id news) (map (sold_as d) (syncable (ad_code A) limit d))
    \<and> (\<forall>c \<in> set news. pc_store_code c = ad_code A)"
proof -
  from assms(2) have "logs_along (ad_code A) (map (sold_as d) (syncable (ad_code A) limit d)) d d'"
  proof (cases rule: offer_run_rows)
    case unopened
    then show ?thesis by (rule logs_along_simps)
  next
    case (rows r ws d0 d1)
    have "distinct (map so_id (store_offers d0))"
      using assms(1) rows(2) by (simp add: database_ok_def offers_ok_def)
    from rows_log[OF rows(4) this selected_once[OF assms(1)]] rows(1,3,5) show ?thesis
      by (simp add: logs_along_def)
  qed
  then show ?thesis by (simp add: logs_along_def)
qed

section \<open>A run over one offer\<close>

definition sold_mapping :: product_mapping where
  "sold_mapping = (new_mapping g2a 1 1)\<lparr>pm_store_product_id := Some 7, pm_status := APPROVED\<rparr>"

definition sold_db :: database where
  "sold_db = (lone_db [sold_mapping])\<lparr>store_offers := [sample_offer (Some (lit ''o1''))]\<rparr>"

lemmas sold_defs = sold_db_def sold_mapping_def lone_db_def empty_database_def new_mapping_def
  lone_sku_def lone_product_def sample_offer_def

lemma sold_db_ok: "database_ok sold_db"
  by (simp add: sold_defs database_ok_def supplier_products_ok_def store_products_ok_def mappings_ok_def
      offers_ok_def idempotency_ok_def constraint_defs)

lemma sold_selection:
  "syncable g2a None sold_db = [(sold_mapping, lone_sku, lone_product)]"
  "sold_as sold_db (sold_mapping, lone_sku, lone_product) = lit ''10''"
  by (simp_all add: syncable_def Let_def sold_as_def find_row_def sold_defs syncable_status_def)

text \<open>The settings with a fixed exchange rate.\<close>

definition pinned :: settings where
  "pinned = default_settings\<lparr>fx_rate_usd_eur := Some 1\<rparr>"

theorem run_records_each_mapping_once_witness:
  "\<exists>x w' d' news. run_offers still_clock pinned (fx_rate_now still_clock pinned False)
       (sample_adapter (Inr done_job)) None False () sold_db = (x, w', d')
     \<and> price_changes d' = price_changes sold_db @ news
     \<and> subseq (map pc_product_ext_id news) [lit ''10'']"
proof -
  let ?A = "sample_adapter (Inr done_job)"
  obtain x w' d' where r: "run_offers still_clock pinned (fx_rate_now still_clock pinned False) ?A None False
      () sold_db = (x, w', d')" by (rule prod_cases3)
  have "ad_code ?A = g2a" by (simp add: sample_adapter_def g2a_def)
  with run_records_each_mapping_once[OF sold_db_ok r] r sold_selection show ?thesis by auto
qed

end
