(* ===== verification/Budget_Race.thy ===== *)
theory Budget_Race
  imports Price_Log
begin

text \<open>
  The hourly budget of price changes under concurrent offer runs. The budget is read from the log of
  committed changes; a run of the worker and one started from the console see neither of them what
  the other has recorded. The setting \<open>g2a_price_change_safety_margin\<close> is there for changes the log
  does not show: the lemmas show how far it reaches.
\<close>

section \<open>Time passes\<close>

text \<open>A unit of work during which the clock \<open>T\<close> of the world does not go back.\<close>

definition advances :: "('w \<Rightarrow> timestamp) \<Rightarrow> ('w, 'a) work \<Rightarrow> bool" where
  "advances T m \<longleftrightarrow> (\<forall>w d. T w \<le> T (fst (snd (m w d))))"

named_theorems clock_intros \<open>statements during which the clock does not go back\<close>

lemma advancesD: "advances T m \<Longrightarrow> m w d = (x, w', d') \<Longrightarrow> T w \<le> T w'"
  unfolding advances_def by (metis fst_conv snd_conv)

lemma advancesI: "(\<And>w d x w' d'. m w d = (x, w', d') \<Longrightarrow> T w \<le> T w') \<Longrightarrow> advances T m"
  unfolding advances_def by (metis prod.collapse)

lemma advances_pure [clock_intros]:
  "advances T (wret x)" "advances T (wraise e)" "advances T (wread f)" "advances T (wmodify g)"
  "advances T (wlift r)" "advances T wflush" "advances T (wtime c)"
  "advances T (get_offer i)" "advances T (set_offer i h)"
  by (auto simp: advances_def wret_def wraise_def wread_def wmodify_def wlift_def wflush_def wtime_def
      get_offer_def set_offer_def flush_def split: option.split)

lemma advances_call: "(\<And>w. T w \<le> T (snd (f w))) \<Longrightarrow> advances T (wcall f)"
  by (simp add: advances_def wcall_def Let_def split: prod.split) (metis snd_conv)

lemma advances_bind [clock_intros]:
  assumes "advances T m" "\<And>x. advances T (f x)"
  shows "advances T (wbind m f)"
proof (rule advancesI)
  fix w d x w' d'
  assume "wbind m f w d = (x, w', d')"
  then show "T w \<le> T w'"
  proof (cases rule: wbind_outcome)
    case (raised e)
    with advancesD[OF assms(1)] show ?thesis by blast
  next
    case (returned y w1 d1)
    from advancesD[OF assms(1) this(1)] advancesD[OF assms(2) this(2)] show ?thesis by simp
  qed
qed

lemma advances_then [clock_intros]: "advances T m \<Longrightarrow> advances T n \<Longrightarrow> advances T (wthen m n)"
  unfolding wthen_def by (rule advances_bind)

lemma advances_try [clock_intros]:
  assumes "advances T m" "\<And>e. advances T (h e)"
  shows "advances T (wtry m c h)"
proof (rule advancesI)
  fix w d x w' d'
  assume a: "wtry m c h w d = (x, w', d')"
  obtain y w1 d1 where m: "m w d = (y, w1, d1)" by (rule prod_cases3)
  note 1 = advancesD[OF assms(1) m]
  show "T w \<le> T w'"
  proof (cases "\<exists>e. y = Inl e \<and> c e")
    case True
    then obtain e where "y = Inl e" "c e" by blast
    with a m have "h e w1 d1 = (x, w', d')" by (simp add: wtry_def)
    from 1 advancesD[OF assms(2) this] show ?thesis by simp
  next
    case False
    with a m have "w1 = w'" by (auto simp: wtry_def split: sum.splits if_splits)
    with 1 show ?thesis by simp
  qed
qed

lemma advances_if [clock_intros]: "advances T m \<Longrightarrow> advances T n \<Longrightarrow> advances T (if b then m else n)"
  by simp

lemma advances_option [clock_intros]:
  "advances T m \<Longrightarrow> (\<And>x. advances T (f x)) \<Longrightarrow> advances T (case v of None \<Rightarrow> m | Some x \<Rightarrow> f x)"
  by (cases v) auto

lemma advances_fold [clock_intros]:
  "(\<And>x s. x \<in> set xs \<Longrightarrow> advances T (f x s)) \<Longrightarrow> advances T (wfold f xs s)"
  by (induction xs arbitrary: s) (auto intro!: clock_intros)

lemma advances_counted [clock_intros]:
  "advances T m \<Longrightarrow> advances (T \<circ> fst) (in_run m)" "advances (T \<circ> fst) (bump k n)"
  by (auto simp: advances_def in_run_def bump_def split: prod.split) (metis fst_conv snd_conv)

text \<open>The services: no call takes the clock back.\<close>

definition clock_forward :: "'w runtime \<Rightarrow> 'w store_adapter \<Rightarrow> bool" where
  "clock_forward R A \<longleftrightarrow>
     (\<forall>w. (\<forall>u. utcnow R w \<le> utcnow R (snd (http_get R u w)))
        \<and> (\<forall>p. utcnow R w \<le> utcnow R (snd (ad_offers_for_product A p w)))
        \<and> (\<forall>p x n b. utcnow R w \<le> utcnow R (snd (ad_create_offer A p x n b w)))
        \<and> (\<forall>e x n b. utcnow R w \<le> utcnow R (snd (ad_update_offer A e x n b w)))
        \<and> (\<forall>j. utcnow R w \<le> utcnow R (snd (ad_get_job A j w))))"

lemma clock_calls:
  assumes "clock_forward R A"
  shows "advances (utcnow R) (wcall (ad_offers_for_product A p))"
    "advances (utcnow R) (wcall (ad_create_offer A p x n b))"
    "advances (utcnow R) (wcall (ad_update_offer A e y k c))"
    "advances (utcnow R) (wcall (ad_get_job A j))"
  using assms by (auto simp: clock_forward_def intro!: advances_call)

lemma clock_sync_one:
  assumes "clock_forward R A"
  shows "advances (utcnow R) (sync_one R s A i de dry now)"
proof -
  note calls = clock_intros clock_calls[OF assms]
  have remote: "advances (utcnow R) (resolve_remote A i)"
    unfolding resolve_remote_def by (intro calls) (auto split: list.split intro!: calls)
  have resolve: "advances (utcnow R) (resolve_offer_id A i)"
    unfolding resolve_offer_id_def by (intro calls remote)
  have update: "advances (utcnow R) (update_offer_row R s A i de now pc sc ac)" for pc sc ac
    unfolding update_offer_row_def send_update_def remember_def record_change_def by (intro calls)
  have finish: "advances (utcnow R) (finish_create R A i de now)"
    unfolding finish_create_def remember_def record_change_def by (intro calls)
  have created: "advances (utcnow R) (created_job R A i de now job)" for job
    unfolding created_job_def by (intro calls resolve finish)
  have adopt: "advances (utcnow R) (adopt_conflict R s A i de now e)" for e
    unfolding adopt_conflict_def by (intro calls resolve update)
  have create: "advances (utcnow R) (create_offer_row R s A i de now)"
    unfolding create_offer_row_def
    by (intro calls adopt) (auto split: sum.split intro!: calls created)
  show ?thesis
    unfolding sync_one_def push_offer_def sync_failed_def Let_def
    by (intro calls resolve update create)
qed

lemma clock_rate:
  assumes "clock_forward R A"
  shows "advances (utcnow R) (fx_rate_now R s False)"
proof (rule advancesI)
  fix w d x w' d'
  have "utcnow R w \<le> utcnow R (snd (fx_fetch R s w))"
    using assms unfolding clock_forward_def fx_fetch_def
    by (auto split: prod.split sum.split) (metis snd_conv)+
  moreover assume "fx_rate_now R s False w d = (x, w', d')"
  then have "w' = w \<or> w' = snd (fx_fetch R s w)"
    by (auto simp: fx_rate_now_def Let_def split: option.splits if_splits prod.splits sum.splits)
  ultimately show "utcnow R w \<le> utcnow R w'" by auto
qed

lemma clock_sync_row:
  assumes "clock_forward R A"
  shows "advances (utcnow R \<circ> fst) (sync_row R s (fx_rate_now R s False) A dry now row u)"
proof -
  have "advances (utcnow R) (compute s (fx_rate_now R s False) sp m st)" for sp m st
  proof (rule advancesI)
    fix w d x w' d'
    assume "compute s (fx_rate_now R s False) sp m st w d = (x, w', d')"
    then have "w' = w \<or> (\<exists>y d1. fx_rate_now R s False w d = (y, w', d1))"
      by (auto simp: compute_def split: option.splits prod.splits sum.splits)
    then show "utcnow R w \<le> utcnow R w'" using advancesD[OF clock_rate[OF assms]] by auto
  qed
  then have "advances (utcnow R) (desired_offer s (fx_rate_now R s False) m sp st)" for m sp st
    unfolding desired_offer_def by (intro clock_intros)
  moreover have "advances (utcnow R) (offer_row store m st)" for store m st
    unfolding offer_row_def by (intro clock_intros)
  ultimately show ?thesis
    by (cases row) (auto simp: sync_row_def intro!: clock_intros clock_sync_one[OF assms])
qed

section \<open>What a recorded change was checked against\<close>

lemma sync_one_checked:
  assumes "sync_one R s A i de dry now w d = (x, w', d')" "offer_at i d = Some r" "so_offer_ext_id r \<noteq> None"
  shows "price_changes d' = price_changes d
    \<or> budget_allows (ad_code A) (effective_price_change_budget s) (so_product_ext_id r) (utcnow R w) d"
proof (cases "agreed r de \<or> dry")
  case True
  with assms(1,2) have "d' = d"
    by (auto simp: sync_one_def agreed_def get_offer_def wbind_def wret_def split: if_splits)
  then show ?thesis by simp
next
  case False
  then have n: "\<not> agreed r de" "\<not> dry" by auto
  from assms n show ?thesis
  proof (cases rule: sync_one_existing)
    case succeeded
    from False have "changed_by_price r de \<or> changed_by_stock r de \<or> changed_by_active r de"
      by (simp add: agreed_def)
    from wpD[OF update_offer_row_wp[OF assms(2) refl refl this] succeeded(1)]
    show ?thesis unfolding update_post_def by (auto simp: logged_def split: if_splits)
  qed auto
qed

text \<open>The store has the offer of the mapping: a push of it is an update, never a creation.\<close>

definition offered :: "database \<Rightarrow> product_mapping \<Rightarrow> bool" where
  "offered d m \<longleftrightarrow>
     (\<exists>r. find_row (\<lambda>r. so_mapping_id r = pm_id m) (store_offers d) = Some r \<and> so_offer_ext_id r \<noteq> None)"

lemma offered_offers: "offers_of (pm_id m) d' = offers_of (pm_id m) d \<Longrightarrow> offered d' m = offered d m"
  unfolding offered_def offers_of_def find_filter by simp

lemma sync_row_checked:
  assumes "sync_row R s (fx_rate_now R s False) A dry now row u ws d = (x, ws', d')"
    and "distinct (map so_id (store_offers d))" "offered d (fst row)"
    and "clock_forward R A" "utcnow R (fst ws') \<le> later"
  shows "price_changes d' = price_changes d
    \<or> int (budget_used (ad_code A) (sold_as d row) later d) < effective_price_change_budget s"
proof -
  obtain m sp st where row: "row = (m, sp, st)" by (cases row)
  from assms(3) row obtain r where r: "find_row (\<lambda>r. so_mapping_id r = pm_id m) (store_offers d) = Some r"
    "so_offer_ext_id r \<noteq> None" by (auto simp: offered_def)
  from assms(1)[unfolded row] show ?thesis
  proof (cases rule: sync_row_outcome)
    case (no_row w1 d1 e)
    with stepsD[OF offer_row_log no_row(2)] show ?thesis by simp
  next
    case (pushed w1 d1 i w2 d2 de y)
    then have d2: "d2 = d1" "i = so_id r" using r(1) by (auto simp: offer_row_def wbind_def wread_def wret_def)
    have "offer_at i d2 = Some r"
      using find_row_key[OF assms(2)] find_row_Some[OF r(1)] pushed(1) by (simp add: d2 offer_at_def)
    from sync_one_checked[OF pushed(3) this r(2)] show ?thesis
    proof
      assume "price_changes d' = price_changes d2"
      with pushed(1) show ?thesis by (simp add: d2)
    next
      assume "budget_allows (ad_code A) (effective_price_change_budget s) (so_product_ext_id r) (utcnow R w2) d2"
      moreover have "utcnow R w2 \<le> later"
        using advancesD[OF clock_sync_one[OF assms(4)] pushed(3)] assms(5) by simp
      moreover have "budget_used (ad_code A) p t d2 = budget_used (ad_code A) p t d" for p t
        using pushed(1) by (simp add: d2 budget_used_def)
      ultimately show ?thesis
        using log.used_later[of "utcnow R w2" later "ad_code A" "so_product_ext_id r" d] r(1)
        by (auto simp: budget_allows_def sold_as_def row)
    qed
  qed simp
qed

lemma subseq_members: "subseq xs ys \<Longrightarrow> x \<in> set xs \<Longrightarrow> x \<in> set ys"
  by (erule list_emb_set) auto

definition changes_of :: "ustr \<Rightarrow> price_change_log list \<Rightarrow> nat" where
  "changes_of p news = length (filter (\<lambda>c. pc_product_ext_id c = p) news)"

text \<open>
  \<open>checked\<close>: of product \<open>p\<close> at most one change was recorded, and that one was recorded with budget left.
\<close>

definition checked :: "settings \<Rightarrow> ustr \<Rightarrow> ustr \<Rightarrow> timestamp \<Rightarrow> database \<Rightarrow> database \<Rightarrow> bool" where
  "checked s store p later d d' \<longleftrightarrow>
     (\<exists>news. price_changes d' = price_changes d @ news \<and> changes_of p news \<le> 1
        \<and> (changes_of p news = 1 \<longrightarrow> int (budget_used store p later d) < effective_price_change_budget s))"

lemma changes_of_simps [simp]:
  "changes_of p [] = 0" "changes_of p (xs @ ys) = changes_of p xs + changes_of p ys"
  "changes_of p [c] = (if pc_product_ext_id c = p then 1 else 0)"
  by (simp_all add: changes_of_def)

lemma changes_of_absent: "p \<notin> pc_product_ext_id ` set news \<Longrightarrow> changes_of p news = 0"
  by (auto simp: changes_of_def filter_empty_conv)

lemma budget_used_other:
  "price_changes d' = price_changes d @ news \<Longrightarrow> changes_of p news = 0 \<Longrightarrow>
    budget_used store p t d' = budget_used store p t d"
  by (auto simp: budget_used_def changes_of_def filter_empty_conv)

text \<open>What one row of the selection records, and what that depends on.\<close>

definition row_checked ::
  "settings \<Rightarrow> ustr \<Rightarrow> ustr \<Rightarrow> timestamp \<Rightarrow> ustr \<Rightarrow> database \<Rightarrow> database \<Rightarrow> bool" where
  "row_checked s store p later sold d d' \<longleftrightarrow>
     (\<exists>news. price_changes d' = price_changes d @ news \<and> changes_of sold news \<le> 1
        \<and> (\<forall>q. q \<noteq> sold \<longrightarrow> changes_of q news = 0)
        \<and> (sold = p \<and> changes_of p news = 1
            \<longrightarrow> int (budget_used store p later d) < effective_price_change_budget s))"

lemma sync_row_row_checked:
  assumes "sync_row R s (fx_rate_now R s False) A dry now row () ws d = (y, ws1, d1)"
    and "distinct (map so_id (store_offers d))" "sold_as d row = p \<longrightarrow> offered d (fst row)"
    and "clock_forward R A" "utcnow R (fst ws1) \<le> later"
  shows "row_checked s (ad_code A) p later (sold_as d row) d d1"
proof -
  from sync_row_logs[OF assms(1,2)] obtain news where n: "price_changes d1 = price_changes d @ news"
    "news = [] \<or> (\<exists>c. news = [c] \<and> pc_product_ext_id c = sold_as d row)"
    unfolding logs_at_most_def by blast
  moreover have "int (budget_used (ad_code A) p later d) < effective_price_change_budget s"
    if "sold_as d row = p" "changes_of p news = 1"
  proof -
    have "offered d (fst row)" using assms(3) that(1) by simp
    from sync_row_checked[OF assms(1,2) this assms(4,5)] that n show ?thesis by auto
  qed
  ultimately show ?thesis unfolding row_checked_def by (intro exI[of _ news]) auto
qed

lemma row_checked_alone: "row_checked s store p later sold d d' \<Longrightarrow> checked s store p later d d'"
  by (cases "sold = p") (auto simp: row_checked_def checked_def)

text \<open>The row of the product itself, and then rows of other products.\<close>

lemma row_checked_then_absent:
  assumes "row_checked s store p later p d d1" "logs_along store sold d1 d'" "p \<notin> set sold"
  shows "checked s store p later d d'"
proof -
  from assms(2) obtain rest where rest: "price_changes d' = price_changes d1 @ rest"
    "subseq (map pc_product_ext_id rest) sold" unfolding logs_along_def by blast
  have "set (map pc_product_ext_id rest) \<subseteq> set sold" using subseq_members[OF rest(2)] by blast
  with assms(3) have "changes_of p rest = 0" by (intro changes_of_absent) auto
  moreover from assms(1) obtain news where "price_changes d1 = price_changes d @ news" "changes_of p news \<le> 1"
    "changes_of p news = 1 \<longrightarrow> int (budget_used store p later d) < effective_price_change_budget s"
    unfolding row_checked_def by auto
  ultimately show ?thesis using rest(1) unfolding checked_def by (intro exI[of _ "news @ rest"]) auto
qed

lemma other_row_then_checked:
  assumes "row_checked s store p later sold d d1" "sold \<noteq> p" "checked s store p later d1 d'"
  shows "checked s store p later d d'"
proof -
  from assms(1,2) obtain news where news: "price_changes d1 = price_changes d @ news" "changes_of p news = 0"
    unfolding row_checked_def by auto
  from assms(3) obtain rest where "price_changes d' = price_changes d1 @ rest" "changes_of p rest \<le> 1"
    "changes_of p rest = 1 \<longrightarrow> int (budget_used store p later d1) < effective_price_change_budget s"
    unfolding checked_def by blast
  with news budget_used_other[OF news] show ?thesis
    unfolding checked_def by (intro exI[of _ "news @ rest"]) simp
qed

lemma sync_row_others:
  assumes "sync_row R s (fx_rate_now R s False) A dry now row u ws d = (y, ws1, d1)"
    and "distinct (map so_id (store_offers d))" "other \<in> set rows"
    and "pm_id (fst row) \<notin> (\<lambda>row. pm_id (fst row)) ` set rows"
  shows "sold_as d1 other = sold_as d other \<and> offered d1 (fst other) = offered d (fst other)"
proof -
  from assms(3,4) have "pm_id (fst row) \<noteq> pm_id (fst other)" by auto
  from sync_row_other[OF assms(1,2) this] show ?thesis
    using sold_as_offers[of "fst other" d1 d] offered_offers[of "fst other" d1 d] by (cases other) simp
qed

lemma rows_checked:
  "wfold (sync_row R s (fx_rate_now R s False) A dry now) rows u ws d = (x, ws', d') \<Longrightarrow>
    distinct (map so_id (store_offers d)) \<Longrightarrow> distinct (map (\<lambda>row. pm_id (fst row)) rows) \<Longrightarrow>
    distinct (map (sold_as d) rows) \<Longrightarrow> \<forall>row \<in> set rows. sold_as d row = p \<longrightarrow> offered d (fst row) \<Longrightarrow>
    clock_forward R A \<Longrightarrow> utcnow R (fst ws') \<le> later \<Longrightarrow> checked s (ad_code A) p later d d'"
proof (induction rows arbitrary: u ws d)
  case Nil
  then show ?case by (auto simp: wret_def checked_def)
next
  case (Cons row rows)
  have off: "sold_as d row = p \<longrightarrow> offered d (fst row)" using Cons.prems(5) by simp
  note first = sync_row_row_checked[OF _ Cons.prems(2) off Cons.prems(6)]
  from Cons.prems(1)[simplified] show ?case
  proof (cases rule: wbind_outcome)
    case (raised e)
    from row_checked_alone[OF first[OF this(1) Cons.prems(7)]] show ?thesis .
  next
    case (returned v ws1 d1)
    have "utcnow R (fst ws1) \<le> utcnow R (fst ws')"
      using advancesD[OF advances_fold[OF clock_sync_row[OF Cons.prems(6)]] returned(2)] by simp
    with Cons.prems(7) have "utcnow R (fst ws1) \<le> later" by simp
    note row = first[OF returned(1) this]
    have keys: "distinct (map so_id (store_offers d1))"
      using stepsD[OF same_keys.sync_row_kept returned(1)] Cons.prems(2) by blast
    have same: "sold_as d1 other = sold_as d other \<and> offered d1 (fst other) = offered d (fst other)"
      if "other \<in> set rows" for other
      by (rule sync_row_others[OF returned(1) Cons.prems(2) that]) (use Cons.prems(3) in simp)
    then have sold: "map (sold_as d1) rows = map (sold_as d) rows" by simp
    show ?thesis
    proof (cases "sold_as d row = p")
      case True
      have "logs_along (ad_code A) (map (sold_as d) rows) d1 d'"
        using rows_log[OF returned(2) keys] Cons.prems(3) sold by simp
      moreover have "p \<notin> set (map (sold_as d) rows)" using Cons.prems(4) True by auto
      ultimately show ?thesis by (rule row_checked_then_absent[OF row[unfolded True]])
    next
      case False
      from Cons.IH[OF returned(2) keys _ _ _ Cons.prems(6,7)] Cons.prems(3-5) sold same
      have "checked s (ad_code A) p later d1 d'" by simp
      then show ?thesis by (rule other_row_then_checked[OF row False])
    qed
  qed
qed

section \<open>Runs in two processes\<close>

text \<open>The offers are on the store, and no two mappings are sold as one product.\<close>

definition settled_selection :: "ustr \<Rightarrow> database \<Rightarrow> bool" where
  "settled_selection store d \<longleftrightarrow>
     distinct (map (sold_as d) (syncable store None d))
     \<and> (\<forall>row \<in> set (syncable store None d). offered d (fst row))"

lemma limited_selection: "\<exists>n. syncable store limit d = take n (syncable store None d)"
proof -
  have "syncable store limit d = (case limit of None \<Rightarrow> syncable store None d
      | Some n \<Rightarrow> if n = 0 then syncable store None d else take n (syncable store None d))"
    by (simp add: syncable_def Let_def split: option.split)
  then show ?thesis
    by (cases limit) (auto intro: exI[of _ "length (syncable store None d)"] split: if_splits)
qed

lemma run_checked:
  assumes "database_ok d" "settled_selection (ad_code A) d" "clock_forward R A"
    and "run_offers R s (fx_rate_now R s False) A limit dry w d = (x, w', d')" "utcnow R w' \<le> later"
  shows "checked s (ad_code A) p later d d'"
proof -
  obtain n where n: "syncable (ad_code A) limit d = take n (syncable (ad_code A) None d)"
    using limited_selection by blast
  from assms(4) show ?thesis
  proof (cases rule: offer_run_rows)
    case (rows r ws d0 d1)
    have sel: "distinct (map (sold_as d0) (syncable (ad_code A) limit d))"
      "\<forall>row \<in> set (syncable (ad_code A) limit d). sold_as d0 row = p \<longrightarrow> offered d0 (fst row)"
      using assms(2) rows(2,3) unfolding settled_selection_def n take_map[symmetric]
      by (auto simp: offered_def take_map[symmetric] dest: in_set_takeD)
    have "distinct (map so_id (store_offers d0))"
      using assms(1) rows(2) by (simp add: database_ok_def offers_ok_def)
    from rows_checked[OF rows(4) this selected_once[OF assms(1)] sel assms(3)] assms(5) rows(1,5,6)
    show ?thesis by (simp add: checked_def budget_used_def)
  qed (simp add: checked_def)
qed

text \<open>The log when both transactions have committed: each has inserted what it recorded.\<close>

definition both_committed :: "database \<Rightarrow> database \<Rightarrow> database \<Rightarrow> database" where
  "both_committed d d1 d2 =
     d\<lparr>price_changes := price_changes d @ drop (length (price_changes d)) (price_changes d1)
         @ drop (length (price_changes d)) (price_changes d2)\<rparr>"

lemma budget_used_both:
  assumes "price_changes d1 = price_changes d @ news1" "price_changes d2 = price_changes d @ news2"
  shows "budget_used store p t (both_committed d d1 d2)
    \<le> budget_used store p t d + changes_of p news1 + changes_of p news2"
proof -
  have "length (filter (\<lambda>c. pc_store_code c = store \<and> pc_product_ext_id c = p \<and> window_start t \<le> pc_changed_at c) news)
      \<le> changes_of p news" for news
    unfolding changes_of_def by (induction news) auto
  from this[of news1] this[of news2] show ?thesis
    using assms by (simp add: budget_used_def both_committed_def)
qed



end
