(* ===== verification/Worker_Loop.thy ===== *)
theory Worker_Loop
  imports Worker
begin

text \<open>
  The loop of \<open>Worker.run_forever\<close> and the signal that ends it. \<open>SIGTERM\<close> and \<open>SIGINT\<close> call
  \<open>request_stop\<close>, which sets \<open>stopping\<close>; a signal arrives while a job runs or while the loop sleeps, so
  the flag is read from the state of the world. A loop that never ends is \<open>None\<close>.
\<close>

partial_function (option) run_forever ::
  "('x \<Rightarrow> bool) \<Rightarrow> 'x timer \<Rightarrow> rat \<Rightarrow> 'x job list \<Rightarrow> 'x \<Rightarrow> ('x job list \<times> 'x) option" where
  "run_forever stopping T poll jobs x =
     (if stopping x then Some (jobs, x)
      else (case tick T jobs x of (names, jobs', x') \<Rightarrow>
              run_forever stopping T poll jobs' (sleep T poll x')))"

definition ends_after :: "('x \<Rightarrow> bool) \<Rightarrow> 'x timer \<Rightarrow> rat \<Rightarrow> nat \<Rightarrow> 'x job list \<Rightarrow> 'x \<Rightarrow> bool" where
  "ends_after stopping T poll n jobs x \<longleftrightarrow>
     stopping (snd (run_ticks T poll n jobs x)) \<and> (\<forall>k < n. \<not> stopping (snd (run_ticks T poll k jobs x)))"

lemma ends_after_0: "ends_after stopping T poll 0 jobs x = stopping x"
  by (simp add: ends_after_def)

lemma ends_after_Suc:
  assumes "tick T jobs x = (names, jobs', x')"
  shows "ends_after stopping T poll (Suc n) jobs x \<longleftrightarrow>
    \<not> stopping x \<and> ends_after stopping T poll n jobs' (sleep T poll x')"
  using assms by (auto simp: ends_after_def less_Suc_eq_0_disj)

lemma run_forever_some:
  assumes "run_forever stopping T poll jobs x = Some r"
  shows "\<exists>n. r = run_ticks T poll n jobs x \<and> ends_after stopping T poll n jobs x"
proof (rule run_forever.raw_induct[where P = "\<lambda>stopping T poll jobs x r.
      \<exists>n. r = run_ticks T poll n jobs x \<and> ends_after stopping T poll n jobs x"
      and xa = "((((stopping, T), poll), jobs), x)" and y = r, unfolded prod.case, OF _ assms])
  fix f stopping and T :: "'a timer" and poll jobs x r
  assume IH: "\<And>stopping T poll jobs x r. f stopping T poll jobs x = Some r \<Longrightarrow>
      \<exists>n. r = run_ticks T poll n jobs x \<and> ends_after stopping T poll n jobs x"
    and r: "(if stopping x then Some (jobs, x) else (case tick T jobs x of (names, jobs', x') \<Rightarrow>
      f stopping T poll jobs' (sleep T poll x'))) = Some r"
  obtain names jobs' x' where t: "tick T jobs x = (names, jobs', x')" by (rule prod_cases3)
  show "\<exists>n. r = run_ticks T poll n jobs x \<and> ends_after stopping T poll n jobs x"
  proof (cases "stopping x")
    case True
    with r show ?thesis by (intro exI[of _ 0]) (simp add: ends_after_0)
  next
    case False
    with r t have "f stopping T poll jobs' (sleep T poll x') = Some r" by simp
    from IH[OF this] obtain n where "r = run_ticks T poll n jobs' (sleep T poll x')"
      "ends_after stopping T poll n jobs' (sleep T poll x')" by blast
    with t False ends_after_Suc[OF t] show ?thesis by (intro exI[of _ "Suc n"]) simp
  qed
qed

lemma run_forever_returns:
  "ends_after stopping T poll n jobs x \<Longrightarrow> run_forever stopping T poll jobs x = Some (run_ticks T poll n jobs x)"
proof (induction n arbitrary: jobs x)
  case 0
  then show ?case by (subst run_forever.simps) (simp add: ends_after_0)
next
  case (Suc n)
  obtain names jobs' x' where t: "tick T jobs x = (names, jobs', x')" by (rule prod_cases3)
  from Suc ends_after_Suc[OF t] t show ?case by (subst run_forever.simps) simp
qed

text \<open>
  C6: The loop of the worker ends exactly when a stop was requested by the end of some round, and
  then it has run whole rounds only, up to the first that ends with the request made, each with
  every job that was due. A request cuts short neither the job it finds running nor the jobs that
  come after it in the same round.
\<close>
theorem run_forever_runs_whole_rounds:
  "run_forever stopping T poll jobs x = Some r \<longleftrightarrow>
     (\<exists>n. r = run_ticks T poll n jobs x \<and> stopping (snd (run_ticks T poll n jobs x))
        \<and> (\<forall>k < n. \<not> stopping (snd (run_ticks T poll k jobs x))))"
proof
  assume "run_forever stopping T poll jobs x = Some r"
  from run_forever_some[OF this] show "\<exists>n. r = run_ticks T poll n jobs x
      \<and> stopping (snd (run_ticks T poll n jobs x)) \<and> (\<forall>k < n. \<not> stopping (snd (run_ticks T poll k jobs x)))"
    by (simp add: ends_after_def)
next
  assume "\<exists>n. r = run_ticks T poll n jobs x
      \<and> stopping (snd (run_ticks T poll n jobs x)) \<and> (\<forall>k < n. \<not> stopping (snd (run_ticks T poll k jobs x)))"
  then obtain n where "r = run_ticks T poll n jobs x" and "ends_after stopping T poll n jobs x"
    unfolding ends_after_def by (elim exE conjE) simp
  with run_forever_returns show "run_forever stopping T poll jobs x = Some r" by metis
qed

text \<open>A stop that comes with the first of two jobs: the second still runs.\<close>

definition stop_after_first :: "nat \<Rightarrow> bool" where
  "stop_after_first x \<longleftrightarrow> 1 \<le> x"

theorem run_forever_runs_whole_rounds_witness:
  "\<exists>jobs. run_forever stop_after_first \<lparr>clock = Pair 5, sleep = (\<lambda>s x. x)\<rparr> 1 [failing_job, other_job] 0
     = Some (jobs, 2)"
proof -
  let ?T = "\<lparr>clock = Pair 5, sleep = (\<lambda>s x. x)\<rparr> :: nat timer" and ?jobs = "[failing_job, other_job]"
  have "snd (run_ticks ?T 1 1 ?jobs 0) = 2"
    by (simp add: tick_def due_def run_job_def failing_job_def other_job_def new_job_def Let_def)
  moreover have "\<forall>k < 1. \<not> stop_after_first (snd (run_ticks ?T 1 k ?jobs 0))"
    by (simp add: stop_after_first_def)
  ultimately have "run_forever stop_after_first ?T 1 ?jobs 0 = Some (run_ticks ?T 1 1 ?jobs 0)"
    by (intro run_forever_runs_whole_rounds[THEN iffD2] exI[of _ 1]) (simp add: stop_after_first_def)
  with \<open>snd (run_ticks ?T 1 1 ?jobs 0) = 2\<close> show ?thesis by (metis prod.collapse)
qed

section \<open>The bridge until it is stopped\<close>

text \<open>
  When the worker has been stopped, however long it ran and whenever the request came, the
  decisions of the reviewers are there as they were made and the database meets its constraints.
\<close>
lemma stopped_worker_kept_every_decision:
  assumes "beside_database T" "database_ok d" "m \<in> set (product_mappings d)"
    and "pm_status m \<in> {APPROVED, REJECTED, AUTO}"
    and "new_worker T (build_jobs B) (w, d) = (jobs, x0)"
    and "run_forever stopping T poll jobs x0 = Some (jobs', w', d')"
  shows "m \<in> set (product_mappings d') \<and> database_ok d'"
proof -
  from run_forever_some[OF assms(6)] obtain n where "run_ticks T poll n jobs x0 = (jobs', w', d')" by metis
  from worker_run_keeps[OF assms(1-5) this] show ?thesis .
qed

end
