(* ===== verification/Columns.thy ===== *)
theory Columns
  imports Catalog_Mirror
begin

text \<open>
  The column types of \<open>app/models.py\<close> as PostgreSQL enforces them (SQLite does not): \<open>String(n)\<close>
  refuses a longer text, \<open>Integer\<close> a number outside 32 bits, \<open>Numeric(p, s)\<close> a value that, rounded to
  \<open>s\<close> decimals, needs more than \<open>p - s\<close> digits before the point. The refusal is an error of the
  flush, so it ends the transaction as a violated constraint does.
\<close>

definition varchar :: "nat \<Rightarrow> ustr \<Rightarrow> bool" where
  "varchar n s \<longleftrightarrow> length s \<le> n"

definition int4 :: "int \<Rightarrow> bool" where
  "int4 i \<longleftrightarrow> - (2 ^ 31) \<le> i \<and> i < 2 ^ 31"

text \<open>Rounding to the scale goes away from zero at a half.\<close>

definition numeric :: "nat \<Rightarrow> nat \<Rightarrow> rat \<Rightarrow> bool" where
  "numeric p s x \<longleftrightarrow> \<bar>x\<bar> + 1 / (2 * 10 ^ s) < 10 ^ (p - s)"

fun nullable :: "('a \<Rightarrow> bool) \<Rightarrow> 'a option \<Rightarrow> bool" where
  "nullable P None = True"
| "nullable P (Some x) = P x"

lemma nullable_None [intro]: "x = None \<Longrightarrow> nullable P x"
  by simp

lemmas column_types = varchar_def int4_def numeric_def

section \<open>The tables the synchronisation writes\<close>

definition supplier_product_fits :: "supplier_product \<Rightarrow> bool" where
  "supplier_product_fits p \<longleftrightarrow>
     varchar 128 (sp_category_ext_id p) \<and> varchar 128 (sp_offer_ext_id p)
     \<and> nullable (varchar 512) (sp_category_name p) \<and> varchar 512 (sp_name p)
     \<and> varchar 512 (sp_name_normalized p) \<and> nullable (varchar 64) (sp_region p)
     \<and> nullable (varchar 64) (sp_platform p) \<and> numeric 12 4 (sp_price_supplier p)
     \<and> varchar 3 (sp_supplier_currency p) \<and> int4 (sp_stock p) \<and> int4 (sp_min_order_quantity p)
     \<and> int4 (sp_max_order_quantity p) \<and> varchar 64 (sp_content_hash p) \<and> int4 (sp_missing_runs p)"

definition store_product_fits :: "store_product \<Rightarrow> bool" where
  "store_product_fits s \<longleftrightarrow>
     varchar 32 (st_store_code s) \<and> varchar 32 (st_product_ext_id s) \<and> varchar 512 (st_name s)
     \<and> varchar 512 (st_name_normalized s) \<and> varchar 600 (st_match_key s)
     \<and> nullable (varchar 512) (st_slug s) \<and> nullable (varchar 64) (st_product_type s)
     \<and> nullable (varchar 64) (st_region s) \<and> nullable (varchar 64) (st_platform s) \<and> int4 (st_qty s)
     \<and> nullable (numeric 12 4) (st_min_price s) \<and> nullable (numeric 12 4) (st_retail_min_price s)
     \<and> nullable (numeric 12 4) (st_price_limit_min s) \<and> nullable (numeric 12 4) (st_price_limit_max s)"

definition mapping_fits :: "product_mapping \<Rightarrow> bool" where
  "mapping_fits m \<longleftrightarrow>
     varchar 32 (pm_store_code m) \<and> length (mapping_status_value (pm_status m)) \<le> 16
     \<and> nullable (varchar 32) (pm_method m) \<and> nullable (numeric 12 4) (pm_fixed_price_override m)
     \<and> nullable (varchar 128) (pm_reviewed_by m)"

definition offer_fits :: "store_offer \<Rightarrow> bool" where
  "offer_fits r \<longleftrightarrow>
     varchar 32 (so_store_code r) \<and> nullable (varchar 64) (so_offer_ext_id r)
     \<and> varchar 32 (so_product_ext_id r) \<and> length (offer_state_value (so_state r)) \<le> 16
     \<and> nullable (numeric 12 4) (so_pushed_price r) \<and> nullable int4 (so_pushed_inventory r)
     \<and> nullable (varchar 64) (so_pending_job_id r) \<and> int4 (so_consecutive_failures r)"

section \<open>The other tables\<close>

text \<open>States and sources of orders, keys and runs are the constants of the code, at most 16 characters.\<close>

definition supplier_fits :: "supplier \<Rightarrow> bool" where
  "supplier_fits s \<longleftrightarrow> varchar 32 (sup_code s) \<and> varchar 128 (sup_name s)"

definition price_change_fits :: "price_change_log \<Rightarrow> bool" where
  "price_change_fits c \<longleftrightarrow>
     varchar 32 (pc_store_code c) \<and> varchar 32 (pc_product_ext_id c)
     \<and> nullable (varchar 64) (pc_offer_ext_id c) \<and> nullable (numeric 12 4) (pc_old_price c)
     \<and> numeric 12 4 (pc_new_price c)"

definition order_fits :: "store_order \<Rightarrow> bool" where
  "order_fits r \<longleftrightarrow>
     varchar 32 (ord_store_code r) \<and> varchar 128 (ord_order_ext_id r)
     \<and> nullable (varchar 128) (ord_reservation_ext_id r) \<and> varchar 16 (ord_source r)
     \<and> int4 (ord_attempts r)"

definition item_fits :: "order_item \<Rightarrow> bool" where
  "item_fits i \<longleftrightarrow>
     varchar 128 (oi_line_ref i) \<and> nullable (varchar 32) (oi_product_ext_id i) \<and> int4 (oi_quantity i)
     \<and> nullable (varchar 128) (oi_purchase_idempotency_key i)
     \<and> nullable (varchar 128) (oi_supplier_order_ext_id i) \<and> nullable (numeric 12 4) (oi_supplier_cost i)
     \<and> int4 (oi_keys_count i)"

definition key_fits :: "delivered_key \<Rightarrow> bool" where
  "key_fits k \<longleftrightarrow> varchar 64 (dk_fingerprint k) \<and> varchar 16 (dk_kind k)"

definition claim_fits :: "idempotency_record \<Rightarrow> bool" where
  "claim_fits r \<longleftrightarrow> varchar 64 (ir_scope r) \<and> varchar 128 (ir_key r) \<and> varchar 64 (ir_request_hash r)"

definition run_fits :: "sync_run \<Rightarrow> bool" where
  "run_fits r \<longleftrightarrow> varchar 32 (run_kind r)"

definition call_fits :: "api_call \<Rightarrow> bool" where
  "call_fits a \<longleftrightarrow>
     varchar 32 (ac_service a) \<and> varchar 8 (ac_method a) \<and> varchar 1024 (ac_url a)
     \<and> int4 (int (ac_attempt a)) \<and> nullable (int4 \<circ> int) (ac_status_code a)
     \<and> nullable int4 (ac_duration_ms a) \<and> nullable (varchar 64) (ac_correlation_id a)"

definition rate_fits :: "fx_rate \<Rightarrow> bool" where
  "rate_fits r \<longleftrightarrow>
     varchar 3 (fx_base r) \<and> varchar 3 (fx_quote r) \<and> numeric 18 8 (fx_value r) \<and> varchar 64 (fx_source r)"

section \<open>Transactions\<close>

definition columns_fit :: "database \<Rightarrow> bool" where
  "columns_fit d \<longleftrightarrow>
     list_all supplier_product_fits (supplier_products d) \<and> list_all store_product_fits (store_products d)
     \<and> list_all mapping_fits (product_mappings d) \<and> list_all offer_fits (store_offers d)
     \<and> list_all supplier_fits (suppliers d) \<and> list_all price_change_fits (price_changes d)
     \<and> list_all order_fits (store_orders d) \<and> list_all item_fits (order_items d)
     \<and> list_all key_fits (delivered_keys d) \<and> list_all claim_fits (idempotency_keys d)
     \<and> list_all run_fits (sync_runs d) \<and> list_all call_fits (api_calls d) \<and> list_all rate_fits (fx_rates d)"

text \<open>Every status and state the code can assign fits its column.\<close>

lemma enumerations_fit:
  "length (mapping_status_value s) \<le> 16" "length (offer_state_value t) \<le> 16"
  "length (product_kind_value k) \<le> 16"
  by - ((cases s; simp), (cases t; simp), (cases k; simp))

definition postgres_scope :: "('w, 'a) work \<Rightarrow> ('w, 'a) work" where
  "postgres_scope body w d =
     (case session_scope body w d of
        (Inr x, w', d') \<Rightarrow>
          (if columns_fit d' then (Inr x, w', d') else (Inl (OtherError (lit ''DataError'')), w', d))
      | refused \<Rightarrow> refused)"

lemma postgres_scope_success:
  "postgres_scope body w d = (Inr x, w', d') \<Longrightarrow>
    session_scope body w d = (Inr x, w', d') \<and> columns_fit d'"
  by (auto simp: postgres_scope_def split: prod.splits sum.splits if_splits)

lemma postgres_scope_error: "postgres_scope body w d = (Inl e, w', d') \<Longrightarrow> d' = d"
  by (auto simp: postgres_scope_def split: prod.splits sum.splits if_splits dest: session_scope_error)

section \<open>A listing beyond its columns\<close>

text \<open>What the catalogue of a store may say of one product: the columns its item is copied to as it came.\<close>

definition listing_fits :: "catalog_item \<Rightarrow> bool" where
  "listing_fits c \<longleftrightarrow>
     varchar 32 (ci_product_ext_id c) \<and> varchar 512 (ci_name c) \<and> nullable (varchar 512) (ci_slug c)
     \<and> nullable (varchar 64) (ci_product_type c) \<and> int4 (ci_qty c)
     \<and> nullable (numeric 12 4) (ci_min_price c) \<and> nullable (numeric 12 4) (ci_retail_min_price c)
     \<and> nullable (numeric 12 4) (ci_price_limit_min c) \<and> nullable (numeric 12 4) (ci_price_limit_max c)"

lemma written_listing_fits:
  assumes "wrote U store now c s" "store_product_fits s"
  shows "listing_fits c"
proof -
  have s: "apply_catalog_item U c now s = s" "st_product_ext_id s = ci_product_ext_id c"
    using assms(1) by (simp_all add: wrote_def store_key_def)
  have "store_product_fits (apply_catalog_item U c now s)" using assms(2) s(1) by simp
  with s(2) show ?thesis
    by (simp add: store_product_fits_def listing_fits_def apply_catalog_item_def Let_def)
qed

text \<open>
  C27: One listing the columns cannot hold stops the whole mirror: on PostgreSQL a pull of the store's
  catalogue that ends with a title of more than 512 characters, a quantity beyond 32 bits or a limit
  of a hundred million for some product fails, and the transaction takes back every other product
  of the pull with it; the same happens at each later pull, as long as the product is listed so.
\<close>
theorem listing_beyond_its_columns_stops_the_mirror:
  assumes "database_ok d" "last_of feed ext = Some c" "\<not> listing_fits c"
  shows "\<exists>e w'. postgres_scope (sync_store U R A since (Some (feed, err)) pages) w d = (Inl e, w', d)"
proof -
  obtain r w' d' where p: "postgres_scope (sync_store U R A since (Some (feed, err)) pages) w d = (r, w', d')"
    by (metis prod.collapse)
  show ?thesis
  proof (cases r)
    case (Inl e)
    with p postgres_scope_error[OF p[unfolded Inl]] show ?thesis by simp
  next
    case (Inr st)
    note run = postgres_scope_success[OF p[unfolded Inr]]
    from store_catalog_is_mirrored[OF assms(1) run[THEN conjunct1]] assms(2) obtain s where
      "s \<in> set (store_products d')" "wrote U (ad_code A) (utcnow R w) c s" by blast
    moreover from this have "store_product_fits s" using run by (simp add: columns_fit_def list_all_iff)
    ultimately have "listing_fits c" using written_listing_fits by blast
    with assms(3) show ?thesis by blast
  qed
qed

definition endless_title :: catalog_item where
  "endless_title = sample_listing\<lparr>ci_name := replicate 513 55\<rparr>"

theorem listing_beyond_its_columns_stops_the_mirror_witness:
  "\<exists>e w'. postgres_scope (sync_store ascii_db still_clock sample_store None
     (Some ([sample_listing, endless_title\<lparr>ci_product_ext_id := [51]\<rparr>], None)) None) () empty_database
     = (Inl e, w', empty_database)"
proof -
  let ?c = "endless_title\<lparr>ci_product_ext_id := [51]\<rparr>"
  have "last_of [sample_listing, ?c] [51] = Some ?c" by (simp add: last_of_def)
  moreover have "\<not> listing_fits ?c" by (simp add: listing_fits_def endless_title_def varchar_def)
  ultimately show ?thesis
    by (rule listing_beyond_its_columns_stops_the_mirror[OF empty_database_ok])
qed

end
