(* ===== verification/Schema_Dump.thy ===== *)
theory Schema_Dump
  imports Title_Text "HOL-Library.List_Lexorder" "HOL-Library.Multiset"
begin

text \<open>
  \<open>app/tools/dump_schema.py\<close>: the SQL script the migration is generated from. The tables with the
  indexes \<open>app/models.py\<close> declares are data; \<open>table.indexes\<close> is a Python set, so its iteration
  order is any, and is that of the list in the model. SQLAlchemy's compiler and its order of the
  tables are parameters. Python compares strings by code points, as the order of lists does.
\<close>

datatype sql_dialect = Postgresql | Sqlite

record sql_index =
  ix_name :: "ustr option"
  ix_columns :: "ustr list"

record sql_table =
  tb_name :: ustr
  tb_indexes :: "sql_index list"

record sql_compiler =
  create_table :: "sql_dialect \<Rightarrow> ustr \<Rightarrow> ustr"
  create_index :: "sql_dialect \<Rightarrow> ustr \<Rightarrow> sql_index \<Rightarrow> ustr"

definition dialect_named :: "ustr \<Rightarrow> sql_dialect" where
  "dialect_named n = (if n = lit ''postgresql'' then Postgresql else Sqlite)"

definition index_order :: "sql_index \<Rightarrow> ustr" where
  "index_order i = (case ix_name i of None \<Rightarrow> [] | Some n \<Rightarrow> n)"

definition statement :: "unicode \<Rightarrow> ustr \<Rightarrow> ustr" where
  "statement U sql = strip_by (space U) sql @ lit '';''"

definition index_lines :: "unicode \<Rightarrow> sql_compiler \<Rightarrow> sql_dialect \<Rightarrow> sql_table \<Rightarrow> ustr list" where
  "index_lines U K D t =
     map (\<lambda>i. statement U (create_index K D (tb_name t) i)) (sort_key index_order (tb_indexes t))"

definition table_lines :: "unicode \<Rightarrow> sql_compiler \<Rightarrow> sql_dialect \<Rightarrow> sql_table \<Rightarrow> ustr list" where
  "table_lines U K D t = statement U (create_table K D (tb_name t)) # index_lines U K D t @ [[]]"

definition render :: "unicode \<Rightarrow> sql_compiler \<Rightarrow> sql_table list \<Rightarrow> ustr \<Rightarrow> ustr" where
  "render U K sorted_tables name =
     join [10]
       ([lit ''-- Generated by `python -m app.tools.dump_schema`.  Do not edit by hand:'',
         lit ''-- change app/models.py and regenerate, so schema and code cannot drift.'',
         [], lit ''BEGIN;'', []]
        @ concat (map (table_lines U K (dialect_named name)) sorted_tables)
        @ [lit ''COMMIT;''])"

section \<open>The tables of the models and their indexes\<close>

definition index_on :: "string \<Rightarrow> string list \<Rightarrow> sql_index" where
  "index_on n cs = \<lparr>ix_name = Some (lit n), ix_columns = map lit cs\<rparr>"

definition table_of :: "string \<Rightarrow> sql_index list \<Rightarrow> sql_table" where
  "table_of n is = \<lparr>tb_name = lit n, tb_indexes = is\<rparr>"

definition suppliers_table :: sql_table where
  "suppliers_table = table_of ''suppliers'' []"

definition supplier_products_table :: sql_table where
  "supplier_products_table = table_of ''supplier_products''
     [index_on ''ix_supplier_products_active'' [''supplier_id'', ''is_active''],
      index_on ''ix_supplier_products_name_norm'' [''name_normalized'']]"

definition store_products_table :: sql_table where
  "store_products_table = table_of ''store_products''
     [index_on ''ix_store_products_name_norm'' [''name_normalized''],
      index_on ''ix_store_products_match_key'' [''store_code'', ''match_key'']]"

definition product_mappings_table :: sql_table where
  "product_mappings_table = table_of ''product_mappings'' [index_on ''ix_mappings_status'' [''status'']]"

definition store_offers_table :: sql_table where
  "store_offers_table = table_of ''store_offers'' [index_on ''ix_offers_state'' [''state'']]"

definition price_change_log_table :: sql_table where
  "price_change_log_table = table_of ''price_change_log''
     [index_on ''ix_price_change_product_time'' [''store_code'', ''product_ext_id'', ''changed_at'']]"

definition store_orders_table :: sql_table where
  "store_orders_table = table_of ''store_orders'' [index_on ''ix_store_orders_state'' [''state'']]"

definition order_items_table :: sql_table where
  "order_items_table = table_of ''order_items'' [index_on ''ix_order_items_state'' [''state'']]"

definition delivered_keys_table :: sql_table where
  "delivered_keys_table = table_of ''delivered_keys'' []"

definition idempotency_keys_table :: sql_table where
  "idempotency_keys_table = table_of ''idempotency_keys'' []"

definition sync_runs_table :: sql_table where
  "sync_runs_table = table_of ''sync_runs''
     [index_on ''ix_sync_runs_kind_started'' [''kind'', ''started_at'']]"

definition api_calls_table :: sql_table where
  "api_calls_table = table_of ''api_calls''
     [index_on ''ix_api_calls_service_time'' [''service'', ''created_at''],
      index_on ''ix_api_calls_correlation'' [''correlation_id'']]"

definition fx_rates_table :: sql_table where
  "fx_rates_table = table_of ''fx_rates'' [index_on ''ix_fx_pair_time'' [''base'', ''quote'', ''fetched_at'']]"

definition model_tables :: "sql_table list" where
  "model_tables =
     [suppliers_table, supplier_products_table, store_products_table, product_mappings_table,
      store_offers_table, price_change_log_table, store_orders_table, order_items_table,
      delivered_keys_table, idempotency_keys_table, sync_runs_table, api_calls_table, fx_rates_table]"

lemmas model_table_defs =
  model_tables_def suppliers_table_def supplier_products_table_def store_products_table_def
  product_mappings_table_def store_offers_table_def price_change_log_table_def store_orders_table_def
  order_items_table_def delivered_keys_table_def idempotency_keys_table_def sync_runs_table_def
  api_calls_table_def fx_rates_table_def table_of_def index_on_def

section \<open>The script does not depend on the iteration order\<close>

lemma sort_key_of_set:
  assumes "mset xs = mset ys" "inj_on f (set xs)"
  shows "sort_key f xs = sort_key f ys"
proof (rule properties_for_sort_key)
  show "mset (sort_key f ys) = mset xs" using assms(1) by simp
  show "sorted (map f (sort_key f ys))" by simp
  fix k assume "k \<in> set (sort_key f ys)"
  then have k: "k \<in> set xs" using assms(1) by (metis mset_eq_setD set_sort)
  have P: "filter (\<lambda>x. f k = f x) zs = replicate (count (mset zs) k) k" if "set zs \<subseteq> set xs" for zs
    using that k assms(2) by (induction zs) (auto simp: inj_on_def)
  show "filter (\<lambda>x. f k = f x) (sort_key f ys) = filter (\<lambda>x. f k = f x) xs"
    using P[of xs] P[of "sort_key f ys"] assms(1) mset_eq_setD[OF assms(1)] by simp
qed

definition reordered :: "sql_table \<Rightarrow> sql_table \<Rightarrow> bool" where
  "reordered t u \<longleftrightarrow> tb_name t = tb_name u \<and> mset (tb_indexes t) = mset (tb_indexes u)"

definition names_its_indexes :: "sql_table \<Rightarrow> bool" where
  "names_its_indexes t \<longleftrightarrow> inj_on index_order (set (tb_indexes t))"

lemma table_lines_reordered:
  "reordered t u \<Longrightarrow> names_its_indexes t \<Longrightarrow> table_lines U K D t = table_lines U K D u"
  by (simp add: reordered_def names_its_indexes_def table_lines_def index_lines_def
      sort_key_of_set[of "tb_indexes t" "tb_indexes u" index_order])

lemma model_indexes_named: "t \<in> set model_tables \<Longrightarrow> names_its_indexes t"
  by (auto simp: model_table_defs names_its_indexes_def index_order_def inj_on_def lit_def)

text \<open>
  C30: The script that is generated from the models is a function of the models: whatever order a run
  of the interpreter iterates the index sets in, the text is the same to the last character, so a
  difference between the committed migration and a new one is a change of the models. This
  rests on every index of the models having a name of its own.
\<close>
theorem script_is_a_function_of_the_models:
  assumes "set ts \<subseteq> set model_tables" "list_all2 reordered ts us"
  shows "render U K ts name = render U K us name"
proof -
  have "map (table_lines U K (dialect_named name)) ts = map (table_lines U K (dialect_named name)) us"
    using assms(2,1)
  proof (induction rule: list_all2_induct)
    case (Cons t ts u us)
    then show ?case using table_lines_reordered model_indexes_named by simp
  qed simp
  then show ?thesis by (simp add: render_def)
qed

definition other_order :: sql_table where
  "other_order = store_products_table\<lparr>tb_indexes := rev (tb_indexes store_products_table)\<rparr>"

theorem script_is_a_function_of_the_models_witness:
  "render ascii_db \<lparr>create_table = (\<lambda>D n. n), create_index = (\<lambda>D n i. index_order i)\<rparr>
      [suppliers_table, store_products_table] (lit ''postgresql'')
   = render ascii_db \<lparr>create_table = (\<lambda>D n. n), create_index = (\<lambda>D n i. index_order i)\<rparr>
      [suppliers_table, other_order] (lit ''postgresql'')
   \<and> tb_indexes other_order \<noteq> tb_indexes store_products_table"
proof
  have "set [suppliers_table, store_products_table] \<subseteq> set model_tables" by (simp add: model_tables_def)
  moreover have "list_all2 reordered [suppliers_table, store_products_table] [suppliers_table, other_order]"
    by (simp add: reordered_def other_order_def)
  ultimately show "render ascii_db \<lparr>create_table = (\<lambda>D n. n), create_index = (\<lambda>D n i. index_order i)\<rparr>
      [suppliers_table, store_products_table] (lit ''postgresql'')
   = render ascii_db \<lparr>create_table = (\<lambda>D n. n), create_index = (\<lambda>D n i. index_order i)\<rparr>
      [suppliers_table, other_order] (lit ''postgresql'')"
    by (rule script_is_a_function_of_the_models)
  show "tb_indexes other_order \<noteq> tb_indexes store_products_table"
    by (simp add: other_order_def model_table_defs lit_def)
qed

end
