(* ===== verification/Spec2Isabelle.thy ===== *)
theory Spec2Isabelle
  imports Idempotency Fazercards_Safety Store_Wire Api_Log Command_Safety Process Lifecycle
    Review_Race Budget_Race Worker_Loop Columns Schema_Dump
begin

text \<open>
  The FazerCards--G2A bridge (\<open>src/app\<close>): a Python service that mirrors the catalogue of a supplier and
  of a store, matches their titles, computes a price for each matched product and keeps an offer for
  it on the store, with an admin API, a console and a scheduler over one database.

  \<^bold>\<open>How the parts interact.\<close> \<open>worker.py\<close> (\<open>Worker\<close>), \<open>api/main.py\<close> (\<open>Admin_Api\<close>) and \<open>cli.py\<close>
  (\<open>Command_Line\<close>) run the services in transactions: \<open>services/catalog_sync.py\<close> (\<open>Sync_Run\<close>,
  \<open>Catalog_Sync\<close>) fills the mirrors from the adapters' feeds, \<open>services/matching.py\<close> (\<open>Matching\<close>) with
  the titles parsed by \<open>services/text.py\<close> (\<open>Title_Text\<close>) decides which store product a supplier product
  is, \<open>services/pricing.py\<close> (\<open>Pricing\<close>) computes prices from cost, exchange rate, markup and limits, and
  \<open>services/offer_sync.py\<close> (\<open>Offer_Sync\<close>) pushes them within the hourly budget of \<open>http/ratelimit.py\<close>
  (\<open>Rate_Limit\<close>). The adapters \<open>suppliers/fazercards.py\<close> (\<open>Fazercards\<close>) and \<open>stores/g2a.py\<close> (\<open>G2a\<close>)
  implement the contracts \<open>suppliers/base.py\<close> (\<open>Supplier_Api\<close>) and \<open>stores/base.py\<close> (\<open>Store_Api\<close>) over
  the client of \<open>http/client.py\<close> (\<open>Http_Client\<close>), which logs each attempt through \<open>http/sink.py\<close>
  (\<open>Api_Log\<close>). \<open>services/idempotency.py\<close> (\<open>Idempotency\<close>) guards purchases, \<open>crypto.py\<close> (\<open>Secrets\<close>)
  encrypts codes; \<open>config.py\<close> (\<open>Config\<close>, \<open>Process\<close>), \<open>db.py\<close> (\<open>Schema\<close>, \<open>Process\<close>) and
  \<open>logging_conf.py\<close> (\<open>Process\<close>) hold the state of a process, and \<open>tools/dump_schema.py\<close>
  (\<open>Schema_Dump\<close>) prints the migration from the models.

  \<^bold>\<open>How state and operations are represented.\<close> \<open>Schema\<close> has one record per table of \<open>models.py\<close>, with the
  columns the code reads; \<open>database\<close> is a record of tables (lists of rows in primary-key order),
  \<open>database_ok\<close> its unique constraints, checked by \<open>flush\<close> and by \<open>session_scope\<close>, which commits or
  rolls back; \<open>Columns\<close> adds the widths and ranges PostgreSQL enforces. An operation on the database is a \<open>work\<close> (\<open>Work\<close>): it takes the outside world \<open>'w\<close>,
  which no rollback reaches, and the session's tables, and returns a value or an exception with both.
  An operation that only talks to the outside is a \<open>call\<close>, one that yields items a \<open>generator\<close>
  (\<open>Api_Call\<close>). Exceptions are the values of \<open>exn\<close> (\<open>Prelude\<close>). Clocks, \<open>httpx\<close>, random numbers, the
  Unicode database, digests and Fernet are fields of records the definitions take as arguments.
  \<open>float\<close> and \<open>Decimal\<close> are rationals rounded after every operation by \<open>fl\<close> (53 bits) and \<open>dctx\<close>
  (28 digits) of \<open>Numerics\<close>; \<open>Py_Decimal\<close> parses decimals with their exponents, NaN and infinities.
  \<open>Difflib\<close> writes out the \<open>SequenceMatcher\<close> of the standard library.

  \<^bold>\<open>What the lemmas show.\<close>
  \<^item> Pricing: prices follow cost and stay within limits, and come from a rate that is never stale;
    fixed prices and fractional limits where the code departs from that. The price is also what the
    store reads back (\<open>computed_price_survives_the_wire\<close>) and what the admin API previews
    (\<open>Admin_Safety\<close>).
  \<^item> Matching (\<open>Matching\<close>, \<open>Match_Run\<close>): the score is positive exactly for compatible titles, an
    automatic match is safe, runs keep human decisions, approval and rejection on every branch.
  \<^item> Mirrors (\<open>Catalog_Mirror\<close>): a feed refines to the set of rows it names, products are deactivated
    after the configured number of misses, a failed pull leaves no trace.
  \<^item> Offers (\<open>Offer_Sync\<close>, \<open>Offer_Run\<close>, \<open>Store_Wire\<close>): pushes converge, stay within the budget, never
    create twice, and put at most one creation per push on the wire of the real adapter; what an
    outage of the token endpoint does to a run.
  \<^item> Transport (\<open>Http_Safety\<close>, \<open>Api_Log\<close>, \<open>Rate_Limit\<close>): every request ends, writes without a key are
    sent once, attempts are logged and the log outlives a rollback, secrets of request bodies are
    hidden, the bucket grants no more than its rate.
  \<^item> Adapters (\<open>Fazercards_Safety\<close>, \<open>G2a_Safety\<close>): walks over pages end, what reaches the network for a
    purchase and for an offer, how a rejected token is replaced.
  \<^item> Exactly once (\<open>Idempotency\<close>): the guard's interleaved transactions as a step relation; the
    effect happens at most once per key unless a failed record is retried.
  \<^item> Entry points (\<open>Worker\<close>, \<open>Admin_Safety\<close>, \<open>Command_Safety\<close>): any number of ticks keeps the constraints
    and the decisions of reviewers, requests without the token change nothing, console and API agree.
  \<^item> Review and offers together (\<open>Lifecycle\<close>): an offer whose mapping is rejected or paused, or whose
    supplier product was deactivated, stays on the store untouched, and a corrected mapping keeps the
    offer of its old product.
  \<^item> Transactions side by side: reviews that commit while a matching run is under way
    (\<open>Review_Race\<close>) are kept when the run had not read the mapping, and are partly written over in the
    window between its read and its write; one run records at most one price change per mapping
    (\<open>Price_Log\<close>), so two runs that do not see each other stay below the store's cap thanks to the
    safety margin (\<open>Budget_Race\<close>).
  \<^item> The scheduler until it is stopped (\<open>Worker_Loop\<close>): whole rounds only, and when the loop returns.
  \<^item> Secrets and process state (\<open>Secrets\<close>, \<open>Process\<close>): codes read back, one row per code, one engine,
    request logs of the libraries silenced.
  \<^item> The schema (\<open>Columns\<close>, \<open>Schema_Dump\<close>): one listing the columns cannot hold stops the mirror; the
    migration is a function of the models.

  Contracts between components are locales, each interpreted on the model: \<open>rounding\<close> (\<open>fl\<close>, \<open>dctx\<close>),
  \<open>price_budget\<close> (the price-change log), \<open>fx_source\<close> (the rate provider), \<open>claim_table\<close> (the
  idempotency table) and \<open>create_counter\<close> (what an adapter may post); \<open>offer_relation\<close> and
  \<open>run_relation\<close> (a relation every step, or every whole run, of the offer synchronisation
  respects), of which the second gives the first for each offer, carry the proofs about whole runs.

  \<^bold>\<open>Loops.\<close> The retry loop has a termination proof (attempts left, then the one token refresh). The
  walks over pages, \<open>poll_job\<close> and \<open>acquire_loop\<close> depend on remote answers and clocks and are
  \<open>partial_function\<close>s: not ending is \<open>None\<close>, and the theorems say when they end. \<open>g2a_store\<close> takes
  \<open>the\<close> of a walk: the theorems that use it are about the calls before or without an endless walk.
  \<open>run_ticks\<close> runs the scheduler for \<open>n\<close> ticks, for every \<open>n\<close>; \<open>run_forever\<close> is a
  \<open>partial_function\<close> and returns exactly when some number of rounds ends with a stop requested.

  \<^bold>\<open>Not modelled.\<close> Third-party code (FastAPI, typer, httpx, SQLAlchemy, pydantic, cryptography) beyond
  what is said above; the migrations and \<open>ui.html\<close>; the cascades of foreign keys (no code deletes a row
  another refers to); the column types outside \<open>Columns\<close>, numeric scales except where a theorem needs
  them; the order in which a query without \<open>ORDER BY\<close> returns rows (the
  order of the table is taken); threads inside a process (the bucket's lock makes its step atomic);
  negative limits of a query. An exception text of a library is empty or a fixed word.
\<close>

section \<open>The mirror and the shortlist\<close>

lemma first_hit_name: "first_hit P tbl = Some r \<Longrightarrow> r \<in> lit ` set (map fst tbl)"
  by (induction P tbl rule: first_hit.induct) (auto split: if_splits)

lemma region_name_nonempty: "extract_region U s = Some r \<Longrightarrow> r \<noteq> []"
proof -
  have "\<forall>e \<in> set REGION_ALIASES. fst e \<noteq> ''''" by (simp add: REGION_ALIASES_def)
  then show "extract_region U s = Some r \<Longrightarrow> r \<noteq> []"
    using first_hit_name by (fastforce simp: extract_region_def Let_def)
qed

text \<open>
  The exact bucket of the shortlist is keyed by the title alone on the store's side and by
  the supplier's structured fields on the other: when both catalogues state the same region in
  its own field and the common title does not, the two sides parse to the same parts and the
  store's row is nevertheless outside the bucket the supplier's product is looked up in.
\<close>
theorem stated_region_misses_exact_bucket:
  assumes "sp_name p = ci_name c" "sp_region p = Some r" "ci_region c = Some r" "r \<noteq> []"
    and "upper U (strip_by (space U) r) \<noteq> []" "tp_region (parse_title U (ci_name c)) = None"
    and "row = apply_catalog_item U c now s" "sp_platform p = st_platform row"
    and "tp_platform (supplier_parts U p) = tp_platform (parse_title U (ci_name c))"
  shows "supplier_parts U p = store_parts U row
    \<and> st_match_key row \<noteq> match_key (supplier_parts U p)"
proof
  let ?parts = "parse_title U (ci_name c)"
  have row: "st_name row = ci_name c" "st_region row = Some r" "st_match_key row = match_key ?parts"
    using assms(3,4) unfolding assms(7) by (simp_all add: apply_catalog_item_def Let_def or_else_def)
  then show "supplier_parts U p = store_parts U row"
    using assms(1,2,8) by (simp add: supplier_parts_def store_parts_def)
  let ?given = "upper U (strip_by (space U) r)"
  have "tp_region (supplier_parts U p)
      = (case extract_region U ?given of None \<Rightarrow> Some ?given | Some c \<Rightarrow> Some c)"
    using assms(1,2,5) by (simp add: supplier_parts_def parse_title_with_def Let_def)
  then obtain x where x: "tp_region (supplier_parts U p) = Some x" "x \<noteq> []"
    using assms(5) region_name_nonempty[of U ?given] by (cases "extract_region U ?given") auto
  have same: "tp_core (supplier_parts U p) = tp_core ?parts"
    "tp_denomination (supplier_parts U p) = tp_denomination ?parts"
    using assms(1) by (simp_all add: supplier_parts_def parse_title_with_def Let_def)
  show "st_match_key row \<noteq> match_key (supplier_parts U p)"
    unfolding row(3) match_key_def same assms(9) x(1) assms(6) using x(2) by simp
qed

definition listed_region :: catalog_item where
  "listed_region = sample_listing\<lparr>ci_region := Some (lit ''MARS'')\<rparr>"

theorem stated_region_misses_exact_bucket_witness:
  "st_match_key (apply_catalog_item ascii_db listed_region 0 lone_product)
     \<noteq> match_key (supplier_parts ascii_db (lone_sku\<lparr>sp_region := Some (lit ''MARS'')\<rparr>))"
proof -
  let ?p = "lone_sku\<lparr>sp_region := Some (lit ''MARS'')\<rparr>"
  have t: "parse_title ascii_db (ci_name listed_region) = lone_parts"
    using lone_title by (simp add: listed_region_def sample_listing_def)
  have "extract_platform ascii_db [] = None" by code_simp
  then have pf: "tp_platform (supplier_parts ascii_db ?p) = None"
    by (simp add: supplier_parts_def parse_title_with_def Let_def lone_sku_def lone_title)
      (simp add: lone_parts_def)
  have rp: "st_platform (apply_catalog_item ascii_db listed_region 0 lone_product) = None"
    by (simp add: apply_catalog_item_def Let_def t)
      (simp add: lone_parts_def or_else_def listed_region_def sample_listing_def)
  have up: "upper ascii_db (strip_by (space ascii_db) (lit ''MARS'')) \<noteq> []" by code_simp
  have f: "sp_name ?p = ci_name listed_region" "sp_region ?p = Some (lit ''MARS'')" "sp_platform ?p = None"
    "ci_region listed_region = Some (lit ''MARS'')"
    by (simp_all add: lone_sku_def listed_region_def sample_listing_def)
  have ne: "lit ''MARS'' \<noteq> []" by simp
  have l: "tp_region lone_parts = None" "tp_platform lone_parts = None" by (simp_all add: lone_parts_def)
  have "tp_region (parse_title ascii_db (ci_name listed_region)) = None"
    "sp_platform ?p = st_platform (apply_catalog_item ascii_db listed_region 0 lone_product)"
    "tp_platform (supplier_parts ascii_db ?p) = tp_platform (parse_title ascii_db (ci_name listed_region))"
    using f(3) t pf rp l by simp_all
  from stated_region_misses_exact_bucket[OF f(1,2,4) ne up this(1) refl this(2,3)]
  show ?thesis by (rule conjunct2)
qed

section \<open>The price and the wire\<close>

lemma markup_price_in_cents:
  assumes "markup_price s m g cost rate = Inr b"
  shows "\<exists>n. pb_final_price b = of_int n / 100"
proof -
  obtain x y where "quantize (- 2) x = Inr y" "pb_final_price b = y"
    using assms by (auto simp: markup_price_def Let_def split: sum.splits prod.splits if_splits)
  then have "pb_final_price b = of_int (half_even (x * 100)) / 100"
    by (auto simp: quantize_def Let_def power_int_minus split: if_splits)
  then show ?thesis by blast
qed

text \<open>
  C17: The price that is computed is the price the store reads: whatever rate, markup, rounding step
  and limits a price comes from, the text the adapter puts in a request is read back as exactly that
  price, so a price that was pushed and is listed by the store again counts as unchanged.
\<close>
theorem computed_price_survives_the_wire:
  assumes "compute s rate sp (Some m) g w d = (Inr b, w', d')" "pm_fixed_price_override m = None"
  shows "finite_price (JStr (price_text (pb_final_price b))) = Some (pb_final_price b)
    \<and> \<not> price_pending (Some (fl (pb_final_price b)))
          (map_option fl (finite_price (JStr (price_text (pb_final_price b)))))"
proof -
  obtain r where "markup_price s (Some m) g (sp_price_supplier sp) r = Inr b"
    using assms by (auto simp: compute_def override_of_def split: prod.splits sum.splits)
  from markup_price_in_cents[OF this] obtain n where "pb_final_price b = of_int n / 100" by blast
  then have "finite_price (JStr (price_text (pb_final_price b))) = Some (pb_final_price b)"
    using price_text_value[of "pb_final_price b"] by (simp add: half_even_of_int)
  moreover have "fl 0 = 0" "0 < fl (1 / 1000)" using fl_int[of 0] fl_pos[of "1 / 1000"] by simp_all
  ultimately show ?thesis by (simp add: price_pending_def)
qed

theorem computed_price_survives_the_wire_witness:
  "\<exists>b. compute default_settings (wret 1) lone_sku (Some own_mapping) None () empty_database = (Inr b, (), empty_database)
    \<and> finite_price (JStr (price_text (pb_final_price b))) = Some (pb_final_price b)"
proof -
  have m: "pm_fixed_price_override own_mapping = None" by (simp add: own_mapping_def new_mapping_def)
  have "case fst (compute default_settings (wret 1) lone_sku (Some own_mapping) None () empty_database) of
      Inl e \<Rightarrow> False | Inr b \<Rightarrow> True" by code_simp
  then obtain b where "markup_price default_settings (Some own_mapping) None (sp_price_supplier lone_sku) 1 = Inr b"
    using m by (auto simp: compute_def override_of_def wret_def split: sum.splits)
  then have c: "compute default_settings (wret 1) lone_sku (Some own_mapping) None () empty_database
      = (Inr b, (), empty_database)" using m by (simp add: compute_def override_of_def wret_def)
  from computed_price_survives_the_wire[OF c m] c show ?thesis by blast
qed

end
